(* ===== verification/Go_Time.thy ===== *)
theory Go_Time
  imports Prelude
begin

text \<open>
  The package \<^verbatim>\<open>time\<close> of Go as the modelled code uses it. A \<^verbatim>\<open>time.Time\<close> is the
  number of nanoseconds since 1970-01-01T00:00:00Z (the monotonic reading, which none of the
  code looks at, is left out), a \<^verbatim>\<open>time.Duration\<close> a number of nanoseconds. The calendar
  is the proleptic Gregorian one of the package: day number 0 is Monday, 0001-01-01.

  \<open>days_of_date\<close> and \<open>date_of_days\<close> are shown inverse to each other, which is what the
  searches over the calendar (cron, leaderboard periods, billing periods) rest on. A time
  zone is its lookup function, from Unix seconds to offset and interval of validity, as
  \<^verbatim>\<open>Location.lookup\<close> returns it; the zone database is data outside the repository.
\<close>

type_synonym gtime = int

section \<open>Units\<close>

definition usec :: int where "usec = 1000"
definition sec :: int where "sec = 1000000000"
definition minute :: int where "minute = 60 * sec"
definition hour :: int where "hour = 60 * minute"
definition day_ns :: int where "day_ns = 24 * hour"

lemmas unit_defs = usec_def sec_def minute_def hour_def day_ns_def

lemma minute_pos [simp]: "0 < minute" and hour_pos [simp]: "0 < hour"
  and day_ns_pos [simp]: "0 < day_ns" and sec_pos [simp]: "0 < sec"
  by (simp_all add: unit_defs)

section \<open>Years\<close>

definition leap :: "int \<Rightarrow> bool" where
  "leap y \<longleftrightarrow> y mod 4 = 0 \<and> (y mod 100 \<noteq> 0 \<or> y mod 400 = 0)"

text \<open>Days before 1 January of year \<open>y\<close>.\<close>

definition year_days :: "int \<Rightarrow> int" where
  "year_days y = 365 * (y - 1) + (y - 1) div 4 - (y - 1) div 100 + (y - 1) div 400"

lemma div_mod_step:
  fixes k q r c :: int
  assumes "k = c * q + r" and "0 \<le> r" and "r < c"
  shows "(k + 1) div c = q + (if (k + 1) mod c = 0 then 1 else 0)"
proof (cases "r + 1 = c")
  case True
  then have k: "k + 1 = c * (q + 1)" using assms by (simp add: algebra_simps)
  show ?thesis using assms unfolding k by simp
next
  case False
  then have k: "k + 1 = (r + 1) + c * q" and r: "0 < r + 1" "r + 1 < c" using assms by simp_all
  have "(k + 1) mod c = r + 1" "(k + 1) div c = q"
    unfolding k using r by (simp_all add: mod_pos_pos_trivial div_pos_pos_trivial)
  with r show ?thesis by simp
qed

lemma div_succ: "0 < (c::int) \<Longrightarrow> (k + 1) div c = k div c + (if (k + 1) mod c = 0 then 1 else 0)"
  by (rule div_mod_step [of k c "k div c" "k mod c"]) simp_all

lemma idiv_less_iff:
  fixes a b c :: int
  assumes "0 < b"
  shows "a div b < c \<longleftrightarrow> a < c * b"
proof
  have a: "a = b * (a div b) + a mod b" "0 \<le> a mod b" "a mod b < b"
    using assms by (simp_all only: mult_div_mod_eq pos_mod_bound pos_mod_sign)
  show "a < c * b" if "a div b < c"
  proof -
    have "b * (a div b + 1) \<le> b * c" using that assms by (intro mult_left_mono) auto
    then have "b * (a div b) + b \<le> c * b" by (simp only: distrib_left mult_1_right mult.commute [of c])
    then show ?thesis using a by linarith
  qed
  show "a div b < c" if "a < c * b"
  proof (rule ccontr)
    assume "\<not> a div b < c"
    then have "b * c \<le> b * (a div b)" using assms by (intro mult_left_mono) auto
    then have "c * b \<le> b * (a div b)" by (simp only: mult.commute [of c])
    then show False using that a by linarith
  qed
qed

lemma mod_400: "y mod 400 = 0 \<Longrightarrow> y mod 100 = (0::int)" and mod_100: "y mod 100 = 0 \<Longrightarrow> y mod 4 = (0::int)"
  by presburger+

lemma year_days_Suc: "year_days (y + 1) = year_days y + (if leap y then 366 else 365)"
proof -
  define a b c p q r where "a = (y - 1) div 4" and "b = (y - 1) div 100" and "c = (y - 1) div 400"
    and "p = (y mod 4 = 0)" and "q = (y mod 100 = 0)" and "r = (y mod 400 = 0)"
  note defs = this
  have "y div 4 = a + (if p then 1 else 0)" "y div 100 = b + (if q then 1 else 0)"
    "y div 400 = c + (if r then 1 else 0)"
    using div_succ [of 4 "y - 1"] div_succ [of 100 "y - 1"] div_succ [of 400 "y - 1"]
    unfolding defs by (simp_all only: diff_add_cancel zero_less_numeral simp_thms)
  then have "year_days (y + 1) = 365 * y + (a + (if p then 1 else 0))
      - (b + (if q then 1 else 0)) + (c + (if r then 1 else 0))"
    by (simp only: year_days_def add_diff_cancel_right')
  moreover have "year_days y = 365 * (y - 1) + a - b + c"
    by (simp only: year_days_def defs)
  moreover have "leap y \<longleftrightarrow> p \<and> (\<not> q \<or> r)"
    unfolding defs leap_def by (rule refl)
  moreover have "r \<longrightarrow> q" unfolding defs by (rule impI, rule mod_400)
  moreover have "q \<longrightarrow> p" unfolding defs by (rule impI, rule mod_100)
  ultimately show ?thesis by (cases p; cases q; cases r) (simp_all only: if_True if_False simp_thms, simp_all)
qed

lemma year_days_less: "y < z \<Longrightarrow> year_days y + 365 \<le> year_days z"
proof -
  have step: "year_days y + 365 \<le> year_days (y + 1 + int k)" for k
  proof (induction k)
    case 0
    then show ?case by (simp add: year_days_Suc)
  next
    case (Suc k)
    then show ?case
      using year_days_Suc [of "y + 1 + int k"] by (simp add: ac_simps split: if_splits)
  qed
  assume "y < z"
  then show ?thesis using step [of "nat (z - y - 1)"] by simp
qed

definition year_of_days :: "int \<Rightarrow> int" where
  "year_of_days n = (let y = 400 * n div 146097 + 1
     in if year_days (y + 1) \<le> n then y + 1 else y)"

lemma year_days_bounds_aux:
  fixes k a b c r s t :: int
  assumes "k = 4 * a + r" "k = 100 * b + s" "k = 400 * c + t"
    and "0 \<le> r" "r < 4" "0 \<le> s" "s < 100" "0 \<le> t" "t < 400"
  shows "146097 * k - 699 \<le> 400 * (365 * k + a - b + c) \<and>
    400 * (365 * k + a - b + c) \<le> 146097 * k + 396"
proof -
  have "400 * a = 100 * k - 100 * r" "400 * b = 4 * k - 4 * s" "400 * c = k - t"
    using assms(1-3) by simp_all
  then have "400 * (365 * k + a - b + c) = 146097 * k - 100 * r + 4 * s - t"
    by simp
  with assms(4-9) show ?thesis by simp
qed

lemma year_days_bounds:
  "146097 * (y - 1) - 699 \<le> 400 * year_days y \<and> 400 * year_days y \<le> 146097 * (y - 1) + 396"
  unfolding year_days_def
  by (rule year_days_bounds_aux [of _ _ "(y - 1) mod 4" _ "(y - 1) mod 100" _ "(y - 1) mod 400"])
    (simp_all only: mult_div_mod_eq pos_mod_bound pos_mod_sign zero_less_numeral)

lemma div_bounds_aux:
  fixes n k r :: int
  assumes "400 * n = 146097 * k + r" "0 \<le> r" "r < 146097"
  shows "146097 * k \<le> 400 * n \<and> 400 * n < 146097 * (k + 1)"
  using assms by simp

lemma year_of_days_bounds:
  "year_days (year_of_days n) \<le> n \<and> n < year_days (year_of_days n + 1)"
proof -
  define k where "k = 400 * n div 146097"
  have k: "146097 * k \<le> 400 * n \<and> 400 * n < 146097 * (k + 1)"
    unfolding k_def by (rule div_bounds_aux [of _ _ "400 * n mod 146097"])
      (simp_all only: mult_div_mod_eq pos_mod_bound pos_mod_sign zero_less_numeral)
  have lo: "year_days (k + 1) \<le> n"
    using year_days_bounds [of "k + 1"] k by simp
  have "n < year_days (k + 2) + 2"
    using year_days_bounds [of "k + 2"] k by simp
  then have hi: "n < year_days (k + 3)"
    using year_days_less [of "k + 2" "k + 3"] by simp
  have y: "year_of_days n = (if year_days (k + 1 + 1) \<le> n then k + 1 + 1 else k + 1)"
    by (simp only: year_of_days_def Let_def k_def)
  show ?thesis
    using lo hi unfolding y by (auto simp: add.assoc)
qed

lemma year_of_days_unique:
  assumes "year_days y \<le> n" and "n < year_days (y + 1)"
  shows "year_of_days n = y"
proof -
  let ?z = "year_of_days n"
  have z: "year_days ?z \<le> n" "n < year_days (?z + 1)"
    using year_of_days_bounds by auto
  have "\<not> ?z < y"
    using year_days_less [of "?z + 1" y] z assms by (cases "?z + 1 = y") auto
  moreover have "\<not> y < ?z"
    using year_days_less [of "y + 1" ?z] z assms by (cases "y + 1 = ?z") auto
  ultimately show ?thesis by simp
qed

section \<open>Months and days\<close>

text \<open>Days before the first of month \<open>m\<close> (1 to 13) in a common or a leap year.\<close>

definition month_days :: "bool \<Rightarrow> int \<Rightarrow> int" where
  "month_days lp m =
     (if m \<le> 1 then 0 else if m = 2 then 31
      else (if lp then 1 else 0) +
        (if m = 3 then 59 else if m = 4 then 90 else if m = 5 then 120 else if m = 6 then 151
         else if m = 7 then 181 else if m = 8 then 212 else if m = 9 then 243
         else if m = 10 then 273 else if m = 11 then 304 else if m = 12 then 334 else 365))"

definition days_in_month :: "int \<Rightarrow> int \<Rightarrow> int" where
  "days_in_month y m = month_days (leap y) (m + 1) - month_days (leap y) m"

definition month_of :: "bool \<Rightarrow> int \<Rightarrow> int" where
  "month_of lp k =
     (if k < month_days lp 2 then 1 else if k < month_days lp 3 then 2
      else if k < month_days lp 4 then 3 else if k < month_days lp 5 then 4
      else if k < month_days lp 6 then 5 else if k < month_days lp 7 then 6
      else if k < month_days lp 8 then 7 else if k < month_days lp 9 then 8
      else if k < month_days lp 10 then 9 else if k < month_days lp 11 then 10
      else if k < month_days lp 12 then 11 else 12)"

lemma month_cases:
  assumes "1 \<le> (m::int)" "m \<le> 12"
  shows "m \<in> {1, 2, 3, 4, 5, 6, 7, 8, 9, 10, 11, 12}"
  using assms by simp presburger

lemma month_of_bounds:
  assumes "0 \<le> k" and "k < (if lp then 366 else 365)"
  shows "1 \<le> month_of lp k \<and> month_of lp k \<le> 12 \<and>
    month_days lp (month_of lp k) \<le> k \<and> k < month_days lp (month_of lp k + 1)"
  using assms by (auto simp: month_of_def month_days_def)

lemma month_of_unique:
  assumes "1 \<le> m" and "m \<le> 12" and "month_days lp m \<le> k" and "k < month_days lp (m + 1)"
  shows "month_of lp k = m"
  using month_cases [OF assms(1,2)] assms(3,4)
  by (elim insertE) (auto simp: month_of_def month_days_def split: if_splits)

lemma month_days_mono: "1 \<le> m \<Longrightarrow> m \<le> 12 \<Longrightarrow> 0 \<le> month_days lp m \<and>
    month_days lp m + 28 \<le> month_days lp (m + 1) \<and> month_days lp (m + 1) \<le> (if lp then 366 else 365)"
  using month_cases [of m] by (auto simp: month_days_def)

text \<open>
  The day number of a normalised month; the day may lie outside the month, as Go's
  \<^verbatim>\<open>time.Date\<close> allows (31 November is 1 December).
\<close>

definition day_number :: "int \<Rightarrow> int \<Rightarrow> int \<Rightarrow> int" where
  "day_number y m d = year_days y + month_days (leap y) m + (d - 1)"

text \<open>\<^verbatim>\<open>time.Date\<close> normalises a month outside 1 to 12 by carrying into the year.\<close>

definition days_of_date :: "int \<Rightarrow> int \<Rightarrow> int \<Rightarrow> int" where
  "days_of_date y m d = day_number (y + (m - 1) div 12) ((m - 1) mod 12 + 1) d"

definition date_of_days :: "int \<Rightarrow> int \<times> int \<times> int" where
  "date_of_days n = (let y = year_of_days n; k = n - year_days y; m = month_of (leap y) k
     in (y, m, k - month_days (leap y) m + 1))"

definition valid_date :: "int \<Rightarrow> int \<Rightarrow> int \<Rightarrow> bool" where
  "valid_date y m d \<longleftrightarrow> 1 \<le> m \<and> m \<le> 12 \<and> 1 \<le> d \<and> d \<le> days_in_month y m"

lemma date_of_days_number:
  assumes "date_of_days n = (y, m, d)"
  shows "day_number y m d = n \<and> valid_date y m d"
proof -
  have y: "y = year_of_days n" and m: "m = month_of (leap y) (n - year_days y)"
    and d: "d = n - year_days y - month_days (leap y) m + 1"
    using assms by (auto simp: date_of_days_def Let_def)
  have "0 \<le> n - year_days y" "n - year_days y < (if leap y then 366 else 365)"
    using year_of_days_bounds [of n] year_days_Suc [of y] y by auto
  then have "1 \<le> m \<and> m \<le> 12 \<and> month_days (leap y) m \<le> n - year_days y \<and>
      n - year_days y < month_days (leap y) (m + 1)"
    unfolding m by (rule month_of_bounds)
  then show ?thesis
    by (simp add: day_number_def valid_date_def days_in_month_def d)
qed

lemma date_of_day_number:
  assumes "valid_date y m d"
  shows "date_of_days (day_number y m d) = (y, m, d)"
proof -
  let ?n = "day_number y m d"
  have v: "1 \<le> m" "m \<le> 12" "1 \<le> d" "d \<le> month_days (leap y) (m + 1) - month_days (leap y) m"
    using assms by (auto simp: valid_date_def days_in_month_def)
  have k: "month_days (leap y) m \<le> ?n - year_days y" "?n - year_days y < month_days (leap y) (m + 1)"
    using v by (auto simp: day_number_def)
  have "year_of_days ?n = y"
    by (rule year_of_days_unique)
      (use k v month_days_mono [of m "leap y"] year_days_Suc [of y] in \<open>auto split: if_splits\<close>)
  moreover have "month_of (leap y) (?n - year_days y) = m"
    using v k by (intro month_of_unique) auto
  ultimately show ?thesis
    by (simp add: date_of_days_def Let_def) (simp add: day_number_def)
qed

lemma date_of_days_inject: "date_of_days a = date_of_days b \<longleftrightarrow> a = b"
  by (metis date_of_days_number prod_cases3)

lemma days_of_date_norm: "1 \<le> m \<Longrightarrow> m \<le> 12 \<Longrightarrow> days_of_date y m d = day_number y m d"
  by (simp add: days_of_date_def)

text \<open>The first of the next month comes right after the last of this one.\<close>

lemma days_of_next_month:
  assumes "1 \<le> m" and "m \<le> 12"
  shows "days_of_date y (m + 1) 1 = day_number y m 1 + days_in_month y m"
proof (cases "m = 12")
  case True
  have "days_of_date y 13 1 = year_days (y + 1)"
    by (simp add: days_of_date_def day_number_def month_days_def)
  with True show ?thesis
    by (simp add: day_number_def days_in_month_def year_days_Suc month_days_def)
next
  case False
  with assms show ?thesis
    by (simp add: days_of_date_norm day_number_def days_in_month_def)
qed

section \<open>Instants\<close>

text \<open>1970-01-01 is day number 719162.\<close>

definition day_of :: "gtime \<Rightarrow> int" where
  "day_of t = t div day_ns + 719162"

definition date_of :: "gtime \<Rightarrow> int \<times> int \<times> int" where
  "date_of t = date_of_days (day_of t)"

definition month_at :: "gtime \<Rightarrow> int" where "month_at t = fst (snd (date_of t))"
definition year_at :: "gtime \<Rightarrow> int" where "year_at t = fst (date_of t)"
definition mday_at :: "gtime \<Rightarrow> int" where "mday_at t = snd (snd (date_of t))"

text \<open>Sunday is 0, as in Go; day number 0 is a Monday.\<close>

definition weekday_at :: "gtime \<Rightarrow> int" where
  "weekday_at t = (day_of t + 1) mod 7"

definition tod :: "gtime \<Rightarrow> int" where "tod t = t mod day_ns"
definition hour_at :: "gtime \<Rightarrow> int" where "hour_at t = tod t div hour"
definition minute_at :: "gtime \<Rightarrow> int" where "minute_at t = tod t mod hour div minute"

text \<open>\<^verbatim>\<open>time.Date\<close> in UTC, with the time of day as one number of nanoseconds.\<close>

definition go_date :: "int \<Rightarrow> int \<Rightarrow> int \<Rightarrow> int \<Rightarrow> gtime" where
  "go_date y m d ns = (days_of_date y m d - 719162) * day_ns + ns"

text \<open>\<^verbatim>\<open>Time.AddDate\<close> in UTC.\<close>

definition add_date :: "gtime \<Rightarrow> int \<Rightarrow> int \<Rightarrow> int \<Rightarrow> gtime" where
  "add_date t dy dm dd = (case date_of t of (y, m, d) \<Rightarrow> go_date (y + dy) (m + dm) (d + dd) (tod t))"

text \<open>\<^verbatim>\<open>Time.Truncate\<close> for units that divide the day.\<close>

definition truncate_to :: "gtime \<Rightarrow> int \<Rightarrow> gtime" where
  "truncate_to t d = t - t mod d"

text \<open>The zero \<^verbatim>\<open>time.Time\<close>, 0001-01-01T00:00:00Z.\<close>

definition zero_time :: gtime where
  "zero_time = - (719162 * day_ns)"

lemma day_split:
  assumes "0 \<le> r" and "r < day_ns"
  shows "day_of ((n - 719162) * day_ns + r) = n" and "tod ((n - 719162) * day_ns + r) = r"
  using assms by (simp_all add: day_of_def tod_def div_pos_pos_trivial)

lemma day_of_go_date: "0 \<le> ns \<Longrightarrow> ns < day_ns \<Longrightarrow> day_of (go_date y m d ns) = days_of_date y m d"
  by (simp add: day_of_def go_date_def div_pos_pos_trivial)

lemma tod_go_date: "0 \<le> ns \<Longrightarrow> ns < day_ns \<Longrightarrow> tod (go_date y m d ns) = ns"
  by (simp add: tod_def go_date_def)

lemma tod_bounds: "0 \<le> tod t \<and> tod t < day_ns"
  by (simp add: tod_def)

lemma time_split: "t = (day_of t - 719162) * day_ns + tod t"
  by (simp add: day_of_def tod_def)

lemma day_of_mono: "s \<le> t \<Longrightarrow> day_of s \<le> day_of t"
  by (simp add: day_of_def zdiv_mono1)

lemma truncate_le: "0 < d \<Longrightarrow> truncate_to t d \<le> t \<and> t < truncate_to t d + d"
  by (simp add: truncate_to_def pos_mod_bound)

lemma truncate_dvd: "d dvd truncate_to t d"
  by (simp add: truncate_to_def)

lemma date_of_bounds:
  "date_of t = (y, m, d) \<Longrightarrow> valid_date y m d \<and> day_of t = day_number y m d"
  using date_of_days_number by (auto simp: date_of_def)

section \<open>Printing\<close>

text \<open>A number with at least \<open>w\<close> digits; \<^verbatim>\<open>Time.Format\<close> puts the sign before the padding.\<close>

definition zpad :: "nat \<Rightarrow> nat \<Rightarrow> string" where
  "zpad w n = (let s = itoa n in replicate (w - length s) CHR ''0'' @ s)"

definition year_str :: "int \<Rightarrow> string" where
  "year_str y = (if y < 0 then ''-'' @ zpad 4 (nat (- y)) else zpad 4 (nat y))"

text \<open>\<^verbatim>\<open>fmt.Sprintf("%04d")\<close>: the sign counts towards the width.\<close>

definition fmt_d04 :: "int \<Rightarrow> string" where
  "fmt_d04 y = (if y < 0 then ''-'' @ zpad 3 (nat (- y)) else zpad 4 (nat y))"

text \<open>
  \<^verbatim>\<open>Format(time.RFC3339Nano)\<close> of a time in UTC: the fraction of the second without
  its trailing zeros, and no fraction at all when it is zero.
\<close>

definition rfc3339_nano :: "gtime \<Rightarrow> string" where
  "rfc3339_nano t = (case date_of t of (y, m, d) \<Rightarrow>
     let s = tod t div sec; ns = nat (tod t mod sec);
         frac = rev (dropWhile (\<lambda>c. c = CHR ''0'') (rev (zpad 9 ns)))
     in year_str y @ ''-'' @ zpad 2 (nat m) @ ''-'' @ zpad 2 (nat d) @ ''T''
        @ zpad 2 (nat (s div 3600)) @ '':'' @ zpad 2 (nat (s mod 3600 div 60)) @ '':''
        @ zpad 2 (nat (s mod 60)) @ (if frac = [] then [] else ''.'' @ frac) @ ''Z'')"

section \<open>ISO weeks\<close>

text \<open>\<^verbatim>\<open>Time.ISOWeek\<close>: the week belongs to the year of its Thursday.\<close>

definition iso_week :: "int \<Rightarrow> int \<times> int" where
  "iso_week n = (let thu = n - n mod 7 + 3; y = year_of_days thu
     in (y, (thu - year_days y) div 7 + 1))"

lemma iso_week_bounds: "iso_week n = (y, w) \<Longrightarrow> 1 \<le> w \<and> w \<le> 53"
proof -
  assume "iso_week n = (y, w)"
  then have y: "y = year_of_days (n - n mod 7 + 3)"
    and w: "w = (n - n mod 7 + 3 - year_days y) div 7 + 1"
    by (auto simp: iso_week_def Let_def)
  have "0 \<le> n - n mod 7 + 3 - year_days y" "n - n mod 7 + 3 - year_days y < 366"
    using year_of_days_bounds [of "n - n mod 7 + 3"] year_days_Suc [of y] y
    by (auto split: if_splits)
  then show ?thesis unfolding w by presburger
qed

section \<open>Zones\<close>

text \<open>
  \<open>zlookup z u\<close> is the offset in force at Unix second \<open>u\<close> and the interval
  \<open>[start, end)\<close> of Unix seconds where it holds.
\<close>

record zone =
  zlookup :: "int \<Rightarrow> int \<times> int \<times> int"

definition utc_zone :: zone where
  "utc_zone = \<lparr>zlookup = (\<lambda>u. (0, u, u + 1))\<rparr>"

definition zoffset :: "zone \<Rightarrow> gtime \<Rightarrow> int" where
  "zoffset z t = fst (zlookup z (t div sec))"

text \<open>The wall clock of \<^verbatim>\<open>t.In(z)\<close>, as the instant with the same reading in UTC.\<close>

definition wall :: "zone \<Rightarrow> gtime \<Rightarrow> gtime" where
  "wall z t = t + zoffset z t * sec"

text \<open>\<^verbatim>\<open>time.Date\<close> with a location: the reading is looked up as if it were UTC, then corrected.\<close>

definition from_wall :: "zone \<Rightarrow> gtime \<Rightarrow> gtime" where
  "from_wall z w = (let u = w div sec in
     case zlookup z u of (off, st, en) \<Rightarrow>
       if off = 0 then w
       else (let utc = u - off;
                 off' = (if utc < st \<or> en \<le> utc then fst (zlookup z utc) else off)
             in w - off' * sec))"

definition go_date_in :: "zone \<Rightarrow> int \<Rightarrow> int \<Rightarrow> int \<Rightarrow> int \<Rightarrow> gtime" where
  "go_date_in z y m d ns = from_wall z (go_date y m d ns)"

lemma wall_utc [simp]: "wall utc_zone t = t"
  by (simp add: wall_def zoffset_def utc_zone_def)

lemma from_wall_utc [simp]: "from_wall utc_zone t = t"
  by (simp add: from_wall_def utc_zone_def)

end
