(* ===== verification/Asset_Types.thy ===== *)
theory Asset_Types
  imports Prelude Go_Time
begin

text \<open>
  The data of the asset system and its validation rules:
  \<^verbatim>\<open>internal/domain/assets/class.go\<close>, \<^verbatim>\<open>def.go\<close>, \<^verbatim>\<open>holding.go\<close>,
  \<^verbatim>\<open>command.go\<close>, \<^verbatim>\<open>errors.go\<close> and \<^verbatim>\<open>validate.go\<close>. The string types with a fixed
  vocabulary are datatypes with one more constructor for the strings outside it; the texts
  of the errors are not modelled, only their kind. An \<^verbatim>\<open>int64\<close> is an \<open>int\<close> with
  \<open>i64\<close> written at every operation that can wrap. Metadata and operator snapshots are
  uninterpreted JSON texts.
\<close>

section \<open>Vocabularies\<close>

datatype asset_class = ClassCurrency | ClassStack | ClassInstance | ClassEntitlement
  | ClassOther string

definition class_is_valid :: "asset_class \<Rightarrow> bool" where
  "class_is_valid c = (case c of ClassCurrency \<Rightarrow> True | ClassStack \<Rightarrow> True
     | ClassInstance \<Rightarrow> True | ClassEntitlement \<Rightarrow> True | ClassOther _ \<Rightarrow> False)"

text \<open>The empty owner type is \<open>OwnerTypeOther ''''\<close>.\<close>

datatype owner_type = OwnerTypeUser | OwnerTypeGroup | OwnerTypeProject | OwnerTypeOther string

definition owner_type_is_valid :: "owner_type \<Rightarrow> bool" where
  "owner_type_is_valid t = (case t of OwnerTypeOther _ \<Rightarrow> False | _ \<Rightarrow> True)"

datatype def_status = DefStatusActive | DefStatusArchived | DefStatusOther string

definition def_status_is_valid :: "def_status \<Rightarrow> bool" where
  "def_status_is_valid s = (case s of DefStatusOther _ \<Rightarrow> False | _ \<Rightarrow> True)"

datatype entry_kind = KindGrant | KindConsume | KindTransferOut | KindTransferIn
  | KindMutate | KindExpire | KindAdjust | KindOther string

definition entry_kind_is_valid :: "entry_kind \<Rightarrow> bool" where
  "entry_kind_is_valid k = (case k of KindOther _ \<Rightarrow> False | _ \<Rightarrow> True)"

definition event_name_for_kind :: "entry_kind \<Rightarrow> string" where
  "event_name_for_kind k = (case k of
       KindGrant \<Rightarrow> ''economy.assets.granted''
     | KindConsume \<Rightarrow> ''economy.assets.consumed''
     | KindTransferOut \<Rightarrow> ''economy.assets.transferred''
     | KindTransferIn \<Rightarrow> ''economy.assets.transferred''
     | KindMutate \<Rightarrow> ''economy.assets.mutated''
     | KindExpire \<Rightarrow> ''economy.assets.expired''
     | _ \<Rightarrow> ''economy.assets.granted'')"

definition accounts_channel :: "string \<Rightarrow> string" where
  "accounts_channel uid = ''accounts.'' @ uid"

datatype asset_err = ErrMatrix | ErrInvalidQuantity | ErrInsufficient | ErrMaxQuantity
  | ErrNotTradable | ErrUniquePerOwner | ErrExpiresAtRequired | ErrInvalidOwnerType
  | ErrDefArchived | ErrDefNotFound | ErrHoldingNotFound | ErrConcurrent
  | ErrIdempotencyRequired | ErrInvalidCode | ErrDuplicateCode | ErrOwnerRequired
  | ErrTransferOwnersRequired | ErrHoldingIDRequired | ErrSameOwner | ErrProjectRequired
  | ErrIdempotencyTooLong
  | ErrDB \<comment> \<open>any other error of the database driver, constraint violations included\<close>

section \<open>Definitions, holdings, ledger entries\<close>

record asset_def =
  d_ID :: string
  d_ProjectID :: string
  d_Code :: string
  d_Name :: string
  d_Class :: asset_class
  d_Decimals :: int
  d_MaxQuantity :: "int option"
  d_ExpiresIn :: "int option"
  d_Tradable :: bool
  d_UniquePerOwner :: bool
  d_Upgradeable :: bool
  d_Metadata :: "string option"
  d_Status :: def_status
  d_CreatedAt :: gtime
  d_UpdatedAt :: gtime

record holding =
  h_ID :: string
  h_ProjectID :: string
  h_OwnerType :: owner_type
  h_OwnerID :: string
  h_DefID :: string
  h_Quantity :: int
  h_ExpiresAt :: "gtime option"
  h_Level :: int
  h_Metadata :: "string option"
  h_BucketKey :: string
  h_Version :: int
  h_CreatedAt :: gtime
  h_UpdatedAt :: gtime

record ledger_entry =
  e_ID :: string
  e_ProjectID :: string
  e_HoldingID :: string
  e_OwnerType :: owner_type
  e_OwnerID :: string
  e_DefID :: string
  e_Kind :: entry_kind
  e_Delta :: int
  e_QuantityAfter :: int
  e_ExpiresAt :: "gtime option"
  e_BucketKey :: string
  e_RefType :: string
  e_RefID :: string
  e_IdempotencyKey :: string
  e_TxID :: string
  e_Operator :: "string option"
  e_CreatedAt :: gtime

text \<open>Methods on a \<^verbatim>\<open>*Def\<close> or \<^verbatim>\<open>*Holding\<close> that accept nil take an option.\<close>

fun natural_unique_per_owner :: "asset_def option \<Rightarrow> bool" where
  "natural_unique_per_owner None = False"
| "natural_unique_per_owner (Some d) =
     (if d_Class d = ClassCurrency \<or> d_Class d = ClassEntitlement then True
      else d_UniquePerOwner d)"

fun allows_expiry :: "asset_def option \<Rightarrow> bool" where
  "allows_expiry None = False"
| "allows_expiry (Some d) = (d_Class d \<noteq> ClassCurrency)"

fun requires_expiry :: "asset_def option \<Rightarrow> bool" where
  "requires_expiry None = False"
| "requires_expiry (Some d) = (d_Class d = ClassEntitlement)"

fun instance_bucket :: "asset_def option \<Rightarrow> bool" where
  "instance_bucket None = False"
| "instance_bucket (Some d) = (d_Class d = ClassInstance)"

fun holding_expired :: "holding option \<Rightarrow> gtime \<Rightarrow> bool" where
  "holding_expired None now = False"
| "holding_expired (Some h) now =
     (case h_ExpiresAt h of None \<Rightarrow> False | Some t \<Rightarrow> \<not> (now < t))"

section \<open>Validation\<close>

definition normalize_owner_type :: "owner_type \<Rightarrow> asset_err + owner_type" where
  "normalize_owner_type t =
     (if t = OwnerTypeOther '''' then Inr OwnerTypeUser
      else if \<not> owner_type_is_valid t then Inl ErrInvalidOwnerType
      else if t \<noteq> OwnerTypeUser then Inl ErrInvalidOwnerType
      else Inr OwnerTypeUser)"

definition validate_def_matrix :: "asset_def option \<Rightarrow> asset_err + unit" where
  "validate_def_matrix dopt = (case dopt of None \<Rightarrow> Inl ErrMatrix | Some d \<Rightarrow>
     if \<not> class_is_valid (d_Class d) then Inl ErrMatrix
     else if d_Decimals d < 0 \<or> 18 < d_Decimals d then Inl ErrMatrix
     else if (case d_MaxQuantity d of None \<Rightarrow> False | Some q \<Rightarrow> q \<le> 0) then Inl ErrMatrix
     else if (case d_ExpiresIn d of None \<Rightarrow> False | Some s \<Rightarrow> s \<le> 0) then Inl ErrMatrix
     else (case d_Class d of
         ClassCurrency \<Rightarrow>
           if d_ExpiresIn d \<noteq> None then Inl ErrMatrix
           else if d_Upgradeable d then Inl ErrMatrix
           else Inr ()
       | ClassStack \<Rightarrow>
           if d_Upgradeable d then Inl ErrMatrix
           else if d_Decimals d \<noteq> 0 then Inl ErrMatrix
           else Inr ()
       | ClassInstance \<Rightarrow> if d_Decimals d \<noteq> 0 then Inl ErrMatrix else Inr ()
       | ClassEntitlement \<Rightarrow>
           if d_Tradable d then Inl ErrMatrix
           else if d_Decimals d \<noteq> 0 then Inl ErrMatrix
           else Inr ()
       | ClassOther _ \<Rightarrow> Inr ()))"

definition validate_grant :: "asset_class \<Rightarrow> int \<Rightarrow> bool \<Rightarrow> asset_err + unit" where
  "validate_grant c quantity expires_at_set =
     (if quantity \<le> 0 then Inl ErrInvalidQuantity
      else (case c of
         ClassCurrency \<Rightarrow> if expires_at_set then Inl ErrMatrix else Inr ()
       | ClassInstance \<Rightarrow> if quantity \<noteq> 1 then Inl ErrMatrix else Inr ()
       | ClassEntitlement \<Rightarrow>
           if quantity \<noteq> 1 then Inl ErrMatrix
           else if \<not> expires_at_set then Inl ErrExpiresAtRequired
           else Inr ()
       | ClassStack \<Rightarrow> Inr ()
       | ClassOther _ \<Rightarrow> Inl ErrMatrix))"

definition validate_consume_quantity :: "asset_class \<Rightarrow> int \<Rightarrow> asset_err + unit" where
  "validate_consume_quantity c quantity =
     (if quantity \<le> 0 then Inl ErrInvalidQuantity
      else if c = ClassInstance \<and> quantity < 1 then Inl ErrMatrix
      else Inr ())"

definition validate_mutate_class :: "asset_class \<Rightarrow> asset_err + unit" where
  "validate_mutate_class c = (case c of ClassInstance \<Rightarrow> Inr () | ClassEntitlement \<Rightarrow> Inr ()
     | _ \<Rightarrow> Inl ErrMatrix)"

definition normalize_code :: "string \<Rightarrow> string" where
  "normalize_code code = to_lower (trim_space code)"

definition max_idempotency_key :: nat where "max_idempotency_key = 128"

text \<open>The regular expression \<^verbatim>\<open>^[a-z][a-z0-9_]{0,63}$\<close>.\<close>

definition code_byte :: "char \<Rightarrow> bool" where
  "code_byte c \<longleftrightarrow> is_lower c \<or> is_digit c \<or> c = CHR ''_''"

fun code_pattern :: "string \<Rightarrow> bool" where
  "code_pattern [] = False"
| "code_pattern (c # cs) = (is_lower c \<and> length cs \<le> 63 \<and> list_all code_byte cs)"

definition validate_code :: "string \<Rightarrow> asset_err + string" where
  "validate_code code = (let c = normalize_code code
     in if \<not> code_pattern c then Inl ErrInvalidCode else Inr c)"

definition validate_idempotency_key :: "string \<Rightarrow> asset_err + string" where
  "validate_idempotency_key key = (let k = trim_space key in
     if k = '''' then Inl ErrIdempotencyRequired
     else if max_idempotency_key < length k then Inl ErrIdempotencyTooLong
     else Inr k)"

section \<open>Commands\<close>

record scope =
  sc_ProjectID :: string
  sc_Operator :: "string option"

record op_result =
  r_Entries :: "ledger_entry list"
  r_IdempotentReplay :: bool

record grant_command =
  gc_OwnerType :: owner_type
  gc_OwnerID :: string
  gc_DefCode :: string
  gc_Quantity :: int
  gc_ExpiresAt :: "gtime option"
  gc_Level :: int
  gc_Metadata :: "string option"
  gc_IdempotencyKey :: string
  gc_RefType :: string
  gc_RefID :: string

record consume_command =
  cc_OwnerType :: owner_type
  cc_OwnerID :: string
  cc_DefCode :: string
  cc_Quantity :: int
  cc_IdempotencyKey :: string
  cc_RefType :: string
  cc_RefID :: string

record transfer_command =
  tc_FromOwnerID :: string
  tc_ToOwnerID :: string
  tc_DefCode :: string
  tc_Quantity :: int
  tc_IdempotencyKey :: string
  tc_RefType :: string
  tc_RefID :: string

record mutate_command =
  mc_HoldingID :: string
  mc_Level :: "int option"
  mc_ExpiresAt :: "gtime option"
  mc_Metadata :: "string option"
  mc_IdempotencyKey :: string
  mc_RefType :: string
  mc_RefID :: string

record expire_command =
  xc_HoldingID :: string
  xc_IdempotencyKey :: string

section \<open>Facts about the rules\<close>

lemma lower_byte_code_byte: "code_byte c \<Longrightarrow> lower_byte c = c"
  by (auto simp: code_byte_def is_lower_def is_digit_def lower_byte_def)

lemma code_byte_ascii: "code_byte c \<Longrightarrow> (of_char c :: nat) < 128 \<and> 48 \<le> (of_char c :: nat)"
  by (auto simp: code_byte_def is_lower_def is_digit_def)

end
