(* ===== verification/Tx_Monad.thy ===== *)
theory Tx_Monad
  imports Prelude
begin

text \<open>
  Code that runs inside a database transaction: a step takes the state and returns an
  error or a value together with the new state, as a Go method that returns
  \<^verbatim>\<open>(T, error)\<close> after having changed the state does. \<open>tx_bind\<close> is the early return on
  \<^verbatim>\<open>err != nil\<close>. What a failed transaction leaves behind is decided by the runner, not
  here. The lemmas invert a successful run into the successful runs of its parts; they are
  in the collection \<open>tx_simps\<close>.
\<close>

type_synonym ('s, 'e, 'a) tx = "'s \<Rightarrow> ('e + 'a) \<times> 's"

definition tx_ret :: "'a \<Rightarrow> ('s, 'e, 'a) tx" where
  "tx_ret a = (\<lambda>s. (Inr a, s))"

definition tx_fail :: "'e \<Rightarrow> ('s, 'e, 'a) tx" where
  "tx_fail e = (\<lambda>s. (Inl e, s))"

definition tx_bind :: "('s, 'e, 'a) tx \<Rightarrow> ('a \<Rightarrow> ('s, 'e, 'b) tx) \<Rightarrow> ('s, 'e, 'b) tx" where
  "tx_bind m f = (\<lambda>s. case m s of (Inl e, s') \<Rightarrow> (Inl e, s') | (Inr a, s') \<Rightarrow> f a s')"

text \<open>A pure computation that may fail, and an update that cannot.\<close>

definition tx_lift :: "'e + 'a \<Rightarrow> ('s, 'e, 'a) tx" where
  "tx_lift r = (\<lambda>s. (r, s))"

definition tx_when :: "bool \<Rightarrow> 'e \<Rightarrow> ('s, 'e, 'a) tx \<Rightarrow> ('s, 'e, 'a) tx" where
  "tx_when b e m = (if b then tx_fail e else m)"

lemma tx_ret_Inr [tx_simps]: "tx_ret a s = (Inr b, s') \<longleftrightarrow> b = a \<and> s' = s"
  by (auto simp: tx_ret_def)

lemma tx_fail_Inr [tx_simps]: "tx_fail e s = (Inr b, s') \<longleftrightarrow> False"
  by (simp add: tx_fail_def)

lemma tx_lift_Inr [tx_simps]: "tx_lift r s = (Inr b, s') \<longleftrightarrow> r = Inr b \<and> s' = s"
  by (auto simp: tx_lift_def)

lemma tx_when_Inr [tx_simps]: "tx_when b e m s = (Inr a, s') \<longleftrightarrow> \<not> b \<and> m s = (Inr a, s')"
  by (simp add: tx_when_def tx_fail_def)

lemma tx_bind_Inr [tx_simps]:
  "tx_bind m f s = (Inr b, s'') \<longleftrightarrow> (\<exists>a s'. m s = (Inr a, s') \<and> f a s' = (Inr b, s''))"
  by (auto simp: tx_bind_def split: prod.splits sum.splits)

lemma tx_bind_ret [simp]: "tx_bind (tx_ret a) f = f a"
  by (simp add: tx_bind_def tx_ret_def)

lemma tx_bind_ret_right [simp]: "tx_bind m tx_ret = m"
  by (auto simp: tx_bind_def tx_ret_def fun_eq_iff split: prod.splits sum.splits)

lemma tx_bind_assoc: "tx_bind (tx_bind m f) g = tx_bind m (\<lambda>a. tx_bind (f a) g)"
  by (auto simp: tx_bind_def fun_eq_iff split: prod.splits sum.splits)

lemma tx_bind_fail [simp]: "tx_bind (tx_fail e) f = tx_fail e"
  by (simp add: tx_bind_def tx_fail_def)

text \<open>Elimination forms, for runs of many steps.\<close>

lemma tx_bind_InrE:
  assumes "tx_bind m f s = (Inr b, s'')"
  obtains a s' where "m s = (Inr a, s')" and "f a s' = (Inr b, s'')"
  using assms by (auto simp: tx_bind_Inr)

lemma tx_lift_InrE:
  assumes "tx_lift r s = (Inr b, s')"
  obtains "r = Inr b" and "s' = s"
  using assms by (auto simp: tx_lift_Inr)

lemma tx_when_InrE:
  assumes "tx_when b e m s = (Inr a, s')"
  obtains "\<not> b" and "m s = (Inr a, s')"
  using assms by (auto simp: tx_when_Inr)

lemma tx_ret_InrE:
  assumes "tx_ret a s = (Inr b, s')"
  obtains "b = a" and "s' = s"
  using assms by (auto simp: tx_ret_Inr)

lemma tx_fail_InrE:
  assumes "tx_fail e s = (Inr b, s')"
  obtains "False"
  using assms by (auto simp: tx_fail_Inr)

lemma tx_option_InrE:
  assumes "(case x of None \<Rightarrow> m | Some y \<Rightarrow> f y) s = (Inr b, s')"
  obtains "x = None" and "m s = (Inr b, s')" | y where "x = Some y" and "f y s = (Inr b, s')"
  using assms by (cases x) auto

lemma tx_prod_InrE:
  assumes "(case x of (y, z) \<Rightarrow> f y z) s = (Inr b, s')"
  obtains y z where "x = (y, z)" and "f y z s = (Inr b, s')"
  using assms by (cases x) auto

lemma tx_if_InrE:
  assumes "(if c then m else n) s = (Inr b, s')"
  obtains "c" and "m s = (Inr b, s')" | "\<not> c" and "n s = (Inr b, s')"
  using assms by (cases c) auto

lemmas tx_elims = tx_bind_InrE tx_lift_InrE tx_when_InrE tx_ret_InrE tx_option_InrE tx_prod_InrE

text \<open>
  What a step guarantees when it succeeds. Failed runs say nothing: the enclosing
  transaction is rolled back.
\<close>

definition tx_valid :: "('s \<Rightarrow> bool) \<Rightarrow> ('s, 'e, 'a) tx \<Rightarrow> ('a \<Rightarrow> 's \<Rightarrow> bool) \<Rightarrow> bool" where
  "tx_valid P m Q \<longleftrightarrow> (\<forall>s a s'. P s \<longrightarrow> m s = (Inr a, s') \<longrightarrow> Q a s')"

lemma tx_validI: "(\<And>s a s'. P s \<Longrightarrow> m s = (Inr a, s') \<Longrightarrow> Q a s') \<Longrightarrow> tx_valid P m Q"
  by (simp add: tx_valid_def)

lemma tx_validD: "tx_valid P m Q \<Longrightarrow> m s = (Inr a, s') \<Longrightarrow> P s \<Longrightarrow> Q a s'"
  by (simp add: tx_valid_def)

lemma tx_valid_ret [intro]: "(\<And>s. P s \<Longrightarrow> Q a s) \<Longrightarrow> tx_valid P (tx_ret a) Q"
  by (simp add: tx_valid_def tx_simps)

lemma tx_valid_fail [simp, intro]: "tx_valid P (tx_fail e) Q"
  by (simp add: tx_valid_def tx_simps)

lemma tx_valid_bind:
  "tx_valid P m R \<Longrightarrow> (\<And>a. tx_valid (R a) (f a) Q) \<Longrightarrow> tx_valid P (tx_bind m f) Q"
  by (auto simp: tx_valid_def tx_simps)

lemma tx_valid_lift: "(\<And>a s. P s \<Longrightarrow> r = Inr a \<Longrightarrow> Q a s) \<Longrightarrow> tx_valid P (tx_lift r) Q"
  by (simp add: tx_valid_def tx_simps)

lemma tx_valid_when: "(\<not> b \<Longrightarrow> tx_valid P m Q) \<Longrightarrow> tx_valid P (tx_when b e m) Q"
  by (auto simp: tx_valid_def tx_simps)

lemma tx_valid_if:
  "(b \<Longrightarrow> tx_valid P m Q) \<Longrightarrow> (\<not> b \<Longrightarrow> tx_valid P n Q) \<Longrightarrow> tx_valid P (if b then m else n) Q"
  by simp

lemma tx_valid_weaken:
  "tx_valid P' m Q' \<Longrightarrow> (\<And>s. P s \<Longrightarrow> P' s) \<Longrightarrow> (\<And>a s. Q' a s \<Longrightarrow> Q a s) \<Longrightarrow> tx_valid P m Q"
  unfolding tx_valid_def by blast

lemma tx_valid_pre: "tx_valid P' m Q \<Longrightarrow> (\<And>s. P s \<Longrightarrow> P' s) \<Longrightarrow> tx_valid P m Q"
  unfolding tx_valid_def by blast

end
