(* ===== verification/Asset_Store.thy ===== *)
theory Asset_Store
  imports Asset_Types Tx_Monad "HOL-Library.Product_Lexorder" "HOL-Library.List_Lexorder"
    "HOL-Library.Char_ord"
begin

text \<open>
  The repositories of the asset system: the ports of
  \<^verbatim>\<open>internal/domain/assets/repo.go\<close> as \<^verbatim>\<open>internal/infra/bun/bunrepo/assets_repo.go\<close>
  implements them on the tables of
  \<^verbatim>\<open>internal/infra/projectschema/migrations/000005_assets.up.sql\<close>. A table is the list
  of its rows, oldest first, for all projects; a statement that violates a constraint of
  the table fails with \<open>ErrDB\<close> and leaves the table alone. Any statement can also fail on
  its own (a lost connection, the time-out of its context): whether the n-th statement does is
  a parameter, and so are the clock and the generator of identifiers, which the application
  injects into the service.
\<close>

section \<open>The state\<close>

record asset_event =
  ev_EventID :: string
  ev_Event :: string
  ev_ProjectID :: string
  ev_Channel :: string
  ev_CreatedAt :: gtime
  ev_DefID :: string
  ev_DefCode :: string
  ev_Class :: asset_class
  ev_OwnerID :: string
  ev_Kind :: entry_kind
  ev_Delta :: int
  ev_QuantityAfter :: int

record asset_tables =
  t_defs :: "asset_def list"
  t_holdings :: "holding list"
  t_ledger :: "ledger_entry list"
  t_outbox :: "asset_event list"

text \<open>The tables, and how many identifiers, clock readings and statements were used so far.\<close>

record asset_world =
  w_db :: asset_tables
  w_ids :: nat
  w_ticks :: nat
  w_ops :: nat

record asset_env =
  env_clock :: "nat \<Rightarrow> gtime"
  env_id :: "nat \<Rightarrow> string"
  env_fails :: "nat \<Rightarrow> bool"
  env_events :: bool

type_synonym 'a atx = "(asset_world, asset_err, 'a) tx"

definition db_op :: "asset_env \<Rightarrow> 'a atx \<Rightarrow> 'a atx" where
  "db_op e f = (\<lambda>w. let w' = w\<lparr>w_ops := Suc (w_ops w)\<rparr>
     in if env_fails e (w_ops w) then (Inl ErrDB, w') else f w')"

definition db_read :: "asset_env \<Rightarrow> (asset_tables \<Rightarrow> 'a) \<Rightarrow> 'a atx" where
  "db_read e f = db_op e (\<lambda>w. (Inr (f (w_db w)), w))"

definition db_write :: "asset_env \<Rightarrow> (asset_tables \<Rightarrow> asset_err + 'a \<times> asset_tables) \<Rightarrow> 'a atx" where
  "db_write e f = db_op e (\<lambda>w. case f (w_db w) of Inl err \<Rightarrow> (Inl err, w)
     | Inr (a, db) \<Rightarrow> (Inr a, w\<lparr>w_db := db\<rparr>))"

section \<open>The order of \<^verbatim>\<open>ListForUpdate\<close>\<close>

text \<open>\<^verbatim>\<open>ORDER BY expires_at ASC NULLS LAST, id ASC\<close>; identifiers compare bytewise.\<close>

datatype nulls_last = NotNull int | NullLast

instantiation nulls_last :: linorder
begin

fun less_eq_nulls_last :: "nulls_last \<Rightarrow> nulls_last \<Rightarrow> bool" where
  "less_eq_nulls_last _ NullLast = True"
| "less_eq_nulls_last NullLast (NotNull _) = False"
| "less_eq_nulls_last (NotNull a) (NotNull b) = (a \<le> b)"

definition less_nulls_last :: "nulls_last \<Rightarrow> nulls_last \<Rightarrow> bool" where
  "less_nulls_last a b \<longleftrightarrow> \<not> b \<le> a"

instance
proof
  fix x y z :: nulls_last
  show "x < y \<longleftrightarrow> x \<le> y \<and> \<not> y \<le> x"
    by (cases x; cases y) (auto simp: less_nulls_last_def)
  show "x \<le> x" by (cases x) auto
  show "x \<le> y \<Longrightarrow> y \<le> z \<Longrightarrow> x \<le> z" by (cases x; cases y; cases z) auto
  show "x \<le> y \<Longrightarrow> y \<le> x \<Longrightarrow> x = y" by (cases x; cases y) auto
  show "x \<le> y \<or> y \<le> x" by (cases x; cases y) auto
qed

end

definition expiry_key :: "gtime option \<Rightarrow> nulls_last" where
  "expiry_key t = (case t of None \<Rightarrow> NullLast | Some a \<Rightarrow> NotNull a)"

definition fefo_key :: "holding \<Rightarrow> nulls_last \<times> string" where
  "fefo_key h = (expiry_key (h_ExpiresAt h), h_ID h)"

section \<open>Definitions\<close>

definition def_get :: "asset_env \<Rightarrow> string \<Rightarrow> (asset_def \<Rightarrow> bool) \<Rightarrow> asset_def option atx" where
  "def_get e p pred = db_read e (\<lambda>db. find (\<lambda>d. d_ProjectID d = p \<and> pred d) (t_defs db))"

definition def_by_code :: "asset_env \<Rightarrow> string \<Rightarrow> string \<Rightarrow> asset_def option atx" where
  "def_by_code e p code = def_get e p (\<lambda>d. d_Code d = code)"

definition def_by_id :: "asset_env \<Rightarrow> string \<Rightarrow> string \<Rightarrow> asset_def option atx" where
  "def_by_id e p i = def_get e p (\<lambda>d. d_ID d = i)"

section \<open>Holdings\<close>

text \<open>
  The unique key \<^verbatim>\<open>asset_holdings_bucket\<close>, NULLS NOT DISTINCT, so an absent expiry is a
  value like any other. The tables live in one schema per project.
\<close>

definition bucket_of :: "holding \<Rightarrow> string \<times> owner_type \<times> string \<times> string \<times> gtime option \<times> string" where
  "bucket_of h = (h_ProjectID h, h_OwnerType h, h_OwnerID h, h_DefID h, h_ExpiresAt h, h_BucketKey h)"

definition row_id :: "holding \<Rightarrow> string \<times> string" where
  "row_id h = (h_ProjectID h, h_ID h)"

definition def_exists :: "asset_tables \<Rightarrow> string \<Rightarrow> string \<Rightarrow> bool" where
  "def_exists db p i = list_ex (\<lambda>d. d_ProjectID d = p \<and> d_ID d = i) (t_defs db)"

definition holdings_ok :: "holding list \<Rightarrow> bool" where
  "holdings_ok hs \<longleftrightarrow> distinct (map row_id hs) \<and> distinct (map bucket_of hs) \<and>
     list_all (\<lambda>h. 0 < h_Quantity h \<and> owner_type_is_valid (h_OwnerType h)) hs"

definition holding_insert :: "asset_env \<Rightarrow> holding \<Rightarrow> unit atx" where
  "holding_insert e h = db_write e (\<lambda>db.
     let hs = t_holdings db @ [h]
     in if holdings_ok hs \<and> def_exists db (h_ProjectID h) (h_DefID h)
        then Inr ((), db\<lparr>t_holdings := hs\<rparr>) else Inl ErrDB)"

definition holding_get :: "asset_env \<Rightarrow> string \<Rightarrow> string \<Rightarrow> holding option atx" where
  "holding_get e p i = db_read e (\<lambda>db. find (\<lambda>h. row_id h = (p, i)) (t_holdings db))"

definition holding_list_for_update ::
  "asset_env \<Rightarrow> string \<Rightarrow> owner_type \<Rightarrow> string \<Rightarrow> string \<Rightarrow> holding list atx" where
  "holding_list_for_update e p ot oid did = db_read e (\<lambda>db. sort_key fefo_key
     (filter (\<lambda>h. h_ProjectID h = p \<and> h_OwnerType h = ot \<and> h_OwnerID h = oid \<and> h_DefID h = did)
       (t_holdings db)))"

text \<open>The row the statement names, at the expected version.\<close>

definition at_version :: "string \<Rightarrow> string \<Rightarrow> int \<Rightarrow> holding \<Rightarrow> bool" where
  "at_version p i v r \<longleftrightarrow> row_id r = (p, i) \<and> h_Version r = v"

definition set_columns :: "holding \<Rightarrow> holding \<Rightarrow> holding" where
  "set_columns h r = r\<lparr>h_Quantity := h_Quantity h, h_ExpiresAt := h_ExpiresAt h,
     h_Level := h_Level h, h_Metadata := h_Metadata h, h_BucketKey := h_BucketKey h,
     h_Version := h_Version h, h_UpdatedAt := h_UpdatedAt h\<rparr>"

definition holding_update :: "asset_env \<Rightarrow> holding \<Rightarrow> int \<Rightarrow> unit atx" where
  "holding_update e h expect = db_write e (\<lambda>db.
     let P = at_version (h_ProjectID h) (h_ID h) expect;
         hs = map (\<lambda>r. if P r then set_columns h r else r) (t_holdings db)
     in if \<not> list_ex P (t_holdings db) then Inl ErrConcurrent
        else if \<not> holdings_ok hs then Inl ErrDB
        else Inr ((), db\<lparr>t_holdings := hs\<rparr>))"

definition holding_delete :: "asset_env \<Rightarrow> string \<Rightarrow> string \<Rightarrow> int \<Rightarrow> unit atx" where
  "holding_delete e p i expect = db_write e (\<lambda>db.
     let P = at_version p i expect
     in if \<not> list_ex P (t_holdings db) then Inl ErrConcurrent
        else Inr ((), db\<lparr>t_holdings := filter (\<lambda>r. \<not> P r) (t_holdings db)\<rparr>))"

text \<open>\<^verbatim>\<open>FOR UPDATE SKIP LOCKED\<close> may leave out rows that another transaction has locked.\<close>

definition holding_list_expired ::
  "asset_env \<Rightarrow> (holding \<Rightarrow> bool) \<Rightarrow> string \<Rightarrow> gtime \<Rightarrow> int \<Rightarrow> holding list atx" where
  "holding_list_expired e locked p now limit =
     (if limit \<le> 0 then tx_ret []
      else db_read e (\<lambda>db. take (nat limit) (sort_key (\<lambda>h. expiry_key (h_ExpiresAt h))
        (filter (\<lambda>h. h_ProjectID h = p \<and> \<not> locked h \<and>
            (case h_ExpiresAt h of None \<Rightarrow> False | Some t \<Rightarrow> t \<le> now)) (t_holdings db)))))"

definition holding_list_all :: "asset_env \<Rightarrow> string \<Rightarrow> holding list atx" where
  "holding_list_all e p = db_read e (\<lambda>db. sort_key (\<lambda>h. (h_OwnerID h, h_DefID h, h_ID h))
     (filter (\<lambda>h. h_ProjectID h = p) (t_holdings db)))"

section \<open>Ledger\<close>

definition ledger_key :: "ledger_entry \<Rightarrow> string \<times> string" where
  "ledger_key r = (e_ProjectID r, e_IdempotencyKey r)"

definition ledger_get_by_key :: "asset_env \<Rightarrow> string \<Rightarrow> string \<Rightarrow> ledger_entry option atx" where
  "ledger_get_by_key e p key = db_read e (\<lambda>db. find (\<lambda>r. ledger_key r = (p, key)) (t_ledger db))"

text \<open>
  \<^verbatim>\<open>INSERT ... ON CONFLICT (project_id, idempotency_key) DO NOTHING\<close>; a clash of the
  primary key is an error all the same. The result is the row that was there and whether the
  row was inserted.
\<close>

definition ledger_try_insert :: "ledger_entry \<Rightarrow> asset_tables \<Rightarrow> asset_err + bool \<times> asset_tables" where
  "ledger_try_insert r db =
     (if list_ex (\<lambda>x. ledger_key x = ledger_key r) (t_ledger db) then Inr (False, db)
      else if list_ex (\<lambda>x. e_ProjectID x = e_ProjectID r \<and> e_ID x = e_ID r) (t_ledger db)
        \<or> \<not> def_exists db (e_ProjectID r) (e_DefID r) \<or> \<not> owner_type_is_valid (e_OwnerType r)
        \<or> \<not> entry_kind_is_valid (e_Kind r)
      then Inl ErrDB
      else Inr (True, db\<lparr>t_ledger := t_ledger db @ [r]\<rparr>))"

definition ledger_insert_if_absent :: "asset_env \<Rightarrow> ledger_entry \<Rightarrow> (ledger_entry option \<times> bool) atx" where
  "ledger_insert_if_absent e r = tx_bind (db_write e (ledger_try_insert r)) (\<lambda>inserted.
     if inserted then tx_ret (None, True)
     else tx_bind (ledger_get_by_key e (e_ProjectID r) (e_IdempotencyKey r)) (\<lambda>existing.
       tx_ret (existing, False)))"

text \<open>An empty \<^verbatim>\<open>ref_type\<close> is stored as NULL, which no comparison finds.\<close>

definition ledger_list_by_ref :: "asset_env \<Rightarrow> string \<Rightarrow> string \<Rightarrow> string \<Rightarrow> ledger_entry list atx" where
  "ledger_list_by_ref e p rt rid =
     (if rid = '''' then tx_ret []
      else db_read e (\<lambda>db. sort_key (\<lambda>r. (e_CreatedAt r, e_ID r))
        (filter (\<lambda>r. e_ProjectID r = p \<and> rt \<noteq> '''' \<and> e_RefType r = rt \<and> e_RefID r = rid)
          (t_ledger db))))"

definition ledger_list_all :: "asset_env \<Rightarrow> string \<Rightarrow> ledger_entry list atx" where
  "ledger_list_all e p = db_read e (\<lambda>db. sort_key (\<lambda>r. (e_CreatedAt r, e_ID r))
     (filter (\<lambda>r. e_ProjectID r = p) (t_ledger db)))"

definition outbox_publish :: "asset_env \<Rightarrow> asset_event \<Rightarrow> unit atx" where
  "outbox_publish e ev = db_write e (\<lambda>db. Inr ((), db\<lparr>t_outbox := t_outbox db @ [ev]\<rparr>))"

section \<open>Inversion\<close>

lemma db_read_Inr [tx_simps]:
  "db_read e f w = (Inr a, w') \<longleftrightarrow>
     \<not> env_fails e (w_ops w) \<and> a = f (w_db w) \<and> w' = w\<lparr>w_ops := Suc (w_ops w)\<rparr>"
  by (auto simp: db_read_def db_op_def Let_def)

lemma db_write_Inr:
  "db_write e f w = (Inr a, w') \<longleftrightarrow>
     \<not> env_fails e (w_ops w) \<and> (\<exists>db. f (w_db w) = Inr (a, db) \<and>
       w' = w\<lparr>w_ops := Suc (w_ops w), w_db := db\<rparr>)"
  by (auto simp: db_write_def db_op_def Let_def split: sum.splits)

lemma holding_insert_Inr [tx_simps]:
  "holding_insert e h w = (Inr u, w') \<longleftrightarrow>
     \<not> env_fails e (w_ops w) \<and> holdings_ok (t_holdings (w_db w) @ [h]) \<and>
     def_exists (w_db w) (h_ProjectID h) (h_DefID h) \<and>
     w' = w\<lparr>w_ops := Suc (w_ops w), w_db := (w_db w)\<lparr>t_holdings := t_holdings (w_db w) @ [h]\<rparr>\<rparr>"
  by (auto simp: holding_insert_def db_write_Inr Let_def)

lemma holding_update_Inr [tx_simps]:
  "holding_update e h v w = (Inr u, w') \<longleftrightarrow>
     (let P = at_version (h_ProjectID h) (h_ID h) v;
          hs = map (\<lambda>r. if P r then set_columns h r else r) (t_holdings (w_db w))
      in \<not> env_fails e (w_ops w) \<and> list_ex P (t_holdings (w_db w)) \<and> holdings_ok hs \<and>
         w' = w\<lparr>w_ops := Suc (w_ops w), w_db := (w_db w)\<lparr>t_holdings := hs\<rparr>\<rparr>)"
  by (auto simp: holding_update_def db_write_Inr Let_def)

lemma holding_delete_Inr [tx_simps]:
  "holding_delete e p i v w = (Inr u, w') \<longleftrightarrow>
     \<not> env_fails e (w_ops w) \<and> list_ex (at_version p i v) (t_holdings (w_db w)) \<and>
     w' = w\<lparr>w_ops := Suc (w_ops w), w_db := (w_db w)\<lparr>t_holdings :=
       filter (\<lambda>r. \<not> at_version p i v r) (t_holdings (w_db w))\<rparr>\<rparr>"
  by (auto simp: holding_delete_def db_write_Inr Let_def)

lemma outbox_publish_Inr [tx_simps]:
  "outbox_publish e ev w = (Inr u, w') \<longleftrightarrow> \<not> env_fails e (w_ops w) \<and>
     w' = w\<lparr>w_ops := Suc (w_ops w), w_db := (w_db w)\<lparr>t_outbox := t_outbox (w_db w) @ [ev]\<rparr>\<rparr>"
  by (auto simp: outbox_publish_def db_write_Inr)

end
