(* ===== verification/Asset_Service.thy ===== *)
theory Asset_Service
  imports Asset_Store
begin

text \<open>
  The write service of the asset system, \<^verbatim>\<open>internal/domain/assets/service.go\<close>,
  \<^verbatim>\<open>write.go\<close> and \<^verbatim>\<open>expire.go\<close>: the five verbs Grant, Consume, Transfer, Mutate
  and Expire, and the scan for expired holdings. Each verb validates its command, then runs
  one transaction: replay of a used idempotency key, lookup and checks, ledger rows first,
  then the holdings, then the event. The operations are in the order of the code, with every
  identifier drawn and every clock reading taken where the code does it.
\<close>

section \<open>The runner\<close>

text \<open>
  \<^verbatim>\<open>uow.Runner.Run\<close> outside a transaction: begin, the body, commit; whatever fails, the
  tables are those of before. Identifiers and clock readings stay used.
\<close>

definition run_tx :: "asset_env \<Rightarrow> 'a atx \<Rightarrow> 'a atx" where
  "run_tx e m = (\<lambda>w.
     let w0 = w\<lparr>w_ops := Suc (w_ops w)\<rparr> in
     if env_fails e (w_ops w) then (Inl ErrDB, w0)
     else (case m w0 of
         (Inl err, w') \<Rightarrow> (Inl err, w'\<lparr>w_db := w_db w\<rparr>)
       | (Inr a, w') \<Rightarrow>
           if env_fails e (w_ops w')
           then (Inl ErrDB, w'\<lparr>w_ops := Suc (w_ops w'), w_db := w_db w\<rparr>)
           else (Inr a, w'\<lparr>w_ops := Suc (w_ops w')\<rparr>)))"

section \<open>Helpers of the service\<close>

definition new_id :: "asset_env \<Rightarrow> string atx" where
  "new_id e = (\<lambda>w. (Inr (env_id e (w_ids w)), w\<lparr>w_ids := Suc (w_ids w)\<rparr>))"

definition ts :: "asset_env \<Rightarrow> gtime atx" where
  "ts e = (\<lambda>w. (Inr (env_clock e (w_ticks w)), w\<lparr>w_ticks := Suc (w_ticks w)\<rparr>))"

definition require_scope :: "scope \<Rightarrow> asset_err + unit" where
  "require_scope sc = (if sc_ProjectID sc = '''' then Inl ErrProjectRequired else Inr ())"

definition prepare_write :: "owner_type \<Rightarrow> string \<Rightarrow> string \<Rightarrow> asset_err + owner_type \<times> string" where
  "prepare_write ot owner idem =
     (case normalize_owner_type ot of Inl err \<Rightarrow> Inl err | Inr ot' \<Rightarrow>
        if owner = '''' then Inl ErrOwnerRequired
        else (case validate_idempotency_key idem of Inl err \<Rightarrow> Inl err
          | Inr key \<Rightarrow> Inr (ot', key)))"

definition require_active_def :: "asset_env \<Rightarrow> string \<Rightarrow> string \<Rightarrow> asset_def atx" where
  "require_active_def e p code = tx_bind (def_by_code e p code) (\<lambda>d. case d of
       None \<Rightarrow> tx_fail ErrDefNotFound
     | Some d \<Rightarrow> if d_Status d \<noteq> DefStatusActive then tx_fail ErrDefArchived else tx_ret d)"

definition normalize_expiry :: "gtime option \<Rightarrow> gtime option" where
  "normalize_expiry t = map_option (\<lambda>u. truncate_to u usec) t"

text \<open>\<^verbatim>\<open>time.Duration(*ExpiresIn) * time.Second\<close> is a product of two \<^verbatim>\<open>int64\<close>.\<close>

definition resolve_grant_expiry :: "asset_env \<Rightarrow> asset_def \<Rightarrow> gtime option \<Rightarrow> gtime option atx" where
  "resolve_grant_expiry e d explicit =
     (if explicit \<noteq> None then
        (if \<not> allows_expiry (Some d) then tx_fail ErrMatrix
         else tx_ret (normalize_expiry explicit))
      else (case d_ExpiresIn d of
          Some s \<Rightarrow>
            if 0 < s then
              (if \<not> allows_expiry (Some d) then tx_fail ErrMatrix
               else tx_bind (ts e) (\<lambda>t. tx_ret (normalize_expiry (Some (t + i64 (s * sec))))))
            else if requires_expiry (Some d) then tx_fail ErrExpiresAtRequired
            else tx_ret None
        | None \<Rightarrow> if requires_expiry (Some d) then tx_fail ErrExpiresAtRequired else tx_ret None))"

definition load_replay :: "asset_env \<Rightarrow> string \<Rightarrow> string \<Rightarrow> ledger_entry list option atx" where
  "load_replay e p key = tx_bind (ledger_get_by_key e p key) (\<lambda>first. case first of
       None \<Rightarrow> tx_ret None
     | Some r \<Rightarrow>
         if e_RefID r \<noteq> '''' then
           tx_bind (ledger_list_by_ref e p (e_RefType r) (e_RefID r)) (\<lambda>all.
             if all \<noteq> [] then tx_ret (Some all) else tx_ret (Some [r]))
         else tx_ret (Some [r]))"

definition system_operator :: string where
  "system_operator = ''{'' @ [CHR 0x22] @ ''is_system'' @ [CHR 0x22] @ '':true}''"

definition new_entry :: "asset_env \<Rightarrow> ledger_entry \<Rightarrow> string option \<Rightarrow> ledger_entry atx" where
  "new_entry e r op =
     tx_bind (if e_ID r = '''' then tx_bind (new_id e) (\<lambda>i. tx_ret (r\<lparr>e_ID := i\<rparr>)) else tx_ret r)
       (\<lambda>r. tx_ret (if e_Operator r = None
          then r\<lparr>e_Operator := (if op = None \<or> op = Some '''' then Some system_operator else op)\<rparr>
          else r))"

definition publish ::
  "asset_env \<Rightarrow> asset_def \<Rightarrow> string \<Rightarrow> entry_kind \<Rightarrow> int \<Rightarrow> int \<Rightarrow> gtime \<Rightarrow> unit atx" where
  "publish e d owner kind delta after now =
     (if \<not> env_events e then tx_ret ()
      else tx_bind (new_id e) (\<lambda>i. outbox_publish e
        \<lparr>ev_EventID = i, ev_Event = event_name_for_kind kind, ev_ProjectID = d_ProjectID d,
         ev_Channel = accounts_channel owner, ev_CreatedAt = now, ev_DefID = d_ID d,
         ev_DefCode = d_Code d, ev_Class = d_Class d, ev_OwnerID = owner, ev_Kind = kind,
         ev_Delta = delta, ev_QuantityAfter = after\<rparr>))"

definition normalize_ref :: "asset_env \<Rightarrow> string \<Rightarrow> string \<Rightarrow> string \<Rightarrow> (string \<times> string) atx" where
  "normalize_ref e rt rid fallback =
     (let rt' = (if rt = '''' then fallback else rt)
      in if rid = '''' then tx_bind (new_id e) (\<lambda>i. tx_ret (rt', i)) else tx_ret (rt', rid))"

definition live_holdings :: "holding list \<Rightarrow> gtime \<Rightarrow> holding list" where
  "live_holdings hs now = filter (\<lambda>h. \<not> holding_expired (Some h) now) hs"

definition check_max_quantity :: "asset_def \<Rightarrow> holding list \<Rightarrow> int \<Rightarrow> asset_err + unit" where
  "check_max_quantity d live add = (case d_MaxQuantity d of None \<Rightarrow> Inr ()
     | Some q \<Rightarrow> if q < i64 (sum_i64 (map h_Quantity live) + add) then Inl ErrMaxQuantity else Inr ())"

definition live_holding :: "asset_env \<Rightarrow> scope \<Rightarrow> string \<Rightarrow> string \<Rightarrow> holding option atx" where
  "live_holding e sc owner def_code =
     tx_bind (tx_lift (require_scope sc)) (\<lambda>_.
     tx_when (owner = '''') ErrOwnerRequired (
     tx_bind (tx_lift (validate_code def_code)) (\<lambda>code.
     tx_bind (require_active_def e (sc_ProjectID sc) code) (\<lambda>d.
     tx_bind (holding_list_for_update e (sc_ProjectID sc) OwnerTypeUser owner (d_ID d)) (\<lambda>hs.
     tx_bind (ts e) (\<lambda>now. case live_holdings hs now of
         [] \<Rightarrow> tx_ret None
       | h # _ \<Rightarrow> tx_ret (Some h)))))))"

definition replay_result :: "asset_env \<Rightarrow> string \<Rightarrow> string \<Rightarrow> op_result atx" where
  "replay_result e p key = tx_bind (load_replay e p key) (\<lambda>r. tx_ret
     \<lparr>r_Entries = (case r of None \<Rightarrow> [] | Some es \<Rightarrow> es), r_IdempotentReplay = True\<rparr>)"

section \<open>Grant\<close>

text \<open>The row a grant adds to, if there is one: the same expiry, and not an instance.\<close>

definition same_bucket :: "gtime option \<Rightarrow> holding \<Rightarrow> bool" where
  "same_bucket expires h \<longleftrightarrow> h_ExpiresAt h = expires \<and> h_BucketKey h = ''''"

definition add_to_holding :: "holding \<Rightarrow> int \<Rightarrow> gtime \<Rightarrow> holding" where
  "add_to_holding h q now = h\<lparr>h_Quantity := i64 (h_Quantity h + q),
     h_Version := i64 (h_Version h + 1), h_UpdatedAt := now\<rparr>"

definition upsert_grant_holding :: "asset_env \<Rightarrow> asset_def \<Rightarrow> string \<Rightarrow> owner_type \<Rightarrow>
    grant_command \<Rightarrow> gtime option \<Rightarrow> holding list \<Rightarrow> gtime \<Rightarrow> (holding \<times> bool) atx" where
  "upsert_grant_holding e d p ot cmd expires live now =
     (if instance_bucket (Some d) then
        tx_bind (new_id e) (\<lambda>i. tx_ret (\<lparr>h_ID = i, h_ProjectID = p, h_OwnerType = ot,
          h_OwnerID = gc_OwnerID cmd, h_DefID = d_ID d, h_Quantity = 1, h_ExpiresAt = expires,
          h_Level = gc_Level cmd, h_Metadata = gc_Metadata cmd, h_BucketKey = i,
          h_Version = 1, h_CreatedAt = now, h_UpdatedAt = now\<rparr>, True))
      else (case find (same_bucket expires) live of
          Some h \<Rightarrow> tx_ret (add_to_holding h (gc_Quantity cmd) now, False)
        | None \<Rightarrow>
            tx_bind (new_id e) (\<lambda>i. tx_ret (\<lparr>h_ID = i, h_ProjectID = p, h_OwnerType = ot,
              h_OwnerID = gc_OwnerID cmd, h_DefID = d_ID d, h_Quantity = gc_Quantity cmd,
              h_ExpiresAt = expires, h_Level = gc_Level cmd, h_Metadata = gc_Metadata cmd,
              h_BucketKey = '''', h_Version = 1, h_CreatedAt = now, h_UpdatedAt = now\<rparr>, True))))"

text \<open>A ledger row about the holding \<open>h\<close>, as every verb fills it in.\<close>

definition entry_for :: "holding \<Rightarrow> entry_kind \<Rightarrow> int \<Rightarrow> int \<Rightarrow> string \<Rightarrow> string \<Rightarrow> string \<Rightarrow>
    gtime \<Rightarrow> ledger_entry" where
  "entry_for h kind delta after rt rid key now =
     \<lparr>e_ID = '''', e_ProjectID = h_ProjectID h, e_HoldingID = h_ID h,
      e_OwnerType = h_OwnerType h, e_OwnerID = h_OwnerID h, e_DefID = h_DefID h,
      e_Kind = kind, e_Delta = delta, e_QuantityAfter = after, e_ExpiresAt = h_ExpiresAt h,
      e_BucketKey = h_BucketKey h, e_RefType = rt, e_RefID = rid, e_IdempotencyKey = key,
      e_TxID = '''', e_Operator = None, e_CreatedAt = now\<rparr>"

definition grant_body :: "asset_env \<Rightarrow> scope \<Rightarrow> grant_command \<Rightarrow> owner_type \<Rightarrow> string \<Rightarrow> string \<Rightarrow>
    op_result atx" where
  "grant_body e sc cmd ot key code = (let p = sc_ProjectID sc in
     tx_bind (load_replay e p key) (\<lambda>r. case r of
       Some es \<Rightarrow> tx_ret \<lparr>r_Entries = es, r_IdempotentReplay = True\<rparr>
     | None \<Rightarrow>
     tx_bind (require_active_def e p code) (\<lambda>d.
     tx_bind (resolve_grant_expiry e d (gc_ExpiresAt cmd)) (\<lambda>expires.
     tx_bind (tx_lift (validate_grant (d_Class d) (gc_Quantity cmd) (expires \<noteq> None))) (\<lambda>_.
     tx_bind (holding_list_for_update e p ot (gc_OwnerID cmd) (d_ID d)) (\<lambda>hs.
     tx_bind (ts e) (\<lambda>now. let live = live_holdings hs now in
     tx_when (d_Class d \<noteq> ClassCurrency \<and> natural_unique_per_owner (Some d) \<and> live \<noteq> [])
       ErrUniquePerOwner (
     tx_bind (tx_lift (check_max_quantity d live (gc_Quantity cmd))) (\<lambda>_.
     tx_bind (normalize_ref e (gc_RefType cmd) (gc_RefID cmd) ''grant'') (\<lambda>(rt, rid).
     tx_bind (upsert_grant_holding e d p ot cmd expires live now) (\<lambda>(h, created).
     tx_bind (new_entry e (entry_for h KindGrant (gc_Quantity cmd) (h_Quantity h) rt rid key now)
       (sc_Operator sc)) (\<lambda>entry.
     tx_bind (ledger_insert_if_absent e entry) (\<lambda>(_, inserted).
     if \<not> inserted then replay_result e p key
     else
     tx_bind (if created then holding_insert e h
              else holding_update e h (i64 (h_Version h - 1))) (\<lambda>_.
     tx_bind (publish e d (gc_OwnerID cmd) KindGrant (gc_Quantity cmd) (h_Quantity h) now) (\<lambda>_.
     tx_ret \<lparr>r_Entries = [entry], r_IdempotentReplay = False\<rparr>)))))))))))))))"

definition grant :: "asset_env \<Rightarrow> scope \<Rightarrow> grant_command \<Rightarrow> op_result atx" where
  "grant e sc cmd =
     tx_bind (tx_lift (require_scope sc)) (\<lambda>_.
     tx_bind (tx_lift (prepare_write (gc_OwnerType cmd) (gc_OwnerID cmd) (gc_IdempotencyKey cmd)))
       (\<lambda>(ot, key).
     tx_bind (tx_lift (validate_code (gc_DefCode cmd))) (\<lambda>code.
     run_tx e (grant_body e sc cmd ot key code))))"

section \<open>Consume\<close>

text \<open>
  What the debit loops of Consume and Transfer share: the run stopped at a replay, or the
  rows that were debited, each with its ledger row and the quantity taken.
\<close>

datatype debit_outcome = Replayed op_result | Debited "(ledger_entry \<times> holding \<times> int) list"

fun debit_loop :: "asset_env \<Rightarrow> scope \<Rightarrow> entry_kind \<Rightarrow> string \<Rightarrow> (nat \<Rightarrow> string) \<Rightarrow> string \<Rightarrow> string \<Rightarrow>
    gtime \<Rightarrow> holding list \<Rightarrow> int \<Rightarrow> (ledger_entry \<times> holding \<times> int) list \<Rightarrow> debit_outcome atx" where
  "debit_loop e sc kind key idem rt rid now [] remain done = tx_ret (Debited done)"
| "debit_loop e sc kind key idem rt rid now (h # hs) remain done =
     (if remain = 0 then tx_ret (Debited done)
      else
        let taken = (if remain < h_Quantity h then remain else h_Quantity h);
            after = i64 (h_Quantity h - taken)
        in tx_bind (new_entry e (entry_for h kind (i64 (- taken)) after rt rid (idem (length done)) now)
             (sc_Operator sc)) (\<lambda>entry.
           tx_bind (ledger_insert_if_absent e entry) (\<lambda>(_, inserted).
           if \<not> inserted \<and> done = [] then
             tx_bind (replay_result e (sc_ProjectID sc) key) (\<lambda>r. tx_ret (Replayed r))
           else
             tx_bind (if after = 0 then holding_delete e (sc_ProjectID sc) (h_ID h) (h_Version h)
               else holding_update e (h\<lparr>h_Quantity := after, h_Version := i64 (h_Version h + 1),
                 h_UpdatedAt := now\<rparr>) (h_Version h)) (\<lambda>_.
             debit_loop e sc kind key idem rt rid now hs (i64 (remain - taken))
               (done @ [(entry, h, taken)])))))"

definition consume_idem :: "string \<Rightarrow> nat \<Rightarrow> string" where
  "consume_idem key n = (if n > 0 then key @ ''#'' @ itoa n else key)"

definition consume_body :: "asset_env \<Rightarrow> scope \<Rightarrow> consume_command \<Rightarrow> owner_type \<Rightarrow> string \<Rightarrow> string \<Rightarrow>
    op_result atx" where
  "consume_body e sc cmd ot key code = (let p = sc_ProjectID sc in
     tx_bind (load_replay e p key) (\<lambda>r. case r of
       Some es \<Rightarrow> tx_ret \<lparr>r_Entries = es, r_IdempotentReplay = True\<rparr>
     | None \<Rightarrow>
     tx_bind (require_active_def e p code) (\<lambda>d.
     tx_bind (tx_lift (validate_consume_quantity (d_Class d) (cc_Quantity cmd))) (\<lambda>_.
     tx_bind (holding_list_for_update e p ot (cc_OwnerID cmd) (d_ID d)) (\<lambda>hs.
     tx_bind (ts e) (\<lambda>now. let live = live_holdings hs now;
         avail = sum_i64 (map h_Quantity live) in
     tx_when (avail < cc_Quantity cmd) ErrInsufficient (
     tx_bind (normalize_ref e (cc_RefType cmd) (cc_RefID cmd) ''consume'') (\<lambda>(rt, rid).
     tx_bind (debit_loop e sc KindConsume key (consume_idem key) rt rid now live (cc_Quantity cmd) [])
       (\<lambda>out. case out of
         Replayed r \<Rightarrow> tx_ret r
       | Debited rows \<Rightarrow>
           tx_bind (publish e d (cc_OwnerID cmd) KindConsume (i64 (- cc_Quantity cmd))
             (i64 (avail - cc_Quantity cmd)) now) (\<lambda>_.
           tx_ret \<lparr>r_Entries = map fst rows, r_IdempotentReplay = False\<rparr>))))))))))"

definition consume :: "asset_env \<Rightarrow> scope \<Rightarrow> consume_command \<Rightarrow> op_result atx" where
  "consume e sc cmd =
     tx_bind (tx_lift (require_scope sc)) (\<lambda>_.
     tx_bind (tx_lift (prepare_write (cc_OwnerType cmd) (cc_OwnerID cmd) (cc_IdempotencyKey cmd)))
       (\<lambda>(ot, key).
     tx_bind (tx_lift (validate_code (cc_DefCode cmd))) (\<lambda>code.
     run_tx e (consume_body e sc cmd ot key code))))"

section \<open>Transfer\<close>

record incoming_move =
  mv_qty :: int
  mv_expiresAt :: "gtime option"
  mv_level :: int
  mv_metadata :: "string option"
  mv_bucketKey :: string
  mv_instance :: bool

definition move_of :: "asset_def \<Rightarrow> ledger_entry \<times> holding \<times> int \<Rightarrow> incoming_move" where
  "move_of d x = (case x of (_, h, taken) \<Rightarrow>
     \<lparr>mv_qty = taken, mv_expiresAt = h_ExpiresAt h, mv_level = h_Level h,
      mv_metadata = h_Metadata h, mv_bucketKey = h_BucketKey h,
      mv_instance = instance_bucket (Some d)\<rparr>)"

definition apply_incoming :: "asset_env \<Rightarrow> asset_def \<Rightarrow> string \<Rightarrow> string \<Rightarrow> incoming_move \<Rightarrow>
    holding list \<Rightarrow> gtime \<Rightarrow> (holding \<times> bool) atx" where
  "apply_incoming e d p to_owner mv live now =
     (if mv_instance mv then
        tx_bind (new_id e) (\<lambda>i. tx_ret (\<lparr>h_ID = i, h_ProjectID = p, h_OwnerType = OwnerTypeUser,
          h_OwnerID = to_owner, h_DefID = d_ID d, h_Quantity = 1, h_ExpiresAt = mv_expiresAt mv,
          h_Level = mv_level mv, h_Metadata = mv_metadata mv, h_BucketKey = i,
          h_Version = 1, h_CreatedAt = now, h_UpdatedAt = now\<rparr>, True))
      else (case find (same_bucket (mv_expiresAt mv)) live of
          Some h \<Rightarrow> tx_ret (add_to_holding h (mv_qty mv) now, False)
        | None \<Rightarrow>
            tx_bind (new_id e) (\<lambda>i. tx_ret (\<lparr>h_ID = i, h_ProjectID = p,
              h_OwnerType = OwnerTypeUser, h_OwnerID = to_owner, h_DefID = d_ID d,
              h_Quantity = mv_qty mv, h_ExpiresAt = mv_expiresAt mv, h_Level = mv_level mv,
              h_Metadata = mv_metadata mv, h_BucketKey = '''', h_Version = 1,
              h_CreatedAt = now, h_UpdatedAt = now\<rparr>, True))))"

definition out_idem :: "string \<Rightarrow> nat \<Rightarrow> string" where
  "out_idem key n = (if n = 0 then key else key @ '':out:'' @ itoa n)"

definition in_idem :: "string \<Rightarrow> nat \<Rightarrow> string" where
  "in_idem key n = key @ '':in:'' @ itoa n"

text \<open>\<^verbatim>\<open>seq\<close> counts both sides; the rows of the receiver are kept up to date in \<open>live\<close>.\<close>

fun credit_loop :: "asset_env \<Rightarrow> scope \<Rightarrow> asset_def \<Rightarrow> string \<Rightarrow> string \<Rightarrow> string \<Rightarrow> string \<Rightarrow> gtime \<Rightarrow>
    incoming_move list \<Rightarrow> nat \<Rightarrow> holding list \<Rightarrow> ledger_entry list \<Rightarrow> ledger_entry list atx" where
  "credit_loop e sc d to_owner key rt rid now [] seq live done = tx_ret done"
| "credit_loop e sc d to_owner key rt rid now (mv # mvs) seq live done =
     tx_bind (apply_incoming e d (sc_ProjectID sc) to_owner mv live now) (\<lambda>(dh, created).
     tx_bind (new_entry e (entry_for dh KindTransferIn (mv_qty mv) (h_Quantity dh) rt rid
       (in_idem key seq) now) (sc_Operator sc)) (\<lambda>entry.
     tx_bind (ledger_insert_if_absent e entry) (\<lambda>_.
     tx_bind (if created then holding_insert e dh
              else holding_update e dh (i64 (h_Version dh - 1))) (\<lambda>_.
     credit_loop e sc d to_owner key rt rid now mvs (Suc seq)
       (if created then live @ [dh] else map (\<lambda>x. if h_ID x = h_ID dh then dh else x) live)
       (done @ [entry])))))"

definition transfer_body :: "asset_env \<Rightarrow> scope \<Rightarrow> transfer_command \<Rightarrow> string \<Rightarrow> string \<Rightarrow>
    op_result atx" where
  "transfer_body e sc cmd key code = (let p = sc_ProjectID sc; q = tc_Quantity cmd in
     tx_bind (load_replay e p key) (\<lambda>r. case r of
       Some es \<Rightarrow> tx_ret \<lparr>r_Entries = es, r_IdempotentReplay = True\<rparr>
     | None \<Rightarrow>
     tx_bind (require_active_def e p code) (\<lambda>d.
     tx_when (\<not> d_Tradable d \<or> d_Class d = ClassEntitlement) ErrNotTradable (
     tx_bind (tx_lift (validate_consume_quantity (d_Class d) q)) (\<lambda>_.
     tx_bind (ts e) (\<lambda>now.
     tx_bind (holding_list_for_update e p OwnerTypeUser (tc_FromOwnerID cmd) (d_ID d)) (\<lambda>src.
     tx_bind (holding_list_for_update e p OwnerTypeUser (tc_ToOwnerID cmd) (d_ID d)) (\<lambda>dst.
     let live_src = live_holdings src now; live_dst = live_holdings dst now;
         avail = sum_i64 (map h_Quantity live_src) in
     tx_when (avail < q) ErrInsufficient (
     tx_bind (tx_lift (check_max_quantity d live_dst q)) (\<lambda>_.
     tx_when (d_Class d \<noteq> ClassCurrency \<and> natural_unique_per_owner (Some d) \<and> live_dst \<noteq> [])
       ErrUniquePerOwner (
     tx_bind (normalize_ref e (tc_RefType cmd) (tc_RefID cmd) ''transfer'') (\<lambda>(rt, rid).
     tx_bind (debit_loop e sc KindTransferOut key (out_idem key) rt rid now live_src q []) (\<lambda>out.
     case out of
       Replayed r \<Rightarrow> tx_ret r
     | Debited rows \<Rightarrow>
     tx_bind (credit_loop e sc d (tc_ToOwnerID cmd) key rt rid now (map (move_of d) rows)
       (length rows) live_dst (map fst rows)) (\<lambda>entries.
     let dest_after = i64 (sum_i64 (map h_Quantity live_dst) + q) in
     tx_bind (publish e d (tc_FromOwnerID cmd) KindTransferOut (i64 (- q)) (i64 (avail - q)) now) (\<lambda>_.
     tx_bind (publish e d (tc_ToOwnerID cmd) KindTransferIn q dest_after now) (\<lambda>_.
     tx_ret \<lparr>r_Entries = entries, r_IdempotentReplay = False\<rparr>))))))))))))))))"

definition transfer :: "asset_env \<Rightarrow> scope \<Rightarrow> transfer_command \<Rightarrow> op_result atx" where
  "transfer e sc cmd =
     tx_bind (tx_lift (require_scope sc)) (\<lambda>_.
     tx_bind (tx_lift (validate_idempotency_key (tc_IdempotencyKey cmd))) (\<lambda>key.
     tx_when (tc_FromOwnerID cmd = '''' \<or> tc_ToOwnerID cmd = '''') ErrTransferOwnersRequired (
     tx_when (tc_FromOwnerID cmd = tc_ToOwnerID cmd) ErrSameOwner (
     tx_bind (tx_lift (validate_code (tc_DefCode cmd))) (\<lambda>code.
     run_tx e (transfer_body e sc cmd key code))))))"

section \<open>Mutate\<close>

text \<open>
  \<^verbatim>\<open>normalizeExpiry\<close> of a time that is set is set, so the check for a missing expiry of an
  entitlement is the code's, and never fires.
\<close>

definition mutate_holding :: "asset_def \<Rightarrow> holding \<Rightarrow> mutate_command \<Rightarrow> asset_err + holding" where
  "mutate_holding d h cmd =
     (let h1 = (case mc_Level cmd of None \<Rightarrow> h | Some l \<Rightarrow> h\<lparr>h_Level := l\<rparr>);
          h2 = (case mc_Metadata cmd of None \<Rightarrow> h1 | Some m \<Rightarrow> h1\<lparr>h_Metadata := Some m\<rparr>)
      in case mc_ExpiresAt cmd of None \<Rightarrow> Inr h2
         | Some t \<Rightarrow> (let expires = normalize_expiry (Some t)
             in if d_Class d = ClassEntitlement \<and> expires = None then Inl ErrExpiresAtRequired
                else Inr (h2\<lparr>h_ExpiresAt := expires\<rparr>)))"

definition mutate_body :: "asset_env \<Rightarrow> scope \<Rightarrow> mutate_command \<Rightarrow> string \<Rightarrow> op_result atx" where
  "mutate_body e sc cmd key = (let p = sc_ProjectID sc in
     tx_bind (load_replay e p key) (\<lambda>r. case r of
       Some es \<Rightarrow> tx_ret \<lparr>r_Entries = es, r_IdempotentReplay = True\<rparr>
     | None \<Rightarrow>
     tx_bind (holding_get e p (mc_HoldingID cmd)) (\<lambda>hopt. case hopt of
       None \<Rightarrow> tx_fail ErrHoldingNotFound
     | Some h \<Rightarrow>
     tx_bind (def_by_id e p (h_DefID h)) (\<lambda>dopt. case dopt of
       None \<Rightarrow> tx_fail ErrDefNotFound
     | Some d \<Rightarrow>
     tx_bind (tx_lift (validate_mutate_class (d_Class d))) (\<lambda>_.
     tx_bind (ts e) (\<lambda>now.
     tx_bind (tx_lift (mutate_holding d h cmd)) (\<lambda>h'.
     let hm = h'\<lparr>h_Version := i64 (h_Version h + 1), h_UpdatedAt := now\<rparr> in
     tx_bind (normalize_ref e (mc_RefType cmd) (mc_RefID cmd) ''mutate'') (\<lambda>(rt, rid).
     tx_bind (new_entry e (entry_for hm KindMutate 0 (h_Quantity hm) rt rid key now)
       (sc_Operator sc)) (\<lambda>entry.
     tx_bind (ledger_insert_if_absent e entry) (\<lambda>(_, inserted).
     if \<not> inserted then replay_result e p key
     else
     tx_bind (holding_update e hm (h_Version h)) (\<lambda>_.
     tx_bind (publish e d (h_OwnerID hm) KindMutate 0 (h_Quantity hm) now) (\<lambda>_.
     tx_ret \<lparr>r_Entries = [entry], r_IdempotentReplay = False\<rparr>))))))))))))"

definition mutate :: "asset_env \<Rightarrow> scope \<Rightarrow> mutate_command \<Rightarrow> op_result atx" where
  "mutate e sc cmd =
     tx_bind (tx_lift (require_scope sc)) (\<lambda>_.
     tx_bind (tx_lift (validate_idempotency_key (mc_IdempotencyKey cmd))) (\<lambda>key.
     tx_when (mc_HoldingID cmd = '''') ErrHoldingIDRequired (
     run_tx e (mutate_body e sc cmd key))))"

section \<open>Expire\<close>

definition expire_holding :: "asset_env \<Rightarrow> scope \<Rightarrow> string \<Rightarrow> string \<Rightarrow> string \<Rightarrow> op_result atx" where
  "expire_holding e sc p hid key =
     tx_bind (load_replay e p key) (\<lambda>r. case r of
       Some es \<Rightarrow> tx_ret \<lparr>r_Entries = es, r_IdempotentReplay = True\<rparr>
     | None \<Rightarrow>
     tx_bind (holding_get e p hid) (\<lambda>hopt. case hopt of
       None \<Rightarrow> tx_fail ErrHoldingNotFound
     | Some h \<Rightarrow>
     tx_bind (def_by_id e p (h_DefID h)) (\<lambda>dopt. case dopt of
       None \<Rightarrow> tx_fail ErrDefNotFound
     | Some d \<Rightarrow>
     tx_bind (ts e) (\<lambda>now.
     tx_bind (new_entry e ((entry_for h KindExpire (i64 (- h_Quantity h)) 0 ''system'' (h_ID h) key now)
       \<lparr>e_ProjectID := p\<rparr>) (sc_Operator sc)) (\<lambda>entry.
     tx_bind (ledger_insert_if_absent e entry) (\<lambda>(_, inserted).
     if \<not> inserted then replay_result e p key
     else
     tx_bind (holding_delete e p (h_ID h) (h_Version h)) (\<lambda>_.
     tx_bind (publish e d (h_OwnerID h) KindExpire (i64 (- h_Quantity h)) 0 now) (\<lambda>_.
     tx_ret \<lparr>r_Entries = [entry], r_IdempotentReplay = False\<rparr>))))))))"

definition expire :: "asset_env \<Rightarrow> scope \<Rightarrow> expire_command \<Rightarrow> op_result atx" where
  "expire e sc cmd =
     tx_bind (tx_lift (require_scope sc)) (\<lambda>_.
     tx_bind (tx_lift (validate_idempotency_key (xc_IdempotencyKey cmd))) (\<lambda>key.
     tx_when (xc_HoldingID cmd = '''') ErrHoldingIDRequired (
     run_tx e (expire_holding e sc (sc_ProjectID sc) (xc_HoldingID cmd) key))))"

definition expire_key :: "holding \<Rightarrow> string" where
  "expire_key h = ''expire:'' @ h_ID h @ (case h_ExpiresAt h of None \<Rightarrow> ''''
     | Some t \<Rightarrow> '':'' @ rfc3339_nano t)"

fun expire_batch :: "asset_env \<Rightarrow> scope \<Rightarrow> holding list \<Rightarrow> int \<Rightarrow> int atx" where
  "expire_batch e sc [] n = tx_ret n"
| "expire_batch e sc (h # hs) n =
     tx_bind (expire_holding e sc (h_ProjectID h) (h_ID h) (expire_key h)) (\<lambda>_.
     expire_batch e sc hs (i64 (n + 1)))"

text \<open>On an error the code also returns the count so far, which no caller reads.\<close>

definition expire_due :: "asset_env \<Rightarrow> (holding \<Rightarrow> bool) \<Rightarrow> scope \<Rightarrow> gtime \<Rightarrow> int \<Rightarrow> int atx" where
  "expire_due e locked sc now limit =
     tx_bind (tx_lift (require_scope sc)) (\<lambda>_.
     tx_bind (if now = zero_time then ts e else tx_ret now) (\<lambda>now'.
     run_tx e (
       tx_bind (holding_list_expired e locked (sc_ProjectID sc) now' limit) (\<lambda>batch.
       expire_batch e sc batch 0))))"

end
