(* ===== verification/Asset_Ledger.thy ===== *)
theory Asset_Ledger
  imports Asset_Store
begin

text \<open>
  The abstract specification of the asset tables: a double-entry book. Its state is the
  tables, its steps (\<open>post\<close>) change one holding and append the one ledger row that accounts
  for the change, or append an event. The invariants are proved once over the steps; theory
  \<^verbatim>\<open>Asset_Verbs\<close> shows that the verbs of the service take such steps and nothing else.

  The locale \<open>asset_repo\<close> is what the service relies on in the repositories. It is
  interpreted on the model of \<^verbatim>\<open>assets_repo.go\<close>.
\<close>

section \<open>Sums over the tables\<close>

definition hsum :: "(holding \<Rightarrow> bool) \<Rightarrow> asset_tables \<Rightarrow> int" where
  "hsum P db = sum_list (map (\<lambda>h. if P h then h_Quantity h else 0) (t_holdings db))"

definition lsum :: "(ledger_entry \<Rightarrow> bool) \<Rightarrow> asset_tables \<Rightarrow> int" where
  "lsum P db = sum_list (map (\<lambda>r. if P r then e_Delta r else 0) (t_ledger db))"

definition about :: "string \<Rightarrow> string \<Rightarrow> ledger_entry \<Rightarrow> bool" where
  "about p i r \<longleftrightarrow> e_ProjectID r = p \<and> e_HoldingID r = i"

definition held :: "asset_tables \<Rightarrow> string \<Rightarrow> string \<Rightarrow> int" where
  "held db p i = hsum (\<lambda>h. row_id h = (p, i)) db"

text \<open>The account of an owner under a definition, in the holdings and in the ledger.\<close>

definition account_of :: "holding \<Rightarrow> string \<times> owner_type \<times> string \<times> string" where
  "account_of h = (h_ProjectID h, h_OwnerType h, h_OwnerID h, h_DefID h)"

definition entry_account :: "ledger_entry \<Rightarrow> string \<times> owner_type \<times> string \<times> string" where
  "entry_account r = (e_ProjectID r, e_OwnerType r, e_OwnerID r, e_DefID r)"

definition owned :: "asset_tables \<Rightarrow> string \<times> owner_type \<times> string \<times> string \<Rightarrow> int" where
  "owned db a = hsum (\<lambda>h. account_of h = a) db"

section \<open>Steps of the book\<close>

definition entry_about :: "ledger_entry \<Rightarrow> holding \<Rightarrow> bool" where
  "entry_about r h \<longleftrightarrow> e_HoldingID r = h_ID h \<and> entry_account r = account_of h"

text \<open>A holding under a definition of the class \<^verbatim>\<open>instance\<close> is one thing.\<close>

definition single :: "asset_tables \<Rightarrow> holding \<Rightarrow> bool" where
  "single db h \<longleftrightarrow> (\<forall>d \<in> set (t_defs db). d_ProjectID d = h_ProjectID h \<and> d_ID d = h_DefID h \<and>
     d_Class d = ClassInstance \<longrightarrow> h_Quantity h = 1)"

inductive post :: "asset_tables \<Rightarrow> asset_tables \<Rightarrow> bool" where
  open_row: "\<lbrakk> entry_about r h; e_Delta r = h_Quantity h; e_QuantityAfter r = h_Quantity h;
     holdings_ok (t_holdings db @ [h]); is_i64 (h_Quantity h); single db h;
     ledger_key r \<notin> ledger_key ` set (t_ledger db);
     \<forall>x \<in> set (t_ledger db). e_HoldingID x \<noteq> h_ID h \<rbrakk> \<Longrightarrow>
   post db (db\<lparr>t_ledger := t_ledger db @ [r], t_holdings := t_holdings db @ [h]\<rparr>)"
| change_row: "\<lbrakk> h \<in> set (t_holdings db); row_id h' = row_id h; account_of h' = account_of h;
     entry_about r h'; e_Delta r = h_Quantity h' - h_Quantity h; e_QuantityAfter r = h_Quantity h';
     is_i64 (h_Quantity h'); single db h'; hs = map (\<lambda>x. if row_id x = row_id h then h' else x) (t_holdings db);
     holdings_ok hs; ledger_key r \<notin> ledger_key ` set (t_ledger db) \<rbrakk> \<Longrightarrow>
   post db (db\<lparr>t_ledger := t_ledger db @ [r], t_holdings := hs\<rparr>)"
| close_row: "\<lbrakk> h \<in> set (t_holdings db); entry_about r h;
     e_Delta r = - h_Quantity h; e_QuantityAfter r = 0;
     ledger_key r \<notin> ledger_key ` set (t_ledger db) \<rbrakk> \<Longrightarrow>
   post db (db\<lparr>t_ledger := t_ledger db @ [r],
     t_holdings := filter (\<lambda>x. row_id x \<noteq> row_id h) (t_holdings db)\<rparr>)"
| notify: "post db (db\<lparr>t_outbox := t_outbox db @ [ev]\<rparr>)"

inductive_cases post_elim: "post db db'"

text \<open>
  What the tables satisfy: the constraints, quantities that fit their column, one ledger row
  per key, and every holding equal to the sum of its ledger rows (a holding that is gone
  counts as 0). \<open>chain_ok\<close>: \<^verbatim>\<open>quantity_after\<close> is the running sum of each holding.
\<close>

definition balanced :: "asset_tables \<Rightarrow> bool" where
  "balanced db \<longleftrightarrow> (\<forall>p i. lsum (about p i) db = held db p i)"

definition accounts_agree :: "asset_tables \<Rightarrow> bool" where
  "accounts_agree db \<longleftrightarrow> (\<forall>a. lsum (\<lambda>r. entry_account r = a) db = owned db a)"

fun chain_from :: "(string \<times> string \<Rightarrow> int) \<Rightarrow> ledger_entry list \<Rightarrow> bool" where
  "chain_from run [] = True"
| "chain_from run (r # rs) = (let k = (e_ProjectID r, e_HoldingID r); n = run k + e_Delta r
     in e_QuantityAfter r = n \<and> chain_from (run(k := n)) rs)"

definition chain_ok :: "asset_tables \<Rightarrow> bool" where
  "chain_ok db = chain_from (\<lambda>_. 0) (t_ledger db)"

definition book_ok :: "asset_tables \<Rightarrow> bool" where
  "book_ok db \<longleftrightarrow> holdings_ok (t_holdings db) \<and>
     (\<forall>h \<in> set (t_holdings db). is_i64 (h_Quantity h) \<and> single db h) \<and>
     distinct (map (\<lambda>d. (d_ProjectID d, d_ID d)) (t_defs db)) \<and>
     distinct (map ledger_key (t_ledger db)) \<and> (\<forall>r \<in> set (t_ledger db). is_i64 (e_QuantityAfter r)) \<and>
     balanced db \<and> accounts_agree db \<and> chain_ok db"

section \<open>Sums under a change of one row\<close>

text \<open>A row of the table, and the rows around it, none of which has its identifier.\<close>

lemma row_split:
  assumes "distinct (map row_id hs)" and "h \<in> set hs"
  obtains ys zs where "hs = ys @ h # zs"
    and "\<forall>x \<in> set ys. row_id x \<noteq> row_id h" and "\<forall>x \<in> set zs. row_id x \<noteq> row_id h"
proof -
  obtain ys zs where hs: "hs = ys @ h # zs"
    using assms(2) by (auto dest: split_list)
  from assms(1) have "row_id h \<notin> row_id ` set ys" and "row_id h \<notin> row_id ` set zs"
    unfolding hs by auto
  then show thesis
    by (intro that [OF hs]) (auto simp: image_iff)
qed

lemma sum_replace_row:
  fixes f :: "holding \<Rightarrow> int"
  assumes "distinct (map row_id hs)" and "h \<in> set hs"
  shows "sum_list (map f (map (\<lambda>x. if row_id x = row_id h then h' else x) hs))
       = sum_list (map f hs) - f h + f h'"
proof -
  obtain ys zs where hs: "hs = ys @ h # zs" and y: "\<forall>x \<in> set ys. row_id x \<noteq> row_id h"
    and z: "\<forall>x \<in> set zs. row_id x \<noteq> row_id h"
    using assms by (rule row_split)
  have "map (\<lambda>x. if row_id x = row_id h then h' else x) ys = ys"
    "map (\<lambda>x. if row_id x = row_id h then h' else x) zs = zs"
    using y z by (auto intro!: map_idI)
  then show ?thesis by (simp add: hs)
qed

lemma sum_remove_row:
  fixes f :: "holding \<Rightarrow> int"
  assumes "distinct (map row_id hs)" and "h \<in> set hs"
  shows "sum_list (map f (filter (\<lambda>x. row_id x \<noteq> row_id h) hs)) = sum_list (map f hs) - f h"
proof -
  obtain ys zs where hs: "hs = ys @ h # zs" and y: "\<forall>x \<in> set ys. row_id x \<noteq> row_id h"
    and z: "\<forall>x \<in> set zs. row_id x \<noteq> row_id h"
    using assms by (rule row_split)
  have "filter (\<lambda>x. row_id x \<noteq> row_id h) ys = ys" "filter (\<lambda>x. row_id x \<noteq> row_id h) zs = zs"
    using y z by (auto intro!: filter_True)
  then show ?thesis by (simp add: hs)
qed

lemma holdings_ok_distinct: "holdings_ok hs \<Longrightarrow> distinct (map row_id hs)"
  by (simp add: holdings_ok_def)

lemma holdings_ok_filter: "holdings_ok hs \<Longrightarrow> holdings_ok (filter P hs)"
  by (auto simp: holdings_ok_def Prelude.distinct_map_filter list_all_iff)

lemma hsum_append: "t_holdings db' = t_holdings db @ [h] \<Longrightarrow>
    hsum P db' = hsum P db + (if P h then h_Quantity h else 0)"
  by (simp add: hsum_def)

lemma hsum_replace:
  assumes "distinct (map row_id (t_holdings db))" and "h \<in> set (t_holdings db)"
    and "t_holdings db' = map (\<lambda>x. if row_id x = row_id h then h' else x) (t_holdings db)"
  shows "hsum P db' = hsum P db - (if P h then h_Quantity h else 0) + (if P h' then h_Quantity h' else 0)"
  unfolding hsum_def assms(3) by (rule sum_replace_row [OF assms(1,2)])

lemma hsum_remove:
  assumes "distinct (map row_id (t_holdings db))" and "h \<in> set (t_holdings db)"
    and "t_holdings db' = filter (\<lambda>x. row_id x \<noteq> row_id h) (t_holdings db)"
  shows "hsum P db' = hsum P db - (if P h then h_Quantity h else 0)"
  unfolding hsum_def assms(3) by (rule sum_remove_row [OF assms(1,2)])

lemma sum_list_0': "(\<And>x. x \<in> set xs \<Longrightarrow> x = 0) \<Longrightarrow> sum_list xs = (0 :: int)"
  by (induction xs) auto

lemma lsum_append: "t_ledger db' = t_ledger db @ [r] \<Longrightarrow>
    lsum P db' = lsum P db + (if P r then e_Delta r else 0)"
  by (simp add: lsum_def)

lemma lsum_zero: "(\<And>x. x \<in> set (t_ledger db) \<Longrightarrow> \<not> P x) \<Longrightarrow> lsum P db = 0"
  unfolding lsum_def by (rule sum_list_0') auto

lemma held_row:
  assumes "distinct (map row_id (t_holdings db))" and "h \<in> set (t_holdings db)"
  shows "held db (h_ProjectID h) (h_ID h) = h_Quantity h"
proof -
  let ?f = "\<lambda>x. if row_id x = row_id h then h_Quantity x else 0"
  obtain ys zs where hs: "t_holdings db = ys @ h # zs" and y: "\<forall>x \<in> set ys. row_id x \<noteq> row_id h"
    and z: "\<forall>x \<in> set zs. row_id x \<noteq> row_id h"
    using assms by (rule row_split)
  have "sum_list (map ?f ys) = 0" "sum_list (map ?f zs) = 0"
    using y z by (auto intro!: sum_list_0')
  then show ?thesis
    by (simp add: held_def hsum_def hs row_id_def)
qed

section \<open>The chain of \<^verbatim>\<open>quantity_after\<close>\<close>

definition run_upto :: "(string \<times> string \<Rightarrow> int) \<Rightarrow> ledger_entry list \<Rightarrow> string \<times> string \<Rightarrow> int" where
  "run_upto run rs k = run k + sum_list (map (\<lambda>r. if about (fst k) (snd k) r then e_Delta r else 0) rs)"

lemma run_upto_Cons:
  "run_upto run (r # rs) k =
     run_upto (run((e_ProjectID r, e_HoldingID r) := run (e_ProjectID r, e_HoldingID r) + e_Delta r)) rs k"
  by (cases k) (simp add: run_upto_def about_def)

lemma chain_from_append:
  "chain_from run (rs @ [r]) \<longleftrightarrow> chain_from run rs \<and>
     e_QuantityAfter r = run_upto run rs (e_ProjectID r, e_HoldingID r) + e_Delta r"
proof (induction rs arbitrary: run)
  case Nil
  then show ?case by (simp add: run_upto_def)
next
  case (Cons x xs)
  show ?case
    unfolding run_upto_Cons [of run x xs] by (simp add: Let_def Cons.IH fun_upd_def)
qed

lemma chain_ok_append:
  assumes "chain_ok db" and "t_ledger db' = t_ledger db @ [r]"
    and "e_QuantityAfter r = lsum (about (e_ProjectID r) (e_HoldingID r)) db + e_Delta r"
  shows "chain_ok db'"
  using assms by (simp add: chain_ok_def chain_from_append run_upto_def lsum_def)

section \<open>Every step keeps the book\<close>

lemma entry_about_iff:
  "entry_about r h \<Longrightarrow> about p i r \<longleftrightarrow> row_id h = (p, i)"
  by (auto simp: entry_about_def about_def row_id_def account_of_def entry_account_def)

lemma row_id_fields: "(h_ProjectID h, h_ID h) = row_id h"
  by (simp add: row_id_def)

lemma held_row': "distinct (map row_id (t_holdings db)) \<Longrightarrow> h \<in> set (t_holdings db) \<Longrightarrow>
    row_id h = (p, i) \<Longrightarrow> held db p i = h_Quantity h"
  using held_row [of db h] by (simp add: row_id_def)

text \<open>One step changes the two sides of every equation by the same amount.\<close>

lemma post_sums:
  assumes "post db db'" and "distinct (map row_id (t_holdings db))"
  shows "lsum (about p i) db' - lsum (about p i) db = held db' p i - held db p i"
    and "lsum (\<lambda>r. entry_account r = a) db' - lsum (\<lambda>r. entry_account r = a) db = owned db' a - owned db a"
proof -
  have "lsum (about p i) db' - lsum (about p i) db = held db' p i - held db p i \<and>
    lsum (\<lambda>r. entry_account r = a) db' - lsum (\<lambda>r. entry_account r = a) db = owned db' a - owned db a"
    using assms
  proof (cases rule: post.cases)
    case (open_row r h)
    have "entry_account r = account_of h" using open_row by (simp add: entry_about_def)
    then show ?thesis
      using open_row by (simp add: lsum_append hsum_append held_def owned_def entry_about_iff)
  next
    case (change_row h h' r hs)
    have "entry_account r = account_of h'" using change_row by (simp add: entry_about_def)
    then show ?thesis
      using change_row assms(2)
      by (simp add: lsum_append hsum_replace [where h = h and h' = h'] held_def owned_def entry_about_iff)
  next
    case (close_row h r)
    have "entry_account r = account_of h" using close_row by (simp add: entry_about_def)
    then show ?thesis
      using close_row assms(2)
      by (simp add: lsum_append hsum_remove [where h = h] held_def owned_def entry_about_iff)
  next
    case (notify ev)
    then show ?thesis by (simp add: lsum_def held_def owned_def hsum_def)
  qed
  then show "lsum (about p i) db' - lsum (about p i) db = held db' p i - held db p i"
    and "lsum (\<lambda>r. entry_account r = a) db' - lsum (\<lambda>r. entry_account r = a) db = owned db' a - owned db a"
    by simp_all
qed

lemma post_holdings:
  assumes "post db db'" and "holdings_ok (t_holdings db)"
    and "\<forall>h \<in> set (t_holdings db). is_i64 (h_Quantity h) \<and> single db h"
  shows "holdings_ok (t_holdings db') \<and> t_defs db' = t_defs db \<and>
    (\<forall>h \<in> set (t_holdings db'). is_i64 (h_Quantity h) \<and> single db' h)"
  using assms by (cases rule: post.cases) (auto simp: holdings_ok_filter single_def)

lemma post_keys:
  "post db db' \<Longrightarrow> distinct (map ledger_key (t_ledger db)) \<Longrightarrow> distinct (map ledger_key (t_ledger db'))"
  by (cases rule: post.cases) auto

lemma post_after_i64:
  assumes "post db db'" and "\<forall>r \<in> set (t_ledger db). is_i64 (e_QuantityAfter r)"
  shows "\<forall>r \<in> set (t_ledger db'). is_i64 (e_QuantityAfter r)"
  using assms by (cases rule: post.cases) (auto simp: is_i64_def)

lemma post_chain:
  assumes "post db db'" and "chain_ok db" and "balanced db" and "distinct (map row_id (t_holdings db))"
  shows "chain_ok db'"
  using assms
proof (cases rule: post.cases)
  case (open_row r h)
  have "lsum (about (e_ProjectID r) (e_HoldingID r)) db = 0"
    using open_row by (intro lsum_zero) (auto simp: about_def entry_about_def)
  with open_row assms(2) show ?thesis by (simp add: chain_ok_append [of db])
next
  case (change_row h h' r hs)
  have "row_id h = (e_ProjectID r, e_HoldingID r)"
    using change_row by (auto simp: entry_about_def row_id_def account_of_def entry_account_def)
  then have "lsum (about (e_ProjectID r) (e_HoldingID r)) db = h_Quantity h"
    using change_row assms(3,4) by (simp add: balanced_def held_row')
  with change_row assms(2) show ?thesis by (simp add: chain_ok_append [of db])
next
  case (close_row h r)
  have "row_id h = (e_ProjectID r, e_HoldingID r)"
    using close_row by (auto simp: entry_about_def row_id_def account_of_def entry_account_def)
  then have "lsum (about (e_ProjectID r) (e_HoldingID r)) db = h_Quantity h"
    using close_row assms(3,4) by (simp add: balanced_def held_row')
  with close_row assms(2) show ?thesis by (simp add: chain_ok_append [of db])
next
  case (notify ev)
  with assms(2) show ?thesis by (simp add: chain_ok_def)
qed

lemma post_book_ok: "post db db' \<Longrightarrow> book_ok db \<Longrightarrow> book_ok db'"
proof -
  assume p: "post db db'" and b: "book_ok db"
  then have d: "distinct (map row_id (t_holdings db))"
    by (simp add: book_ok_def holdings_ok_def)
  have bal: "lsum (about q i) db = held db q i" for q i
    using b unfolding book_ok_def balanced_def by blast
  have acc: "lsum (\<lambda>r. entry_account r = a) db = owned db a" for a
    using b unfolding book_ok_def accounts_agree_def by blast
  have "balanced db'"
    unfolding balanced_def
  proof (intro allI)
    fix q i
    show "lsum (about q i) db' = held db' q i"
      using post_sums(1) [OF p d, of q i] bal [of q i] by linarith
  qed
  moreover have "accounts_agree db'"
    unfolding accounts_agree_def
  proof
    fix a
    show "lsum (\<lambda>r. entry_account r = a) db' = owned db' a"
      using post_sums(2) [OF p d, of a] acc [of a] by linarith
  qed
  ultimately show ?thesis
    using post_holdings [OF p] post_keys [OF p] post_after_i64 [OF p] post_chain [OF p] d b
    by (simp add: book_ok_def)
qed

lemma posts_book_ok: "post\<^sup>*\<^sup>* db db' \<Longrightarrow> book_ok db \<Longrightarrow> book_ok db'"
  by (induction rule: rtranclp_induct) (auto intro: post_book_ok)

text \<open>The ledger only grows: no step changes or drops a row.\<close>

lemma post_append_only: "post db db' \<Longrightarrow> \<exists>rs. t_ledger db' = t_ledger db @ rs"
  by (cases rule: post.cases) auto

lemma posts_append_only: "post\<^sup>*\<^sup>* db db' \<Longrightarrow> \<exists>rs. t_ledger db' = t_ledger db @ rs"
  by (induction rule: rtranclp_induct) (auto dest: post_append_only)

lemma posts_defs: "post\<^sup>*\<^sup>* db db' \<Longrightarrow> t_defs db' = t_defs db"
proof (induction rule: rtranclp_induct)
  case (step db1 db2)
  from step.hyps(2) have "t_defs db2 = t_defs db1" by (cases rule: post.cases) auto
  with step.IH show ?case by simp
qed simp

section \<open>What the service relies on\<close>

text \<open>
  The writes of the two repositories, as far as a successful call is concerned. \<open>tab\<close> is
  the tables a state holds.
\<close>

locale asset_repo =
  fixes tab :: "'w \<Rightarrow> asset_tables"
    and insert_row :: "holding \<Rightarrow> ('w, asset_err, unit) tx"
    and update_row :: "holding \<Rightarrow> int \<Rightarrow> ('w, asset_err, unit) tx"
    and delete_row :: "string \<Rightarrow> string \<Rightarrow> int \<Rightarrow> ('w, asset_err, unit) tx"
    and insert_entry :: "ledger_entry \<Rightarrow> ('w, asset_err, ledger_entry option \<times> bool) tx"
  assumes insert_row: "insert_row h w = (Inr u, w') \<Longrightarrow>
      tab w' = (tab w)\<lparr>t_holdings := t_holdings (tab w) @ [h]\<rparr> \<and> holdings_ok (t_holdings (tab w) @ [h])"
    and update_row: "update_row h' v w = (Inr u, w') \<Longrightarrow>
      (\<exists>r \<in> set (t_holdings (tab w)). at_version (h_ProjectID h') (h_ID h') v r) \<and>
      holdings_ok (t_holdings (tab w')) \<and>
      tab w' = (tab w)\<lparr>t_holdings := map (\<lambda>r. if at_version (h_ProjectID h') (h_ID h') v r
        then set_columns h' r else r) (t_holdings (tab w))\<rparr>"
    and delete_row: "delete_row p i v w = (Inr u, w') \<Longrightarrow>
      (\<exists>r \<in> set (t_holdings (tab w)). at_version p i v r) \<and>
      tab w' = (tab w)\<lparr>t_holdings := filter (\<lambda>r. \<not> at_version p i v r) (t_holdings (tab w))\<rparr>"
    and insert_entry_new: "insert_entry r w = (Inr (x, True), w') \<Longrightarrow>
      tab w' = (tab w)\<lparr>t_ledger := t_ledger (tab w) @ [r]\<rparr> \<and>
      ledger_key r \<notin> ledger_key ` set (t_ledger (tab w))"
    and insert_entry_old: "insert_entry r w = (Inr (x, False), w') \<Longrightarrow>
      tab w' = tab w \<and> ledger_key r \<in> ledger_key ` set (t_ledger (tab w))"
begin

text \<open>With distinct identifiers, the version check names the row itself.\<close>

lemma at_version_row:
  assumes "distinct (map row_id hs)" and "h \<in> set hs" and "x \<in> set hs"
  shows "at_version (h_ProjectID h) (h_ID h) (h_Version h) x \<longleftrightarrow> row_id x = row_id h"
proof -
  have "row_id x = row_id h \<Longrightarrow> x = h"
    using assms by (auto simp: distinct_map inj_on_def)
  then show ?thesis by (auto simp: at_version_def row_id_fields)
qed

lemma update_is_replace:
  assumes "update_row h' (h_Version h) w = (Inr u, w')" and "distinct (map row_id (t_holdings (tab w)))"
    and "h \<in> set (t_holdings (tab w))" and "row_id h' = row_id h" and "set_columns h' h = h'"
  shows "tab w' = (tab w)\<lparr>t_holdings := map (\<lambda>x. if row_id x = row_id h then h' else x) (t_holdings (tab w))\<rparr>
    \<and> holdings_ok (t_holdings (tab w'))"
proof -
  have i: "h_ProjectID h' = h_ProjectID h" "h_ID h' = h_ID h"
    using assms(4) by (simp_all add: row_id_def)
  have "row_id x = row_id h \<Longrightarrow> x \<in> set (t_holdings (tab w)) \<Longrightarrow> x = h" for x
    using assms(2,3) by (auto simp: distinct_map inj_on_def)
  then have eq: "map (\<lambda>r. if at_version (h_ProjectID h') (h_ID h') (h_Version h) r then set_columns h' r else r)
        (t_holdings (tab w)) = map (\<lambda>x. if row_id x = row_id h then h' else x) (t_holdings (tab w))"
    using at_version_row [OF assms(2,3)] assms(5) by (auto simp: i)
  show ?thesis
    unfolding eq [symmetric] using update_row [OF assms(1)] by blast
qed

lemma update_version:
  assumes "update_row h' v w = (Inr u, w')" and "distinct (map row_id (t_holdings (tab w)))"
    and "h \<in> set (t_holdings (tab w))" and "row_id h' = row_id h"
  shows "v = h_Version h"
proof -
  obtain r where "r \<in> set (t_holdings (tab w))" "at_version (h_ProjectID h') (h_ID h') v r"
    using update_row [OF assms(1)] by blast
  then show ?thesis
    using assms(2-4) by (auto simp: at_version_def row_id_fields distinct_map inj_on_def)
qed

lemma update_positive:
  assumes "update_row h' v w = (Inr u, w')" and "distinct (map row_id (t_holdings (tab w)))"
    and "h \<in> set (t_holdings (tab w))" and "row_id h' = row_id h" and "set_columns h' h = h'"
  shows "0 < h_Quantity h'"
proof -
  have "h' \<in> set (t_holdings (tab w'))"
    using update_is_replace [of h' h w u w'] update_version [OF assms(1-4)] assms
    by (auto simp: image_iff)
  then show ?thesis
    using update_row [OF assms(1)] by (auto simp: holdings_ok_def list_all_iff)
qed

lemma delete_is_remove:
  assumes "delete_row (h_ProjectID h) (h_ID h) (h_Version h) w = (Inr u, w')"
    and "distinct (map row_id (t_holdings (tab w)))" and "h \<in> set (t_holdings (tab w))"
  shows "tab w' = (tab w)\<lparr>t_holdings := filter (\<lambda>x. row_id x \<noteq> row_id h) (t_holdings (tab w))\<rparr>"
proof -
  have "filter (\<lambda>r. \<not> at_version (h_ProjectID h) (h_ID h) (h_Version h) r) (t_holdings (tab w))
      = filter (\<lambda>x. row_id x \<noteq> row_id h) (t_holdings (tab w))"
    using at_version_row [OF assms(2,3)] by (intro filter_cong) auto
  then show ?thesis
    using delete_row [OF assms(1)] by simp
qed

text \<open>A ledger row followed by the write it accounts for is one step of the book.\<close>

lemma post_insert:
  assumes "insert_entry r w = (Inr (x, True), w1)" and "insert_row h w1 = (Inr u, w2)"
    and "entry_about r h" and "e_Delta r = h_Quantity h" and "e_QuantityAfter r = h_Quantity h"
    and "is_i64 (h_Quantity h)" and "single (tab w) h"
    and "\<forall>x \<in> set (t_ledger (tab w)). e_HoldingID x \<noteq> h_ID h"
  shows "post (tab w) (tab w2)"
  using insert_entry_new [OF assms(1)] insert_row [OF assms(2)] post.open_row [OF assms(3-5), of "tab w"]
    assms(6-8) by simp

lemma post_update:
  assumes "insert_entry r w = (Inr (x, True), w1)" and "update_row h' (h_Version h) w1 = (Inr u, w2)"
    and "distinct (map row_id (t_holdings (tab w)))" and "h \<in> set (t_holdings (tab w))"
    and "row_id h' = row_id h" and "account_of h' = account_of h" and "set_columns h' h = h'"
    and "entry_about r h'" and "e_Delta r = h_Quantity h' - h_Quantity h"
    and "e_QuantityAfter r = h_Quantity h'" and "is_i64 (h_Quantity h')" and "single (tab w) h'"
  shows "post (tab w) (tab w2)"
proof -
  have t1: "tab w1 = (tab w)\<lparr>t_ledger := t_ledger (tab w) @ [r]\<rparr>"
    "ledger_key r \<notin> ledger_key ` set (t_ledger (tab w))"
    using insert_entry_new [OF assms(1)] by auto
  have "tab w2 = (tab w1)\<lparr>t_holdings := map (\<lambda>x. if row_id x = row_id h then h' else x) (t_holdings (tab w1))\<rparr>
    \<and> holdings_ok (t_holdings (tab w2))"
    using assms by (intro update_is_replace [OF assms(2)]) (simp_all add: t1)
  then have t2: "tab w2 = (tab w1)\<lparr>t_holdings := map (\<lambda>x. if row_id x = row_id h then h' else x) (t_holdings (tab w1))\<rparr>"
    and t3: "holdings_ok (map (\<lambda>x. if row_id x = row_id h then h' else x) (t_holdings (tab w)))"
    by (auto simp: t1)
  show ?thesis
    using post.change_row [OF assms(4-6,8-12) refl t3 t1(2)] by (simp add: t1 t2)
qed

lemma post_delete:
  assumes "insert_entry r w = (Inr (x, True), w1)"
    and "delete_row (h_ProjectID h) (h_ID h) (h_Version h) w1 = (Inr u, w2)"
    and "distinct (map row_id (t_holdings (tab w)))" and "h \<in> set (t_holdings (tab w))"
    and "entry_about r h" and "e_Delta r = - h_Quantity h" and "e_QuantityAfter r = 0"
  shows "post (tab w) (tab w2)"
proof -
  have t1: "tab w1 = (tab w)\<lparr>t_ledger := t_ledger (tab w) @ [r]\<rparr>"
    "ledger_key r \<notin> ledger_key ` set (t_ledger (tab w))"
    using insert_entry_new [OF assms(1)] by auto
  have t2: "tab w2 = (tab w1)\<lparr>t_holdings := filter (\<lambda>x. row_id x \<noteq> row_id h) (t_holdings (tab w1))\<rparr>"
    using assms by (intro delete_is_remove [OF assms(2)]) (simp_all add: t1)
  show ?thesis
    using post.close_row [OF assms(4-7)] t1 t2 by simp
qed

end

text \<open>The repositories of \<^verbatim>\<open>assets_repo.go\<close> keep these promises.\<close>

lemma ledger_insert_if_absent_Inr:
  "ledger_insert_if_absent e r w = (Inr (x, ins), w') \<Longrightarrow>
     (if ins then w_db w' = (w_db w)\<lparr>t_ledger := t_ledger (w_db w) @ [r]\<rparr> \<and>
        ledger_key r \<notin> ledger_key ` set (t_ledger (w_db w))
      else w_db w' = w_db w \<and> ledger_key r \<in> ledger_key ` set (t_ledger (w_db w))) \<and>
     w_ids w' = w_ids w \<and> w_ticks w' = w_ticks w"
  by (auto simp: ledger_insert_if_absent_def tx_simps db_write_Inr ledger_try_insert_def
      ledger_get_by_key_def list_ex_iff image_iff split: if_splits) (metis)+

interpretation repo: asset_repo w_db "holding_insert e" "holding_update e" "holding_delete e"
  "ledger_insert_if_absent e" for e
proof
  show "holding_insert e h w = (Inr u, w') \<Longrightarrow>
      w_db w' = (w_db w)\<lparr>t_holdings := t_holdings (w_db w) @ [h]\<rparr> \<and> holdings_ok (t_holdings (w_db w) @ [h])"
    for h w u w' by (simp add: tx_simps)
  show "holding_update e h' v w = (Inr u, w') \<Longrightarrow>
      (\<exists>r \<in> set (t_holdings (w_db w)). at_version (h_ProjectID h') (h_ID h') v r) \<and>
      holdings_ok (t_holdings (w_db w')) \<and>
      w_db w' = (w_db w)\<lparr>t_holdings := map (\<lambda>r. if at_version (h_ProjectID h') (h_ID h') v r
        then set_columns h' r else r) (t_holdings (w_db w))\<rparr>"
    for h' v w u w' by (simp add: tx_simps Let_def list_ex_iff)
  show "holding_delete e p i v w = (Inr u, w') \<Longrightarrow>
      (\<exists>r \<in> set (t_holdings (w_db w)). at_version p i v r) \<and>
      w_db w' = (w_db w)\<lparr>t_holdings := filter (\<lambda>r. \<not> at_version p i v r) (t_holdings (w_db w))\<rparr>"
    for p i v w u w' by (simp add: tx_simps list_ex_iff)
qed (auto dest: ledger_insert_if_absent_Inr)

end
