(* ===== verification/Asset_Verbs.thy ===== *)
theory Asset_Verbs
  imports Asset_Service Asset_Ledger
begin

text \<open>
  What the verbs of the write service guarantee: each successful run is a sequence of steps
  of the book of \<^verbatim>\<open>Asset_Ledger\<close>, so the ledger accounts for the holdings after it; what
  it takes and gives; and what a failed or repeated command leaves behind.
\<close>

section \<open>Runs of the book that draw identifiers\<close>

text \<open>
  Identifiers are never drawn twice (they are random UUIDs), and those not drawn yet occur
  nowhere in the tables.
\<close>

definition ids_of :: "asset_tables \<Rightarrow> string set" where
  "ids_of db = h_ID ` set (t_holdings db) \<union> e_HoldingID ` set (t_ledger db)"

definition ids_fresh :: "asset_env \<Rightarrow> asset_world \<Rightarrow> bool" where
  "ids_fresh e w \<longleftrightarrow> inj (env_id e) \<and> (\<forall>k \<ge> w_ids w. env_id e k \<notin> ids_of (w_db w))"

definition world_ok :: "asset_env \<Rightarrow> asset_world \<Rightarrow> bool" where
  "world_ok e w \<longleftrightarrow> book_ok (w_db w) \<and> ids_fresh e w"

definition book_run :: "asset_env \<Rightarrow> asset_world \<Rightarrow> asset_world \<Rightarrow> bool" where
  "book_run e w w' \<longleftrightarrow> post\<^sup>*\<^sup>* (w_db w) (w_db w') \<and> w_ids w \<le> w_ids w' \<and>
     ids_of (w_db w') \<subseteq> ids_of (w_db w) \<union> env_id e ` {w_ids w ..< w_ids w'}"

definition quiet :: "asset_world \<Rightarrow> asset_world \<Rightarrow> bool" where
  "quiet w w' \<longleftrightarrow> w_db w' = w_db w \<and> w_ids w \<le> w_ids w'"

lemma quiet_refl [simp, intro]: "quiet w w"
  by (simp add: quiet_def)

lemma quiet_trans [trans]: "quiet w w' \<Longrightarrow> quiet w' w'' \<Longrightarrow> quiet w w''"
  by (auto simp: quiet_def)

lemma quiet_book_run: "quiet w w' \<Longrightarrow> book_run e w w'"
  by (auto simp: quiet_def book_run_def)

lemma book_run_refl [simp, intro]: "book_run e w w"
  by (simp add: quiet_book_run)

lemma book_run_trans [trans]:
  assumes "book_run e w w'" and "book_run e w' w''"
  shows "book_run e w w''"
proof -
  have le: "w_ids w \<le> w_ids w'" "w_ids w' \<le> w_ids w''"
    using assms by (auto simp: book_run_def)
  then have "env_id e ` {w_ids w ..< w_ids w'} \<union> env_id e ` {w_ids w' ..< w_ids w''}
      = env_id e ` {w_ids w ..< w_ids w''}"
    by (simp add: image_Un [symmetric] ivl_disj_un)
  moreover have "post\<^sup>*\<^sup>* (w_db w) (w_db w'')"
    using assms by (auto simp: book_run_def)
  moreover have "w_ids w \<le> w_ids w''"
    using le by linarith
  ultimately show ?thesis
    using assms unfolding book_run_def by blast
qed

lemma book_run_world_ok:
  assumes "book_run e w w'" and "world_ok e w"
  shows "world_ok e w'"
proof -
  have "env_id e k \<notin> ids_of (w_db w')" if "w_ids w' \<le> k" for k
  proof
    assume "env_id e k \<in> ids_of (w_db w')"
    then have "env_id e k \<in> ids_of (w_db w) \<or> env_id e k \<in> env_id e ` {w_ids w ..< w_ids w'}"
      using assms(1) by (auto simp: book_run_def)
    moreover have "w_ids w \<le> k"
      using assms(1) that by (simp add: book_run_def)
    ultimately obtain x where x: "env_id e k = env_id e x" "x < w_ids w'"
      using assms(2) by (auto simp: world_ok_def ids_fresh_def)
    then have "k = x"
      using assms(2) by (auto simp: world_ok_def ids_fresh_def dest: injD)
    with x that show False by simp
  qed
  then show ?thesis
    using assms by (auto simp: world_ok_def ids_fresh_def book_run_def intro: posts_book_ok)
qed

lemma quiet_world_ok: "quiet w w' \<Longrightarrow> world_ok e w \<Longrightarrow> world_ok e w'"
  by (blast intro: quiet_book_run book_run_world_ok)

lemma one_post_run:
  assumes "post (w_db w) (w_db w')" and "w_ids w' = w_ids w"
    and "ids_of (w_db w') \<subseteq> ids_of (w_db w)"
  shows "book_run e w w'"
  using assms by (auto simp: book_run_def)

text \<open>The parts of a well-formed world that the proofs use.\<close>

lemma world_okD:
  assumes "world_ok e w"
  shows "distinct (map row_id (t_holdings (w_db w)))" and "holdings_ok (t_holdings (w_db w))"
    and "h \<in> set (t_holdings (w_db w)) \<Longrightarrow> 0 < h_Quantity h"
    and "h \<in> set (t_holdings (w_db w)) \<Longrightarrow> is_i64 (h_Quantity h)"
    and "h \<in> set (t_holdings (w_db w)) \<Longrightarrow> single (w_db w) h"
    and "distinct (map (\<lambda>d. (d_ProjectID d, d_ID d)) (t_defs (w_db w)))"
    and "book_ok (w_db w)"
  using assms by (auto simp: world_ok_def book_ok_def holdings_ok_def list_all_iff)

section \<open>Helpers that leave the tables alone\<close>

lemma db_read_quiet: "db_read e f w = (Inr a, w') \<Longrightarrow> quiet w w' \<and> a = f (w_db w)"
  by (auto simp: tx_simps quiet_def)

lemma new_id_Inr [tx_simps]:
  "new_id e w = (Inr i, w') \<longleftrightarrow> i = env_id e (w_ids w) \<and> w' = w\<lparr>w_ids := Suc (w_ids w)\<rparr>"
  by (auto simp: new_id_def)

lemma ts_Inr [tx_simps]:
  "ts e w = (Inr t, w') \<longleftrightarrow> t = env_clock e (w_ticks w) \<and> w' = w\<lparr>w_ticks := Suc (w_ticks w)\<rparr>"
  by (auto simp: ts_def)

lemma new_id_quiet: "new_id e w = (Inr i, w') \<Longrightarrow>
    quiet w w' \<and> i = env_id e (w_ids w) \<and> w_ids w' = Suc (w_ids w)"
  by (auto simp: tx_simps quiet_def)

lemma ts_quiet: "ts e w = (Inr t, w') \<Longrightarrow> quiet w w' \<and> w_ids w' = w_ids w"
  by (auto simp: tx_simps quiet_def)

lemma normalize_ref_quiet: "normalize_ref e rt rid fb w = (Inr r, w') \<Longrightarrow> quiet w w'"
  by (auto simp: normalize_ref_def tx_simps quiet_def Let_def split: if_splits)

lemma new_entry_quiet: "new_entry e r op w = (Inr r', w') \<Longrightarrow>
    quiet w w' \<and> (\<exists>i op'. r' = r\<lparr>e_ID := i, e_Operator := op'\<rparr>)"
  by (cases r) (auto simp: new_entry_def tx_simps quiet_def split: if_splits)

lemma load_replay_quiet: "load_replay e p key w = (Inr r, w') \<Longrightarrow>
    quiet w w' \<and> (r = None \<longleftrightarrow> (p, key) \<notin> ledger_key ` set (t_ledger (w_db w)))"
  by (auto simp: load_replay_def tx_simps quiet_def ledger_get_by_key_def ledger_list_by_ref_def
      find_None_iff dest!: find_Some_member intro: rev_image_eqI split: option.splits if_splits)

lemma replay_result_quiet: "replay_result e p key w = (Inr r, w') \<Longrightarrow>
    quiet w w' \<and> r_IdempotentReplay r"
  by (auto simp: replay_result_def tx_simps dest: load_replay_quiet)

lemma require_active_def_quiet: "require_active_def e p code w = (Inr d, w') \<Longrightarrow> quiet w w' \<and>
    d \<in> set (t_defs (w_db w)) \<and> d_ProjectID d = p \<and> d_Code d = code \<and> d_Status d = DefStatusActive"
  by (auto simp: require_active_def_def def_by_code_def def_get_def tx_simps quiet_def find_Some_iff
      split: option.splits if_splits)

lemma def_by_id_quiet: "def_by_id e p i w = (Inr d, w') \<Longrightarrow> quiet w w'"
  by (auto simp: def_by_id_def def_get_def dest: db_read_quiet)

lemma resolve_grant_expiry_quiet: "resolve_grant_expiry e d x w = (Inr t, w') \<Longrightarrow> quiet w w'"
  by (auto simp: resolve_grant_expiry_def tx_simps quiet_def split: option.splits if_splits)

lemma holding_list_quiet: "holding_list_for_update e p ot oid did w = (Inr hs, w') \<Longrightarrow>
    quiet w w' \<and> set hs = {h \<in> set (t_holdings (w_db w)). account_of h = (p, ot, oid, did)} \<and>
    (distinct (map row_id (t_holdings (w_db w))) \<longrightarrow> distinct (map row_id hs))"
  by (auto simp: holding_list_for_update_def tx_simps quiet_def account_of_def
      distinct_map inj_on_def)

lemma holding_get_quiet: "holding_get e p i w = (Inr (Some h), w') \<Longrightarrow>
    quiet w w' \<and> h \<in> set (t_holdings (w_db w)) \<and> row_id h = (p, i)"
  by (auto simp: holding_get_def tx_simps quiet_def List.find_Some_iff2)

lemma publish_run: "publish e d owner kind dl af now w = (Inr u, w') \<Longrightarrow>
    book_run e w w' \<and> t_holdings (w_db w') = t_holdings (w_db w) \<and> t_ledger (w_db w') = t_ledger (w_db w)"
proof -
  assume a: "publish e d owner kind dl af now w = (Inr u, w')"
  show ?thesis
  proof (cases "env_events e")
    case False
    with a show ?thesis by (simp add: publish_def tx_simps)
  next
    case True
    with a have "post (w_db w) (w_db w')"
      by (auto simp: publish_def tx_simps intro: post.notify)
    moreover from True a have "w_ids w' = Suc (w_ids w) \<and> ids_of (w_db w') = ids_of (w_db w)"
      "t_holdings (w_db w') = t_holdings (w_db w)" "t_ledger (w_db w') = t_ledger (w_db w)"
      by (auto simp: publish_def tx_simps ids_of_def)
    ultimately show ?thesis by (auto simp: book_run_def)
  qed
qed

section \<open>One debit, one credit\<close>

lemma entry_about_entry_for:
  "r = (entry_for h k dl af rt rid key now)\<lparr>e_ID := i, e_Operator := op\<rparr> \<Longrightarrow> entry_about r h"
  by (simp add: entry_about_def entry_account_def account_of_def entry_for_def)

lemma ids_of_change:
  assumes "t_ledger db' = t_ledger db @ [r]" and "entry_about r h" and "h \<in> set (t_holdings db)"
    and "h_ID ` set (t_holdings db') \<subseteq> h_ID ` set (t_holdings db)"
  shows "ids_of db' \<subseteq> ids_of db"
  using assms by (auto simp: ids_of_def entry_about_def)

text \<open>
  A ledger row and the update of its holding: one step, which leaves the other rows alone.
\<close>

lemma debit_update:
  assumes "world_ok e w" and "ledger_insert_if_absent e r w = (Inr (x, True), w1)"
    and "holding_update e h' v w1 = (Inr u, w2)" and "h \<in> set (t_holdings (w_db w))"
    and "row_id h' = row_id h" and "account_of h' = account_of h" and "set_columns h' h = h'"
    and "entry_about r h'" and "e_Delta r = h_Quantity h' - h_Quantity h"
    and "e_QuantityAfter r = h_Quantity h'" and "is_i64 (h_Quantity h')" and "single (w_db w) h'"
  shows "book_run e w w2 \<and> t_ledger (w_db w2) = t_ledger (w_db w) @ [r] \<and>
    (\<forall>y \<in> set (t_holdings (w_db w)). row_id y \<noteq> row_id h \<longrightarrow> y \<in> set (t_holdings (w_db w2))) \<and>
    h' \<in> set (t_holdings (w_db w2))"
proof -
  have d: "distinct (map row_id (t_holdings (w_db w)))"
    using assms(1) by (rule world_okD)
  have t1: "w_db w1 = (w_db w)\<lparr>t_ledger := t_ledger (w_db w) @ [r]\<rparr>" "w_ids w1 = w_ids w"
    using ledger_insert_if_absent_Inr [OF assms(2)] by auto
  have v: "v = h_Version h"
    using repo.update_version [OF assms(3), of h] assms(4,5) d t1 by simp
  have t2: "w_db w2 = (w_db w1)\<lparr>t_holdings := map (\<lambda>x. if row_id x = row_id h then h' else x) (t_holdings (w_db w1))\<rparr>"
    using repo.update_is_replace [OF assms(3) [unfolded v] _ _ assms(5,7)] assms(4) d t1 by simp
  have "post (w_db w) (w_db w2)"
    using repo.post_update [OF assms(2) assms(3) [unfolded v] d assms(4-12)] .
  moreover have "w_ids w2 = w_ids w1"
    using assms(3) by (auto simp: tx_simps Let_def)
  moreover have "ids_of (w_db w2) \<subseteq> ids_of (w_db w)"
    using assms(4,5,8) by (intro ids_of_change [of _ _ r h]) (auto simp: t1 t2 entry_about_def row_id_def assms(6))
  ultimately have "book_run e w w2"
    by (intro one_post_run) (simp_all add: t1(2))
  moreover have "h' \<in> set (t_holdings (w_db w2))"
    using assms(4) by (auto simp: t1 t2 image_iff)
  ultimately show ?thesis
    by (auto simp: t1 t2)
qed

lemma debit_delete:
  assumes "world_ok e w" and "ledger_insert_if_absent e r w = (Inr (x, True), w1)"
    and "holding_delete e (h_ProjectID h) (h_ID h) (h_Version h) w1 = (Inr u, w2)"
    and "h \<in> set (t_holdings (w_db w))"
    and "entry_about r h" and "e_Delta r = - h_Quantity h" and "e_QuantityAfter r = 0"
  shows "book_run e w w2 \<and> t_ledger (w_db w2) = t_ledger (w_db w) @ [r] \<and>
    (\<forall>y \<in> set (t_holdings (w_db w)). row_id y \<noteq> row_id h \<longrightarrow> y \<in> set (t_holdings (w_db w2)))"
proof -
  have d: "distinct (map row_id (t_holdings (w_db w)))"
    using assms(1) by (rule world_okD)
  have t1: "w_db w1 = (w_db w)\<lparr>t_ledger := t_ledger (w_db w) @ [r]\<rparr>" "w_ids w1 = w_ids w"
    using ledger_insert_if_absent_Inr [OF assms(2)] by auto
  have t2: "w_db w2 = (w_db w1)\<lparr>t_holdings := filter (\<lambda>x. row_id x \<noteq> row_id h) (t_holdings (w_db w1))\<rparr>"
    using repo.delete_is_remove [OF assms(3)] assms(4) d t1 by simp
  have "post (w_db w) (w_db w2)"
    using repo.post_delete [OF assms(2,3) d assms(4-7)] .
  moreover have "w_ids w2 = w_ids w1"
    using assms(3) by (auto simp: tx_simps)
  moreover have "ids_of (w_db w2) \<subseteq> ids_of (w_db w)"
    using assms(4,5) by (intro ids_of_change [of _ _ r h]) (auto simp: t1 t2)
  ultimately have "book_run e w w2"
    by (intro one_post_run) (simp_all add: t1(2))
  then show ?thesis
    by (auto simp: t1 t2)
qed

lemma credit_insert:
  assumes "world_ok e w" and "quiet w w0" and "ledger_insert_if_absent e r w0 = (Inr (x, True), w1)"
    and "holding_insert e h w1 = (Inr u, w2)"
    and "h_ID h = env_id e k" and "w_ids w \<le> k" and "k < w_ids w0"
    and "entry_about r h" and "e_Delta r = h_Quantity h" and "e_QuantityAfter r = h_Quantity h"
    and "is_i64 (h_Quantity h)" and "single (w_db w) h"
  shows "book_run e w w2 \<and> t_ledger (w_db w2) = t_ledger (w_db w) @ [r] \<and>
    t_holdings (w_db w2) = t_holdings (w_db w) @ [h]"
proof -
  have eq: "w_db w0 = w_db w" using assms(2) by (simp add: quiet_def)
  have t1: "w_db w1 = (w_db w)\<lparr>t_ledger := t_ledger (w_db w) @ [r]\<rparr>" "w_ids w1 = w_ids w0"
    using ledger_insert_if_absent_Inr [OF assms(3)] by (auto simp: eq)
  have t2: "w_db w2 = (w_db w1)\<lparr>t_holdings := t_holdings (w_db w1) @ [h]\<rparr>" "w_ids w2 = w_ids w0"
    using assms(4) t1 by (auto simp: tx_simps)
  have "\<forall>x \<in> set (t_ledger (w_db w0)). e_HoldingID x \<noteq> h_ID h"
    using assms(1,5,6) by (simp add: world_ok_def ids_fresh_def ids_of_def eq image_iff) metis
  then have "post (w_db w0) (w_db w2)"
    using repo.post_insert [OF assms(3,4,8-11)] assms(12) by (simp add: eq)
  moreover have "ids_of (w_db w2) \<subseteq> ids_of (w_db w) \<union> env_id e ` {w_ids w ..< w_ids w2}"
    using assms(5-8) by (auto simp: ids_of_def t1 t2 entry_about_def)
  ultimately show ?thesis
    using assms(2) t2(2) by (auto simp: book_run_def quiet_def eq t1(1) t2(1))
qed

lemmas quiet_dests = new_id_quiet ts_quiet normalize_ref_quiet new_entry_quiet load_replay_quiet
  require_active_def_quiet def_by_id_quiet resolve_grant_expiry_quiet holding_list_quiet
  holding_get_quiet

section \<open>Grant\<close>

lemma upsert_grant_holding_run:
  assumes "upsert_grant_holding e d p ot cmd expires live now w = (Inr (h, created), w')"
    and "d_Class d = ClassInstance \<longrightarrow> gc_Quantity cmd = 1"
  shows "quiet w w'"
    and "created \<Longrightarrow> account_of h = (p, ot, gc_OwnerID cmd, d_ID d) \<and> h_ID h = env_id e (w_ids w) \<and>
      w_ids w < w_ids w' \<and> h_Quantity h = gc_Quantity cmd"
    and "\<not> created \<Longrightarrow> d_Class d \<noteq> ClassInstance \<and> (\<exists>h0 \<in> set live. h = add_to_holding h0 (gc_Quantity cmd) now)"
  using assms by (auto simp: upsert_grant_holding_def tx_simps account_of_def quiet_def
      dest: find_Some_member split: if_splits option.splits)

lemma def_unique:
  assumes "world_ok e w" and "d \<in> set (t_defs (w_db w))" and "d' \<in> set (t_defs (w_db w))"
    and "d_ProjectID d' = d_ProjectID d" and "d_ID d' = d_ID d"
  shows "d' = d"
  using world_okD(6) [OF assms(1)] assms(2-5) by (auto simp: distinct_map inj_on_def)

text \<open>A holding of the definition \<open>d\<close>.\<close>

lemma singleI:
  assumes "world_ok e w" and "d \<in> set (t_defs (w_db w))" and "d_ProjectID d = h_ProjectID h"
    and "d_ID d = h_DefID h" and "d_Class d = ClassInstance \<longrightarrow> h_Quantity h = 1"
  shows "single (w_db w) h"
  using def_unique [OF assms(1,2)] assms(3-5) by (auto simp: single_def)

lemma add_to_holding_fields [simp]:
  "row_id (add_to_holding h q now) = row_id h" "account_of (add_to_holding h q now) = account_of h"
  "set_columns (add_to_holding h q now) h = add_to_holding h q now"
  "h_Quantity (add_to_holding h q now) = i64 (h_Quantity h + q)"
  by (simp_all add: add_to_holding_def row_id_def account_of_def set_columns_def)

text \<open>
  A positive sum of two positive \<^verbatim>\<open>int64\<close> values did not wrap, which is why the constraint
  \<^verbatim>\<open>quantity > 0\<close> of the table is enough.
\<close>

lemma i64_add_positive: "is_i64 a \<Longrightarrow> is_i64 b \<Longrightarrow> 0 < a \<Longrightarrow> 0 < b \<Longrightarrow> 0 < i64 (a + b) \<Longrightarrow> i64 (a + b) = a + b"
  by (auto simp: is_i64_def i64_def mod_if split: if_splits) (smt (verit) mod_pos_pos_trivial minus_mod_self2)

lemma entry_for_fields [simp]:
  "e_Delta (entry_for h k dl af rt rid key now) = dl"
  "e_QuantityAfter (entry_for h k dl af rt rid key now) = af"
  "ledger_key (entry_for h k dl af rt rid key now) = (h_ProjectID h, key)"
  "entry_account (entry_for h k dl af rt rid key now) = account_of h"
  by (simp_all add: entry_for_def ledger_key_def entry_account_def account_of_def)

text \<open>
  A ledger row of quantity \<open>q\<close> and the row it goes to, new or already there, as Grant and
  the receiving side of Transfer write them.
\<close>

lemma add_write_run:
  assumes "world_ok e w" and "quiet w w0" and "is_i64 q" and "0 < q"
    and "d_Class d = ClassInstance \<longrightarrow> q = 1" and "d \<in> set (t_defs (w_db w))"
    and "a = (d_ProjectID d, ot, owner, d_ID d)"
    and "created \<Longrightarrow> account_of h = a \<and> h_ID h = env_id e (w_ids w) \<and> w_ids w < w_ids w0 \<and> h_Quantity h = q"
    and "\<not> created \<Longrightarrow> d_Class d \<noteq> ClassInstance \<and>
      (\<exists>h0 \<in> set (t_holdings (w_db w)). account_of h0 = a \<and> h = add_to_holding h0 q now)"
    and "new_entry e (entry_for h kind q (h_Quantity h) rt rid key now) opr w0 = (Inr r, w1)"
    and "ledger_insert_if_absent e r w1 = (Inr (x, True), w2)"
    and "(if created then holding_insert e h else holding_update e h (i64 (h_Version h - 1))) w2 = (Inr u, w3)"
  shows "book_run e w w3 \<and> t_ledger (w_db w3) = t_ledger (w_db w) @ [r] \<and> e_Delta r = q \<and>
    entry_account r = a \<and> ledger_key r = (d_ProjectID d, key) \<and> h \<in> set (t_holdings (w_db w3)) \<and>
    (\<forall>y \<in> set (t_holdings (w_db w)). row_id y \<noteq> row_id h \<longrightarrow> y \<in> set (t_holdings (w_db w3)))"
proof -
  obtain i op' where r: "r = (entry_for h kind q (h_Quantity h) rt rid key now)\<lparr>e_ID := i, e_Operator := op'\<rparr>"
    and q1: "quiet w0 w1"
    using new_entry_quiet [OF assms(10)] by blast
  have rf: "e_Delta r = q" "e_QuantityAfter r = h_Quantity h" "entry_account r = account_of h"
      "ledger_key r = (h_ProjectID h, key)" "entry_about r h"
    using entry_about_entry_for [OF r] by (simp_all add: r entry_for_def ledger_key_def entry_account_def account_of_def)
  have q2: "quiet w w1" using assms(2) q1 by (rule quiet_trans)
  show ?thesis
  proof (cases created)
    case True
    have h: "account_of h = a" "h_ID h = env_id e (w_ids w)" "w_ids w < w_ids w0" "h_Quantity h = q"
      using assms(8) True by auto
    have "w_ids w < w_ids w1" using h(3) q1 by (simp add: quiet_def)
    moreover have "single (w_db w) h"
      using assms(5,7) h by (intro singleI [OF assms(1,6)]) (auto simp: account_of_def)
    ultimately have "book_run e w w3 \<and> t_ledger (w_db w3) = t_ledger (w_db w) @ [r] \<and>
        t_holdings (w_db w3) = t_holdings (w_db w) @ [h]"
      using credit_insert [OF assms(1) q2 assms(11), of h u w3 "w_ids w"] assms(3,12) True h rf by simp
    then show ?thesis using h rf assms(7) by (auto simp: account_of_def)
  next
    case False
    then obtain h0 where h0: "h0 \<in> set (t_holdings (w_db w))" "account_of h0 = a"
        and h: "h = add_to_holding h0 q now" and nc: "d_Class d \<noteq> ClassInstance"
      using assms(9) by auto
    have m: "h0 \<in> set (t_holdings (w_db w1))" and eq: "w_db w1 = w_db w"
      using h0 q2 by (auto simp: quiet_def)
    have ok1: "world_ok e w1" using q2 assms(1) by (rule quiet_world_ok)
    have up2: "holding_update e h (i64 (h_Version h - 1)) w2 = (Inr u, w3)"
      using assms(12) False by simp
    have t2: "t_holdings (w_db w2) = t_holdings (w_db w1)"
      using ledger_insert_if_absent_Inr [OF assms(11)] by simp
    have "0 < i64 (h_Quantity h0 + q)"
      using repo.update_positive [OF up2, of h0] world_okD(1) [OF ok1] m by (simp add: t2 h)
    then have "i64 (h_Quantity h0 + q) = h_Quantity h0 + q"
      using world_okD(3,4) [OF ok1 m] assms(3,4) by (intro i64_add_positive)
    moreover have "is_i64 (i64 (h_Quantity h0 + q))" by simp
    moreover have "single (w_db w1) h"
      using nc h0(2) assms(6,7) eq
      by (intro singleI [OF ok1, of d]) (auto simp: h account_of_def add_to_holding_def)
    ultimately have "book_run e w1 w3 \<and> t_ledger (w_db w3) = t_ledger (w_db w1) @ [r] \<and>
        h \<in> set (t_holdings (w_db w3)) \<and>
        (\<forall>y \<in> set (t_holdings (w_db w1)). row_id y \<noteq> row_id h \<longrightarrow> y \<in> set (t_holdings (w_db w3)))"
      using debit_update [OF ok1 assms(11) up2 m] rf by (simp add: h)
    then show ?thesis
      using quiet_book_run [OF q2] rf h0(2) assms(7) eq
      by (auto simp: h account_of_def add_to_holding_def intro: book_run_trans)
  qed
qed

lemma grant_write_run:
  assumes "world_ok e w" and "quiet w w0" and "is_i64 q" and "0 < q"
    and "upsert_grant_holding e d p ot cmd expires live now w = (Inr (h, created), w0)"
    and "gc_Quantity cmd = q" and "d_Class d = ClassInstance \<longrightarrow> q = 1"
    and "\<forall>x \<in> set live. x \<in> set (t_holdings (w_db w)) \<and> account_of x = (p, ot, gc_OwnerID cmd, d_ID d)"
    and "new_entry e (entry_for h KindGrant q (h_Quantity h) rt rid key now) opr w0 = (Inr r, w1)"
    and "ledger_insert_if_absent e r w1 = (Inr (x, True), w2)"
    and "(if created then holding_insert e h else holding_update e h (i64 (h_Version h - 1))) w2 = (Inr u, w3)"
    and "d \<in> set (t_defs (w_db w))" and "d_ProjectID d = p"
  shows "book_run e w w3 \<and> t_ledger (w_db w3) = t_ledger (w_db w) @ [r] \<and> e_Delta r = q \<and>
    entry_account r = (p, ot, gc_OwnerID cmd, d_ID d) \<and> ledger_key r = (p, key)"
proof -
  have up: "d_Class d = ClassInstance \<longrightarrow> gc_Quantity cmd = 1" using assms(6,7) by simp
  note up = upsert_grant_holding_run [OF assms(5) up]
  show ?thesis
    using add_write_run [OF assms(1-4,7,12) _ _ _ assms(9-11), of "(p, ot, gc_OwnerID cmd, d_ID d)" ot "gc_OwnerID cmd"]
      up assms(6,8,13) by auto
qed

lemma grant_body_run:
  assumes "grant_body e sc cmd ot key code w = (Inr r, w')" and "world_ok e w" and "is_i64 (gc_Quantity cmd)"
  shows "book_run e w w' \<and> (if (sc_ProjectID sc, key) \<in> ledger_key ` set (t_ledger (w_db w))
    then r_IdempotentReplay r \<and> w_db w' = w_db w
    else \<not> r_IdempotentReplay r \<and> (\<exists>en. r_Entries r = [en] \<and>
      t_ledger (w_db w') = t_ledger (w_db w) @ [en] \<and> e_Delta en = gc_Quantity cmd \<and>
      (\<exists>d. entry_account en = (sc_ProjectID sc, ot, gc_OwnerID cmd, d_ID d) \<and>
        d \<in> set (t_defs (w_db w)) \<and> d_ProjectID d = sc_ProjectID sc \<and> d_Code d = code)))"
proof -
  from assms(1) show ?thesis
    unfolding grant_body_def Let_def
  proof (elim tx_elims, goal_cases)
    case (1 ro w1 d w2 ex w3 u1 w4 hs w5 now w6 u2 w7 rr w8 rt rid hc w9 h created entry w10 ins w11 x inserted)
    let ?live = "live_holdings hs now"
    have q: "quiet w w1" "quiet w1 w2" "quiet w2 w3" "quiet w3 w5" "quiet w5 w6" "quiet w6 w8"
      using 1 by (auto dest: quiet_dests)
    then have qw: "quiet w w8" by (blast intro: quiet_trans)
    have ok: "world_ok e w8" using qw assms(2) by (rule quiet_world_ok)
    have q8: "quiet w w2" "quiet w w3" using q by (blast intro: quiet_trans)+
    have new: "(sc_ProjectID sc, key) \<notin> ledger_key ` set (t_ledger (w_db w))"
      using load_replay_quiet [OF 1(1)] 1(2) by simp
    have d: "d \<in> set (t_defs (w_db w))" "d_ProjectID d = sc_ProjectID sc" "d_Code d = code"
      using require_active_def_quiet [OF 1(3)] q(1) by (auto simp: quiet_def)
    have v: "0 < gc_Quantity cmd" "d_Class d = ClassInstance \<longrightarrow> gc_Quantity cmd = 1"
      using 1(7) by (auto simp: validate_grant_def split: if_splits)
    have live: "\<forall>y \<in> set ?live. y \<in> set (t_holdings (w_db w8)) \<and>
        account_of y = (sc_ProjectID sc, ot, gc_OwnerID cmd, d_ID d)"
      using holding_list_quiet [OF 1(5)] q8(2) qw 1(8) by (auto simp: live_holdings_def quiet_def)
    have up: "upsert_grant_holding e d (sc_ProjectID sc) ot cmd ex ?live now w8 = (Inr (h, created), w9)"
      using 1(14,15) by simp
    obtain i op' where en: "entry = (entry_for h KindGrant (gc_Quantity cmd) (h_Quantity h) rt rid key now)\<lparr>e_ID := i, e_Operator := op'\<rparr>"
      and q9: "quiet w9 w10" using new_entry_quiet [OF 1(16)] by blast
    have "quiet w8 w9" by (rule upsert_grant_holding_run(1) [OF up v(2)])
    have "ledger_key entry = (sc_ProjectID sc, key)"
      using upsert_grant_holding_run(2,3) [OF up v(2)] live
      by (cases created) (auto simp: en entry_for_def ledger_key_def account_of_def add_to_holding_def)
    moreover have "w_db w10 = w_db w"
      using qw \<open>quiet w8 w9\<close> q9 by (simp add: quiet_def)
    ultimately have ins: "inserted"
      using ledger_insert_if_absent_Inr [of e entry w10 x inserted w11] 1(17,18) new by (cases inserted) auto
    obtain u w12 where wr: "(if created then holding_insert e h else holding_update e h (i64 (h_Version h - 1))) w11 = (Inr u, w12)"
      and pb: "publish e d (gc_OwnerID cmd) KindGrant (gc_Quantity cmd) (h_Quantity h) now w12 = (Inr (), w')"
      and r: "r = \<lparr>r_Entries = [entry], r_IdempotentReplay = False\<rparr>"
      using 1(19) ins by (auto elim!: tx_bind_InrE tx_ret_InrE)
    have g: "book_run e w8 w12 \<and> t_ledger (w_db w12) = t_ledger (w_db w8) @ [entry] \<and>
        e_Delta entry = gc_Quantity cmd \<and>
        entry_account entry = (sc_ProjectID sc, ot, gc_OwnerID cmd, d_ID d) \<and> ledger_key entry = (sc_ProjectID sc, key)"
      using grant_write_run [OF ok \<open>quiet w8 w9\<close> assms(3) v(1) up refl v(2) live 1(16) _ wr] 1(17,18) ins d qw by (auto simp: quiet_def)
    have "book_run e w w'"
      using quiet_book_run [OF qw] g publish_run [OF pb] by (blast intro: book_run_trans)
    then show ?case
      using new r g publish_run [OF pb] d qw by (auto simp: quiet_def)
  next
    case (2 a w1 es)
    then show ?case
      using load_replay_quiet [OF 2(1)] by (auto intro: quiet_book_run simp: quiet_def)
  qed
qed

section \<open>Mutate and Expire\<close>

text \<open>A ledger row that carries a key no row has yet is inserted.\<close>

lemma fresh_key_inserted:
  assumes "ledger_insert_if_absent e r w = (Inr (x, ins), w')"
    and "ledger_key r \<notin> ledger_key ` set (t_ledger (w_db w))"
  shows "ins"
  using ledger_insert_if_absent_Inr [OF assms(1)] assms(2) by (cases ins) auto

lemma mutate_holding_fields:
  "mutate_holding d h cmd = Inr h' \<Longrightarrow>
     row_id h' = row_id h \<and> account_of h' = account_of h \<and> h_Quantity h' = h_Quantity h \<and>
     h_CreatedAt h' = h_CreatedAt h"
  by (auto simp: mutate_holding_def Let_def row_id_def account_of_def normalize_expiry_def
      split: option.splits if_splits)

lemma set_columns_same:
  "row_id h' = row_id h \<Longrightarrow> account_of h' = account_of h \<Longrightarrow> h_CreatedAt h' = h_CreatedAt h \<Longrightarrow>
     set_columns h' h = h'"
  by (cases h; cases h') (simp add: set_columns_def row_id_def account_of_def)

lemma mutate_body_run:
  assumes "mutate_body e sc cmd key w = (Inr r, w')" and "world_ok e w"
  shows "book_run e w w' \<and> (if (sc_ProjectID sc, key) \<in> ledger_key ` set (t_ledger (w_db w))
    then r_IdempotentReplay r \<and> w_db w' = w_db w
    else \<not> r_IdempotentReplay r \<and> (\<exists>en. r_Entries r = [en] \<and>
      t_ledger (w_db w') = t_ledger (w_db w) @ [en] \<and> e_Delta en = 0))"
proof -
  from assms(1) show ?thesis
    unfolding mutate_body_def Let_def
  proof (elim tx_elims, goal_cases)
    case (1 ro w1)
    then show ?case by (simp add: tx_simps)
  next
    case (2 ro w1 ho w2 h)
    then show ?case by (simp add: tx_simps)
  next
    case (3 ro w1 ho w2 h dd w3 d u1 w4 now w5 h' w6 rr w7 rt rid entry w8 ins w9 x inserted)
    let ?hm = "h'\<lparr>h_Version := i64 (h_Version h + 1), h_UpdatedAt := now\<rparr>"
    have q: "quiet w w1" "quiet w1 w2" "quiet w2 w3" "quiet w3 w5" "quiet w5 w7" "quiet w7 w8"
      using 3 by (auto dest: quiet_dests)
    then have qw: "quiet w w8" by (blast intro: quiet_trans)
    have ok: "world_ok e w8" using qw assms(2) by (rule quiet_world_ok)
    have new: "(sc_ProjectID sc, key) \<notin> ledger_key ` set (t_ledger (w_db w))"
      using load_replay_quiet [OF 3(1)] 3(2) by simp
    have h: "h \<in> set (t_holdings (w_db w8))" "h_ProjectID h = sc_ProjectID sc"
      using holding_get_quiet [of e _ _ w1 h w2] 3(3,4) qw q(1) by (auto simp: quiet_def row_id_def)
    have hm: "row_id ?hm = row_id h" "account_of ?hm = account_of h" "h_Quantity ?hm = h_Quantity h"
        "h_CreatedAt ?hm = h_CreatedAt h"
      using mutate_holding_fields [of d h cmd h'] 3(8-13) by (simp_all add: row_id_def account_of_def)
    obtain i op' where en: "entry = (entry_for ?hm KindMutate 0 (h_Quantity ?hm) rt rid key now)\<lparr>e_ID := i, e_Operator := op'\<rparr>"
      using new_entry_quiet [OF 3(14)] by blast
    have ef: "entry_about entry ?hm" "e_Delta entry = h_Quantity ?hm - h_Quantity h"
        "e_QuantityAfter entry = h_Quantity ?hm" "ledger_key entry = (sc_ProjectID sc, key)"
      using entry_about_entry_for [OF en] hm h(2) by (simp_all add: en entry_for_def ledger_key_def row_id_def)
    have ins: "inserted"
      using fresh_key_inserted [of e entry w8 x inserted w9] 3(15,16) ef(4) new qw by (simp add: quiet_def)
    obtain u w10 where wr: "holding_update e ?hm (h_Version h) w9 = (Inr u, w10)"
      and pb: "publish e d (h_OwnerID ?hm) KindMutate 0 (h_Quantity ?hm) now w10 = (Inr (), w')"
      and r: "r = \<lparr>r_Entries = [entry], r_IdempotentReplay = False\<rparr>"
      using 3(17) ins by (auto elim!: tx_bind_InrE tx_ret_InrE)
    have "single (w_db w8) ?hm"
      using world_okD(5) [OF ok h(1)] hm(2,3) by (simp add: single_def account_of_def)
    then have g: "book_run e w8 w10 \<and> t_ledger (w_db w10) = t_ledger (w_db w8) @ [entry]"
      using debit_update [OF ok _ wr h(1) hm(1,2) set_columns_same [OF hm(1,2,4)] ef(1-3)]
        3(15,16) ins world_okD(4) [OF ok h(1)] hm(3) by simp
    have "book_run e w w'"
      using quiet_book_run [OF qw] g publish_run [OF pb] by (blast intro: book_run_trans)
    then show ?case
      using new r g publish_run [OF pb] qw ef hm(3) by (auto simp: quiet_def)
  next
    case (4 ro w1 es)
    then show ?case
      using load_replay_quiet [OF 4(1)] by (auto intro: quiet_book_run simp: quiet_def)
  qed
qed

lemma expire_holding_run:
  assumes "expire_holding e sc p hid key w = (Inr r, w')" and "world_ok e w"
  shows "book_run e w w' \<and> (if (p, key) \<in> ledger_key ` set (t_ledger (w_db w))
    then r_IdempotentReplay r \<and> w_db w' = w_db w
    else \<not> r_IdempotentReplay r \<and> (\<exists>h en. h \<in> set (t_holdings (w_db w)) \<and> row_id h = (p, hid) \<and>
      r_Entries r = [en] \<and> t_ledger (w_db w') = t_ledger (w_db w) @ [en] \<and>
      e_Delta en = - h_Quantity h \<and> entry_account en = account_of h))"
proof -
  from assms(1) show ?thesis
    unfolding expire_holding_def Let_def
  proof (elim tx_elims, goal_cases)
    case (1 ro w1)
    then show ?case by (simp add: tx_simps)
  next
    case (2 ro w1 ho w2 h)
    then show ?case by (simp add: tx_simps)
  next
    case (3 ro w1 ho w2 h dd w3 d now w5 entry w8 ins w9 x inserted)
    have q: "quiet w w1" "quiet w1 w2" "quiet w2 w3" "quiet w3 w5" "quiet w5 w8"
      using 3 by (auto dest: quiet_dests)
    then have qw: "quiet w w8" by (blast intro: quiet_trans)
    have ok: "world_ok e w8" using qw assms(2) by (rule quiet_world_ok)
    have new: "(p, key) \<notin> ledger_key ` set (t_ledger (w_db w))"
      using load_replay_quiet [OF 3(1)] 3(2) by simp
    have h: "h \<in> set (t_holdings (w_db w8))" "row_id h = (p, hid)"
      using holding_get_quiet [of e _ _ w1 h w2] 3(3,4) qw q(1) by (auto simp: quiet_def)
    then have p: "h_ProjectID h = p" by (simp add: row_id_def)
    have hq: "i64 (- h_Quantity h) = - h_Quantity h"
      using world_okD(3,4) [OF ok h(1)] by (intro i64_id) (simp add: is_i64_def)
    obtain i op' where en: "entry = (entry_for h KindExpire (- h_Quantity h) 0 ''system'' (h_ID h) key now)
        \<lparr>e_ID := i, e_Operator := op'\<rparr>"
      using new_entry_quiet [OF 3(8)] p by (auto simp: hq entry_for_def)
    have ef: "entry_about entry h" "e_Delta entry = - h_Quantity h"
        "e_QuantityAfter entry = 0" "ledger_key entry = (p, key)" "entry_account entry = account_of h"
      using entry_about_entry_for [OF en] p by (simp_all add: en entry_for_def ledger_key_def
          entry_account_def account_of_def)
    have ins: "inserted"
      using fresh_key_inserted [of e entry w8 x inserted w9] 3(9,10) ef(4) new qw by (simp add: quiet_def)
    obtain u w10 where wr: "holding_delete e p (h_ID h) (h_Version h) w9 = (Inr u, w10)"
      and pb: "publish e d (h_OwnerID h) KindExpire (i64 (- h_Quantity h)) 0 now w10 = (Inr (), w')"
      and r: "r = \<lparr>r_Entries = [entry], r_IdempotentReplay = False\<rparr>"
      using 3(11) ins by (auto elim!: tx_bind_InrE tx_ret_InrE)
    have g: "book_run e w8 w10 \<and> t_ledger (w_db w10) = t_ledger (w_db w8) @ [entry]"
      using debit_delete [OF ok _ wr [folded p] h(1) ef(1-3)] 3(9,10) ins by simp
    have "book_run e w w'"
      using quiet_book_run [OF qw] g publish_run [OF pb] by (blast intro: book_run_trans)
    then show ?case
      using new r g publish_run [OF pb] qw ef h by (auto simp: quiet_def)
  next
    case (4 ro w1 es)
    then show ?case
      using load_replay_quiet [OF 4(1)] by (auto intro: quiet_book_run simp: quiet_def)
  qed
qed

section \<open>The debit loop\<close>

text \<open>
  The reference for the order of debits: take from each row in turn what is there, until the
  quantity is reached.
\<close>

fun drain :: "holding list \<Rightarrow> int \<Rightarrow> (holding \<times> int) list" where
  "drain [] q = []"
| "drain (h # hs) q = (if q = 0 then [] else
     let t = min q (h_Quantity h) in (h, t) # drain hs (q - t))"

lemma drain_zero [simp]: "drain hs 0 = []"
  by (cases hs) auto

lemma drain_sum:
  "\<forall>h \<in> set hs. 0 < h_Quantity h \<Longrightarrow> 0 \<le> q \<Longrightarrow>
     sum_list (map snd (drain hs q)) = min q (sum_list (map h_Quantity hs))"
proof (induction hs q rule: drain.induct)
  case (1 q)
  then show ?case by simp
next
  case (2 h hs q)
  have "0 \<le> sum_list (map h_Quantity hs)"
    using "2.prems"(1) by (intro sum_list_nonneg) auto
  then show ?case
    using 2 by (auto simp: Let_def min_def)
qed

lemma drain_members: "(h, t) \<in> set (drain hs q) \<Longrightarrow> h \<in> set hs"
  by (induction hs q rule: drain.induct) (auto simp: Let_def split: if_splits)

lemma debit_one:
  assumes "world_ok e w" and "quiet w w0" and "h \<in> set (t_holdings (w_db w))" and "h_ProjectID h = p"
    and "0 < t" and "t \<le> h_Quantity h"
    and "r = (entry_for h kind (- t) (h_Quantity h - t) rt rid k now)\<lparr>e_ID := i, e_Operator := op'\<rparr>"
    and "ledger_insert_if_absent e r w0 = (Inr (x, True), w1)"
    and "(if h_Quantity h - t = 0 then holding_delete e p (h_ID h) (h_Version h)
      else holding_update e (h\<lparr>h_Quantity := h_Quantity h - t, h_Version := v, h_UpdatedAt := now\<rparr>) (h_Version h)) w1
      = (Inr u, w2)"
  shows "book_run e w w2 \<and> t_ledger (w_db w2) = t_ledger (w_db w) @ [r] \<and>
    (\<forall>y \<in> set (t_holdings (w_db w)). row_id y \<noteq> row_id h \<longrightarrow> y \<in> set (t_holdings (w_db w2)))"
proof -
  have ok: "world_ok e w0" using assms(2,1) by (rule quiet_world_ok)
  have h: "h \<in> set (t_holdings (w_db w0))" using assms(2,3) by (simp add: quiet_def)
  have rf: "entry_about r h" "e_Delta r = - t" "e_QuantityAfter r = h_Quantity h - t"
    using entry_about_entry_for [OF assms(7)] assms(7) by simp_all
  have "book_run e w0 w2 \<and> t_ledger (w_db w2) = t_ledger (w_db w0) @ [r] \<and>
    (\<forall>y \<in> set (t_holdings (w_db w0)). row_id y \<noteq> row_id h \<longrightarrow> y \<in> set (t_holdings (w_db w2)))"
  proof (cases "h_Quantity h = t")
    case True
    then show ?thesis
      using debit_delete [OF ok assms(8) _ h rf(1)] assms(4,9) rf by simp
  next
    case False
    let ?h = "h\<lparr>h_Quantity := h_Quantity h - t, h_Version := v, h_UpdatedAt := now\<rparr>"
    have q: "is_i64 (h_Quantity h - t)"
      using world_okD(4) [OF ok h] assms(5,6) by (intro is_i64_diff_nonneg) simp_all
    have e: "row_id ?h = row_id h" "account_of ?h = account_of h" "h_CreatedAt ?h = h_CreatedAt h"
      by (simp_all add: row_id_def account_of_def)
    have "single (w_db w0) ?h"
      using world_okD(5) [OF ok h] assms(5,6) False by (auto simp: single_def)
    moreover have ea: "entry_about r ?h"
      using rf(1) by (simp add: entry_about_def account_of_def)
    ultimately show ?thesis
      using debit_update [OF ok assms(8) _ h e(1,2) set_columns_same [OF e] ea] assms(9) False rf q
      by simp
  qed
  then show ?thesis
    using quiet_book_run [OF assms(2)] assms(2) by (auto simp: quiet_def intro: book_run_trans)
qed

definition keys_free :: "string \<Rightarrow> (nat \<Rightarrow> string) \<Rightarrow> nat \<Rightarrow> asset_world \<Rightarrow> bool" where
  "keys_free p idem m w \<longleftrightarrow> (\<forall>n \<ge> m. (p, idem n) \<notin> ledger_key ` set (t_ledger (w_db w)))"

definition debited :: "string \<Rightarrow> (nat \<Rightarrow> string) \<Rightarrow> nat \<Rightarrow> (ledger_entry \<times> holding \<times> int) list \<Rightarrow> bool" where
  "debited p idem m new \<longleftrightarrow>
     (\<forall>(en, h, t) \<in> set new. e_Delta en = - t \<and> entry_about en h) \<and>
     map (ledger_key \<circ> fst) new = map (\<lambda>n. (p, idem n)) [m ..< m + length new]"

lemma debited_Cons:
  "debited p idem m ((en, h, t) # new) \<longleftrightarrow> e_Delta en = - t \<and> entry_about en h \<and>
     ledger_key en = (p, idem m) \<and> debited p idem (Suc m) new"
proof -
  have "[m ..< m + Suc (length new)] = m # [Suc m ..< Suc m + length new]"
    by (simp add: upt_rec)
  then show ?thesis by (auto simp: debited_def)
qed

lemma debit_loop_run:
  assumes "debit_loop e sc kind key idem rt rid now hs remain done w = (Inr out, w')"
    and "world_ok e w" and "0 \<le> remain" and "is_i64 remain" and "inj idem"
    and "\<forall>h \<in> set hs. h \<in> set (t_holdings (w_db w)) \<and> h_ProjectID h = sc_ProjectID sc"
    and "distinct (map row_id hs)"
    and "keys_free (sc_ProjectID sc) idem (max 1 (length done)) w"
  shows "case out of Replayed r \<Rightarrow> done = [] \<and> quiet w w' \<and> r_IdempotentReplay r \<and>
        (sc_ProjectID sc, idem 0) \<in> ledger_key ` set (t_ledger (w_db w))
    | Debited rows \<Rightarrow> book_run e w w' \<and> (\<exists>new. rows = done @ new \<and> map snd new = drain hs remain \<and>
        t_ledger (w_db w') = t_ledger (w_db w) @ map fst new \<and> debited (sc_ProjectID sc) idem (length done) new) \<and>
        (\<forall>y \<in> set (t_holdings (w_db w)). row_id y \<notin> row_id ` set hs \<longrightarrow> y \<in> set (t_holdings (w_db w')))"
  using assms
proof (induction hs arbitrary: remain "done" w)
  case Nil
  then show ?case by (simp add: tx_simps debited_def)
next
  case (Cons h hs)
  show ?case
  proof (cases "remain = 0")
    case True
    with Cons.prems show ?thesis by (simp add: tx_simps debited_def)
  next
    case False
    let ?p = "sc_ProjectID sc"
    define t where "t = min remain (h_Quantity h)"
    have h: "h \<in> set (t_holdings (w_db w))" "h_ProjectID h = ?p"
      using Cons.prems(6) by auto
    have hq: "0 < h_Quantity h" "is_i64 (h_Quantity h)"
      using world_okD(3,4) [OF Cons.prems(2) h(1)] by auto
    have t: "0 < t" "t \<le> h_Quantity h" "t \<le> remain"
      using False Cons.prems(3) hq(1) by (auto simp: t_def)
    have i: "(if remain < h_Quantity h then remain else h_Quantity h) = t"
      by (auto simp: t_def min_def)
    have w64: "i64 (- t) = - t" "i64 (h_Quantity h - t) = h_Quantity h - t" "i64 (remain - t) = remain - t"
      using t hq Cons.prems(3,4) by (auto intro!: i64_id simp: is_i64_def)
    from Cons.prems(1) False obtain en w1 x ins w2 where
        ne: "new_entry e (entry_for h kind (- t) (h_Quantity h - t) rt rid (idem (length done)) now)
          (sc_Operator sc) w = (Inr en, w1)"
      and li: "ledger_insert_if_absent e en w1 = (Inr (x, ins), w2)"
      and rest: "(if \<not> ins \<and> done = [] then tx_bind (replay_result e ?p key) (\<lambda>r. tx_ret (Replayed r))
        else tx_bind (if h_Quantity h - t = 0 then holding_delete e ?p (h_ID h) (h_Version h)
               else holding_update e (h\<lparr>h_Quantity := h_Quantity h - t, h_Version := i64 (h_Version h + 1),
                 h_UpdatedAt := now\<rparr>) (h_Version h)) (\<lambda>_.
             debit_loop e sc kind key idem rt rid now hs (remain - t) (done @ [(en, h, t)]))) w2 = (Inr out, w')"
      unfolding debit_loop.simps Let_def i w64 by (auto elim!: tx_bind_InrE)
    obtain j op' where en: "en = (entry_for h kind (- t) (h_Quantity h - t) rt rid (idem (length done)) now)
        \<lparr>e_ID := j, e_Operator := op'\<rparr>" and q: "quiet w w1"
      using new_entry_quiet [OF ne] by blast
    have k: "ledger_key en = (?p, idem (length done))" "e_Delta en = - t" "entry_about en h"
      using h(2) entry_about_entry_for [OF en] by (simp_all add: en entry_for_def ledger_key_def)
    have l1: "t_ledger (w_db w1) = t_ledger (w_db w)" using q by (simp add: quiet_def)
    show ?thesis
    proof (cases ins)
      case False
      then have "(?p, idem (length done)) \<in> ledger_key ` set (t_ledger (w_db w))" "w_db w2 = w_db w"
        "w_ids w2 = w_ids w1"
        using ledger_insert_if_absent_Inr [OF li] k(1) l1 q by (auto simp: quiet_def)
      moreover from this have "done = []"
        using Cons.prems(8) unfolding keys_free_def
        by (cases "done") auto
      ultimately show ?thesis
        using rest False q by (auto simp: quiet_def elim!: tx_bind_InrE tx_ret_InrE dest!: replay_result_quiet)
    next
      case True
      then obtain u w3 where wr: "(if h_Quantity h - t = 0 then holding_delete e ?p (h_ID h) (h_Version h)
               else holding_update e (h\<lparr>h_Quantity := h_Quantity h - t, h_Version := i64 (h_Version h + 1),
                 h_UpdatedAt := now\<rparr>) (h_Version h)) w2 = (Inr u, w3)"
        and rec: "debit_loop e sc kind key idem rt rid now hs (remain - t) (done @ [(en, h, t)]) w3 = (Inr out, w')"
        using rest by (auto elim!: tx_bind_InrE)
      have one: "book_run e w w3" "t_ledger (w_db w3) = t_ledger (w_db w) @ [en]"
          "\<forall>y \<in> set (t_holdings (w_db w)). row_id y \<noteq> row_id h \<longrightarrow> y \<in> set (t_holdings (w_db w3))"
        using debit_one [OF Cons.prems(2) q h t(1,2) en li [unfolded eqTrueI [OF True]] wr] by auto
      have "\<forall>y \<in> set hs. y \<in> set (t_holdings (w_db w3)) \<and> h_ProjectID y = ?p"
      proof
        fix y assume y: "y \<in> set hs"
        have "row_id h \<notin> row_id ` set hs" using Cons.prems(7) by simp
        with y have "row_id y \<noteq> row_id h" by (metis image_eqI)
        then show "y \<in> set (t_holdings (w_db w3)) \<and> h_ProjectID y = ?p"
          using Cons.prems(6) one(3) y by simp
      qed
      moreover have "keys_free ?p idem (max 1 (length (done @ [(en, h, t)]))) w3"
        using Cons.prems(5,8) one(2) k(1) by (auto simp: keys_free_def dest: injD)
      ultimately have "case out of Replayed r \<Rightarrow> False
        | Debited rows \<Rightarrow> book_run e w3 w' \<and> (\<exists>new. rows = done @ (en, h, t) # new \<and>
            map snd new = drain hs (remain - t) \<and>
            t_ledger (w_db w') = t_ledger (w_db w3) @ map fst new \<and> debited ?p idem (Suc (length done)) new) \<and>
            (\<forall>y \<in> set (t_holdings (w_db w3)). row_id y \<notin> row_id ` set hs \<longrightarrow> y \<in> set (t_holdings (w_db w')))"
        using Cons.IH [OF rec book_run_world_ok [OF one(1) Cons.prems(2)]] t(3) w64(3) Cons.prems(5,7)
        by (auto split: debit_outcome.splits simp: is_i64_i64 [of "remain - t", unfolded w64(3)])
      then show ?thesis
        using False one k
        by (auto split: debit_outcome.splits simp: debited_Cons Let_def t_def [symmetric] \<open>remain \<noteq> 0\<close>
            intro!: exI [of _ "(en, h, t) # _"] intro: book_run_trans)
    qed
  qed
qed

section \<open>Consume\<close>

lemma i64_le: "0 \<le> x \<Longrightarrow> i64 x \<le> x"
  using zmod_le_nonneg_dividend [of "x + 2 ^ 63" "2 ^ 64"] by (simp add: i64_def)

lemma drain_total:
  assumes "\<forall>h \<in> set hs. 0 < h_Quantity h" and "0 \<le> q" and "q \<le> sum_i64 (map h_Quantity hs)"
  shows "sum_list (map snd (drain hs q)) = q"
proof -
  have "0 \<le> sum_list (map h_Quantity hs)"
    using assms(1) by (intro sum_list_nonneg) auto
  then have "q \<le> sum_list (map h_Quantity hs)"
    using assms(3) i64_le by (fastforce simp: sum_i64_eq)
  then show ?thesis
    using drain_sum [OF assms(1,2)] by simp
qed

lemma debited_sum:
  "debited p idem m new \<Longrightarrow> sum_list (map (e_Delta \<circ> fst) new) = - sum_list (map (snd \<circ> snd) new)"
  by (induction new arbitrary: m) (auto simp: debited_Cons)

lemma debited_accounts:
  assumes "debited p idem m new" and "map snd new = drain hs q" and "\<forall>h \<in> set hs. account_of h = a"
  shows "\<forall>en \<in> fst ` set new. entry_account en = a"
proof -
  have "account_of h = a" if "(en, h, t) \<in> set new" for en h t
  proof -
    have "(h, t) \<in> set (map snd new)" using that by (force simp: image_iff)
    then show ?thesis using assms(2,3) by (auto dest: drain_members)
  qed
  then show ?thesis using assms(1) by (fastforce simp: debited_def entry_about_def)
qed

lemma debited_entries:
  assumes "debited p idem m new"
  shows "map (\<lambda>r. (e_HoldingID r, e_Delta r)) (map fst new) = map (\<lambda>(h, t). (h_ID h, - t)) (map snd new)"
  using assms by (auto simp: debited_def entry_about_def)

lemma consume_idem_inj: "inj (consume_idem key)"
  by (rule injI) (auto simp: consume_idem_def split: if_splits)

definition live_rows :: "asset_tables \<Rightarrow> string \<times> owner_type \<times> string \<times> string \<Rightarrow> gtime \<Rightarrow> holding list" where
  "live_rows db a now = live_holdings (sort_key fefo_key (filter (\<lambda>h. account_of h = a) (t_holdings db))) now"

lemma holding_list_Inr: "holding_list_for_update e p ot oid did w = (Inr hs, w') \<Longrightarrow>
    live_holdings hs now = live_rows (w_db w) (p, ot, oid, did) now"
  by (simp add: holding_list_for_update_def tx_simps live_rows_def account_of_def)

lemma live_rows_members: "h \<in> set (live_rows db a now) \<Longrightarrow> h \<in> set (t_holdings db) \<and> account_of h = a"
  by (auto simp: live_rows_def live_holdings_def)

lemma live_rows_distinct: "distinct (map row_id (t_holdings db)) \<Longrightarrow> distinct (map row_id (live_rows db a now))"
  by (auto simp: live_rows_def live_holdings_def distinct_map inj_on_def)

text \<open>The debit of Consume and of Transfer, when no row of the ledger has one of its keys.\<close>

lemma debit_phase:
  assumes "debit_loop e sc kind key idem rt rid now live q [] w = (Inr out, w')"
    and "world_ok e w" and "0 < q" and "is_i64 q" and "inj idem"
    and "keys_free (sc_ProjectID sc) idem 0 w" and "fst a = sc_ProjectID sc"
    and "live = live_rows (w_db w) a now" and "q \<le> sum_i64 (map h_Quantity live)"
  obtains new where "out = Debited new" and "book_run e w w'" and "map snd new = drain live q"
    and "t_ledger (w_db w') = t_ledger (w_db w) @ map fst new"
    and "\<forall>en \<in> fst ` set new. entry_account en = a" and "debited (sc_ProjectID sc) idem 0 new"
    and "sum_list (map (snd \<circ> snd) new) = q"
    and "\<forall>y \<in> set (t_holdings (w_db w)). account_of y \<noteq> a \<longrightarrow> y \<in> set (t_holdings (w_db w'))"
proof -
  have m: "h \<in> set (t_holdings (w_db w)) \<and> account_of h = a \<and> h_ProjectID h = sc_ProjectID sc"
    if "h \<in> set live" for h
    using live_rows_members [of h "w_db w" a now] that assms(7,8) by (auto simp: account_of_def)
  then have pos: "\<forall>h \<in> set live. 0 < h_Quantity h"
    using world_okD(3) [OF assms(2)] by blast
  have d: "distinct (map row_id live)"
    unfolding assms(8) by (rule live_rows_distinct [OF world_okD(1) [OF assms(2)]])
  have "keys_free (sc_ProjectID sc) idem (max 1 (length ([] :: (ledger_entry \<times> holding \<times> int) list))) w"
    using assms(6) by (simp add: keys_free_def)
  then have run: "case out of Replayed r \<Rightarrow> ([] :: (ledger_entry \<times> holding \<times> int) list) = [] \<and> quiet w w' \<and> r_IdempotentReplay r \<and>
        (sc_ProjectID sc, idem 0) \<in> ledger_key ` set (t_ledger (w_db w))
    | Debited rows \<Rightarrow> book_run e w w' \<and> (\<exists>new. rows = [] @ new \<and> map snd new = drain live q \<and>
        t_ledger (w_db w') = t_ledger (w_db w) @ map fst new \<and>
        debited (sc_ProjectID sc) idem (length ([] :: (ledger_entry \<times> holding \<times> int) list)) new) \<and>
        (\<forall>y \<in> set (t_holdings (w_db w)). row_id y \<notin> row_id ` set live \<longrightarrow> y \<in> set (t_holdings (w_db w')))"
    using debit_loop_run [OF assms(1,2) _ assms(4,5) _ d] m assms(3) by auto
  have "(sc_ProjectID sc, idem 0) \<notin> ledger_key ` set (t_ledger (w_db w))"
    using assms(6) by (simp add: keys_free_def)
  with run obtain new where new: "out = Debited new" "book_run e w w'" "map snd new = drain live q"
      "t_ledger (w_db w') = t_ledger (w_db w) @ map fst new" "debited (sc_ProjectID sc) idem 0 new"
      "\<forall>y \<in> set (t_holdings (w_db w)). row_id y \<notin> row_id ` set live \<longrightarrow> y \<in> set (t_holdings (w_db w'))"
    by (auto split: debit_outcome.splits)
  have "row_id y \<notin> row_id ` set live" if y: "y \<in> set (t_holdings (w_db w))" "account_of y \<noteq> a" for y
  proof
    assume "row_id y \<in> row_id ` set live"
    then obtain h where "h \<in> set live" "row_id y = row_id h" by auto
    moreover from this have "y = h"
      using world_okD(1) [OF assms(2)] m y(1) by (auto simp: distinct_map inj_on_def)
    ultimately show False using m y(2) by auto
  qed
  then have other: "\<forall>y \<in> set (t_holdings (w_db w)). account_of y \<noteq> a \<longrightarrow> y \<in> set (t_holdings (w_db w'))"
    using new(6) by blast
  have "\<forall>en \<in> fst ` set new. entry_account en = a"
    using debited_accounts [OF new(5,3)] m by blast
  moreover have "sum_list (map (snd \<circ> snd) new) = q"
    using arg_cong [OF new(3), of "\<lambda>xs. sum_list (map snd xs)"] drain_total [OF pos _ assms(9)] assms(3)
    by (simp add: o_def)
  ultimately show thesis
    using that new other by blast
qed

lemma validate_consume_quantity_Inr: "validate_consume_quantity c q = Inr u \<longleftrightarrow> 0 < q"
  by (auto simp: validate_consume_quantity_def)

lemma consume_body_run:
  assumes "consume_body e sc cmd ot key code w = (Inr r, w')" and "world_ok e w"
    and "is_i64 (cc_Quantity cmd)" and "keys_free (sc_ProjectID sc) (consume_idem key) 1 w"
  shows "book_run e w w' \<and> (if (sc_ProjectID sc, key) \<in> ledger_key ` set (t_ledger (w_db w))
    then r_IdempotentReplay r \<and> w_db w' = w_db w
    else \<not> r_IdempotentReplay r \<and> t_ledger (w_db w') = t_ledger (w_db w) @ r_Entries r \<and>
      (\<exists>k d. let a = (sc_ProjectID sc, ot, cc_OwnerID cmd, d_ID d) in
        d \<in> set (t_defs (w_db w)) \<and> d_ProjectID d = sc_ProjectID sc \<and> d_Code d = code \<and>
        map (\<lambda>r. (e_HoldingID r, e_Delta r)) (r_Entries r) =
          map (\<lambda>(h, t). (h_ID h, - t)) (drain (live_rows (w_db w) a (env_clock e k)) (cc_Quantity cmd)) \<and>
        (\<forall>en \<in> set (r_Entries r). entry_account en = a) \<and>
        sum_list (map e_Delta (r_Entries r)) = - cc_Quantity cmd))"
proof -
  from assms(1) show ?thesis
    unfolding consume_body_def Let_def
  proof (elim tx_elims, goal_cases)
    case (1 ro w1 d w2 u1 w3 hs w4 now w5 rr w6 rt rid out w7)
    let ?a = "(sc_ProjectID sc, ot, cc_OwnerID cmd, d_ID d)" and ?q = "cc_Quantity cmd"
    have q: "quiet w w1" "quiet w1 w2" "quiet w2 w4" "quiet w4 w5" "quiet w5 w6"
      using 1 by (auto dest: quiet_dests)
    then have qw: "quiet w w6" "quiet w w2" by (blast intro: quiet_trans)+
    have ok: "world_ok e w6" using qw(1) assms(2) by (rule quiet_world_ok)
    have new: "(sc_ProjectID sc, key) \<notin> ledger_key ` set (t_ledger (w_db w))"
      using load_replay_quiet [OF 1(1)] 1(2) by simp
    have d: "d \<in> set (t_defs (w_db w))" "d_ProjectID d = sc_ProjectID sc" "d_Code d = code"
      using require_active_def_quiet [OF 1(3)] q(1) by (auto simp: quiet_def)
    obtain k where k: "now = env_clock e k"
      using 1(5) by (auto simp: tx_simps)
    have live: "live_holdings hs now = live_rows (w_db w6) ?a now"
      using holding_list_Inr [OF 1(4), of now] qw 1(7) by (simp add: quiet_def)
    have free: "keys_free (sc_ProjectID sc) (consume_idem key) 0 w6"
    proof (unfold keys_free_def, intro allI impI)
      fix n show "(sc_ProjectID sc, consume_idem key n) \<notin> ledger_key ` set (t_ledger (w_db w6))"
        using new assms(4) qw(1) by (cases "n = 0") (auto simp: keys_free_def quiet_def consume_idem_def)
    qed
    have q0: "0 < ?q" and av: "?q \<le> sum_i64 (map h_Quantity (live_holdings hs now))"
      using 1(6,8) validate_consume_quantity_Inr by auto
    obtain new where n: "out = Debited new" "book_run e w6 w7" "map snd new = drain (live_holdings hs now) ?q"
        "t_ledger (w_db w7) = t_ledger (w_db w6) @ map fst new"
        "\<forall>en \<in> fst ` set new. entry_account en = ?a" "debited (sc_ProjectID sc) (consume_idem key) 0 new"
        "sum_list (map (snd \<circ> snd) new) = ?q"
      by (rule debit_phase [OF 1(11) ok q0 assms(3) consume_idem_inj free _ live av]) auto
    obtain u w8 where pb: "publish e d (cc_OwnerID cmd) KindConsume (i64 (- ?q))
        (i64 (sum_i64 (map h_Quantity (live_holdings hs now)) - ?q)) now w7 = (Inr u, w')"
      and r: "r = \<lparr>r_Entries = map fst new, r_IdempotentReplay = False\<rparr>"
      using 1(12) n(1) by (auto elim!: tx_bind_InrE tx_ret_InrE)
    have s: "sum_list (map e_Delta (map fst new)) = - ?q"
      using debited_sum [OF n(6)] n(7) by simp
    have w6: "w_db w6 = w_db w" using qw(1) by (simp add: quiet_def)
    have "book_run e w w'"
      using quiet_book_run [OF qw(1)] n(2) publish_run [OF pb] by (blast intro: book_run_trans)
    moreover have "t_ledger (w_db w') = t_ledger (w_db w) @ map fst new"
      using publish_run [OF pb] n(4) w6 by simp
    moreover have "map (\<lambda>r. (e_HoldingID r, e_Delta r)) (map fst new) =
        map (\<lambda>(h, t). (h_ID h, - t)) (drain (live_rows (w_db w) ?a (env_clock e k)) ?q)"
      unfolding debited_entries [OF n(6)] using n(3) live k w6 by simp
    ultimately show ?case
      using new d s n(5) unfolding r if_not_P [OF new]
      by (intro conjI exI [of _ k] exI [of _ d]) simp_all
  next
    case (2 a w1 es)
    then show ?case
      using load_replay_quiet [OF 2(1)] by (auto intro: quiet_book_run simp: quiet_def)
  qed
qed

section \<open>Transfer\<close>

lemma apply_incoming_run:
  assumes "apply_incoming e d p to_owner mv live now w = (Inr (h, created), w')"
    and "mv_instance mv = instance_bucket (Some d)" and "d_Class d = ClassInstance \<longrightarrow> mv_qty mv = 1"
  shows "quiet w w'"
    and "created \<Longrightarrow> account_of h = (p, OwnerTypeUser, to_owner, d_ID d) \<and> h_ID h = env_id e (w_ids w) \<and>
      w_ids w < w_ids w' \<and> h_Quantity h = mv_qty mv"
    and "\<not> created \<Longrightarrow> d_Class d \<noteq> ClassInstance \<and> (\<exists>h0 \<in> set live. h = add_to_holding h0 (mv_qty mv) now)"
  using assms by (auto simp: apply_incoming_def tx_simps account_of_def quiet_def
      dest: find_Some_member split: if_splits option.splits)

definition move_ok :: "asset_def \<Rightarrow> incoming_move \<Rightarrow> bool" where
  "move_ok d mv \<longleftrightarrow> 0 < mv_qty mv \<and> is_i64 (mv_qty mv) \<and> mv_instance mv = instance_bucket (Some d) \<and>
     (d_Class d = ClassInstance \<longrightarrow> mv_qty mv = 1)"

text \<open>The receiver's rows are kept up to date while moves are added to them.\<close>

lemma credit_loop_run:
  assumes "credit_loop e sc d to_owner key rt rid now mvs seq live done w = (Inr entries, w')"
    and "world_ok e w" and "d \<in> set (t_defs (w_db w))" and "d_ProjectID d = sc_ProjectID sc"
    and "\<forall>mv \<in> set mvs. move_ok d mv" and "a = (sc_ProjectID sc, OwnerTypeUser, to_owner, d_ID d)"
    and "\<forall>x \<in> set live. x \<in> set (t_holdings (w_db w)) \<and> account_of x = a"
    and "keys_free (sc_ProjectID sc) (in_idem key) seq w"
  shows "book_run e w w' \<and> (\<exists>new. entries = done @ new \<and> t_ledger (w_db w') = t_ledger (w_db w) @ new \<and>
    map e_Delta new = map mv_qty mvs \<and> (\<forall>en \<in> set new. entry_account en = a))"
  using assms
proof (induction mvs arbitrary: seq live "done" w)
  case Nil
  then show ?case by (simp add: tx_simps)
next
  case (Cons mv mvs)
  let ?p = "sc_ProjectID sc"
  from Cons.prems(1) obtain h created w1 en w2 x ins w3 u w4 where
      ap: "apply_incoming e d ?p to_owner mv live now w = (Inr (h, created), w1)"
    and ne: "new_entry e (entry_for h KindTransferIn (mv_qty mv) (h_Quantity h) rt rid (in_idem key seq) now)
        (sc_Operator sc) w1 = (Inr en, w2)"
    and li: "ledger_insert_if_absent e en w2 = (Inr (x, ins), w3)"
    and wr: "(if created then holding_insert e h else holding_update e h (i64 (h_Version h - 1))) w3 = (Inr u, w4)"
    and rec: "credit_loop e sc d to_owner key rt rid now mvs (Suc seq)
       (if created then live @ [h] else map (\<lambda>x. if h_ID x = h_ID h then h else x) live)
       (done @ [en]) w4 = (Inr entries, w')"
    by (auto elim!: tx_bind_InrE)
  have mv: "0 < mv_qty mv" "is_i64 (mv_qty mv)" "mv_instance mv = instance_bucket (Some d)"
      "d_Class d = ClassInstance \<longrightarrow> mv_qty mv = 1"
    using Cons.prems(5) by (auto simp: move_ok_def)
  note ai = apply_incoming_run [OF ap mv(3,4)]
  have q: "quiet w w2" using ai(1) new_entry_quiet [OF ne] by (blast intro: quiet_trans)
  have acc: "account_of h = a"
    using ai(2,3) Cons.prems(6,7) by (cases created) auto
  then have "ledger_key en = (?p, in_idem key seq)"
    using new_entry_quiet [OF ne] Cons.prems(6) by (auto simp: entry_for_def ledger_key_def account_of_def)
  then have ins: "ins"
    using fresh_key_inserted [OF li] Cons.prems(8) q by (auto simp: keys_free_def quiet_def)
  have a: "a = (d_ProjectID d, OwnerTypeUser, to_owner, d_ID d)" using Cons.prems(4,6) by simp
  have c: "created \<Longrightarrow> account_of h = a \<and> h_ID h = env_id e (w_ids w) \<and> w_ids w < w_ids w1 \<and> h_Quantity h = mv_qty mv"
    using ai(2) acc by blast
  have n: "\<not> created \<Longrightarrow> d_Class d \<noteq> ClassInstance \<and>
      (\<exists>h0 \<in> set (t_holdings (w_db w)). account_of h0 = a \<and> h = add_to_holding h0 (mv_qty mv) now)"
    using ai(3) Cons.prems(7) by blast
  have one: "book_run e w w4" "t_ledger (w_db w4) = t_ledger (w_db w) @ [en]" "e_Delta en = mv_qty mv"
      "entry_account en = a" "ledger_key en = (?p, in_idem key seq)" "h \<in> set (t_holdings (w_db w4))"
      "\<forall>y \<in> set (t_holdings (w_db w)). row_id y \<noteq> row_id h \<longrightarrow> y \<in> set (t_holdings (w_db w4))"
    using add_write_run [OF Cons.prems(2) ai(1) mv(2,1,4) Cons.prems(3) a c n ne
        li [unfolded eqTrueI [OF ins]] wr] Cons.prems(4) by auto
  have defs: "t_defs (w_db w4) = t_defs (w_db w)"
    using one(1) by (auto simp: book_run_def dest: posts_defs)
  have row: "row_id y = row_id h" if "y \<in> set live" "h_ID y = h_ID h" for y
    using that Cons.prems(6,7) acc by (auto simp: row_id_def account_of_def)
  have fresh: "row_id y \<noteq> row_id h" if "created" "y \<in> set live" for y
  proof
    assume "row_id y = row_id h"
    then have "env_id e (w_ids w) \<in> h_ID ` set (t_holdings (w_db w))"
      using c [OF that(1)] Cons.prems(7) that(2) by (force simp: row_id_def)
    then show False
      using Cons.prems(2) by (auto simp: world_ok_def ids_fresh_def ids_of_def)
  qed
  have "\<forall>y \<in> set (if created then live @ [h] else map (\<lambda>x. if h_ID x = h_ID h then h else x) live).
      y \<in> set (t_holdings (w_db w4)) \<and> account_of y = a"
    using one(6,7) fresh Cons.prems(7) acc by (auto simp: row_id_def)
  moreover have "keys_free ?p (in_idem key) (Suc seq) w4"
    using Cons.prems(8) one(2,5) by (auto simp: keys_free_def in_idem_def)
  ultimately have "book_run e w4 w' \<and> (\<exists>new. entries = (done @ [en]) @ new \<and>
      t_ledger (w_db w') = t_ledger (w_db w4) @ new \<and> map e_Delta new = map mv_qty mvs \<and>
      (\<forall>en \<in> set new. entry_account en = a))"
    using Cons.IH [OF rec book_run_world_ok [OF one(1) Cons.prems(2)]] Cons.prems(3-6) defs by simp
  then obtain new where "book_run e w4 w'" "entries = done @ en # new"
      "t_ledger (w_db w') = t_ledger (w_db w) @ en # new" "map e_Delta new = map mv_qty mvs"
      "\<forall>en \<in> set new. entry_account en = a"
    using one(2) by auto
  then show ?case
    using one(1,3,4) by (intro conjI exI [of _ "en # new"]) (auto intro: book_run_trans)
qed

lemma out_idem_inj: "inj (out_idem key)"
  by (rule injI) (auto simp: out_idem_def split: if_splits)

lemma out_in_idem [simp]: "out_idem key m \<noteq> in_idem key n"
  by (auto simp: out_idem_def in_idem_def)

text \<open>The parts the code takes from the sender's rows are what the receiver gets.\<close>

lemma move_of_fields [simp]:
  "mv_qty (move_of d x) = snd (snd x)" "mv_instance (move_of d x) = instance_bucket (Some d)"
  by (simp_all add: move_of_def split: prod.splits)

lemma drain_bounds:
  "(h, t) \<in> set (drain hs q) \<Longrightarrow> \<forall>x \<in> set hs. 0 < h_Quantity x \<Longrightarrow> 0 \<le> q \<Longrightarrow>
     h \<in> set hs \<and> 0 < t \<and> t \<le> h_Quantity h"
  by (induction hs q rule: drain.induct) (auto simp: Let_def split: if_splits)

lemma transfer_body_run:
  assumes "transfer_body e sc cmd key code w = (Inr r, w')" and "world_ok e w"
    and "is_i64 (tc_Quantity cmd)"
    and "keys_free (sc_ProjectID sc) (out_idem key) 1 w" and "keys_free (sc_ProjectID sc) (in_idem key) 0 w"
    and "tc_FromOwnerID cmd \<noteq> tc_ToOwnerID cmd"
  shows "book_run e w w' \<and> (if (sc_ProjectID sc, key) \<in> ledger_key ` set (t_ledger (w_db w))
    then r_IdempotentReplay r \<and> w_db w' = w_db w
    else \<not> r_IdempotentReplay r \<and> t_ledger (w_db w') = t_ledger (w_db w) @ r_Entries r \<and>
      (\<exists>k d out ins. let p = sc_ProjectID sc; a = (p, OwnerTypeUser, tc_FromOwnerID cmd, d_ID d);
          b = (p, OwnerTypeUser, tc_ToOwnerID cmd, d_ID d) in
        d \<in> set (t_defs (w_db w)) \<and> d_ProjectID d = p \<and> d_Code d = code \<and> d_Tradable d \<and>
        r_Entries r = out @ ins \<and>
        map (\<lambda>r. (e_HoldingID r, e_Delta r)) out =
          map (\<lambda>(h, t). (h_ID h, - t)) (drain (live_rows (w_db w) a (env_clock e k)) (tc_Quantity cmd)) \<and>
        map e_Delta ins = map (\<lambda>r. - e_Delta r) out \<and>
        (\<forall>en \<in> set out. entry_account en = a) \<and> (\<forall>en \<in> set ins. entry_account en = b) \<and>
        sum_list (map e_Delta out) = - tc_Quantity cmd \<and>
        sum_list (map e_Delta ins) = tc_Quantity cmd))"
proof -
  from assms(1) show ?thesis
    unfolding transfer_body_def Let_def
  proof (elim tx_elims, goal_cases)
    case (1 ro w1 d w2 u1 w3 now w4 src w5 dst w6 u2 w7 rr w8 rt rid out w9)
    let ?p = "sc_ProjectID sc" and ?q = "tc_Quantity cmd"
    let ?a = "(?p, OwnerTypeUser, tc_FromOwnerID cmd, d_ID d)"
    let ?b = "(?p, OwnerTypeUser, tc_ToOwnerID cmd, d_ID d)"
    have q: "quiet w w1" "quiet w1 w2" "quiet w2 w4" "quiet w4 w5" "quiet w5 w6" "quiet w6 w8"
      using 1 by (auto dest: quiet_dests)
    then have qw: "quiet w w8" "quiet w w2" "quiet w w4" "quiet w w5" by (blast intro: quiet_trans)+
    have ok: "world_ok e w8" using qw(1) assms(2) by (rule quiet_world_ok)
    have w8: "w_db w8 = w_db w" using qw(1) by (simp add: quiet_def)
    have new: "(?p, key) \<notin> ledger_key ` set (t_ledger (w_db w))"
      using load_replay_quiet [OF 1(1)] 1(2) by simp
    have d: "d \<in> set (t_defs (w_db w))" "d_ProjectID d = ?p" "d_Code d = code"
      using require_active_def_quiet [OF 1(3)] q(1) by (auto simp: quiet_def)
    obtain k where k: "now = env_clock e k"
      using 1(5) by (auto simp: tx_simps)
    have live: "live_holdings src now = live_rows (w_db w8) ?a now"
        "live_holdings dst now = live_rows (w_db w8) ?b now"
      using holding_list_Inr [OF 1(6), of now] holding_list_Inr [OF 1(7), of now] qw by (simp_all add: quiet_def)
    have free: "keys_free ?p (out_idem key) 0 w8"
    proof (unfold keys_free_def, intro allI impI)
      fix n show "(?p, out_idem key n) \<notin> ledger_key ` set (t_ledger (w_db w8))"
        using new assms(4) by (cases "n = 0") (auto simp: keys_free_def w8 out_idem_def)
    qed
    have q0: "0 < ?q" and av: "?q \<le> sum_i64 (map h_Quantity (live_holdings src now))"
      using 1(8,10) validate_consume_quantity_Inr by auto
    obtain new where n: "out = Debited new" "book_run e w8 w9" "map snd new = drain (live_holdings src now) ?q"
        "t_ledger (w_db w9) = t_ledger (w_db w8) @ map fst new"
        "\<forall>en \<in> fst ` set new. entry_account en = ?a" "debited ?p (out_idem key) 0 new"
        "sum_list (map (snd \<circ> snd) new) = ?q"
        "\<forall>y \<in> set (t_holdings (w_db w8)). account_of y \<noteq> ?a \<longrightarrow> y \<in> set (t_holdings (w_db w9))"
      by (rule debit_phase [OF 1(16) ok q0 assms(3) out_idem_inj free _ live(1) av]) auto
    obtain entries w10 u w11 u' where
        cl: "credit_loop e sc d (tc_ToOwnerID cmd) key rt rid now (map (move_of d) new) (length new)
          (live_holdings dst now) (map fst new) w9 = (Inr entries, w10)"
      and p1: "publish e d (tc_FromOwnerID cmd) KindTransferOut (i64 (- ?q))
        (i64 (sum_i64 (map h_Quantity (live_holdings src now)) - ?q)) now w10 = (Inr u, w11)"
      and p2: "publish e d (tc_ToOwnerID cmd) KindTransferIn ?q
        (i64 (sum_i64 (map h_Quantity (live_holdings dst now)) + ?q)) now w11 = (Inr u', w')"
      and r: "r = \<lparr>r_Entries = entries, r_IdempotentReplay = False\<rparr>"
      using 1(17) n(1) by (auto elim!: tx_bind_InrE tx_ret_InrE)
    have ok9: "world_ok e w9" using n(2) ok by (rule book_run_world_ok)
    have defs: "t_defs (w_db w9) = t_defs (w_db w)"
      using n(2) w8 by (auto simp: book_run_def dest: posts_defs)
    have moves: "move_ok d (move_of d x)" if x: "x \<in> set new" for x
    proof -
      obtain en h t where xe: "x = (en, h, t)" by (cases x)
      have "(h, t) \<in> set (map snd new)" using x by (force simp: xe)
      then have m: "(h, t) \<in> set (drain (live_rows (w_db w8) ?a now) ?q)" using n(3) live(1) by simp
      have lm: "y \<in> set (t_holdings (w_db w8)) \<and> account_of y = ?a" if "y \<in> set (live_rows (w_db w8) ?a now)" for y
        by (rule live_rows_members [OF that])
      have b: "h \<in> set (live_rows (w_db w8) ?a now)" "0 < t" "t \<le> h_Quantity h"
        using drain_bounds [OF m] lm world_okD(3) [OF ok] q0 by auto
      have h: "h \<in> set (t_holdings (w_db w8))" "account_of h = ?a" using lm [OF b(1)] by auto
      have "d_Class d = ClassInstance \<longrightarrow> h_Quantity h = 1"
        using world_okD(5) [OF ok h(1)] d h(2) w8 by (auto simp: single_def account_of_def)
      then show ?thesis
        using b(2,3) world_okD(4) [OF ok h(1)] by (auto simp: move_ok_def xe is_i64_def)
    qed
    have dst9: "\<forall>y \<in> set (live_holdings dst now). y \<in> set (t_holdings (w_db w9)) \<and> account_of y = ?b"
    proof
      fix y assume "y \<in> set (live_holdings dst now)"
      then have "y \<in> set (t_holdings (w_db w8))" "account_of y = ?b"
        using live_rows_members live(2) by simp_all
      then show "y \<in> set (t_holdings (w_db w9)) \<and> account_of y = ?b"
        using n(8) assms(6) by auto
    qed
    have "ledger_key ` set (map fst new) \<subseteq> range (\<lambda>n. (?p, out_idem key n))"
      using arg_cong [OF conjunct2 [OF n(6) [unfolded debited_def]], of set] by (auto simp: o_def)
    have "(?p, in_idem key n) \<notin> ledger_key ` set (map fst new)" for n
    proof
      assume "(?p, in_idem key n) \<in> ledger_key ` set (map fst new)"
      with \<open>ledger_key ` set (map fst new) \<subseteq> _\<close> obtain m where "(?p, in_idem key n) = (?p, out_idem key m)"
        by blast
      then show False using out_in_idem [of key m n] by simp
    qed
    then have free9: "keys_free ?p (in_idem key) (length new) w9"
      using assms(5) n(4) w8 by (simp add: keys_free_def image_Un)
    obtain ins where ins: "entries = map fst new @ ins" "t_ledger (w_db w10) = t_ledger (w_db w9) @ ins"
        "map e_Delta ins = map mv_qty (map (move_of d) new)" "\<forall>en \<in> set ins. entry_account en = ?b"
        "book_run e w9 w10"
      using credit_loop_run [OF cl ok9 _ d(2) _ refl dst9 free9] d(1) defs moves by auto
    have dl: "map e_Delta ins = map (snd \<circ> snd) new"
      using ins(3) by (simp add: o_def)
    have s: "sum_list (map e_Delta (map fst new)) = - ?q" "sum_list (map e_Delta ins) = ?q"
      using debited_sum [OF n(6)] n(7) dl by simp_all
    have "book_run e w w'"
      using quiet_book_run [OF qw(1)] n(2) ins(5) publish_run [OF p1] publish_run [OF p2]
      by (blast intro: book_run_trans)
    moreover have "t_ledger (w_db w') = t_ledger (w_db w) @ entries"
      using publish_run [OF p1] publish_run [OF p2] n(4) ins(1,2) w8 by simp
    moreover have "map (\<lambda>r. (e_HoldingID r, e_Delta r)) (map fst new) =
        map (\<lambda>(h, t). (h_ID h, - t)) (drain (live_rows (w_db w) ?a (env_clock e k)) ?q)"
      unfolding debited_entries [OF n(6)] using n(3) live(1) k w8 by simp
    moreover have "map e_Delta ins = map (\<lambda>r. - e_Delta r) (map fst new)"
      using dl n(6) by (auto simp: debited_def)
    ultimately show ?case
      using new d s n(5) ins(1,4) 1(4) unfolding r if_not_P [OF new]
      by (intro conjI exI [of _ k] exI [of _ d] exI [of _ "map fst new"] exI [of _ ins]) simp_all
  next
    case (2 a w1 es)
    then show ?case
      using load_replay_quiet [OF 2(1)] by (auto intro: quiet_book_run simp: quiet_def)
  qed
qed

section \<open>The runner, and the verbs\<close>

lemma run_tx_Inr:
  assumes "run_tx e m w = (Inr a, w')"
  obtains w1 where "m (w\<lparr>w_ops := Suc (w_ops w)\<rparr>) = (Inr a, w1)" and "quiet w1 w'"
  using assms by (auto simp: run_tx_def Let_def quiet_def split: if_splits prod.splits sum.splits)

lemma quiet_ops [simp]: "quiet w (w\<lparr>w_ops := n\<rparr>)"
  by (simp add: quiet_def)

lemma run_tx_Inl:
  assumes "run_tx e m w = (Inl err, w')"
  shows "w_db w' = w_db w"
  using assms by (auto simp: run_tx_def Let_def split: if_splits prod.splits sum.splits)

text \<open>Identifiers are only ever drawn, also by the runs that fail.\<close>

definition draws :: "'a atx \<Rightarrow> bool" where
  "draws m \<longleftrightarrow> (\<forall>w. w_ids w \<le> w_ids (snd (m w)))"

lemma draws_bind: "draws m \<Longrightarrow> (\<And>a. draws (f a)) \<Longrightarrow> draws (tx_bind m f)"
  by (auto simp: draws_def tx_bind_def split: prod.splits sum.splits)
    (metis order_trans snd_conv)+

lemma draws_basic:
  "draws (tx_ret a)" "draws (tx_fail err)" "draws (tx_lift r)" "draws (new_id e)" "draws (ts e)"
  "draws (db_read e g)" "draws (db_write e f)"
  by (auto simp: draws_def tx_ret_def tx_fail_def tx_lift_def new_id_def ts_def db_read_def db_write_def
      db_op_def Let_def split: sum.splits prod.splits)

lemma draws_cases:
  "draws m \<Longrightarrow> draws (tx_when c err m)"
  "draws m \<Longrightarrow> draws n \<Longrightarrow> draws (if c then m else n)"
  "draws m \<Longrightarrow> (\<And>y. draws (f y)) \<Longrightarrow> draws (case x of None \<Rightarrow> m | Some y \<Rightarrow> f y)"
  "(\<And>y z. draws (g y z)) \<Longrightarrow> draws (case p of (y, z) \<Rightarrow> g y z)"
  "(\<And>y. draws (f1 y)) \<Longrightarrow> (\<And>y. draws (f2 y)) \<Longrightarrow>
     draws (case out of Replayed y \<Rightarrow> f1 y | Debited z \<Rightarrow> f2 z)"
  by (auto simp: tx_when_def draws_basic split: option.splits prod.splits debit_outcome.splits)

lemmas draws_intros = draws_bind draws_basic draws_cases

lemma draws_helpers:
  "draws (def_get e p pr)" "draws (holding_insert e h)" "draws (holding_update e h v)"
  "draws (holding_delete e p i v)" "draws (holding_get e p i)" "draws (holding_list_for_update e p ot oid did)"
  "draws (ledger_insert_if_absent e r)" "draws (load_replay e p key)" "draws (replay_result e p key)"
  "draws (publish e d owner kind dl af now)" "draws (new_entry e r op)" "draws (normalize_ref e rt rid fb)"
  "draws (require_active_def e p code)" "draws (resolve_grant_expiry e d x)"
  "draws (upsert_grant_holding e d p ot gc ex live now)" "draws (apply_incoming e d p owner mv live now)"
  unfolding def_get_def holding_insert_def holding_update_def holding_delete_def holding_get_def
    holding_list_for_update_def ledger_insert_if_absent_def load_replay_def replay_result_def publish_def
    new_entry_def normalize_ref_def require_active_def_def resolve_grant_expiry_def def_by_code_def
    upsert_grant_holding_def apply_incoming_def ledger_get_by_key_def ledger_list_by_ref_def outbox_publish_def Let_def
  by (intro draws_intros)+

lemma draws_debit_loop: "draws (debit_loop e sc kind key idem rt rid now hs remain done)"
proof (induction hs arbitrary: remain "done")
  case (Cons h hs)
  then show ?case
    unfolding debit_loop.simps Let_def by (intro draws_intros draws_helpers)
qed (simp add: draws_basic)

lemma draws_credit_loop: "draws (credit_loop e sc d owner key rt rid now mvs seq live done)"
  by (induction mvs arbitrary: seq live "done") (auto simp: draws_basic intro!: draws_intros draws_helpers)

lemma draws_run_tx: "draws m \<Longrightarrow> draws (run_tx e m)"
  unfolding draws_def
proof
  fix w assume m: "\<forall>w. w_ids w \<le> w_ids (snd (m w))"
  from m [rule_format, of "w\<lparr>w_ops := Suc (w_ops w)\<rparr>"] show "w_ids w \<le> w_ids (snd (run_tx e m w))"
    by (auto simp: run_tx_def Let_def split: prod.splits sum.splits)
qed

lemmas draws_all = draws_intros draws_helpers draws_debit_loop draws_credit_loop draws_run_tx

lemma draws_verbs:
  "draws (grant e sc gc)" "draws (consume e sc cc)" "draws (transfer e sc tc)" "draws (mutate e sc mc)"
  "draws (expire e sc xc)"
  unfolding grant_def consume_def transfer_def mutate_def expire_def grant_body_def consume_body_def
    transfer_body_def mutate_body_def expire_holding_def def_by_id_def Let_def
  by (intro draws_all)+

section \<open>Commands and reachable worlds\<close>

datatype asset_cmd = DoGrant grant_command | DoConsume consume_command | DoTransfer transfer_command
  | DoMutate mutate_command | DoExpire expire_command

fun exec_cmd :: "asset_env \<Rightarrow> scope \<Rightarrow> asset_cmd \<Rightarrow> op_result atx" where
  "exec_cmd e sc (DoGrant c) = grant e sc c"
| "exec_cmd e sc (DoConsume c) = consume e sc c"
| "exec_cmd e sc (DoTransfer c) = transfer e sc c"
| "exec_cmd e sc (DoMutate c) = mutate e sc c"
| "exec_cmd e sc (DoExpire c) = expire e sc c"

text \<open>
  What the commands must satisfy: quantities are \<^verbatim>\<open>int64\<close>, and no row of the ledger has
  one of the keys that Consume and Transfer derive from the key of the command. The second is
  a real restriction: without it a Consume can debit a row that no ledger row accounts for.
\<close>

definition cmd_key :: "asset_cmd \<Rightarrow> string" where
  "cmd_key c = trim_space (case c of DoGrant g \<Rightarrow> gc_IdempotencyKey g | DoConsume g \<Rightarrow> cc_IdempotencyKey g
     | DoTransfer g \<Rightarrow> tc_IdempotencyKey g | DoMutate g \<Rightarrow> mc_IdempotencyKey g
     | DoExpire g \<Rightarrow> xc_IdempotencyKey g)"

fun cmd_ok :: "scope \<Rightarrow> asset_cmd \<Rightarrow> asset_world \<Rightarrow> bool" where
  "cmd_ok sc (DoGrant c) w = is_i64 (gc_Quantity c)"
| "cmd_ok sc (DoConsume c) w = (is_i64 (cc_Quantity c) \<and>
     keys_free (sc_ProjectID sc) (consume_idem (cmd_key (DoConsume c))) 1 w)"
| "cmd_ok sc (DoTransfer c) w = (is_i64 (tc_Quantity c) \<and>
     keys_free (sc_ProjectID sc) (out_idem (cmd_key (DoTransfer c))) 1 w \<and>
     keys_free (sc_ProjectID sc) (in_idem (cmd_key (DoTransfer c))) 0 w)"
| "cmd_ok sc (DoMutate c) w = True"
| "cmd_ok sc (DoExpire c) w = True"

lemma validate_idempotency_key_Inr:
  "validate_idempotency_key k = Inr k' \<longleftrightarrow> k' = trim_space k \<and> k' \<noteq> '''' \<and> length k' \<le> 128"
  by (auto simp: validate_idempotency_key_def Let_def max_idempotency_key_def)

lemma prepare_write_Inr:
  "prepare_write ot owner k = Inr (ot', k') \<longleftrightarrow> (ot = OwnerTypeOther '''' \<or> ot = OwnerTypeUser) \<and>
     ot' = OwnerTypeUser \<and> owner \<noteq> '''' \<and> validate_idempotency_key k = Inr k'"
  by (auto simp: prepare_write_def normalize_owner_type_def owner_type_is_valid_def
      split: sum.splits if_splits owner_type.splits)

text \<open>A successful verb ran its body in a transaction, after the checks of its command.\<close>

lemma grant_Inr:
  assumes "grant e sc cmd w = (Inr r, w')"
  obtains code w1 where "validate_code (gc_DefCode cmd) = Inr code"
    and "grant_body e sc cmd OwnerTypeUser (cmd_key (DoGrant cmd)) code (w\<lparr>w_ops := Suc (w_ops w)\<rparr>) = (Inr r, w1)"
    and "quiet w1 w'"
  using assms unfolding grant_def
  by (elim tx_elims run_tx_Inr) (auto simp: prepare_write_Inr validate_idempotency_key_Inr cmd_key_def)

lemma consume_Inr:
  assumes "consume e sc cmd w = (Inr r, w')"
  obtains code w1 where "validate_code (cc_DefCode cmd) = Inr code"
    and "consume_body e sc cmd OwnerTypeUser (cmd_key (DoConsume cmd)) code (w\<lparr>w_ops := Suc (w_ops w)\<rparr>) = (Inr r, w1)"
    and "quiet w1 w'"
  using assms unfolding consume_def
  by (elim tx_elims run_tx_Inr) (auto simp: prepare_write_Inr validate_idempotency_key_Inr cmd_key_def)

lemma transfer_Inr:
  assumes "transfer e sc cmd w = (Inr r, w')"
  obtains code w1 where "validate_code (tc_DefCode cmd) = Inr code"
    and "tc_FromOwnerID cmd \<noteq> tc_ToOwnerID cmd"
    and "transfer_body e sc cmd (cmd_key (DoTransfer cmd)) code (w\<lparr>w_ops := Suc (w_ops w)\<rparr>) = (Inr r, w1)"
    and "quiet w1 w'"
  using assms unfolding transfer_def
  by (elim tx_elims run_tx_Inr) (auto simp: validate_idempotency_key_Inr cmd_key_def)

lemma mutate_Inr:
  assumes "mutate e sc cmd w = (Inr r, w')"
  obtains w1 where "mutate_body e sc cmd (cmd_key (DoMutate cmd)) (w\<lparr>w_ops := Suc (w_ops w)\<rparr>) = (Inr r, w1)"
    and "quiet w1 w'"
  using assms unfolding mutate_def
  by (elim tx_elims run_tx_Inr) (auto simp: validate_idempotency_key_Inr cmd_key_def)

lemma expire_Inr:
  assumes "expire e sc cmd w = (Inr r, w')"
  obtains w1 where "expire_holding e sc (sc_ProjectID sc) (xc_HoldingID cmd) (cmd_key (DoExpire cmd))
      (w\<lparr>w_ops := Suc (w_ops w)\<rparr>) = (Inr r, w1)"
    and "quiet w1 w'"
  using assms unfolding expire_def
  by (elim tx_elims run_tx_Inr) (auto simp: validate_idempotency_key_Inr cmd_key_def)

end
