(* ===== verification/Asset_Reconcile.thy ===== *)
theory Asset_Reconcile
  imports Asset_Service Asset_Ledger "HOL-Library.Multiset"
begin

text \<open>
  \<^verbatim>\<open>internal/app/assets/reconcile.go\<close>: the ledger of a project is replayed holding by
  holding and compared with the holdings, and with the chain of \<^verbatim>\<open>quantity_after\<close>. Go
  iterates over its maps in no particular order; here the order is that of the first row of
  each holding. The text of a finding and the metric are left out.
\<close>

record drift =
  dr_ProjectID :: string
  dr_OwnerType :: "owner_type option"
  dr_OwnerID :: string
  dr_DefID :: string
  dr_ExpiresAt :: "gtime option"
  dr_BucketKey :: string
  dr_HoldingID :: string
  dr_HoldingQty :: int
  dr_ReplayedQty :: int
  dr_QuantityAfter :: bool

record reconcile_report =
  rp_ProjectID :: string
  rp_Holdings :: nat
  rp_Entries :: nat
  rp_Drifts :: "drift list"
  rp_CheckedAt :: gtime
  rp_ZeroDrift :: bool
  rp_QuantityAfter :: nat

text \<open>The rows of one holding, in the order of the ledger; rows without a holding are skipped.\<close>

definition rows_of :: "string \<Rightarrow> ledger_entry list \<Rightarrow> ledger_entry list" where
  "rows_of i es = (if i = '''' then [] else filter (\<lambda>r. e_HoldingID r = i) es)"

definition replayed_ids :: "ledger_entry list \<Rightarrow> string list" where
  "replayed_ids es = filter (\<lambda>i. i \<noteq> '''') (remdups (map e_HoldingID es))"

definition replayed_sum :: "string \<Rightarrow> ledger_entry list \<Rightarrow> int" where
  "replayed_sum i es = sum_i64 (map e_Delta (rows_of i es))"

definition quantity_drifts :: "string \<Rightarrow> holding list \<Rightarrow> ledger_entry list \<Rightarrow> drift list" where
  "quantity_drifts p hs es = map (\<lambda>h.
      \<lparr>dr_ProjectID = p, dr_OwnerType = Some (h_OwnerType h), dr_OwnerID = h_OwnerID h,
       dr_DefID = h_DefID h, dr_ExpiresAt = h_ExpiresAt h, dr_BucketKey = h_BucketKey h,
       dr_HoldingID = h_ID h, dr_HoldingQty = h_Quantity h,
       dr_ReplayedQty = replayed_sum (h_ID h) es, dr_QuantityAfter = False\<rparr>)
     (filter (\<lambda>h. replayed_sum (h_ID h) es \<noteq> h_Quantity h) hs)"

definition missing_drifts :: "string \<Rightarrow> holding list \<Rightarrow> ledger_entry list \<Rightarrow> drift list" where
  "missing_drifts p hs es = map (\<lambda>i. let r = last (rows_of i es) in
      \<lparr>dr_ProjectID = p, dr_OwnerType = Some (e_OwnerType r), dr_OwnerID = e_OwnerID r,
       dr_DefID = e_DefID r, dr_ExpiresAt = e_ExpiresAt r, dr_BucketKey = e_BucketKey r,
       dr_HoldingID = i, dr_HoldingQty = 0, dr_ReplayedQty = replayed_sum i es,
       dr_QuantityAfter = False\<rparr>)
     (filter (\<lambda>i. i \<notin> set (map h_ID hs) \<and> replayed_sum i es \<noteq> 0) (replayed_ids es))"

text \<open>The first row whose \<^verbatim>\<open>quantity_after\<close> is not the running sum, with that sum.\<close>

fun chain_break :: "int \<Rightarrow> ledger_entry list \<Rightarrow> (int \<times> int) option" where
  "chain_break running [] = None"
| "chain_break running (r # rs) = (let n = i64 (running + e_Delta r)
     in if n \<noteq> e_QuantityAfter r then Some (e_QuantityAfter r, n) else chain_break n rs)"

definition chain_drifts :: "string \<Rightarrow> ledger_entry list \<Rightarrow> drift list" where
  "chain_drifts p es = concat (map (\<lambda>i. case chain_break 0 (rows_of i es) of None \<Rightarrow> []
     | Some (aft, running) \<Rightarrow>
      [\<lparr>dr_ProjectID = p, dr_OwnerType = None, dr_OwnerID = '''', dr_DefID = '''',
        dr_ExpiresAt = None, dr_BucketKey = '''', dr_HoldingID = i, dr_HoldingQty = aft,
        dr_ReplayedQty = running, dr_QuantityAfter = True\<rparr>]) (replayed_ids es))"

definition reconcile_project :: "asset_env \<Rightarrow> string \<Rightarrow> reconcile_report atx" where
  "reconcile_project e p =
     tx_bind (ts e) (\<lambda>now.
     tx_bind (holding_list_all e p) (\<lambda>hs.
     tx_bind (ledger_list_all e p) (\<lambda>es.
     let breaks = chain_drifts p es;
         drifts = quantity_drifts p hs es @ missing_drifts p hs es @ breaks
     in tx_ret \<lparr>rp_ProjectID = p, rp_Holdings = length hs, rp_Entries = length es,
          rp_Drifts = drifts, rp_CheckedAt = now, rp_ZeroDrift = (drifts = []),
          rp_QuantityAfter = length breaks\<rparr>)))"

section \<open>What the report means\<close>

definition project_rows :: "asset_tables \<Rightarrow> string \<Rightarrow> ledger_entry list" where
  "project_rows db p = filter (\<lambda>r. e_ProjectID r = p) (t_ledger db)"

definition project_holdings :: "asset_tables \<Rightarrow> string \<Rightarrow> holding list" where
  "project_holdings db p = filter (\<lambda>h. h_ProjectID h = p) (t_holdings db)"

lemma reconcile_project_Inr:
  assumes "reconcile_project e p w = (Inr rep, w')"
  obtains hs es where "hs = sort_key (\<lambda>h. (h_OwnerID h, h_DefID h, h_ID h)) (project_holdings (w_db w) p)"
    and "es = sort_key (\<lambda>r. (e_CreatedAt r, e_ID r)) (project_rows (w_db w) p)"
    and "rp_Drifts rep = quantity_drifts p hs es @ missing_drifts p hs es @ chain_drifts p es"
    and "rp_ZeroDrift rep \<longleftrightarrow> rp_Drifts rep = []" and "rp_QuantityAfter rep = length (chain_drifts p es)"
  using assms
  by (auto simp: reconcile_project_def tx_simps ts_def holding_list_all_def ledger_list_all_def Let_def
      project_rows_def project_holdings_def)

lemma sum_list_mset_cong:
  "mset xs = mset ys \<Longrightarrow> sum_list (map f xs) = (sum_list (map f ys) :: int)"
  by (metis mset_map sum_mset_sum_list)

lemma replayed_sum_lsum:
  assumes "mset es = mset (project_rows db p)" and "i \<noteq> ''''"
  shows "replayed_sum i es = i64 (lsum (about p i) db)"
proof -
  have "sum_list (map e_Delta (filter (\<lambda>r. e_HoldingID r = i) es))
      = sum_list (map e_Delta (filter (\<lambda>r. e_HoldingID r = i) (project_rows db p)))"
    using assms(1) by (intro sum_list_mset_cong) (metis mset_filter)
  also have "\<dots> = sum_list (map e_Delta (filter (about p i) (t_ledger db)))"
    by (simp add: project_rows_def about_def [abs_def] conj_commute)
  also have "\<dots> = lsum (about p i) db"
    by (simp add: lsum_def sum_list_map_filter')
  finally show ?thesis
    using assms(2) by (simp add: replayed_sum_def rows_of_def sum_i64_eq)
qed

lemma held_missing:
  "\<forall>h \<in> set (project_holdings db p). h_ID h \<noteq> i \<Longrightarrow> held db p i = 0"
  unfolding held_def hsum_def
  by (rule sum_list_0') (auto simp: project_holdings_def row_id_def)

lemma lsum_missing: "i \<notin> set (replayed_ids es) \<Longrightarrow> i \<noteq> '''' \<Longrightarrow> mset es = mset (project_rows db p) \<Longrightarrow>
    lsum (about p i) db = 0"
proof (rule lsum_zero)
  fix x assume "i \<notin> set (replayed_ids es)" "i \<noteq> ''''" "mset es = mset (project_rows db p)"
    and x: "x \<in> set (t_ledger db)"
  then have "i \<notin> e_HoldingID ` set (project_rows db p)"
    by (auto simp: replayed_ids_def dest: mset_eq_setD)
  with x show "\<not> about p i x" by (auto simp: about_def project_rows_def)
qed

text \<open>A chain restricted to one holding.\<close>

lemma chain_from_holding:
  assumes "chain_from run rs" and "\<forall>r \<in> set rs. is_i64 (e_QuantityAfter r)"
  shows "chain_break (run (p, i)) (filter (about p i) rs) = None"
  using assms
proof (induction rs arbitrary: run)
  case (Cons r rs)
  let ?k = "(e_ProjectID r, e_HoldingID r)"
  have n: "e_QuantityAfter r = run ?k + e_Delta r" and c: "chain_from (run(?k := run ?k + e_Delta r)) rs"
    using Cons.prems(1) by (simp_all add: Let_def)
  have "i64 (run ?k + e_Delta r) = run ?k + e_Delta r"
    using Cons.prems(2) n by (simp add: i64_id)
  then show ?case
    using Cons.IH [OF c] Cons.prems(2) n by (auto simp: about_def Let_def)
qed simp

section \<open>What a report says\<close>

lemma no_quantity_drifts:
  "quantity_drifts p hs es = [] \<longleftrightarrow> (\<forall>h \<in> set hs. replayed_sum (h_ID h) es = h_Quantity h)"
  by (auto simp: quantity_drifts_def filter_empty_conv)

lemma no_missing_drifts:
  "missing_drifts p hs es = [] \<longleftrightarrow>
     (\<forall>i \<in> set (replayed_ids es). i \<notin> h_ID ` set hs \<longrightarrow> replayed_sum i es = 0)"
  by (auto simp: missing_drifts_def filter_empty_conv)

lemma no_chain_drifts:
  "chain_drifts p es = [] \<longleftrightarrow> (\<forall>i \<in> set (replayed_ids es). chain_break 0 (rows_of i es) = None)"
  by (auto simp: chain_drifts_def split: option.splits) (metis not_None_eq surj_pair)

text \<open>No drift of quantities: every holding is what its rows add up to, gone ones nothing.\<close>

lemma no_drifts_iff:
  assumes "set hs = set (project_holdings db p)" and "mset es = mset (project_rows db p)"
    and "distinct (map row_id (t_holdings db))" and "\<forall>h \<in> set (project_holdings db p). h_ID h \<noteq> ''''"
  shows "quantity_drifts p hs es = [] \<and> missing_drifts p hs es = [] \<longleftrightarrow>
    (\<forall>i. i \<noteq> '''' \<longrightarrow> i64 (lsum (about p i) db) = held db p i)"
proof -
  have here: "held db p (h_ID h) = h_Quantity h" if "h \<in> set hs" for h
    using held_row [OF assms(3), of h] that assms(1) by (auto simp: project_holdings_def)
  have gone: "held db p i = 0" if "i \<notin> h_ID ` set hs" for i
    using that assms(1) by (intro held_missing) auto
  have sum: "replayed_sum i es = i64 (lsum (about p i) db)" if "i \<noteq> ''''" for i
    using assms(2) that by (rule replayed_sum_lsum)
  have zero: "i64 (lsum (about p i) db) = 0" if "i \<notin> set (replayed_ids es)" "i \<noteq> ''''" for i
    using lsum_missing [OF that assms(2)] by (simp add: i64_def)
  have ne: "h_ID h \<noteq> ''''" if "h \<in> set hs" for h using that assms(1,4) by auto
  have ne': "i \<noteq> ''''" if "i \<in> set (replayed_ids es)" for i using that by (auto simp: replayed_ids_def)
  have "(\<forall>i. i \<noteq> '''' \<longrightarrow> i64 (lsum (about p i) db) = held db p i) \<longleftrightarrow>
      (\<forall>h \<in> set hs. i64 (lsum (about p (h_ID h)) db) = h_Quantity h) \<and>
      (\<forall>i. i \<noteq> '''' \<and> i \<notin> h_ID ` set hs \<longrightarrow> i64 (lsum (about p i) db) = 0)"
  proof (intro iffI conjI ballI allI impI)
    fix i :: string assume r: "(\<forall>h \<in> set hs. i64 (lsum (about p (h_ID h)) db) = h_Quantity h) \<and>
      (\<forall>i. i \<noteq> [] \<and> i \<notin> h_ID ` set hs \<longrightarrow> i64 (lsum (about p i) db) = 0)" and i: "i \<noteq> []"
    show "i64 (lsum (about p i) db) = held db p i"
    proof (cases "i \<in> h_ID ` set hs")
      case True
      then obtain h where "h \<in> set hs" "i = h_ID h" by blast
      with r here show ?thesis by simp
    next
      case False
      with r i gone show ?thesis by simp
    qed
  qed (use here gone ne in \<open>simp_all add: image_iff\<close>)
  also have "\<dots> \<longleftrightarrow> (\<forall>h \<in> set hs. replayed_sum (h_ID h) es = h_Quantity h) \<and>
      (\<forall>i \<in> set (replayed_ids es). i \<notin> h_ID ` set hs \<longrightarrow> replayed_sum i es = 0)"
  proof (rule arg_cong2 [of _ _ _ _ "(\<and>)"])
    show "(\<forall>h \<in> set hs. i64 (lsum (about p (h_ID h)) db) = h_Quantity h) =
        (\<forall>h \<in> set hs. replayed_sum (h_ID h) es = h_Quantity h)"
      using sum ne by simp
    show "(\<forall>i. i \<noteq> [] \<and> i \<notin> h_ID ` set hs \<longrightarrow> i64 (lsum (about p i) db) = 0) =
        (\<forall>i \<in> set (replayed_ids es). i \<notin> h_ID ` set hs \<longrightarrow> replayed_sum i es = 0)"
      using sum zero ne' by metis
  qed
  finally show ?thesis
    unfolding no_quantity_drifts no_missing_drifts by blast
qed

lemma no_chain_break:
  assumes "chain_ok db" and "\<forall>r \<in> set (t_ledger db). is_i64 (e_QuantityAfter r)" and "i \<noteq> ''''"
  shows "chain_break 0 (rows_of i (project_rows db p)) = None"
proof -
  have "rows_of i (project_rows db p) = filter (about p i) (t_ledger db)"
    using assms(3) by (simp add: rows_of_def project_rows_def about_def [abs_def] conj_commute)
  then show ?thesis
    using chain_from_holding [of "\<lambda>_. 0" "t_ledger db" p i] assms(1,2) by (simp add: chain_ok_def)
qed

end
