(* ===== verification/Asset_Properties.thy ===== *)
theory Asset_Properties
  imports Asset_Verbs Asset_Reconcile
begin

text \<open>
  The properties of the asset system, each with a run of the model at concrete commands as
  its witness.
\<close>

section \<open>A concrete world\<close>

definition demo_env :: asset_env where
  "demo_env = \<lparr>env_clock = (\<lambda>k. (1700000000 + int k) * sec), env_id = (\<lambda>k. ''id'' @ itoa k),
     env_fails = (\<lambda>_. False), env_events = True\<rparr>"

definition demo_def :: "asset_class \<Rightarrow> string \<Rightarrow> int option \<Rightarrow> asset_def" where
  "demo_def c code mx = \<lparr>d_ID = ''def-'' @ code, d_ProjectID = ''p1'', d_Code = code, d_Name = ''Demo'',
     d_Class = c, d_Decimals = 0, d_MaxQuantity = mx, d_ExpiresIn = None, d_Tradable = True,
     d_UniquePerOwner = False, d_Upgradeable = False, d_Metadata = None, d_Status = DefStatusActive,
     d_CreatedAt = 0, d_UpdatedAt = 0\<rparr>"

definition demo_scope :: scope where
  "demo_scope = \<lparr>sc_ProjectID = ''p1'', sc_Operator = None\<rparr>"

definition demo_grant :: "string \<Rightarrow> string \<Rightarrow> int \<Rightarrow> gtime option \<Rightarrow> string \<Rightarrow> grant_command" where
  "demo_grant owner code q t key = \<lparr>gc_OwnerType = OwnerTypeUser, gc_OwnerID = owner, gc_DefCode = code,
     gc_Quantity = q, gc_ExpiresAt = t, gc_Level = 0, gc_Metadata = None, gc_IdempotencyKey = key,
     gc_RefType = '''', gc_RefID = ''''\<rparr>"

definition demo_consume :: "string \<Rightarrow> string \<Rightarrow> int \<Rightarrow> string \<Rightarrow> consume_command" where
  "demo_consume owner code q key = \<lparr>cc_OwnerType = OwnerTypeUser, cc_OwnerID = owner, cc_DefCode = code,
     cc_Quantity = q, cc_IdempotencyKey = key, cc_RefType = '''', cc_RefID = ''''\<rparr>"

definition demo_transfer :: "string \<Rightarrow> string \<Rightarrow> string \<Rightarrow> int \<Rightarrow> string \<Rightarrow> transfer_command" where
  "demo_transfer a b code q key = \<lparr>tc_FromOwnerID = a, tc_ToOwnerID = b, tc_DefCode = code,
     tc_Quantity = q, tc_IdempotencyKey = key, tc_RefType = '''', tc_RefID = ''''\<rparr>"

definition init_world :: "asset_def list \<Rightarrow> asset_world" where
  "init_world defs = \<lparr>w_db = \<lparr>t_defs = defs, t_holdings = [], t_ledger = [], t_outbox = []\<rparr>,
     w_ids = 0, w_ticks = 0, w_ops = 0\<rparr>"

fun run_cmds :: "asset_env \<Rightarrow> scope \<Rightarrow> asset_cmd list \<Rightarrow> asset_world \<Rightarrow> asset_world" where
  "run_cmds e sc [] w = w"
| "run_cmds e sc (c # cs) w = run_cmds e sc cs (snd (exec_cmd e sc c w))"

definition demo_world :: asset_world where
  "demo_world = run_cmds demo_env demo_scope
     [DoGrant (demo_grant ''ann'' ''wood'' 5 (Some (2000000000 * sec)) ''g1''),
      DoGrant (demo_grant ''ann'' ''wood'' 7 (Some (1900000000 * sec)) ''g2'')]
     (init_world [demo_def ClassStack ''wood'' (Some 100)])"

text \<open>The value of this world, from which the runs below start.\<close>

lemma demo_world_code [code]:
  "demo_world = \<lparr>w_db =
    \<lparr>t_defs =
    [\<lparr>d_ID = ''def-wood'', d_ProjectID = ''p1'', d_Code = ''wood'',
    d_Name = ''Demo'', d_Class = ClassStack, d_Decimals = 0,
    d_MaxQuantity = Some 100, d_ExpiresIn = None, d_Tradable = True,
    d_UniquePerOwner = False, d_Upgradeable = False,
    d_Metadata = None, d_Status = DefStatusActive, d_CreatedAt = 0,
    d_UpdatedAt = 0\<rparr>],
    t_holdings =
    [\<lparr>h_ID = ''id1'', h_ProjectID = ''p1'',
    h_OwnerType = OwnerTypeUser, h_OwnerID = ''ann'',
    h_DefID = ''def-wood'', h_Quantity = 5,
    h_ExpiresAt = Some 2000000000000000000, h_Level = 0,
    h_Metadata = None, h_BucketKey = [], h_Version = 1,
    h_CreatedAt = 1700000000000000000,
    h_UpdatedAt = 1700000000000000000\<rparr>,
    \<lparr>h_ID = ''id5'', h_ProjectID = ''p1'',
    h_OwnerType = OwnerTypeUser, h_OwnerID = ''ann'',
    h_DefID = ''def-wood'', h_Quantity = 7,
    h_ExpiresAt = Some 1900000000000000000, h_Level = 0,
    h_Metadata = None, h_BucketKey = [], h_Version = 1,
    h_CreatedAt = 1700000001000000000,
    h_UpdatedAt = 1700000001000000000\<rparr>],
    t_ledger =
    [\<lparr>e_ID = ''id2'', e_ProjectID = ''p1'', e_HoldingID = ''id1'',
    e_OwnerType = OwnerTypeUser, e_OwnerID = ''ann'',
    e_DefID = ''def-wood'', e_Kind = KindGrant, e_Delta = 5,
    e_QuantityAfter = 5, e_ExpiresAt = Some 2000000000000000000,
    e_BucketKey = [], e_RefType = ''grant'', e_RefID = ''id0'',
    e_IdempotencyKey = ''g1'', e_TxID = [],
    e_Operator =
    Some
    system_operator,
    e_CreatedAt = 1700000000000000000\<rparr>,
    \<lparr>e_ID = ''id6'', e_ProjectID = ''p1'', e_HoldingID = ''id5'',
    e_OwnerType = OwnerTypeUser, e_OwnerID = ''ann'',
    e_DefID = ''def-wood'', e_Kind = KindGrant, e_Delta = 7,
    e_QuantityAfter = 7, e_ExpiresAt = Some 1900000000000000000,
    e_BucketKey = [], e_RefType = ''grant'', e_RefID = ''id4'',
    e_IdempotencyKey = ''g2'', e_TxID = [],
    e_Operator =
    Some
    system_operator,
    e_CreatedAt = 1700000001000000000\<rparr>],
    t_outbox =
    [\<lparr>ev_EventID = ''id3'', ev_Event = ''economy.assets.granted'',
    ev_ProjectID = ''p1'', ev_Channel = ''accounts.ann'',
    ev_CreatedAt = 1700000000000000000, ev_DefID = ''def-wood'',
    ev_DefCode = ''wood'', ev_Class = ClassStack,
    ev_OwnerID = ''ann'', ev_Kind = KindGrant, ev_Delta = 5,
    ev_QuantityAfter = 5\<rparr>,
    \<lparr>ev_EventID = ''id7'', ev_Event = ''economy.assets.granted'',
    ev_ProjectID = ''p1'', ev_Channel = ''accounts.ann'',
    ev_CreatedAt = 1700000001000000000, ev_DefID = ''def-wood'',
    ev_DefCode = ''wood'', ev_Class = ClassStack,
    ev_OwnerID = ''ann'', ev_Kind = KindGrant, ev_Delta = 7,
    ev_QuantityAfter = 7\<rparr>]\<rparr>,
    w_ids = 8, w_ticks = 2, w_ops = 16\<rparr>"
  by code_simp

lemma demo_keys: "map ledger_key (t_ledger (w_db demo_world)) = [(''p1'', ''g1''), (''p1'', ''g2'')]"
  by code_simp

lemma demo_key_set: "ledger_key ` set (t_ledger (w_db demo_world)) = {(''p1'', ''g1''), (''p1'', ''g2'')}"
  using arg_cong [OF demo_keys, of set] by simp

section \<open>The ledger accounts for the holdings\<close>

lemma demo_env_inj: "inj (env_id demo_env)"
  by (rule injI) (simp add: demo_env_def)

lemma init_world_ok:
  assumes "inj (env_id e)" and "distinct (map (\<lambda>d. (d_ProjectID d, d_ID d)) defs)"
  shows "world_ok e (init_world defs)"
  using assms
  by (simp add: world_ok_def book_ok_def ids_fresh_def init_world_def ids_of_def holdings_ok_def balanced_def
      accounts_agree_def chain_ok_def lsum_def held_def owned_def hsum_def)

text \<open>Every command, successful or not, keeps a world well-formed.\<close>

lemma quiet_ops_ok: "world_ok e w \<Longrightarrow> world_ok e (w\<lparr>w_ops := n\<rparr>)"
  by (rule quiet_world_ok [of w]) simp_all

lemma exec_cmd_rollback:
  "exec_cmd e sc c w = (Inl err, w') \<Longrightarrow> w_db w' = w_db w"
  by (cases c) (auto simp: grant_def consume_def transfer_def mutate_def expire_def tx_bind_def tx_lift_def
      tx_when_def tx_fail_def dest: run_tx_Inl split: sum.splits if_splits prod.splits)

lemma exec_cmd_draws: "draws (exec_cmd e sc c)"
  by (cases c) (simp_all add: draws_verbs)

lemma keys_free_ops [simp]: "keys_free p f n (w\<lparr>w_ops := m\<rparr>) = keys_free p f n w"
  by (simp add: keys_free_def)

lemma exec_cmd_run:
  assumes "exec_cmd e sc c w = (Inr r, w')" and "world_ok e w" and "cmd_ok sc c w"
  shows "book_run e w w' \<and> ((sc_ProjectID sc, cmd_key c) \<in> ledger_key ` set (t_ledger (w_db w)) \<longrightarrow>
    r_IdempotentReplay r \<and> w_db w' = w_db w)"
proof -
  let ?w = "w\<lparr>w_ops := Suc (w_ops w)\<rparr>"
  have ok: "world_ok e ?w" using assms(2) by (rule quiet_ops_ok)
  have q: "book_run e w ?w" by (rule quiet_book_run) simp
  have "\<exists>w1. book_run e ?w w1 \<and> quiet w1 w' \<and>
      ((sc_ProjectID sc, cmd_key c) \<in> ledger_key ` set (t_ledger (w_db w)) \<longrightarrow>
       r_IdempotentReplay r \<and> w_db w1 = w_db w)"
  proof (cases c)
    case (DoGrant g)
    with assms show ?thesis
      by (auto elim!: grant_Inr dest!: grant_body_run [OF _ ok])
  next
    case (DoConsume g)
    with assms show ?thesis
      by (auto elim!: consume_Inr dest!: consume_body_run [OF _ ok])
  next
    case (DoTransfer g)
    with assms show ?thesis
      by (auto elim!: transfer_Inr dest!: transfer_body_run [OF _ ok])
  next
    case (DoMutate g)
    with assms show ?thesis
      by (auto elim!: mutate_Inr dest!: mutate_body_run [OF _ ok])
  next
    case (DoExpire g)
    with assms show ?thesis
      by (auto elim!: expire_Inr dest!: expire_holding_run [OF _ ok])
  qed
  then obtain w1 where w1: "book_run e ?w w1" "quiet w1 w'"
      "(sc_ProjectID sc, cmd_key c) \<in> ledger_key ` set (t_ledger (w_db w)) \<longrightarrow>
       r_IdempotentReplay r \<and> w_db w1 = w_db w" by blast
  have "book_run e w w'"
    using q w1(1) quiet_book_run [OF w1(2)] by (blast intro: book_run_trans)
  then show ?thesis
    using w1(2,3) by (simp add: quiet_def)
qed

lemma exec_cmd_world_ok:
  assumes "exec_cmd e sc c w = (res, w')" and "world_ok e w" and "cmd_ok sc c w"
  shows "world_ok e w'"
proof (cases res)
  case (Inl err)
  then have "quiet w w'"
    using exec_cmd_rollback [of e sc c w err w'] exec_cmd_draws [of e sc c] assms(1)
    by (auto simp: quiet_def draws_def dest: spec [of _ w])
  then show ?thesis using assms(2) by (rule quiet_world_ok)
next
  case (Inr r)
  then show ?thesis
    using exec_cmd_run [of e sc c w r w'] assms book_run_world_ok by blast
qed

inductive reachable :: "asset_env \<Rightarrow> asset_world \<Rightarrow> bool" for e where
  reach_init: "distinct (map (\<lambda>d. (d_ProjectID d, d_ID d)) defs) \<Longrightarrow> reachable e (init_world defs)"
| reach_step: "reachable e w \<Longrightarrow> cmd_ok sc c w \<Longrightarrow> exec_cmd e sc c w = (res, w') \<Longrightarrow> reachable e w'"

lemma reachable_world_ok: "reachable e w \<Longrightarrow> inj (env_id e) \<Longrightarrow> world_ok e w"
  by (induction rule: reachable.induct) (auto intro: init_world_ok exec_cmd_world_ok)

lemma demo_reachable: "reachable demo_env demo_world"
proof -
  let ?w0 = "init_world [demo_def ClassStack ''wood'' (Some 100)]"
  let ?c1 = "DoGrant (demo_grant ''ann'' ''wood'' 5 (Some (2000000000 * sec)) ''g1'')"
  let ?c2 = "DoGrant (demo_grant ''ann'' ''wood'' 7 (Some (1900000000 * sec)) ''g2'')"
  have "reachable demo_env ?w0" by (rule reach_init) simp
  then have "reachable demo_env (snd (exec_cmd demo_env demo_scope ?c1 ?w0))"
    by (rule reach_step [of _ _ demo_scope ?c1 "fst (exec_cmd demo_env demo_scope ?c1 ?w0)"])
      (simp_all add: demo_grant_def is_i64_def del: exec_cmd.simps)
  then have "reachable demo_env (snd (exec_cmd demo_env demo_scope ?c2 (snd (exec_cmd demo_env demo_scope ?c1 ?w0))))"
    by (rule reach_step [of _ _ demo_scope ?c2 "fst (exec_cmd demo_env demo_scope ?c2 (snd (exec_cmd demo_env demo_scope ?c1 ?w0)))"])
      (simp_all add: demo_grant_def is_i64_def del: exec_cmd.simps)
  then show ?thesis by (simp only: demo_world_def run_cmds.simps)
qed

lemma demo_world_ok: "world_ok demo_env demo_world"
  using demo_reachable demo_env_inj by (rule reachable_world_ok)

text \<open>
  C1. From empty tables, after any sequence of grants, consumes, transfers, mutates and
  expiries, successful or failed, every holding equals the sum of its ledger rows, every
  owner's account equals the sum of its rows, \<^verbatim>\<open>quantity_after\<close> is the running sum, no key
  occurs twice in the ledger and no quantity is negative or outside \<^verbatim>\<open>int64\<close>. This holds under
  conditions that the code does not check: the identifiers drawn are distinct, the quantities of
  the commands are in \<^verbatim>\<open>int64\<close> (their type in the code), and no command runs while the ledger has
  a row under a key that the command derives from its own for its further rows (\<^verbatim>\<open>key#n\<close> of a
  consume, \<^verbatim>\<open>key:out:n\<close> and \<^verbatim>\<open>key:in:n\<close> of a transfer). Without the last one it is false: the code
  ignores that such a row was not inserted, and changes the holding all the same.
\<close>

theorem reachable_book_ok:
  assumes "reachable e w" and "inj (env_id e)"
  shows "book_ok (w_db w)"
  using reachable_world_ok [OF assms] by (simp add: world_ok_def)

theorem reachable_book_ok_witness:
  "book_ok (w_db demo_world) \<and> map h_Quantity (t_holdings (w_db demo_world)) = [5, 7]"
proof
  show "book_ok (w_db demo_world)"
    using demo_reachable demo_env_inj by (rule reachable_book_ok)
  show "map h_Quantity (t_holdings (w_db demo_world)) = [5, 7]" by code_simp
qed

section \<open>What the verbs give and take\<close>

lemma owned_append:
  assumes "book_ok db" and "book_ok db'" and "t_ledger db' = t_ledger db @ rs"
  shows "owned db' a = owned db a + sum_list (map e_Delta (filter (\<lambda>r. entry_account r = a) rs))"
proof -
  have "lsum (\<lambda>r. entry_account r = a) db' = lsum (\<lambda>r. entry_account r = a) db
      + sum_list (map e_Delta (filter (\<lambda>r. entry_account r = a) rs))"
    using assms(3) by (simp add: lsum_def sum_list_map_filter')
  moreover have "lsum (\<lambda>r. entry_account r = a) db = owned db a" "lsum (\<lambda>r. entry_account r = a) db' = owned db' a"
    using assms(1,2) unfolding book_ok_def accounts_agree_def by blast+
  ultimately show ?thesis by simp
qed

lemma owned_append_one:
  assumes "book_ok db" and "book_ok db'" and "t_ledger db' = t_ledger db @ rs"
    and "\<forall>r \<in> set rs. entry_account r = a"
  shows "owned db' b = owned db b + (if b = a then sum_list (map e_Delta rs) else 0)"
proof -
  have "filter (\<lambda>r. entry_account r = b) rs = (if b = a then rs else [])"
    using assms(4) by (auto simp: filter_empty_conv intro!: filter_True)
  then show ?thesis
    using owned_append [OF assms(1-3), of b] by simp
qed

lemma owned_nonneg:
  assumes "book_ok db" shows "0 \<le> owned db a"
  using assms unfolding owned_def hsum_def book_ok_def holdings_ok_def
  by (intro sum_list_nonneg) (auto simp: list_all_iff)

text \<open>The definition a code names in a project.\<close>

definition def_of_code :: "asset_world \<Rightarrow> string \<Rightarrow> string \<Rightarrow> asset_def \<Rightarrow> bool" where
  "def_of_code w p code d \<longleftrightarrow> d \<in> set (t_defs (w_db w)) \<and> d_ProjectID d = p \<and> Inr (d_Code d) = validate_code code"

lemma world_ok_book: "world_ok e w \<Longrightarrow> book_ok (w_db w)"
  by (simp add: world_ok_def)

lemma exec_ok_books:
  assumes "exec_cmd e sc c w = (Inr r, w')" and "world_ok e w" and "cmd_ok sc c w"
  shows "book_ok (w_db w)" and "book_ok (w_db w')"
  using assms(2) exec_cmd_world_ok [OF assms] by (auto simp: world_ok_def)

text \<open>
  C2. A grant that is not a replay adds exactly its quantity to the account of the owner
  under the definition its code names, and changes no other account; the ledger gets one row.
\<close>

theorem grant_adds:
  assumes "grant e sc cmd w = (Inr r, w')" and "world_ok e w" and "is_i64 (gc_Quantity cmd)"
    and "\<not> r_IdempotentReplay r"
  shows "\<exists>d en. def_of_code w (sc_ProjectID sc) (gc_DefCode cmd) d \<and> r_Entries r = [en] \<and>
    t_ledger (w_db w') = t_ledger (w_db w) @ [en] \<and>
    (\<forall>b. owned (w_db w') b = owned (w_db w) b +
      (if b = (sc_ProjectID sc, OwnerTypeUser, gc_OwnerID cmd, d_ID d) then gc_Quantity cmd else 0))"
proof -
  have x: "exec_cmd e sc (DoGrant cmd) w = (Inr r, w')" "cmd_ok sc (DoGrant cmd) w"
    using assms(1,3) by simp_all
  from assms(1) obtain code w1 where code: "validate_code (gc_DefCode cmd) = Inr code"
    and b: "grant_body e sc cmd OwnerTypeUser (cmd_key (DoGrant cmd)) code (w\<lparr>w_ops := Suc (w_ops w)\<rparr>) = (Inr r, w1)"
    and q: "quiet w1 w'" by (rule grant_Inr)
  from grant_body_run [OF b quiet_ops_ok [OF assms(2)] assms(3)] assms(4) q
  obtain en d where en: "r_Entries r = [en]" "t_ledger (w_db w') = t_ledger (w_db w) @ [en]"
      "e_Delta en = gc_Quantity cmd" "entry_account en = (sc_ProjectID sc, OwnerTypeUser, gc_OwnerID cmd, d_ID d)"
    and d: "def_of_code w (sc_ProjectID sc) (gc_DefCode cmd) d"
    by (auto simp: quiet_def def_of_code_def code split: if_splits)
  show ?thesis
    using owned_append_one [OF exec_ok_books [OF x(1) assms(2) x(2)] en(2)] en d
    by (intro exI [of _ d] exI [of _ en]) simp
qed

theorem grant_adds_witness:
  "\<exists>r w'. grant demo_env demo_scope (demo_grant ''bob'' ''Wood'' 3 None ''g9'') demo_world = (Inr r, w') \<and>
     length (r_Entries r) = 1"
proof -
  let ?c = "demo_grant ''bob'' ''Wood'' 3 None ''g9''"
  define x where "x = grant demo_env demo_scope ?c demo_world"
  have "case fst x of Inr r \<Rightarrow> \<not> r_IdempotentReplay r | Inl _ \<Rightarrow> False"
    unfolding x_def by code_simp
  then obtain r w' where g: "grant demo_env demo_scope ?c demo_world = (Inr r, w')" "\<not> r_IdempotentReplay r"
    unfolding x_def [symmetric] by (cases x) (auto split: sum.splits)
  have "is_i64 (gc_Quantity ?c)" by (simp add: demo_grant_def is_i64_def)
  from grant_adds [OF g(1) demo_world_ok this g(2)] g(1) show ?thesis by auto
qed

text \<open>
  C3. A consume that is not a replay takes exactly its quantity from the account, which
  held at least as much, and from no other account. It takes from the rows that have not
  expired in the order first expiring, first out: the ledger rows are those of the reference
  \<open>drain\<close> over the live rows, each taking what its row has until the quantity is reached.
  The tables are well-formed, and no ledger row has a key \<^verbatim>\<open>key#n\<close> derived from the command's.
\<close>

theorem consume_takes_fefo:
  assumes "consume e sc cmd w = (Inr r, w')" and "world_ok e w" and "cmd_ok sc (DoConsume cmd) w"
    and "\<not> r_IdempotentReplay r"
  shows "\<exists>d k. let a = (sc_ProjectID sc, OwnerTypeUser, cc_OwnerID cmd, d_ID d) in
    def_of_code w (sc_ProjectID sc) (cc_DefCode cmd) d \<and>
    map (\<lambda>r. (e_HoldingID r, e_Delta r)) (r_Entries r) =
      map (\<lambda>(h, t). (h_ID h, - t)) (drain (live_rows (w_db w) a (env_clock e k)) (cc_Quantity cmd)) \<and>
    t_ledger (w_db w') = t_ledger (w_db w) @ r_Entries r \<and>
    cc_Quantity cmd \<le> owned (w_db w) a \<and>
    (\<forall>b. owned (w_db w') b = owned (w_db w) b - (if b = a then cc_Quantity cmd else 0))"
proof -
  have x: "exec_cmd e sc (DoConsume cmd) w = (Inr r, w')" using assms(1) by simp
  from assms(1) obtain code w1 where code: "validate_code (cc_DefCode cmd) = Inr code"
    and b: "consume_body e sc cmd OwnerTypeUser (cmd_key (DoConsume cmd)) code (w\<lparr>w_ops := Suc (w_ops w)\<rparr>) = (Inr r, w1)"
    and q: "quiet w1 w'" by (rule consume_Inr)
  have "is_i64 (cc_Quantity cmd)" "keys_free (sc_ProjectID sc) (consume_idem (cmd_key (DoConsume cmd))) 1
      (w\<lparr>w_ops := Suc (w_ops w)\<rparr>)"
    using assms(3) by simp_all
  from consume_body_run [OF b quiet_ops_ok [OF assms(2)] this] assms(4) q
  obtain k d where d: "def_of_code w (sc_ProjectID sc) (cc_DefCode cmd) d"
    and l: "t_ledger (w_db w') = t_ledger (w_db w) @ r_Entries r"
    and en: "map (\<lambda>r. (e_HoldingID r, e_Delta r)) (r_Entries r) = map (\<lambda>(h, t). (h_ID h, - t))
        (drain (live_rows (w_db w) (sc_ProjectID sc, OwnerTypeUser, cc_OwnerID cmd, d_ID d) (env_clock e k)) (cc_Quantity cmd))"
      "\<forall>en \<in> set (r_Entries r). entry_account en = (sc_ProjectID sc, OwnerTypeUser, cc_OwnerID cmd, d_ID d)"
      "sum_list (map e_Delta (r_Entries r)) = - cc_Quantity cmd"
    by (auto simp: quiet_def def_of_code_def code Let_def split: if_splits)
  note books = exec_ok_books [OF x assms(2,3)]
  have o: "owned (w_db w') b = owned (w_db w) b -
      (if b = (sc_ProjectID sc, OwnerTypeUser, cc_OwnerID cmd, d_ID d) then cc_Quantity cmd else 0)" for b
    using owned_append_one [OF books l en(2), of b] en(3) by simp
  have "cc_Quantity cmd \<le> owned (w_db w) (sc_ProjectID sc, OwnerTypeUser, cc_OwnerID cmd, d_ID d)"
    using o [of "(sc_ProjectID sc, OwnerTypeUser, cc_OwnerID cmd, d_ID d)"]
      owned_nonneg [OF books(2), of "(sc_ProjectID sc, OwnerTypeUser, cc_OwnerID cmd, d_ID d)"] by simp
  then show ?thesis
    using d l en(1) o unfolding Let_def by blast
qed

lemma demo_trim: "trim_space ''c1'' = ''c1''" "trim_space ''t1'' = ''t1''" "trim_space ''k'' = ''k''"
  by code_simp+

lemma demo_consume_ok: "cmd_ok demo_scope (DoConsume (demo_consume ''ann'' ''wood'' 8 ''c1'')) demo_world"
  by (simp add: demo_consume_def is_i64_def keys_free_def demo_key_set cmd_key_def consume_idem_def
      demo_scope_def demo_trim)

theorem consume_takes_fefo_witness:
  "\<exists>r w'. consume demo_env demo_scope (demo_consume ''ann'' ''wood'' 8 ''c1'') demo_world = (Inr r, w') \<and>
     map e_Delta (r_Entries r) = [-7, -1] \<and> t_ledger (w_db w') = t_ledger (w_db demo_world) @ r_Entries r"
proof -
  let ?c = "demo_consume ''ann'' ''wood'' 8 ''c1''"
  define x where "x = consume demo_env demo_scope ?c demo_world"
  have "case fst x of Inr r \<Rightarrow> \<not> r_IdempotentReplay r \<and> map e_Delta (r_Entries r) = [-7, -1] | Inl _ \<Rightarrow> False"
    unfolding x_def by code_simp
  then obtain r w' where g: "consume demo_env demo_scope ?c demo_world = (Inr r, w')"
      "\<not> r_IdempotentReplay r" "map e_Delta (r_Entries r) = [-7, -1]"
    unfolding x_def [symmetric] by (cases x) (auto split: sum.splits)
  from consume_takes_fefo [OF g(1) demo_world_ok demo_consume_ok g(2)] g(1,3) show ?thesis
    by (auto simp: Let_def)
qed

text \<open>
  C4. A transfer that is not a replay moves exactly its quantity from the account of the
  sender to that of the receiver and changes no other account; what it debits, first
  expiring first, it credits, amount by amount, in the same order. The tables are well-formed,
  and no ledger row has a key \<^verbatim>\<open>key:out:n\<close> or \<^verbatim>\<open>key:in:n\<close> derived from the command's.
\<close>

theorem transfer_conserves:
  assumes "transfer e sc cmd w = (Inr r, w')" and "world_ok e w" and "cmd_ok sc (DoTransfer cmd) w"
    and "\<not> r_IdempotentReplay r"
  shows "\<exists>d k out ins. let a = (sc_ProjectID sc, OwnerTypeUser, tc_FromOwnerID cmd, d_ID d);
      b = (sc_ProjectID sc, OwnerTypeUser, tc_ToOwnerID cmd, d_ID d) in
    def_of_code w (sc_ProjectID sc) (tc_DefCode cmd) d \<and> d_Tradable d \<and> a \<noteq> b \<and>
    r_Entries r = out @ ins \<and> map e_Delta ins = map (\<lambda>r. - e_Delta r) out \<and>
    map (\<lambda>r. (e_HoldingID r, e_Delta r)) out =
      map (\<lambda>(h, t). (h_ID h, - t)) (drain (live_rows (w_db w) a (env_clock e k)) (tc_Quantity cmd)) \<and>
    (\<forall>c. owned (w_db w') c = owned (w_db w) c +
      (if c = b then tc_Quantity cmd else if c = a then - tc_Quantity cmd else 0))"
proof -
  have x: "exec_cmd e sc (DoTransfer cmd) w = (Inr r, w')" using assms(1) by simp
  from assms(1) obtain code w1 where code: "validate_code (tc_DefCode cmd) = Inr code"
    and ne: "tc_FromOwnerID cmd \<noteq> tc_ToOwnerID cmd"
    and b: "transfer_body e sc cmd (cmd_key (DoTransfer cmd)) code (w\<lparr>w_ops := Suc (w_ops w)\<rparr>) = (Inr r, w1)"
    and q: "quiet w1 w'" by (rule transfer_Inr)
  let ?w = "w\<lparr>w_ops := Suc (w_ops w)\<rparr>" and ?p = "sc_ProjectID sc"
  have k: "is_i64 (tc_Quantity cmd)" "keys_free ?p (out_idem (cmd_key (DoTransfer cmd))) 1 ?w"
      "keys_free ?p (in_idem (cmd_key (DoTransfer cmd))) 0 ?w"
    using assms(3) by simp_all
  from transfer_body_run [OF b quiet_ops_ok [OF assms(2)] k ne] assms(4) q
  obtain k d out ins where d: "def_of_code w ?p (tc_DefCode cmd) d" "d_Tradable d"
    and l: "t_ledger (w_db w') = t_ledger (w_db w) @ r_Entries r" "r_Entries r = out @ ins"
    and en: "map (\<lambda>r. (e_HoldingID r, e_Delta r)) out = map (\<lambda>(h, t). (h_ID h, - t))
        (drain (live_rows (w_db w) (?p, OwnerTypeUser, tc_FromOwnerID cmd, d_ID d) (env_clock e k)) (tc_Quantity cmd))"
      "map e_Delta ins = map (\<lambda>r. - e_Delta r) out"
    and ac: "\<forall>en \<in> set out. entry_account en = (?p, OwnerTypeUser, tc_FromOwnerID cmd, d_ID d)"
      "\<forall>en \<in> set ins. entry_account en = (?p, OwnerTypeUser, tc_ToOwnerID cmd, d_ID d)"
    and s: "sum_list (map e_Delta out) = - tc_Quantity cmd" "sum_list (map e_Delta ins) = tc_Quantity cmd"
    by (auto simp: quiet_def def_of_code_def code Let_def split: if_splits)
  note books = exec_ok_books [OF x assms(2,3)]
  have f: "filter (\<lambda>r. entry_account r = c) (out @ ins) =
      (if c = (?p, OwnerTypeUser, tc_FromOwnerID cmd, d_ID d) then out
       else if c = (?p, OwnerTypeUser, tc_ToOwnerID cmd, d_ID d) then ins else [])" for c
    using ac ne by (auto simp: filter_empty_conv intro!: filter_True)
  have "owned (w_db w') c = owned (w_db w) c +
      (if c = (?p, OwnerTypeUser, tc_ToOwnerID cmd, d_ID d) then tc_Quantity cmd
       else if c = (?p, OwnerTypeUser, tc_FromOwnerID cmd, d_ID d) then - tc_Quantity cmd else 0)" for c
    using owned_append [OF books l(1), of c] s ne unfolding l(2) f by simp
  then show ?thesis
    using d l(2) en ne unfolding Let_def by blast
qed

lemma demo_transfer_ok: "cmd_ok demo_scope (DoTransfer (demo_transfer ''ann'' ''bob'' ''wood'' 6 ''t1'')) demo_world"
  by (simp add: demo_transfer_def is_i64_def keys_free_def demo_key_set cmd_key_def out_idem_def in_idem_def
      demo_scope_def demo_trim)

lemma demo_transfer_run:
  "case fst (transfer demo_env demo_scope (demo_transfer ''ann'' ''bob'' ''wood'' 6 ''t1'') demo_world) of
     Inr r \<Rightarrow> \<not> r_IdempotentReplay r \<and> map e_Delta (r_Entries r) = [-6, 6] | Inl _ \<Rightarrow> False"
  by code_simp

theorem transfer_conserves_witness:
  "\<exists>r w' out ins. transfer demo_env demo_scope (demo_transfer ''ann'' ''bob'' ''wood'' 6 ''t1'') demo_world = (Inr r, w') \<and>
     r_Entries r = out @ ins \<and> map e_Delta ins = map (\<lambda>r. - e_Delta r) out \<and> map e_Delta (r_Entries r) = [-6, 6]"
proof -
  obtain r w' where g: "transfer demo_env demo_scope (demo_transfer ''ann'' ''bob'' ''wood'' 6 ''t1'') demo_world = (Inr r, w')"
      "\<not> r_IdempotentReplay r" "map e_Delta (r_Entries r) = [-6, 6]"
    using demo_transfer_run
    by (cases "transfer demo_env demo_scope (demo_transfer ''ann'' ''bob'' ''wood'' 6 ''t1'') demo_world")
      (auto split: sum.splits)
  have "\<exists>out ins. r_Entries r = out @ ins \<and> map e_Delta ins = map (\<lambda>r. - e_Delta r) out"
    using transfer_conserves [OF g(1) demo_world_ok demo_transfer_ok g(2)] unfolding Let_def
    by (elim exE conjE) (rule exI, rule exI, rule conjI, assumption, assumption)
  then obtain out ins where o: "r_Entries r = out @ ins" "map e_Delta ins = map (\<lambda>r. - e_Delta r) out"
    by (elim exE conjE)
  show ?thesis
    by (rule exI [of _ r], rule exI [of _ w'], rule exI [of _ out], rule exI [of _ ins])
      (intro conjI g(1) o g(3))
qed

text \<open>
  C5. Idempotence. A command that succeeds a second time with the same key, whatever its
  contents, and however many other commands ran in between, changes nothing and says so.
\<close>

lemma book_run_keys: "book_run e w w' \<Longrightarrow> ledger_key ` set (t_ledger (w_db w)) \<subseteq> ledger_key ` set (t_ledger (w_db w'))"
  by (auto simp: book_run_def dest!: posts_append_only)

theorem used_key_is_replay:
  assumes "(sc_ProjectID sc, cmd_key c) \<in> ledger_key ` set (t_ledger (w_db w))"
    and "world_ok e w" and "cmd_ok sc c w" and "exec_cmd e sc c w = (Inr r, w')"
  shows "r_IdempotentReplay r \<and> w_db w' = w_db w"
  using exec_cmd_run [OF assms(4,2,3)] assms(1) by blast

theorem used_key_is_replay_witness:
  "\<exists>r w'. exec_cmd demo_env demo_scope (DoGrant (demo_grant ''bob'' ''wood'' 99 None '' g1 '')) demo_world = (Inr r, w') \<and>
     r_IdempotentReplay r \<and> w_db w' = w_db demo_world"
proof -
  let ?c = "DoGrant (demo_grant ''bob'' ''wood'' 99 None '' g1 '')"
  define x where "x = exec_cmd demo_env demo_scope ?c demo_world"
  have "case fst x of Inr r \<Rightarrow> True | Inl _ \<Rightarrow> False"
    unfolding x_def by code_simp
  then obtain r w' where g: "exec_cmd demo_env demo_scope ?c demo_world = (Inr r, w')"
    unfolding x_def [symmetric] by (cases x) (auto split: sum.splits)
  have "cmd_key ?c = ''g1''" by code_simp
  then have "(sc_ProjectID demo_scope, cmd_key ?c) \<in> ledger_key ` set (t_ledger (w_db demo_world))"
    by (simp only: demo_key_set) (simp add: demo_scope_def)
  moreover have "cmd_ok demo_scope ?c demo_world" by (simp add: demo_grant_def is_i64_def)
  ultimately show ?thesis
    using used_key_is_replay [OF _ demo_world_ok _ g] g by blast
qed

section \<open>Reconcile\<close>

text \<open>
  C7. On a book that is in order, reconciling a project finds nothing: no drift of a
  quantity, no missing holding and no break of the chain, provided the ledger of the project
  is in the order of its timestamps, in which Reconcile reads it.
\<close>

theorem reconcile_finds_nothing:
  assumes "reconcile_project e p w = (Inr rep, w')" and "book_ok (w_db w)"
    and "sorted (map (\<lambda>r. (e_CreatedAt r, e_ID r)) (project_rows (w_db w) p))"
    and "\<forall>h \<in> set (project_holdings (w_db w) p). h_ID h \<noteq> ''''"
  shows "rp_ZeroDrift rep \<and> rp_Drifts rep = [] \<and> rp_QuantityAfter rep = 0"
proof -
  from assms(1) obtain hs es where
      hs: "hs = sort_key (\<lambda>h. (h_OwnerID h, h_DefID h, h_ID h)) (project_holdings (w_db w) p)"
    and es: "es = sort_key (\<lambda>r. (e_CreatedAt r, e_ID r)) (project_rows (w_db w) p)"
    and rep: "rp_Drifts rep = quantity_drifts p hs es @ missing_drifts p hs es @ chain_drifts p es"
      "rp_ZeroDrift rep \<longleftrightarrow> rp_Drifts rep = []" "rp_QuantityAfter rep = length (chain_drifts p es)"
    by (rule reconcile_project_Inr)
  have es': "es = project_rows (w_db w) p"
    unfolding es using assms(3) by (rule sort_key_id_if_sorted)
  have b: "distinct (map row_id (t_holdings (w_db w)))" "balanced (w_db w)" "chain_ok (w_db w)"
      "\<forall>r \<in> set (t_ledger (w_db w)). is_i64 (e_QuantityAfter r)"
    using assms(2) unfolding book_ok_def holdings_ok_def by blast+
  have "i64 (held (w_db w) p i) = held (w_db w) p i" for i
  proof (cases "\<exists>h \<in> set (t_holdings (w_db w)). row_id h = (p, i)")
    case True
    then obtain h where h: "h \<in> set (t_holdings (w_db w))" "row_id h = (p, i)" by blast
    have "is_i64 (h_Quantity h)" using assms(2) h(1) unfolding book_ok_def by blast
    then show ?thesis using held_row' [OF b(1) h] by (simp add: i64_id)
  next
    case False
    then have "held (w_db w) p i = 0"
      by (intro held_missing) (auto simp: project_holdings_def row_id_def)
    then show ?thesis by (simp add: i64_def)
  qed
  then have "\<forall>i. i \<noteq> '''' \<longrightarrow> i64 (lsum (about p i) (w_db w)) = held (w_db w) p i"
    using b(2) unfolding balanced_def by simp
  then have "quantity_drifts p hs es = [] \<and> missing_drifts p hs es = []"
    using no_drifts_iff [OF _ _ b(1) assms(4), of hs es] hs es' by simp
  moreover have "chain_drifts p es = []"
    unfolding no_chain_drifts es' using no_chain_break [OF b(3,4)] by (auto simp: replayed_ids_def)
  ultimately show ?thesis using rep by simp
qed

lemma demo_rows:
  "map (\<lambda>r. (e_CreatedAt r, e_ID r)) (project_rows (w_db demo_world) ''p1'')
     = [(1700000000 * sec, ''id2''), (1700000001 * sec, ''id6'')]"
  "map h_ID (project_holdings (w_db demo_world) ''p1'') = [''id1'', ''id5'']"
  "case fst (reconcile_project demo_env ''p1'' demo_world) of Inr rep \<Rightarrow> rp_Holdings rep = 2 | Inl _ \<Rightarrow> False"
  by code_simp+

theorem reconcile_finds_nothing_witness:
  "\<exists>rep w'. reconcile_project demo_env ''p1'' demo_world = (Inr rep, w') \<and> rp_Holdings rep = 2 \<and> rp_ZeroDrift rep"
proof -
  obtain rep w' where g: "reconcile_project demo_env ''p1'' demo_world = (Inr rep, w')" "rp_Holdings rep = 2"
    using demo_rows(3) by (cases "reconcile_project demo_env ''p1'' demo_world") (auto split: sum.splits)
  have s: "sorted (map (\<lambda>r. (e_CreatedAt r, e_ID r)) (project_rows (w_db demo_world) ''p1''))"
    unfolding demo_rows(1) by (simp add: sec_def)
  have "h_ID h \<noteq> ''''" if "h \<in> set (project_holdings (w_db demo_world) ''p1'')" for h
  proof -
    have "h_ID h \<in> set [''id1'', ''id5'']"
      unfolding demo_rows(2) [symmetric] using that by simp
    then show ?thesis by auto
  qed
  then have "rp_ZeroDrift rep"
    using reconcile_finds_nothing [OF g(1) world_ok_book [OF demo_world_ok] s] by blast
  with g show ?thesis by (intro exI conjI)
qed

text \<open>
  C8. What the report means on any tables with distinct identifiers: there is no drift of a
  quantity and no missing holding exactly if every holding of the project, and every
  identifier that has none, agrees with the wrapped sum of its ledger rows.
\<close>

theorem reconcile_detects_imbalance:
  assumes "reconcile_project e p w = (Inr rep, w')" and "distinct (map row_id (t_holdings (w_db w)))"
    and "\<forall>h \<in> set (project_holdings (w_db w) p). h_ID h \<noteq> ''''"
  shows "filter (\<lambda>d. \<not> dr_QuantityAfter d) (rp_Drifts rep) = [] \<longleftrightarrow>
    (\<forall>i. i \<noteq> '''' \<longrightarrow> i64 (lsum (about p i) (w_db w)) = held (w_db w) p i)"
proof -
  from assms(1) obtain hs es where
      hs: "hs = sort_key (\<lambda>h. (h_OwnerID h, h_DefID h, h_ID h)) (project_holdings (w_db w) p)"
    and es: "es = sort_key (\<lambda>r. (e_CreatedAt r, e_ID r)) (project_rows (w_db w) p)"
    and rep: "rp_Drifts rep = quantity_drifts p hs es @ missing_drifts p hs es @ chain_drifts p es"
    by (rule reconcile_project_Inr)
  have "filter (\<lambda>d. \<not> dr_QuantityAfter d) (quantity_drifts p hs es) = quantity_drifts p hs es"
    "filter (\<lambda>d. \<not> dr_QuantityAfter d) (missing_drifts p hs es) = missing_drifts p hs es"
    "filter (\<lambda>d. \<not> dr_QuantityAfter d) (chain_drifts p es) = []"
    by (auto simp: quantity_drifts_def missing_drifts_def chain_drifts_def Let_def filter_empty_conv
        intro!: filter_True split: option.splits)
  then have "filter (\<lambda>d. \<not> dr_QuantityAfter d) (rp_Drifts rep) = [] \<longleftrightarrow>
      quantity_drifts p hs es = [] \<and> missing_drifts p hs es = []"
    by (simp add: rep)
  then show ?thesis
    using no_drifts_iff [OF _ _ assms(2,3), of hs es] hs es by simp
qed

theorem reconcile_detects_imbalance_witness:
  "\<exists>rep w'. reconcile_project demo_env ''p1'' demo_world = (Inr rep, w') \<and>
     (filter (\<lambda>d. \<not> dr_QuantityAfter d) (rp_Drifts rep) = [] \<longleftrightarrow>
      (\<forall>i. i \<noteq> '''' \<longrightarrow> i64 (lsum (about ''p1'' i) (w_db demo_world)) = held (w_db demo_world) ''p1'' i))"
proof -
  obtain rep w' where g: "reconcile_project demo_env ''p1'' demo_world = (Inr rep, w')"
    using demo_rows(3) by (cases "reconcile_project demo_env ''p1'' demo_world") (auto split: sum.splits)
  have "h_ID h \<noteq> ''''" if "h \<in> set (project_holdings (w_db demo_world) ''p1'')" for h
  proof -
    have "h_ID h \<in> set [''id1'', ''id5'']"
      unfolding demo_rows(2) [symmetric] using that by simp
    then show ?thesis by auto
  qed
  then show ?thesis
    using reconcile_detects_imbalance [OF g world_okD(1) [OF demo_world_ok]] g by blast
qed

section \<open>The limit of a definition\<close>

text \<open>
  The limit \<^verbatim>\<open>max_quantity\<close> is checked on a sum that can wrap. If the sum fits, a grant
  that passes the check keeps the owner's live total within the limit.
\<close>

theorem max_quantity_respected:
  assumes "check_max_quantity d live q = Inr ()" and "d_MaxQuantity d = Some m"
    and "is_i64 (sum_list (map h_Quantity live) + q)"
  shows "sum_list (map h_Quantity live) + q \<le> m"
  using assms by (simp add: check_max_quantity_def sum_i64_eq i64_id split: if_splits)

theorem max_quantity_respected_witness:
  "sum_list (map h_Quantity (t_holdings (w_db demo_world))) + 88 \<le> 100"
proof (rule max_quantity_respected [of "demo_def ClassStack ''wood'' (Some 100)"])
  show "check_max_quantity (demo_def ClassStack ''wood'' (Some 100)) (t_holdings (w_db demo_world)) 88 = Inr ()"
    by code_simp
  show "d_MaxQuantity (demo_def ClassStack ''wood'' (Some 100)) = Some 100" by (simp add: demo_def_def)
  have "map h_Quantity (t_holdings (w_db demo_world)) = [5, 7]" by code_simp
  then show "is_i64 (sum_list (map h_Quantity (t_holdings (w_db demo_world))) + 88)"
    by (simp add: is_i64_def)
qed

end
