(* ===== verification/Cron.thy ===== *)
theory Cron
  imports Go_Time
begin

text \<open>
  Cron expressions, \<^verbatim>\<open>internal/domain/functions/cronexpr.go\<close>: the parser of the five fields
  and \<^verbatim>\<open>Next\<close>, the search for the next matching minute. The search jumps from month to
  month, day to day, hour to hour; it is shown to return the least matching minute after the
  start within its horizon of four years, and to fail only when there is none.
\<close>

section \<open>Parsing\<close>

datatype cron_field = MinuteField | HourField | DayField | MonthField | WeekdayField

datatype cron_part_err = InvalidStep | InvalidValue | OutOfRange

datatype cron_err = FieldCount nat | FieldErr cron_field cron_part_err | NoMatch

record cron_expr =
  c_raw :: string
  c_minutes :: "bool list"
  c_hours :: "bool list"
  c_days :: "bool list"
  c_months :: "bool list"
  c_weekdays :: "bool list"
  c_dayLimited :: bool
  c_wdayLimited :: bool

definition next_horizon :: int where "next_horizon = 4"

text \<open>\<^verbatim>\<open>splitFields\<close>; \<open>cur\<close> is the field read so far.\<close>

fun split_fields :: "string \<Rightarrow> string \<Rightarrow> string list" where
  "split_fields cur [] = (if cur = [] then [] else [cur])"
| "split_fields cur (ch # s) =
     (if ch = CHR '' '' \<or> ch = CHR 0x09
      then (if cur = [] then split_fields [] s else cur # split_fields [] s)
      else split_fields (cur @ [ch]) s)"

text \<open>\<^verbatim>\<open>parseUint\<close>; the value stays below ten million, so the \<^verbatim>\<open>int\<close> cannot wrap.\<close>

fun parse_uint_from :: "nat \<Rightarrow> string \<Rightarrow> nat option" where
  "parse_uint_from v [] = Some v"
| "parse_uint_from v (ch # s) =
     (if \<not> is_digit ch then None
      else let v' = v * 10 + digit_val ch in if 1000000 < v' then None else parse_uint_from v' s)"

definition parse_uint :: "string \<Rightarrow> nat option" where
  "parse_uint s = (if s = [] then None else parse_uint_from 0 s)"

definition split_range :: "string \<Rightarrow> (nat \<times> nat) option" where
  "split_range part = (case cut_at CHR ''-'' part of
       None \<Rightarrow> (case parse_uint part of None \<Rightarrow> None | Some v \<Rightarrow> Some (v, v))
     | Some (a, b) \<Rightarrow>
         if a = [] \<or> b = [] then None
         else (case (parse_uint a, parse_uint b) of (Some x, Some y) \<Rightarrow> Some (x, y) | _ \<Rightarrow> None))"

text \<open>The step of a part and what is before it; \<^verbatim>\<open>/n\<close> means \<^verbatim>\<open>*/n\<close>.\<close>

definition split_step :: "string \<Rightarrow> nat \<Rightarrow> nat \<Rightarrow> cron_part_err + string \<times> nat" where
  "split_step part mn mx = (case cut_at CHR ''/'' part of
       None \<Rightarrow> Inr (part, 1)
     | Some (a, s) \<Rightarrow> (case parse_uint s of
           None \<Rightarrow> Inl InvalidStep
         | Some v \<Rightarrow> if v = 0 \<or> mx - mn + 1 < v then Inl InvalidStep
             else Inr (if a = [] then ''*'' else a, v)))"

definition part_range :: "string \<Rightarrow> nat \<Rightarrow> nat \<Rightarrow> cron_part_err + nat \<times> nat" where
  "part_range part mn mx = (case (if part = ''*'' then Some (mn, mx) else split_range part) of
       None \<Rightarrow> Inl InvalidValue
     | Some (lo, hi) \<Rightarrow> if lo < mn \<or> mx < hi \<or> hi < lo then Inl OutOfRange else Inr (lo, hi))"

text \<open>The loop \<^verbatim>\<open>for v := lo; v <= hi; v += step\<close>, for a positive step.\<close>

function stepped :: "nat \<Rightarrow> nat \<Rightarrow> nat \<Rightarrow> nat list" where
  "stepped lo hi step = (if hi < lo \<or> step = 0 then [] else lo # stepped (lo + step) hi step)"
  by pat_completeness auto
termination by (relation "measure (\<lambda>(lo, hi, step). Suc hi - lo)") auto

declare stepped.simps [simp del]

definition part_values :: "string \<Rightarrow> nat \<Rightarrow> nat \<Rightarrow> cron_part_err + nat list" where
  "part_values part mn mx = (case split_step part mn mx of Inl err \<Rightarrow> Inl err
     | Inr (p, step) \<Rightarrow> (case part_range p mn mx of Inl err \<Rightarrow> Inl err
         | Inr (lo, hi) \<Rightarrow> Inr (stepped lo hi step)))"

definition set_bits :: "bool list \<Rightarrow> nat list \<Rightarrow> bool list" where
  "set_bits bits vs = foldl (\<lambda>b v. b[v := True]) bits vs"

fun field_parts :: "string list \<Rightarrow> nat \<Rightarrow> nat \<Rightarrow> bool list \<Rightarrow> cron_part_err + bool list" where
  "field_parts [] mn mx bits = Inr bits"
| "field_parts (part # ps) mn mx bits = (case part_values part mn mx of Inl err \<Rightarrow> Inl err
     | Inr vs \<Rightarrow> field_parts ps mn mx (set_bits bits vs))"

text \<open>\<^verbatim>\<open>parseCronField60\<close> and \<^verbatim>\<open>parseCronField32\<close> differ in the size of the array only.\<close>

definition parse_field :: "nat \<Rightarrow> string \<Rightarrow> nat \<Rightarrow> nat \<Rightarrow> cron_part_err + bool list" where
  "parse_field cap fld mn mx = field_parts (split_on CHR '','' fld) mn mx (replicate cap False)"

definition parse_cron :: "string \<Rightarrow> cron_err + cron_expr" where
  "parse_cron expr = (let fields = split_fields [] expr in
     if length fields \<noteq> 5 then Inl (FieldCount (length fields))
     else (case parse_field 60 (fields ! 0) 0 59 of Inl err \<Rightarrow> Inl (FieldErr MinuteField err) | Inr mi \<Rightarrow>
           (case parse_field 60 (fields ! 1) 0 23 of Inl err \<Rightarrow> Inl (FieldErr HourField err) | Inr ho \<Rightarrow>
           (case parse_field 32 (fields ! 2) 1 31 of Inl err \<Rightarrow> Inl (FieldErr DayField err) | Inr da \<Rightarrow>
           (case parse_field 32 (fields ! 3) 1 12 of Inl err \<Rightarrow> Inl (FieldErr MonthField err) | Inr mo \<Rightarrow>
           (case parse_field 32 (fields ! 4) 0 7 of Inl err \<Rightarrow> Inl (FieldErr WeekdayField err) | Inr wd \<Rightarrow>
             Inr \<lparr>c_raw = expr, c_minutes = mi, c_hours = ho, c_days = da, c_months = take 13 mo,
               c_weekdays = take 7 (wd[0 := wd ! 0 \<or> wd ! 7]),
               c_dayLimited = (fields ! 2 \<noteq> ''*''), c_wdayLimited = (fields ! 4 \<noteq> ''*'')\<rparr>))))))"

definition validate_cron_expr :: "string \<Rightarrow> cron_err option" where
  "validate_cron_expr expr = (case parse_cron expr of Inl err \<Rightarrow> Some err | Inr _ \<Rightarrow> None)"

section \<open>Searching\<close>

definition matches_day :: "cron_expr \<Rightarrow> gtime \<Rightarrow> bool" where
  "matches_day c t =
     (let day_ok = c_days c ! nat (mday_at t); wday_ok = c_weekdays c ! nat (weekday_at t)
      in if c_dayLimited c \<and> c_wdayLimited c then day_ok \<or> wday_ok
         else if c_dayLimited c then day_ok
         else if c_wdayLimited c then wday_ok
         else True)"

text \<open>Where the body of the loop goes from \<open>t\<close>; \<open>None\<close> when it returns \<open>t\<close>.\<close>

definition cron_jump :: "cron_expr \<Rightarrow> gtime \<Rightarrow> gtime option" where
  "cron_jump c t =
     (if \<not> c_months c ! nat (month_at t) then Some (add_date (go_date (year_at t) (month_at t) 1 0) 0 1 0)
      else if \<not> matches_day c t then
        Some (add_date (go_date (year_at t) (month_at t) (mday_at t) 0) 0 0 1)
      else if \<not> c_hours c ! nat (hour_at t) then
        Some (go_date (year_at t) (month_at t) (mday_at t) (hour_at t * hour) + hour)
      else if \<not> c_minutes c ! nat (minute_at t) then Some (t + minute)
      else None)"

text \<open>\<^verbatim>\<open>time.Date\<close> and \<^verbatim>\<open>AddDate\<close> on the dates the loop builds.\<close>

lemma date_of_parts: "date_of t = (year_at t, month_at t, mday_at t)"
  by (simp add: year_at_def month_at_def mday_at_def)

lemma valid_parts:
  "valid_date (year_at t) (month_at t) (mday_at t)"
  "day_of t = day_number (year_at t) (month_at t) (mday_at t)"
  using date_of_bounds [OF date_of_parts] by auto

lemma valid_date_first: "valid_date y m d \<Longrightarrow> valid_date y m 1"
  by (auto simp: valid_date_def)

lemma go_date_day:
  assumes "valid_date y m d" and "0 \<le> ns" and "ns < day_ns"
  shows "day_of (go_date y m d ns) = day_number y m d" "tod (go_date y m d ns) = ns"
    "date_of (go_date y m d ns) = (y, m, d)"
  using assms by (simp_all add: day_of_go_date tod_go_date days_of_date_norm valid_date_def
      date_of_def date_of_day_number)

lemma next_month_start:
  assumes "valid_date y m d"
  shows "add_date (go_date y m 1 0) 0 1 0 = (day_number y m 1 + days_in_month y m - 719162) * day_ns"
proof -
  have "date_of (go_date y m 1 0) = (y, m, 1)" "tod (go_date y m 1 0) = 0"
    using go_date_day [OF valid_date_first [OF assms], of 0] by auto
  moreover have "days_of_date y (m + 1) 1 = day_number y m 1 + days_in_month y m"
    using assms by (intro days_of_next_month) (auto simp: valid_date_def)
  ultimately show ?thesis
    by (simp add: add_date_def go_date_def)
qed

lemma next_day_start:
  assumes "valid_date y m d"
  shows "add_date (go_date y m d 0) 0 0 1 = (day_number y m d + 1 - 719162) * day_ns"
proof -
  have "date_of (go_date y m d 0) = (y, m, d)" "tod (go_date y m d 0) = 0"
    using go_date_day [OF assms, of 0] by auto
  moreover have "days_of_date y m (d + 1) = day_number y m d + 1"
    using assms by (simp add: valid_date_def days_of_date_norm day_number_def)
  ultimately show ?thesis
    by (simp add: add_date_def go_date_def)
qed

lemma day_of_less_iff: "t < (n - 719162) * day_ns \<longleftrightarrow> day_of t < n"
proof -
  have "t < (n - 719162) * day_ns \<longleftrightarrow> t div day_ns < n - 719162"
    by (simp add: idiv_less_iff)
  then show ?thesis by (auto simp: day_of_def)
qed

lemma day_number_diff: "day_number y m d = day_number y m 1 + (d - 1)"
  by (simp add: day_number_def)

text \<open>The three jumps, as bounds on what lies between.\<close>

lemma month_jump:
  "t < add_date (go_date (year_at t) (month_at t) 1 0) 0 1 0"
  "t \<le> u \<Longrightarrow> u < add_date (go_date (year_at t) (month_at t) 1 0) 0 1 0 \<Longrightarrow> month_at u = month_at t"
proof -
  let ?y = "year_at t" and ?m = "month_at t" and ?d = "mday_at t"
  note start = next_month_start [OF valid_parts(1) [of t]]
  have v: "1 \<le> ?d" "?d \<le> days_in_month ?y ?m"
    using valid_parts(1) [of t] by (auto simp: valid_date_def)
  show "t < add_date (go_date ?y ?m 1 0) 0 1 0"
    unfolding start day_of_less_iff valid_parts(2) [of t] using v day_number_diff [of ?y ?m ?d] by simp
  assume u: "t \<le> u" "u < add_date (go_date ?y ?m 1 0) 0 1 0"
  define k where "k = day_of u - day_number ?y ?m 1 + 1"
  have "day_of t \<le> day_of u" using u(1) by (rule day_of_mono)
  then have "1 \<le> k"
    using v(1) valid_parts(2) [of t] day_number_diff [of ?y ?m ?d] by (simp add: k_def)
  moreover have "k \<le> days_in_month ?y ?m"
    using u(2) unfolding start day_of_less_iff by (simp add: k_def)
  ultimately have "valid_date ?y ?m k"
    using valid_parts(1) [of t] by (simp add: valid_date_def)
  moreover have "day_of u = day_number ?y ?m k"
    using day_number_diff [of ?y ?m k] by (simp add: k_def)
  ultimately have "date_of u = (?y, ?m, k)"
    by (simp add: date_of_def date_of_day_number)
  then show "month_at u = ?m" by (simp add: month_at_def)
qed

lemma day_jump:
  "t < add_date (go_date (year_at t) (month_at t) (mday_at t) 0) 0 0 1"
  "t \<le> u \<Longrightarrow> u < add_date (go_date (year_at t) (month_at t) (mday_at t) 0) 0 0 1 \<Longrightarrow> day_of u = day_of t"
proof -
  note start = next_day_start [OF valid_parts(1) [of t]]
  show "t < add_date (go_date (year_at t) (month_at t) (mday_at t) 0) 0 0 1"
    unfolding start day_of_less_iff valid_parts(2) [of t] by simp
  assume "t \<le> u" "u < add_date (go_date (year_at t) (month_at t) (mday_at t) 0) 0 0 1"
  then show "day_of u = day_of t"
    unfolding start day_of_less_iff valid_parts(2) [of t, symmetric] using day_of_mono [of t u] by simp
qed

lemma hour_bounds: "0 \<le> hour_at t \<and> hour_at t < 24"
proof -
  have "tod t < 24 * hour" using tod_bounds [of t] by (simp add: day_ns_def)
  then show ?thesis
    using tod_bounds [of t] by (simp add: hour_at_def idiv_less_iff pos_imp_zdiv_nonneg_iff)
qed

lemma minute_bounds: "0 \<le> minute_at t \<and> minute_at t < 60"
proof -
  have "tod t mod hour < 60 * minute" by (simp add: hour_def)
  then show ?thesis
    by (simp add: minute_at_def idiv_less_iff pos_imp_zdiv_nonneg_iff)
qed

lemma hour_start:
  "go_date (year_at t) (month_at t) (mday_at t) (hour_at t * hour) = t - tod t mod hour"
proof -
  have v: "1 \<le> month_at t" "month_at t \<le> 12"
    using valid_parts(1) [of t] by (auto simp: valid_date_def)
  have "tod t = hour_at t * hour + tod t mod hour"
    by (simp add: hour_at_def)
  then show ?thesis
    using time_split [of t] by (simp add: go_date_def days_of_date_norm [OF v] valid_parts(2) [symmetric])
qed

lemma hour_jump:
  assumes "t' = go_date (year_at t) (month_at t) (mday_at t) (hour_at t * hour) + hour"
  shows "t < t'" and "t \<le> u \<Longrightarrow> u < t' \<Longrightarrow> day_of u = day_of t \<and> hour_at u = hour_at t"
proof -
  have m: "0 \<le> tod t mod hour" "tod t mod hour < hour" by simp_all
  show "t < t'" using m unfolding assms hour_start by simp
  assume u: "t \<le> u" "u < t'"
  define k where "k = u - (t - tod t mod hour)"
  have k: "0 \<le> k" "k < hour" using u m unfolding assms hour_start by (auto simp: k_def intro: order_trans [OF _ u(1)])
  have h: "hour_at t * hour + hour \<le> day_ns"
  proof -
    have "(hour_at t + 1) * hour \<le> 24 * hour"
      using hour_bounds [of t] by (intro mult_right_mono) (auto intro: less_imp_le)
    then show ?thesis by (simp add: day_ns_def algebra_simps)
  qed
  have h0: "0 \<le> hour_at t * hour" using hour_bounds [of t] by (auto intro!: mult_nonneg_nonneg less_imp_le [OF hour_pos])
  have "t - tod t mod hour = (day_of t - 719162) * day_ns + hour_at t * hour"
    using time_split [of t] by (simp add: hour_at_def) (simp add: minus_mod_eq_div_mult [symmetric])
  then have uk: "u = (day_of t - 719162) * day_ns + (hour_at t * hour + k)"
    by (simp add: k_def)
  have r: "0 \<le> hour_at t * hour + k" "hour_at t * hour + k < day_ns"
    using h h0 k by auto
  have "day_of u = day_of t" and tu: "tod u = hour_at t * hour + k"
    using day_split [OF r, of "day_of t"] uk by simp_all
  moreover from tu have "hour_at u = hour_at t"
    using k by (simp add: hour_at_def [of u] div_pos_pos_trivial)
  ultimately show "day_of u = day_of t \<and> hour_at u = hour_at t" by blast
qed

lemma cron_jump_later: "cron_jump c t = Some t' \<Longrightarrow> t < t'"
  using month_jump(1) [of t] day_jump(1) [of t] hour_jump(1) [OF refl, of t] minute_pos
  by (auto simp: cron_jump_def split: if_splits)

function cron_search :: "cron_expr \<Rightarrow> gtime \<Rightarrow> gtime \<Rightarrow> gtime option" where
  "cron_search c limit t = (if \<not> t < limit then None
     else (case cron_jump c t of None \<Rightarrow> Some t | Some t' \<Rightarrow> cron_search c limit t'))"
  by pat_completeness auto
termination
  by (relation "measure (\<lambda>(c, limit, t). nat (limit - t))") (auto dest: cron_jump_later)

declare cron_search.simps [simp del]

definition cron_next :: "cron_expr \<Rightarrow> gtime \<Rightarrow> cron_err + gtime" where
  "cron_next c from =
     (let t = truncate_to from minute + minute; limit = add_date t next_horizon 0 0
      in case cron_search c limit t of None \<Rightarrow> Inl NoMatch | Some u \<Rightarrow> Inr u)"

section \<open>The search finds the least matching minute\<close>

definition cron_matches :: "cron_expr \<Rightarrow> gtime \<Rightarrow> bool" where
  "cron_matches c t \<longleftrightarrow> t mod minute = 0 \<and> c_months c ! nat (month_at t) \<and> matches_day c t \<and>
     c_hours c ! nat (hour_at t) \<and> c_minutes c ! nat (minute_at t)"

lemma same_day:
  "day_of u = day_of t \<Longrightarrow> matches_day c u = matches_day c t \<and> month_at u = month_at t"
  by (simp add: matches_day_def mday_at_def month_at_def weekday_at_def date_of_def)

text \<open>A jump passes over no match, and keeps the search on whole minutes.\<close>

lemma cron_jump_skips:
  assumes "cron_jump c t = Some t'" and "t mod minute = 0" and "t \<le> u" and "u < t'"
  shows "\<not> cron_matches c u"
proof (cases "c_months c ! nat (month_at t)")
  case False
  then have "month_at u = month_at t"
    using assms by (intro month_jump(2)) (auto simp: cron_jump_def)
  with False show ?thesis by (simp add: cron_matches_def)
next
  case mo: True
  show ?thesis
  proof (cases "matches_day c t")
    case False
    then have "day_of u = day_of t"
      using assms mo by (intro day_jump(2)) (auto simp: cron_jump_def)
    with False show ?thesis using same_day [of u t c] by (simp add: cron_matches_def)
  next
    case da: True
    show ?thesis
    proof (cases "c_hours c ! nat (hour_at t)")
      case False
      then have "hour_at u = hour_at t"
        using assms mo da hour_jump(2) [OF refl, of t u] by (auto simp: cron_jump_def)
      with False show ?thesis by (simp add: cron_matches_def)
    next
      case ho: True
      then have t': "t' = t + minute" "\<not> c_minutes c ! nat (minute_at t)"
        using assms mo da by (auto simp: cron_jump_def split: if_splits)
      show ?thesis
      proof
        assume m: "cron_matches c u"
        then have "(u - t) mod minute = 0"
          using assms(2) by (simp add: cron_matches_def mod_diff_eq [symmetric])
        moreover have "0 \<le> u - t" "u - t < minute" using assms(3,4) t' by auto
        ultimately have "u = t" by simp
        with m t' show False by (simp add: cron_matches_def)
      qed
    qed
  qed
qed

lemma cron_jump_None:
  "cron_jump c t = None \<Longrightarrow> t mod minute = 0 \<Longrightarrow> cron_matches c t"
  by (auto simp: cron_jump_def cron_matches_def split: if_splits)

lemma minute_dvd: "minute dvd hour" "minute dvd day_ns"
  by (simp_all add: unit_defs)

lemma cron_jump_minute:
  assumes "cron_jump c t = Some t'" and "t mod minute = 0"
  shows "t' mod minute = 0"
proof -
  have "minute dvd add_date (go_date (year_at t) (month_at t) 1 0) 0 1 0"
    "minute dvd add_date (go_date (year_at t) (month_at t) (mday_at t) 0) 0 0 1"
    unfolding next_month_start [OF valid_parts(1)] next_day_start [OF valid_parts(1)]
    using minute_dvd(2) by (simp_all add: dvd_mult)
  moreover have "minute dvd go_date (year_at t) (month_at t) (mday_at t) (hour_at t * hour) + hour"
    unfolding go_date_def using minute_dvd by (simp add: dvd_mult)
  moreover have "minute dvd t + minute" using assms(2) by (simp add: dvd_eq_mod_eq_0)
  ultimately show ?thesis
    using assms(1) by (auto simp: cron_jump_def dvd_eq_mod_eq_0 split: if_splits)
qed

lemma cron_search_Some:
  "cron_search c limit t = Some u \<Longrightarrow> t mod minute = 0 \<Longrightarrow>
     t \<le> u \<and> u < limit \<and> cron_matches c u \<and> (\<forall>v. t \<le> v \<and> v < u \<longrightarrow> \<not> cron_matches c v)"
proof (induction c limit t rule: cron_search.induct)
  case (1 c limit t)
  show ?case
  proof (cases "cron_jump c t")
    case None
    then have "u = t" "t < limit" using "1.prems" by (auto simp: cron_search.simps [of c limit t] split: if_splits)
    with None "1.prems" show ?thesis by (auto intro: cron_jump_None)
  next
    case (Some t')
    then have s: "t < limit" "cron_search c limit t' = Some u"
      using "1.prems" by (auto simp: cron_search.simps [of c limit t] split: if_splits)
    note IH = "1.IH" [OF _ Some s(2) cron_jump_minute [OF Some "1.prems"(2)]]
    have "\<not> cron_matches c v" if "t \<le> v" "v < u" for v
      using IH s(1) cron_jump_skips [OF Some "1.prems"(2)] that by (cases "v < t'") auto
    with IH s(1) cron_jump_later [OF Some] show ?thesis by auto
  qed
qed

lemma cron_search_None:
  "cron_search c limit t = None \<Longrightarrow> t mod minute = 0 \<Longrightarrow> t \<le> v \<Longrightarrow> v < limit \<Longrightarrow> \<not> cron_matches c v"
proof (induction c limit t rule: cron_search.induct)
  case (1 c limit t)
  then have l: "t < limit" by simp
  show ?case
  proof (cases "cron_jump c t")
    case None
    with l "1.prems"(1) show ?thesis by (simp add: cron_search.simps [of c limit t])
  next
    case (Some t')
    then have s: "cron_search c limit t' = None"
      using "1.prems"(1) l by (simp add: cron_search.simps [of c limit t])
    show ?thesis
    proof (cases "v < t'")
      case True
      then show ?thesis using cron_jump_skips [OF Some "1.prems"(2,3)] by simp
    next
      case False
      then show ?thesis
        using "1.IH" [OF _ Some s cron_jump_minute [OF Some "1.prems"(2)]] l "1.prems"(4) by simp
    qed
  qed
qed

text \<open>The start of the search, the first whole minute after \<open>from\<close>.\<close>

lemma search_start:
  "(truncate_to from minute + minute) mod minute = 0" "from < truncate_to from minute + minute"
  "v mod minute = 0 \<Longrightarrow> from < v \<Longrightarrow> truncate_to from minute + minute \<le> v"
proof -
  show "(truncate_to from minute + minute) mod minute = 0"
    using truncate_dvd [of minute "from"] by (simp add: dvd_eq_mod_eq_0)
  show "from < truncate_to from minute + minute"
    using truncate_le [OF minute_pos, of "from"] by simp
  assume v: "v mod minute = 0" "from < v"
  obtain k where k: "truncate_to from minute = minute * k" using truncate_dvd by (rule dvdE)
  obtain l where l: "v = minute * l" using v(1) by (auto simp: mod_eq_0_iff_dvd)
  have "minute * k < minute * l"
    using v(2) truncate_le [OF minute_pos, of "from"] unfolding k l by linarith
  then have "k + 1 \<le> l" by (simp add: mult_less_cancel_left_pos)
  then have "minute * (k + 1) \<le> minute * l" by (intro mult_left_mono) (auto intro: less_imp_le)
  then show "truncate_to from minute + minute \<le> v" using k l by (simp add: algebra_simps)
qed

text \<open>What a caller may rely on: the next time is later, due, and nothing due is passed over.\<close>

locale schedule =
  fixes nxt :: "gtime \<Rightarrow> 'e + gtime" and due :: "gtime \<Rightarrow> bool"
  assumes nxt_later: "nxt t = Inr u \<Longrightarrow> t < u"
    and nxt_due: "nxt t = Inr u \<Longrightarrow> due u"
    and nxt_least: "nxt t = Inr u \<Longrightarrow> t < v \<Longrightarrow> v < u \<Longrightarrow> \<not> due v"
begin

lemma nxt_mono:
  assumes "nxt s = Inr u" and "nxt t = Inr v" and "s \<le> t"
  shows "u \<le> v"
proof (rule ccontr)
  assume "\<not> u \<le> v"
  then have "\<not> due v"
    using nxt_least [OF assms(1), of v] nxt_later [OF assms(2)] assms(3) by simp
  with nxt_due [OF assms(2)] show False by simp
qed

lemma nxt_same: "nxt s = Inr u \<Longrightarrow> s \<le> t \<Longrightarrow> t < u \<Longrightarrow> nxt t = Inr v \<Longrightarrow> v = u"
  using nxt_mono [of s u t v] nxt_least [of t v u] nxt_due [of s u] by (cases "u < v") auto

end

lemma cron_next_Inr:
  assumes "cron_next c from = Inr u"
  shows "from < u" and "cron_matches c u" and "from < v \<Longrightarrow> v < u \<Longrightarrow> \<not> cron_matches c v"
    and "u < add_date (truncate_to from minute + minute) 4 0 0"
proof -
  have s: "cron_search c (add_date (truncate_to from minute + minute) next_horizon 0 0)
      (truncate_to from minute + minute) = Some u"
    using assms by (auto simp: cron_next_def Let_def split: option.splits)
  note r = cron_search_Some [OF s search_start(1)]
  show "from < u" using r search_start(2) [of "from"] by simp
  show "cron_matches c u" using r by simp
  show "u < add_date (truncate_to from minute + minute) 4 0 0" using r by (simp add: next_horizon_def)
  assume v: "from < v" "v < u"
  show "\<not> cron_matches c v"
  proof
    assume m: "cron_matches c v"
    then have "truncate_to from minute + minute \<le> v"
      using search_start(3) [of v "from"] v(1) by (simp add: cron_matches_def)
    with r v(2) m show False by blast
  qed
qed

lemma cron_next_Inl:
  assumes "cron_next c from = Inl err"
  shows "err = NoMatch" and "from < v \<Longrightarrow> v < add_date (truncate_to from minute + minute) 4 0 0 \<Longrightarrow> \<not> cron_matches c v"
proof -
  have s: "cron_search c (add_date (truncate_to from minute + minute) 4 0 0)
      (truncate_to from minute + minute) = None"
    using assms by (auto simp: cron_next_def next_horizon_def Let_def split: option.splits)
  show "err = NoMatch"
    using assms by (auto simp: cron_next_def Let_def split: option.splits)
  assume v: "from < v" "v < add_date (truncate_to from minute + minute) 4 0 0"
  show "\<not> cron_matches c v"
  proof
    assume m: "cron_matches c v"
    then have "truncate_to from minute + minute \<le> v"
      using search_start(3) [of v "from"] v(1) by (simp add: cron_matches_def)
    with cron_search_None [OF s search_start(1) _ v(2)] m show False by simp
  qed
qed

interpretation cron: schedule "cron_next c" "cron_matches c" for c
  by unfold_locales (use cron_next_Inr in blast)+

section \<open>What the parser accepts\<close>

lemma set_stepped:
  "0 < step \<Longrightarrow> set (stepped lo hi step) = {v. lo \<le> v \<and> v \<le> hi \<and> (v - lo) mod step = 0}"
proof (induction lo hi step rule: stepped.induct)
  case (1 lo hi step)
  show ?case
  proof (cases "hi < lo")
    case True
    then show ?thesis by (auto simp: stepped.simps [of lo])
  next
    case False
    have e: "(v - lo) mod step = 0 \<longleftrightarrow> v = lo \<or> (lo + step \<le> v \<and> (v - (lo + step)) mod step = 0)"
      if "lo \<le> v" for v
    proof (cases "lo + step \<le> v")
      case True
      then have "(v - lo) mod step = (v - (lo + step)) mod step"
        using le_mod_geq [of step "v - lo"] by (simp add: diff_diff_left)
      with True "1.prems" show ?thesis by auto
    next
      case False
      with that "1.prems" show ?thesis by auto
    qed
    have "set (stepped lo hi step) = insert lo (set (stepped (lo + step) hi step))"
      using False "1.prems" by (simp add: stepped.simps [of lo])
    also have "\<dots> = insert lo {v. lo + step \<le> v \<and> v \<le> hi \<and> (v - (lo + step)) mod step = 0}"
      using "1.IH" False "1.prems" by simp
    also have "\<dots> = {v. lo \<le> v \<and> v \<le> hi \<and> (v - lo) mod step = 0}"
    proof (rule set_eqI, unfold insert_iff mem_Collect_eq)
      fix v
      show "v = lo \<or> lo + step \<le> v \<and> v \<le> hi \<and> (v - (lo + step)) mod step = 0 \<longleftrightarrow>
        lo \<le> v \<and> v \<le> hi \<and> (v - lo) mod step = 0"
      proof (cases "lo \<le> v")
        case True
        show ?thesis unfolding e [OF True] using True False by auto
      qed auto
    qed
    finally show ?thesis .
  qed
qed

lemma part_values_Inr:
  assumes "part_values part mn mx = Inr vs"
  obtains p step lo hi where "split_step part mn mx = Inr (p, step)" and "0 < step"
    and "part_range p mn mx = Inr (lo, hi)" and "mn \<le> lo" and "lo \<le> hi" and "hi \<le> mx"
    and "set vs = {v. lo \<le> v \<and> v \<le> hi \<and> (v - lo) mod step = 0}"
proof -
  from assms obtain p step lo hi where s: "split_step part mn mx = Inr (p, step)"
      "part_range p mn mx = Inr (lo, hi)" "vs = stepped lo hi step"
    by (auto simp: part_values_def split: sum.splits)
  have "0 < step" using s(1) by (auto simp: split_step_def split: option.splits if_splits)
  moreover have "mn \<le> lo" "lo \<le> hi" "hi \<le> mx"
    using s(2) by (auto simp: part_range_def split: option.splits if_splits)
  ultimately show thesis using that [OF s(1) _ s(2)] s(3) by (simp add: set_stepped)
qed

lemma length_set_bits [simp]: "length (set_bits bits vs) = length bits"
  unfolding set_bits_def by (induction vs arbitrary: bits) auto

lemma nth_set_bit: "v < length bits \<Longrightarrow> bits[a := True] ! v \<longleftrightarrow> v = a \<or> bits ! v"
  by (cases "v = a") auto

lemma nth_set_bits:
  "v < length bits \<Longrightarrow> set_bits bits vs ! v \<longleftrightarrow> bits ! v \<or> v \<in> set vs"
  unfolding set_bits_def by (induction vs arbitrary: bits) (auto simp: nth_set_bit)

definition parts_denote :: "string list \<Rightarrow> nat \<Rightarrow> nat \<Rightarrow> nat \<Rightarrow> bool" where
  "parts_denote ps mn mx v \<longleftrightarrow> (\<exists>p \<in> set ps. \<exists>vs. part_values p mn mx = Inr vs \<and> v \<in> set vs)"

lemma field_parts_Inr:
  "field_parts ps mn mx bits = Inr out \<Longrightarrow> length out = length bits \<and>
     (\<forall>v < length bits. out ! v \<longleftrightarrow> bits ! v \<or> parts_denote ps mn mx v)"
proof (induction ps arbitrary: bits)
  case (Cons p ps)
  then obtain vs where "part_values p mn mx = Inr vs" "field_parts ps mn mx (set_bits bits vs) = Inr out"
    by (auto split: sum.splits)
  with Cons.IH [of "set_bits bits vs"] show ?case
    by (auto simp: parts_denote_def nth_set_bits)
qed (auto simp: parts_denote_def)

lemma parse_field_Inr:
  "parse_field cap fld mn mx = Inr bits \<Longrightarrow> length bits = cap \<and>
     (\<forall>v < cap. bits ! v \<longleftrightarrow> parts_denote (split_on CHR '','' fld) mn mx v)"
  using field_parts_Inr [of "split_on CHR '','' fld" mn mx "replicate cap False" bits]
  by (simp add: parse_field_def)

lemma parts_denote_bounds: "parts_denote ps mn mx v \<Longrightarrow> mn \<le> v \<and> v \<le> mx"
  by (auto simp: parts_denote_def elim!: part_values_Inr)

definition cron_wf :: "cron_expr \<Rightarrow> bool" where
  "cron_wf c \<longleftrightarrow> length (c_minutes c) = 60 \<and> length (c_hours c) = 60 \<and> length (c_days c) = 32 \<and>
     length (c_months c) = 13 \<and> length (c_weekdays c) = 7"

lemma parse_cron_Inr:
  assumes "parse_cron expr = Inr c"
  obtains mi ho da mo wd where "split_fields [] expr = [mi, ho, da, mo, wd]"
    and "parse_field 60 mi 0 59 = Inr (c_minutes c)" and "parse_field 60 ho 0 23 = Inr (c_hours c)"
    and "parse_field 32 da 1 31 = Inr (c_days c)"
    and "\<exists>b. parse_field 32 mo 1 12 = Inr b \<and> c_months c = take 13 b"
    and "\<exists>b. parse_field 32 wd 0 7 = Inr b \<and> c_weekdays c = take 7 (b[0 := b ! 0 \<or> b ! 7])"
    and "c_dayLimited c \<longleftrightarrow> da \<noteq> ''*''" and "c_wdayLimited c \<longleftrightarrow> wd \<noteq> ''*''"
proof -
  obtain mi ho da mo wd where f: "split_fields [] expr = [mi, ho, da, mo, wd]"
    using assms
    by (auto simp: parse_cron_def Let_def length_Suc_conv eval_nat_numeral split: if_splits)
  show thesis
    by (rule that [OF f]) (use assms f in \<open>auto simp: parse_cron_def Let_def split: sum.splits\<close>)
qed

lemma parse_cron_wf: "parse_cron expr = Inr c \<Longrightarrow> cron_wf c"
  by (auto simp: cron_wf_def elim!: parse_cron_Inr dest!: parse_field_Inr)

text \<open>The indices of \<^verbatim>\<open>Next\<close> are in range.\<close>

lemma cron_indices:
  "0 < month_at t \<and> month_at t < 13" "0 < mday_at t \<and> mday_at t < 32"
  "0 \<le> weekday_at t \<and> weekday_at t < 7" "0 \<le> hour_at t \<and> hour_at t < 24" "0 \<le> minute_at t \<and> minute_at t < 60"
proof -
  have v: "1 \<le> month_at t" "month_at t \<le> 12" "1 \<le> mday_at t" "mday_at t \<le> days_in_month (year_at t) (month_at t)"
    using valid_parts(1) [of t] by (auto simp: valid_date_def)
  then show "0 < month_at t \<and> month_at t < 13" by simp
  have "days_in_month (year_at t) (month_at t) \<le> 31"
    using month_cases [OF v(1,2)] by (auto simp: days_in_month_def month_days_def)
  then show "0 < mday_at t \<and> mday_at t < 32" using v(3,4) by simp
  show "0 \<le> weekday_at t \<and> weekday_at t < 7" by (simp add: weekday_at_def)
  show "0 \<le> hour_at t \<and> hour_at t < 24" by (rule hour_bounds)
  show "0 \<le> minute_at t \<and> minute_at t < 60" by (rule minute_bounds)
qed

text \<open>A field that lists numbers is read back as those numbers.\<close>

lemma dec_val_ge: "v \<le> dec_val v s"
proof (induction s arbitrary: v)
  case (Cons a s)
  have "v \<le> v * 10 + digit_val a" by simp
  also have "\<dots> \<le> dec_val (v * 10 + digit_val a) s" by (rule Cons.IH)
  finally show ?case by simp
qed simp

lemma parse_uint_from_digits:
  "\<forall>c \<in> set s. is_digit c \<Longrightarrow> dec_val v s \<le> 1000000 \<Longrightarrow> parse_uint_from v s = Some (dec_val v s)"
proof (induction s arbitrary: v)
  case (Cons c s)
  have "v * 10 + digit_val c \<le> 1000000"
    using dec_val_ge [of "v * 10 + digit_val c" s] Cons.prems(2) by simp
  with Cons show ?case by (simp add: Let_def)
qed simp

lemma parse_uint_itoa: "n \<le> 1000000 \<Longrightarrow> parse_uint (itoa n) = Some n"
  using itoa_digits [of _ n] by (simp add: parse_uint_def parse_uint_from_digits dec_val_itoa)

lemma digits_no_sign: "CHR ''-'' \<notin> set (itoa n)" "CHR ''/'' \<notin> set (itoa n)" "CHR '','' \<notin> set (itoa n)" "itoa n \<noteq> ''*''"
  using itoa_digits [of _ n] by (force simp: is_digit_def)+

lemma part_values_itoa:
  assumes "mn \<le> n" and "n \<le> mx" and "n \<le> 1000000"
  shows "part_values (itoa n) mn mx = Inr [n]"
proof -
  have "cut_at CHR ''/'' (itoa n) = None" "cut_at CHR ''-'' (itoa n) = None"
    using digits_no_sign by (simp_all add: cut_at_None_iff)
  then show ?thesis
    using assms digits_no_sign(4) [of n]
    by (simp add: part_values_def split_step_def part_range_def split_range_def parse_uint_itoa
        stepped.simps [of n] stepped.simps [of "Suc n"])
qed

lemma split_join: "ps \<noteq> [] \<Longrightarrow> \<forall>p \<in> set ps. c \<notin> set p \<Longrightarrow> split_on c (join_with [c] ps) = ps"
proof (induction ps)
  case (Cons p ps)
  then show ?case by (cases ps) (auto simp: split_on_single split_on_append_sep)
qed simp

lemma parse_field_list:
  assumes "vs \<noteq> []" and "\<forall>v \<in> set vs. mn \<le> v \<and> v \<le> mx" and "mx \<le> 1000000"
  shows "\<exists>bits. parse_field cap (join_with '','' (map itoa vs)) mn mx = Inr bits \<and> length bits = cap \<and>
    (\<forall>v < cap. bits ! v \<longleftrightarrow> v \<in> set vs)"
proof -
  have s: "split_on CHR '','' (join_with '','' (map itoa vs)) = map itoa vs"
    using assms(1) digits_no_sign(3) by (intro split_join) auto
  have "\<exists>bits. field_parts (map itoa vs) mn mx b = Inr bits" for b
    using assms(2,3) by (induction vs arbitrary: b) (auto simp: part_values_itoa)
  then obtain bits where b: "parse_field cap (join_with '','' (map itoa vs)) mn mx = Inr bits"
    unfolding parse_field_def s by blast
  have "part_values (itoa n) mn mx = Inr [n]" if "n \<in> set vs" for n
    using assms(2,3) that by (auto intro!: part_values_itoa intro: order_trans)
  then have "parts_denote (map itoa vs) mn mx v \<longleftrightarrow> v \<in> set vs" for v
    by (auto simp: parts_denote_def)
  then show ?thesis using parse_field_Inr [OF b] b s by auto
qed

end
