(* ===== verification/Cron_Triggers.thy ===== *)
theory Cron_Triggers
  imports Cron
begin

text \<open>
  Function triggers, \<^verbatim>\<open>internal/domain/functions/triggers.go\<close>, the normalisation of their
  configurations in \<^verbatim>\<open>internal/app/functions/triggers.go\<close> and the atomic claim of due cron
  triggers, \<^verbatim>\<open>ClaimDueCron\<close> of \<^verbatim>\<open>bunrepo/function_trigger_repo.go\<close>. Several workers may
  scan at the same time: a scan is a snapshot followed by one compare-and-set per row, so the
  model has the compare-and-set as the unit that interleaves.
\<close>

section \<open>Triggers and their configuration\<close>

record trigger_config =
  cf_ResponseMode :: string
  cf_AckBody :: string
  cf_Handshake :: string
  cf_BodyLimitBytes :: int
  cf_Expr :: string
  cf_Misfire :: string
  cf_Events :: "string list"

record trigger =
  tr_ID :: string
  tr_ProjectID :: string
  tr_FunctionID :: string
  tr_Type :: string
  tr_Config :: trigger_config
  tr_Token :: string
  tr_Enabled :: bool
  tr_NextRunAt :: "gtime option"

definition default_body_limit :: int where "default_body_limit = 65536"
definition max_body_limit :: int where "max_body_limit = 1048576"
definition max_ack_body :: nat where "max_ack_body = 1024"
definition cron_misfire_grace :: int where "cron_misfire_grace = 90 * sec"

definition effective_body_limit :: "trigger_config \<Rightarrow> int" where
  "effective_body_limit c = (if cf_BodyLimitBytes c \<le> 0 then default_body_limit else cf_BodyLimitBytes c)"

definition trigger_source :: "trigger \<Rightarrow> string" where
  "trigger_source t = tr_Type t @ '':'' @ tr_ID t"

datatype trigger_err = ResponseModeRequired | ResponseModeInvalid | AckBodyTooLong
  | HandshakeInvalid | BodyLimitInvalid | MisfireInvalid | CronInvalid cron_err

definition normalize_http_config :: "trigger_config \<Rightarrow> trigger_err + trigger_config" where
  "normalize_http_config c =
     (if cf_ResponseMode c \<noteq> ''sync'' \<and> cf_ResponseMode c \<noteq> ''async_ack'' then
        (if cf_ResponseMode c = '''' then Inl ResponseModeRequired else Inl ResponseModeInvalid)
      else if max_ack_body < length (cf_AckBody c) then Inl AckBodyTooLong
      else if cf_Handshake c \<noteq> '''' \<and> cf_Handshake c \<noteq> ''echo'' then Inl HandshakeInvalid
      else if cf_BodyLimitBytes c < 0 \<or> max_body_limit < cf_BodyLimitBytes c then Inl BodyLimitInvalid
      else Inr c)"

definition normalize_cron_config :: "trigger_config \<Rightarrow> trigger_err + trigger_config" where
  "normalize_cron_config c =
     (if cf_Misfire c \<notin> {''skip'', ''catch_up_once'', ''''} then Inl MisfireInvalid
      else let c' = (if cf_Misfire c = '''' then c\<lparr>cf_Misfire := ''catch_up_once''\<rparr> else c)
        in case validate_cron_expr (cf_Expr c') of Some err \<Rightarrow> Inl (CronInvalid err) | None \<Rightarrow> Inr c')"

definition first_cron_run :: "string \<Rightarrow> gtime \<Rightarrow> cron_err + gtime" where
  "first_cron_run expr now = (case parse_cron expr of Inl err \<Rightarrow> Inl err | Inr c \<Rightarrow> cron_next c now)"

section \<open>The plan for one due row\<close>

record cron_next_input =
  in_Due :: gtime
  in_Now :: gtime
  in_Expr :: string
  in_Misfire :: string

record cron_next_plan =
  pl_Next :: gtime
  pl_Run :: bool

definition default_cron_next :: "cron_next_input \<Rightarrow> cron_err + cron_next_plan" where
  "default_cron_next i = (case parse_cron (in_Expr i) of Inl err \<Rightarrow> Inl err
     | Inr sched \<Rightarrow>
       if \<not> in_Due i < in_Now i - cron_misfire_grace then
         (case cron_next sched (in_Due i) of Inl err \<Rightarrow> Inl err
          | Inr next \<Rightarrow>
             if in_Now i < next then Inr \<lparr>pl_Next = next, pl_Run = True\<rparr>
             else (case cron_next sched (in_Now i) of Inl err \<Rightarrow> Inl err
               | Inr next' \<Rightarrow> Inr \<lparr>pl_Next = next', pl_Run = True\<rparr>))
       else (case cron_next sched (in_Now i) of Inl err \<Rightarrow> Inl err
         | Inr next \<Rightarrow> Inr \<lparr>pl_Next = next, pl_Run = (in_Misfire i \<noteq> ''skip'')\<rparr>))"

lemma default_cron_next_later:
  "default_cron_next i = Inr pl \<Longrightarrow> in_Now i < pl_Next pl"
  by (auto simp: default_cron_next_def dest: cron.nxt_later split: sum.splits if_splits)

text \<open>When the plan skips a run, and what it plans next.\<close>

lemma default_cron_next_cases:
  assumes "default_cron_next i = Inr pl"
  obtains sched where "parse_cron (in_Expr i) = Inr sched" and "cron_matches sched (pl_Next pl)"
    and "\<not> pl_Run pl \<longleftrightarrow> in_Due i < in_Now i - cron_misfire_grace \<and> in_Misfire i = ''skip''"
    and "\<And>v. max (in_Due i) (in_Now i) < v \<Longrightarrow> v < pl_Next pl \<Longrightarrow> \<not> cron_matches sched v"
proof -
  obtain sched where s: "parse_cron (in_Expr i) = Inr sched"
    using assms by (auto simp: default_cron_next_def split: sum.splits)
  show thesis
  proof (rule that [OF s])
    show "cron_matches sched (pl_Next pl)"
      using assms s by (auto simp: default_cron_next_def dest: cron.nxt_due split: sum.splits if_splits)
    show "\<not> pl_Run pl \<longleftrightarrow> in_Due i < in_Now i - cron_misfire_grace \<and> in_Misfire i = ''skip''"
      using assms s by (auto simp: default_cron_next_def split: sum.splits if_splits)
    show "\<not> cron_matches sched v" if "max (in_Due i) (in_Now i) < v" "v < pl_Next pl" for v
      using assms s that cron.nxt_least [of sched "in_Due i" "pl_Next pl" v]
        cron.nxt_least [of sched "in_Now i" "pl_Next pl" v]
      by (auto simp: default_cron_next_def split: sum.splits if_splits)
  qed
qed

section \<open>Claiming due rows\<close>

record cron_claim =
  cl_ProjectID :: string
  cl_FunctionID :: string
  cl_TriggerID :: string
  cl_ScheduledFor :: gtime

definition trigger_key :: "trigger \<Rightarrow> string \<times> string" where
  "trigger_key r = (tr_ProjectID r, tr_ID r)"

definition due_row :: "string \<Rightarrow> gtime \<Rightarrow> trigger \<Rightarrow> bool" where
  "due_row p now r \<longleftrightarrow> tr_ProjectID r = p \<and> tr_Enabled r \<and> tr_Type r = ''cron'' \<and>
     (case tr_NextRunAt r of None \<Rightarrow> False | Some t \<Rightarrow> t \<le> now)"

definition due_time :: "trigger \<Rightarrow> gtime" where
  "due_time r = (case tr_NextRunAt r of Some t \<Rightarrow> t | None \<Rightarrow> zero_time)"

definition candidates :: "string \<Rightarrow> gtime \<Rightarrow> int \<Rightarrow> trigger list \<Rightarrow> trigger list" where
  "candidates p now limit tbl = take (nat limit) (sort_key due_time (filter (due_row p now) tbl))"

definition cas_hits :: "string \<Rightarrow> trigger \<Rightarrow> trigger \<Rightarrow> bool" where
  "cas_hits p row r \<longleftrightarrow> trigger_key r = (p, tr_ID row) \<and> tr_NextRunAt r = Some (due_time row)"

text \<open>The body of the loop for one row of the snapshot, on the table as it is by then.\<close>

definition claim_row ::
  "string \<Rightarrow> gtime \<Rightarrow> trigger \<Rightarrow> trigger list \<Rightarrow> cron_claim option \<times> trigger list" where
  "claim_row p now row tbl =
     (case default_cron_next \<lparr>in_Due = due_time row, in_Now = now, in_Expr = cf_Expr (tr_Config row),
         in_Misfire = cf_Misfire (tr_Config row)\<rparr> of
       Inl _ \<Rightarrow> (None, tbl)
     | Inr plan \<Rightarrow>
         let tbl' = map (\<lambda>r. if cas_hits p row r then r\<lparr>tr_NextRunAt := Some (pl_Next plan)\<rparr> else r) tbl
         in if \<not> list_ex (cas_hits p row) tbl \<or> \<not> pl_Run plan then (None, tbl')
            else (Some \<lparr>cl_ProjectID = p, cl_FunctionID = tr_FunctionID row, cl_TriggerID = tr_ID row,
              cl_ScheduledFor = due_time row\<rparr>, tbl'))"

text \<open>
  \<open>fails n\<close>: the n-th update fails. The function then returns the error and no claim, but
  the rows it has advanced stay advanced.
\<close>

fun claim_rows :: "(nat \<Rightarrow> bool) \<Rightarrow> string \<Rightarrow> gtime \<Rightarrow> trigger list \<Rightarrow> nat \<Rightarrow> trigger list \<Rightarrow>
    cron_claim list option \<times> trigger list" where
  "claim_rows fails p now [] n tbl = (Some [], tbl)"
| "claim_rows fails p now (row # rows) n tbl =
     (case default_cron_next \<lparr>in_Due = due_time row, in_Now = now, in_Expr = cf_Expr (tr_Config row),
         in_Misfire = cf_Misfire (tr_Config row)\<rparr> of
       Inl _ \<Rightarrow> claim_rows fails p now rows n tbl
     | Inr _ \<Rightarrow>
        if fails n then (None, tbl)
        else (case claim_row p now row tbl of (c, tbl') \<Rightarrow>
          (case claim_rows fails p now rows (Suc n) tbl' of
             (None, tbl'') \<Rightarrow> (None, tbl'')
           | (Some cs, tbl'') \<Rightarrow> (Some ((case c of None \<Rightarrow> [] | Some x \<Rightarrow> [x]) @ cs), tbl''))))"

definition claim_due_cron ::
  "(nat \<Rightarrow> bool) \<Rightarrow> string \<Rightarrow> gtime \<Rightarrow> int \<Rightarrow> trigger list \<Rightarrow> cron_claim list option \<times> trigger list" where
  "claim_due_cron fails p now limit tbl =
     (if limit \<le> 0 then (Some [], tbl) else claim_rows fails p now (candidates p now limit tbl) 0 tbl)"

section \<open>The claim taken back\<close>

definition claimed_trigger :: "cron_claim \<Rightarrow> trigger \<Rightarrow> bool" where
  "claimed_trigger c r \<longleftrightarrow> trigger_key r = (cl_ProjectID c, cl_TriggerID c) \<and> tr_FunctionID r = cl_FunctionID c"

text \<open>The roll-back reads the row and writes it whole; the model has no statement in between.\<close>

definition undo_cron_claim :: "cron_claim \<Rightarrow> gtime \<Rightarrow> trigger list \<Rightarrow> trigger list" where
  "undo_cron_claim c now tbl =
     (case find (claimed_trigger c) tbl of None \<Rightarrow> tbl
      | Some trg \<Rightarrow> (case tr_NextRunAt trg of None \<Rightarrow> tbl
        | Some next \<Rightarrow>
            if \<not> now < next then tbl
            else map (\<lambda>r. if claimed_trigger c r then r\<lparr>tr_Token := tr_Token trg, tr_Config := tr_Config trg,
              tr_Enabled := tr_Enabled trg, tr_NextRunAt := Some (cl_ScheduledFor c)\<rparr> else r) tbl))"

section \<open>Interleaved scans\<close>

text \<open>
  Any number of scans. A step is one compare-and-set of some scan, at its \<open>now\<close> and on a row
  that was due in its snapshot, however old that snapshot is by then; or a scan takes a claim
  back whose invocation it could not queue.
\<close>

datatype cron_step = ClaimRun string gtime trigger | UndoClaim cron_claim gtime

fun run_cron_steps :: "cron_step list \<Rightarrow> trigger list \<Rightarrow> cron_claim list \<times> trigger list" where
  "run_cron_steps [] tbl = ([], tbl)"
| "run_cron_steps (ClaimRun p now row # sts) tbl = (case claim_row p now row tbl of (c, tbl') \<Rightarrow>
     (case run_cron_steps sts tbl' of (cs, tbl'') \<Rightarrow>
       ((case c of None \<Rightarrow> [] | Some x \<Rightarrow> [x]) @ cs, tbl'')))"
| "run_cron_steps (UndoClaim c now # sts) tbl = run_cron_steps sts (undo_cron_claim c now tbl)"

definition claim_id :: "cron_claim \<Rightarrow> string \<times> string \<times> gtime" where
  "claim_id c = (cl_ProjectID c, cl_TriggerID c, cl_ScheduledFor c)"

text \<open>A run that was given out lies behind the row's next run.\<close>

definition past :: "(string \<times> string \<times> gtime) \<Rightarrow> trigger list \<Rightarrow> bool" where
  "past x tbl \<longleftrightarrow> (case x of (p, i, due) \<Rightarrow>
     \<forall>r \<in> set tbl. trigger_key r = (p, i) \<longrightarrow> (\<exists>n. tr_NextRunAt r = Some n \<and> due < n))"

lemma trigger_key_update [simp]: "trigger_key (r\<lparr>tr_NextRunAt := t\<rparr>) = trigger_key r"
  by (simp add: trigger_key_def)

lemma claim_row_keys:
  "claim_row p now row tbl = (c, tbl') \<Longrightarrow> map trigger_key tbl' = map trigger_key tbl"
  by (auto simp: claim_row_def Let_def split: sum.splits if_splits)

lemma claim_row_table:
  assumes "claim_row p now row tbl = (c, tbl')"
  shows "tbl' = tbl \<or> (\<exists>n > now. tbl' = map (\<lambda>r. if cas_hits p row r then r\<lparr>tr_NextRunAt := Some n\<rparr> else r) tbl)"
proof (cases "default_cron_next \<lparr>in_Due = due_time row, in_Now = now, in_Expr = cf_Expr (tr_Config row),
    in_Misfire = cf_Misfire (tr_Config row)\<rparr>")
  case (Inl err)
  with assms show ?thesis by (simp add: claim_row_def)
next
  case (Inr plan)
  then have "tbl' = map (\<lambda>r. if cas_hits p row r then r\<lparr>tr_NextRunAt := Some (pl_Next plan)\<rparr> else r) tbl"
    using assms by (simp add: claim_row_def Let_def split: if_splits)
  moreover have "now < pl_Next plan"
    using default_cron_next_later [OF Inr] by simp
  ultimately show ?thesis by blast
qed

lemma claim_row_next:
  assumes "claim_row p now row tbl = (c, tbl')" and "due_time row \<le> now" and "r' \<in> set tbl'"
  obtains r where "r \<in> set tbl" and "trigger_key r' = trigger_key r"
    and "r' = r \<or> (cas_hits p row r \<and> (\<exists>n. tr_NextRunAt r' = Some n \<and> due_time row < n))"
proof -
  from claim_row_table [OF assms(1)] show thesis
  proof
    assume "tbl' = tbl"
    with assms(3) show thesis by (intro that [of r']) simp_all
  next
    assume "\<exists>n > now. tbl' = map (\<lambda>r. if cas_hits p row r then r\<lparr>tr_NextRunAt := Some n\<rparr> else r) tbl"
    then obtain n where pl: "now < n"
        "tbl' = map (\<lambda>r. if cas_hits p row r then r\<lparr>tr_NextRunAt := Some n\<rparr> else r) tbl" by blast
    then obtain r where "r \<in> set tbl" "r' = (if cas_hits p row r then r\<lparr>tr_NextRunAt := Some n\<rparr> else r)"
      using assms(3) by auto
    with pl(1) assms(2) show thesis by (intro that [of r]) (auto split: if_splits)
  qed
qed

lemma claim_row_past:
  assumes "claim_row p now row tbl = (c, tbl')" and "due_time row \<le> now" and "past x tbl"
  shows "past x tbl'"
proof -
  obtain q i due where x: "x = (q, i, due)" by (cases x)
  show ?thesis
    unfolding past_def x prod.case
  proof (intro ballI impI)
    fix r' assume r': "r' \<in> set tbl'" "trigger_key r' = (q, i)"
    from claim_row_next [OF assms(1,2) r'(1)] obtain r where r: "r \<in> set tbl" "trigger_key r' = trigger_key r"
        "r' = r \<or> (cas_hits p row r \<and> (\<exists>n. tr_NextRunAt r' = Some n \<and> due_time row < n))" .
    then obtain n where "tr_NextRunAt r = Some n" "due < n"
      using assms(3) r'(2) unfolding past_def x prod.case by auto
    with r(3) show "\<exists>n. tr_NextRunAt r' = Some n \<and> due < n"
      by (auto simp: cas_hits_def)
  qed
qed

lemma claim_row_Some:
  assumes "claim_row p now row tbl = (Some c, tbl')" and "due_time row \<le> now" and "distinct (map trigger_key tbl)"
  shows "past (claim_id c) tbl'" and "\<not> past (claim_id c) tbl"
proof -
  have c: "claim_id c = (p, tr_ID row, due_time row)" and hit: "\<exists>r \<in> set tbl. cas_hits p row r"
    using assms(1) by (auto simp: claim_row_def claim_id_def Let_def list_ex_iff split: sum.splits if_splits)
  then obtain r0 where r0: "r0 \<in> set tbl" "cas_hits p row r0" by blast
  show "\<not> past (claim_id c) tbl"
    using r0 by (auto simp: c past_def cas_hits_def)
  show "past (claim_id c) tbl'"
    unfolding past_def c prod.case
  proof (intro ballI impI)
    fix r' assume r': "r' \<in> set tbl'" "trigger_key r' = (p, tr_ID row)"
    let ?plan = "default_cron_next \<lparr>in_Due = due_time row, in_Now = now, in_Expr = cf_Expr (tr_Config row),
      in_Misfire = cf_Misfire (tr_Config row)\<rparr>"
    obtain plan where pl: "?plan = Inr plan"
      using assms(1) by (auto simp: claim_row_def split: sum.splits)
    have tbl': "tbl' = map (\<lambda>r. if cas_hits p row r then r\<lparr>tr_NextRunAt := Some (pl_Next plan)\<rparr> else r) tbl"
      using assms(1) pl by (auto simp: claim_row_def Let_def split: if_splits)
    obtain r where r: "r \<in> set tbl" "r' = (if cas_hits p row r then r\<lparr>tr_NextRunAt := Some (pl_Next plan)\<rparr> else r)"
      using r'(1) unfolding tbl' by auto
    have "trigger_key r = trigger_key r0"
      using r r'(2) r0(2) by (auto simp: cas_hits_def split: if_splits)
    then have "r = r0"
      using assms(3) r(1) r0(1) by (auto simp: distinct_map inj_on_def)
    then show "\<exists>n. tr_NextRunAt r' = Some n \<and> due_time row < n"
      using r(2) r0(2) default_cron_next_later [OF pl] assms(2) by auto
  qed
qed

text \<open>
  A claim of a scan is of a row due in its snapshot. A roll-back spares a run if it is of another
  trigger, or of a later run of this one.
\<close>

fun due_step :: "cron_step \<Rightarrow> bool" where
  "due_step (ClaimRun p now row) \<longleftrightarrow> due_time row \<le> now"
| "due_step (UndoClaim c now) \<longleftrightarrow> True"

fun spares_run :: "string \<times> string \<times> gtime \<Rightarrow> cron_step \<Rightarrow> bool" where
  "spares_run x (ClaimRun p now row) \<longleftrightarrow> True"
| "spares_run (p, i, due) (UndoClaim c now) \<longleftrightarrow> (cl_ProjectID c, cl_TriggerID c) \<noteq> (p, i) \<or> due < cl_ScheduledFor c"

lemma undo_keys: "map trigger_key (undo_cron_claim c now tbl) = map trigger_key tbl"
  by (auto simp: undo_cron_claim_def trigger_key_def split: option.split)

lemma undo_rows:
  assumes "r' \<in> set (undo_cron_claim c now tbl)"
  shows "\<exists>r \<in> set tbl. trigger_key r' = trigger_key r \<and>
    (r' = r \<or> claimed_trigger c r \<and> tr_NextRunAt r' = Some (cl_ScheduledFor c))"
proof (cases "undo_cron_claim c now tbl = tbl")
  case False
  then obtain trg where trg: "find (claimed_trigger c) tbl = Some trg"
    by (auto simp: undo_cron_claim_def split: option.splits)
  have "undo_cron_claim c now tbl = map (\<lambda>r. if claimed_trigger c r
      then r\<lparr>tr_Token := tr_Token trg, tr_Config := tr_Config trg, tr_Enabled := tr_Enabled trg,
        tr_NextRunAt := Some (cl_ScheduledFor c)\<rparr> else r) tbl"
    using False unfolding undo_cron_claim_def trg option.case by (cases "tr_NextRunAt trg") (auto split: if_splits)
  with assms obtain r where "r \<in> set tbl" "r' = (if claimed_trigger c r
      then r\<lparr>tr_Token := tr_Token trg, tr_Config := tr_Config trg, tr_Enabled := tr_Enabled trg,
        tr_NextRunAt := Some (cl_ScheduledFor c)\<rparr> else r)" by auto
  then show ?thesis by (intro bexI [of _ r]) (auto simp: trigger_key_def)
qed (use assms in auto)

lemma undo_past:
  assumes "past x tbl" and "spares_run x (UndoClaim c now)"
  shows "past x (undo_cron_claim c now tbl)"
proof -
  obtain p i due where x: "x = (p, i, due)" by (cases x)
  show ?thesis
    unfolding past_def x prod.case
  proof (intro ballI impI)
    fix r' assume r': "r' \<in> set (undo_cron_claim c now tbl)" "trigger_key r' = (p, i)"
    from undo_rows [OF r'(1)] r'(2) assms show "\<exists>n. tr_NextRunAt r' = Some n \<and> due < n"
      by (auto simp: past_def x claimed_trigger_def)
  qed
qed

lemma run_cron_steps_once:
  "run_cron_steps sts tbl = (cs, tbl') \<Longrightarrow> distinct (map trigger_key tbl) \<Longrightarrow>
     \<forall>st \<in> set sts. due_step st \<and> spares_run x st \<Longrightarrow>
     length (filter (\<lambda>c. claim_id c = x) cs) \<le> (if past x tbl then 0 else 1)"
proof (induction sts arbitrary: tbl cs)
  case Nil
  then show ?case by simp
next
  case (Cons st sts)
  show ?case
  proof (cases st)
    case (UndoClaim c now)
    then have run: "run_cron_steps sts (undo_cron_claim c now tbl) = (cs, tbl')" using Cons.prems(1) by simp
    have "distinct (map trigger_key (undo_cron_claim c now tbl))" using Cons.prems(2) by (simp add: undo_keys)
    moreover have "past x tbl \<Longrightarrow> past x (undo_cron_claim c now tbl)"
      using Cons.prems(3) by (simp add: UndoClaim undo_past)
    ultimately show ?thesis using Cons.IH [OF run] Cons.prems(3) by (fastforce split: if_splits)
  next
    case (ClaimRun p now row)
    obtain c tbl1 where c: "claim_row p now row tbl = (c, tbl1)" by force
    obtain cs1 where cs1: "run_cron_steps sts tbl1 = (cs1, tbl')" and cs: "cs = (case c of None \<Rightarrow> [] | Some x \<Rightarrow> [x]) @ cs1"
      using Cons.prems(1) by (auto simp: ClaimRun c split: prod.splits)
    have d: "due_time row \<le> now" using Cons.prems(3) by (simp add: ClaimRun)
    have "distinct (map trigger_key tbl1)" using Cons.prems(2) claim_row_keys [OF c] by simp
    then have ih: "length (filter (\<lambda>c. claim_id c = x) cs1) \<le> (if past x tbl1 then 0 else 1)"
      using Cons.IH [OF cs1] Cons.prems(3) by simp
    have keeps: "past x tbl \<Longrightarrow> past x tbl1" by (rule claim_row_past [OF c d])
    show ?thesis
    proof (cases "\<exists>y. c = Some y \<and> claim_id y = x")
      case True
      then obtain y where y: "c = Some y" "claim_id y = x" by blast
      from claim_row_Some [OF c [unfolded y(1)] d Cons.prems(2)] ih cs y show ?thesis by simp
    next
      case False
      then show ?thesis using ih keeps cs by (auto split: option.splits if_splits)
    qed
  qed
qed

end
