(* ===== verification/Cron_Properties.thy ===== *)
theory Cron_Properties
  imports Cron_Triggers
begin

text \<open>The properties of cron expressions and of the claim of due triggers.\<close>

section \<open>Next\<close>

text \<open>
  C12. \<^verbatim>\<open>Next\<close> returns the least whole minute after \<open>from\<close> that matches all five fields, and
  that minute lies within the horizon of four years; it fails only if no minute of the
  horizon matches. It always returns: the search is a total function.
\<close>

theorem cron_next_least_match:
  shows "(case cron_next c from of
      Inr u \<Rightarrow> cron_matches c u \<and> from < u \<and> u < add_date (truncate_to from minute + minute) 4 0 0 \<and>
        (\<nexists>v. from < v \<and> v < u \<and> cron_matches c v)
    | Inl err \<Rightarrow> err = NoMatch \<and>
        (\<nexists>v. from < v \<and> v < add_date (truncate_to from minute + minute) 4 0 0 \<and> cron_matches c v))"
proof (cases "cron_next c from")
  case (Inl err)
  then show ?thesis using cron_next_Inl [OF Inl] by auto
next
  case (Inr u)
  then show ?thesis using cron_next_Inr [OF Inr] by auto
qed

text \<open>
  C13. Every index \<^verbatim>\<open>Next\<close> uses is inside its array, for every parsed expression and every
  instant, so the search cannot panic.
\<close>

theorem cron_indices_in_range:
  assumes "parse_cron expr = Inr c"
  shows "nat (month_at t) < length (c_months c) \<and> nat (mday_at t) < length (c_days c) \<and>
    nat (weekday_at t) < length (c_weekdays c) \<and> nat (hour_at t) < length (c_hours c) \<and>
    nat (minute_at t) < length (c_minutes c)"
  using parse_cron_wf [OF assms] cron_indices [of t] by (auto simp: cron_wf_def)

lemma parse_demo: "\<exists>c. parse_cron ''*/15 3 1-5,20 * 7'' = Inr c \<and> c_wdayLimited c"
proof -
  have "case parse_cron ''*/15 3 1-5,20 * 7'' of Inr c \<Rightarrow> c_wdayLimited c | Inl _ \<Rightarrow> False"
    by code_simp
  then show ?thesis by (auto split: sum.splits)
qed

theorem cron_indices_in_range_witness:
  "\<exists>c. parse_cron ''*/15 3 1-5,20 * 7'' = Inr c \<and> nat (hour_at 0) < length (c_hours c)"
proof -
  obtain c where c: "parse_cron ''*/15 3 1-5,20 * 7'' = Inr c" using parse_demo by blast
  from cron_indices_in_range [OF c, of 0] c show ?thesis by blast
qed

text \<open>
  C14. Round trip: a field that lists numbers of its range, separated by commas, is read
  back as the set of exactly these numbers.
\<close>

theorem cron_field_roundtrip:
  assumes "vs \<noteq> []" and "\<forall>v \<in> set vs. mn \<le> v \<and> v \<le> mx" and "mx < cap" and "cap \<le> 60"
  shows "\<exists>bits. parse_field cap (join_with '','' (map itoa vs)) mn mx = Inr bits \<and> length bits = cap \<and>
    {v. v < cap \<and> bits ! v} = set vs"
proof -
  have "mx \<le> 1000000" using assms(3,4) by simp
  from parse_field_list [OF assms(1,2) this] obtain bits where
    b: "parse_field cap (join_with '','' (map itoa vs)) mn mx = Inr bits" "length bits = cap"
      "\<forall>v < cap. bits ! v \<longleftrightarrow> v \<in> set vs" by blast
  then have "{v. v < cap \<and> bits ! v} = set vs"
    using assms(2,3) by auto
  with b show ?thesis by blast
qed

theorem cron_field_roundtrip_witness:
  "\<exists>bits. parse_field 60 (join_with '','' (map itoa [5, 59, 0])) 0 59 = Inr bits \<and> length bits = 60 \<and>
    {v. v < 60 \<and> bits ! v} = set [5, 59, 0]"
  by (rule cron_field_roundtrip) simp_all

text \<open>
  C15. What a field means: a bit is set exactly if some part of the list denotes the number,
  a part being a range with a step whose numbers are counted from its lower end; and no bit
  outside the bounds of the field is ever set.
\<close>

theorem cron_field_denotes:
  assumes "parse_field cap fld mn mx = Inr bits" and "v < cap"
  shows "bits ! v \<longleftrightarrow> (\<exists>part \<in> set (split_on CHR '','' fld). \<exists>p step lo hi.
    split_step part mn mx = Inr (p, step) \<and> part_range p mn mx = Inr (lo, hi) \<and>
    mn \<le> lo \<and> hi \<le> mx \<and> lo \<le> v \<and> v \<le> hi \<and> (v - lo) mod step = 0)"
proof -
  have "(\<exists>vs. part_values part mn mx = Inr vs \<and> v \<in> set vs) \<longleftrightarrow> (\<exists>p step lo hi.
    split_step part mn mx = Inr (p, step) \<and> part_range p mn mx = Inr (lo, hi) \<and>
    mn \<le> lo \<and> hi \<le> mx \<and> lo \<le> v \<and> v \<le> hi \<and> (v - lo) mod step = 0)" (is "?L \<longleftrightarrow> ?R") for part
  proof
    assume ?L
    then obtain vs where vs: "part_values part mn mx = Inr vs" "v \<in> set vs" by blast
    from vs(1) show ?R by (rule part_values_Inr) (use vs(2) in blast)
  next
    assume ?R
    then obtain p step lo hi where r: "split_step part mn mx = Inr (p, step)" "part_range p mn mx = Inr (lo, hi)"
      "lo \<le> v \<and> v \<le> hi \<and> (v - lo) mod step = 0" by (elim exE conjE) (rule that, assumption+, intro conjI)
    have "0 < step" using r(1) by (auto simp: split_step_def split: option.splits if_splits)
    then show ?L using r by (simp add: part_values_def set_stepped)
  qed
  then show ?thesis
    using parse_field_Inr [OF assms(1)] assms(2) by (auto simp: parts_denote_def)
qed

theorem cron_field_denotes_witness:
  "\<exists>bits. parse_field 60 ''10-40/15'' 0 59 = Inr bits \<and> bits ! 25"
proof -
  have "case parse_field 60 ''10-40/15'' 0 59 of Inr bits \<Rightarrow> True | Inl _ \<Rightarrow> False" by code_simp
  then obtain bits where b: "parse_field 60 ''10-40/15'' 0 59 = Inr bits" by (auto split: sum.splits)
  have "split_on CHR '','' ''10-40/15'' = [''10-40/15'']" "split_step ''10-40/15'' 0 59 = Inr (''10-40'', 15)"
    "part_range ''10-40'' 0 59 = Inr (10, 40)" by code_simp+
  then have "bits ! 25"
    using cron_field_denotes [OF b, of 25] by simp
  with b show ?thesis by blast
qed

section \<open>The horizon\<close>

text \<open>
  C16. The horizon of four years does not cover the worst case the code names, an expression
  that matches 29 February only. 2100 is no leap year, so from 1 March 2096 the next such day
  is in 2104, and \<^verbatim>\<open>Next\<close> fails although the expression has further matches.
\<close>

definition feb29 :: cron_expr where
  "feb29 = (case parse_cron ''0 0 29 2 *'' of Inr c \<Rightarrow> c | Inl _ \<Rightarrow> undefined)"

lemma feb29_matches:
  assumes "cron_matches feb29 v"
  shows "month_at v = 2" and "mday_at v = 29"
proof -
  have bits: "\<forall>i < 13. c_months feb29 ! i \<longleftrightarrow> i = 2" "\<forall>i < 32. c_days feb29 ! i \<longleftrightarrow> i = 29"
    "c_dayLimited feb29" "\<not> c_wdayLimited feb29"
    by code_simp+
  have m: "c_months feb29 ! nat (month_at v)" "c_days feb29 ! nat (mday_at v)"
    using assms bits(3,4) by (auto simp: cron_matches_def matches_day_def Let_def)
  have "nat (month_at v) < 13" "nat (mday_at v) < 32" using cron_indices [of v] by auto
  then have "nat (month_at v) = 2" "nat (mday_at v) = 29" using bits(1,2) m by blast+
  then show "month_at v = 2" "mday_at v = 29" by simp_all
qed

lemma date_2096: "day_of (go_date 2096 3 1 0) = day_number 2096 3 1"
  and limit_2100: "add_date (truncate_to (go_date 2096 3 1 0) minute + minute) 4 0 0 = go_date 2100 3 1 minute"
  by code_simp+

theorem cron_next_misses_leap_day:
  "parse_cron ''0 0 29 2 *'' = Inr feb29 \<and> cron_next feb29 (go_date 2096 3 1 0) = Inl NoMatch \<and>
   cron_matches feb29 (go_date 2104 2 29 0)"
proof (intro conjI)
  show "parse_cron ''0 0 29 2 *'' = Inr feb29"
  proof -
    have "case parse_cron ''0 0 29 2 *'' of Inr c \<Rightarrow> True | Inl _ \<Rightarrow> False" by code_simp
    then show ?thesis by (auto simp: feb29_def split: sum.splits)
  qed
  show "cron_matches feb29 (go_date 2104 2 29 0)" by code_simp
  show "cron_next feb29 (go_date 2096 3 1 0) = Inl NoMatch"
  proof (cases "cron_next feb29 (go_date 2096 3 1 0)")
    case (Inl err)
    then show ?thesis using cron_next_Inl(1) [OF Inl] by simp
  next
    case (Inr u)
    have "\<not> cron_matches feb29 u"
    proof
      assume m: "cron_matches feb29 u"
      have "valid_date (year_at u) 2 29" and d: "day_of u = day_number (year_at u) 2 29"
        using valid_parts [of u] feb29_matches [OF m] by simp_all
      then have "leap (year_at u)"
        by (auto simp: valid_date_def days_in_month_def month_days_def split: if_splits)
      have "day_number 2096 3 1 \<le> day_of u"
        using day_of_mono [OF less_imp_le [OF cron_next_Inr(1) [OF Inr]]] date_2096 by simp
      moreover have "day_of u \<le> day_of (go_date 2100 3 1 minute)"
        using cron_next_Inr(4) [OF Inr] unfolding limit_2100 by (intro day_of_mono) simp
      moreover have "day_of (go_date 2100 3 1 minute) = day_number 2100 3 1" by code_simp
      ultimately have b: "day_number 2096 3 1 \<le> day_number (year_at u) 2 29"
          "day_number (year_at u) 2 29 \<le> day_number 2100 3 1" using d by simp_all
      define y where "y = year_at u"
      have n: "day_number y 2 29 = year_days y + 59" "day_number 2096 3 1 = year_days 2096 + 60"
          "day_number 2100 3 1 = year_days 2100 + 59"
        by (simp_all add: day_number_def month_days_def leap_def)
      have "2096 < y"
      proof (rule ccontr)
        assume "\<not> 2096 < y"
        then show False using b(1) n year_days_less [of y 2096] by (cases "y = 2096") (auto simp: y_def)
      qed
      moreover have "y \<le> 2100"
      proof (rule ccontr)
        assume "\<not> y \<le> 2100"
        then show False using b(2) n year_days_less [of 2100 y] by (auto simp: y_def)
      qed
      ultimately have "y \<in> {2097, 2098, 2099, 2100}" by auto
      then show False using \<open>leap (year_at u)\<close> by (auto simp: leap_def y_def)
    qed
    then show ?thesis using cron_next_Inr(2) [OF Inr] by simp
  qed
qed

section \<open>Due triggers\<close>

text \<open>
  C17. The plan for a due row: the next run is strictly after \<open>now\<close>, so the next scan
  cannot claim the row again; it is a match of the expression, and no match between it and
  the later of the due time and \<open>now\<close> is skipped; the due run itself is dropped exactly if
  it is more than the grace late and the misfire policy is \<^verbatim>\<open>skip\<close>.
\<close>

theorem cron_plan_correct:
  assumes "default_cron_next i = Inr pl"
  shows "in_Now i < pl_Next pl \<and>
    (\<exists>sched. parse_cron (in_Expr i) = Inr sched \<and> cron_matches sched (pl_Next pl) \<and>
      (\<forall>v. max (in_Due i) (in_Now i) < v \<and> v < pl_Next pl \<longrightarrow> \<not> cron_matches sched v)) \<and>
    (\<not> pl_Run pl \<longleftrightarrow> in_Due i < in_Now i - 90 * sec \<and> in_Misfire i = ''skip'')"
proof -
  from assms show ?thesis
    by (rule default_cron_next_cases)
      (use default_cron_next_later [OF assms] in \<open>unfold cron_misfire_grace_def, blast\<close>)
qed

definition demo_due :: cron_next_input where
  "demo_due = \<lparr>in_Due = 1700000100 * sec, in_Now = 1700000400 * sec, in_Expr = ''*/5 * * * *'', in_Misfire = ''skip''\<rparr>"

theorem cron_plan_correct_witness:
  "\<exists>pl. default_cron_next demo_due = Inr pl \<and> in_Now demo_due < pl_Next pl \<and> \<not> pl_Run pl"
proof -
  have "case default_cron_next demo_due of Inr pl \<Rightarrow> \<not> pl_Run pl | Inl _ \<Rightarrow> False" by code_simp
  then obtain pl where "default_cron_next demo_due = Inr pl" "\<not> pl_Run pl" by (auto split: sum.splits)
  with cron_plan_correct [of demo_due pl] show ?thesis by blast
qed

text \<open>
  C18. However the scans of any number of workers interleave, however old their snapshots are,
  and whatever claims of other triggers or of later runs are taken back in between, a run of a
  trigger is given out at most once: a second time only if the claim of this run, or of an
  earlier one of the trigger, has been taken back because its invocation could not be queued.
\<close>

theorem cron_run_claimed_once:
  assumes "run_cron_steps sts tbl = (claims, tbl')" and "distinct (map trigger_key tbl)"
    and "\<forall>st \<in> set sts. due_step st" and "\<forall>st \<in> set sts. spares_run (p, i, due) st"
  shows "length (filter (\<lambda>c. (cl_ProjectID c, cl_TriggerID c, cl_ScheduledFor c) = (p, i, due)) claims) \<le> 1"
  using run_cron_steps_once [OF assms(1,2), of "(p, i, due)"] assms(3,4)
  by (fastforce simp: claim_id_def split: if_splits)

definition demo_trigger :: trigger where
  "demo_trigger = \<lparr>tr_ID = ''t1'', tr_ProjectID = ''p1'', tr_FunctionID = ''f1'', tr_Type = ''cron'',
     tr_Config = \<lparr>cf_ResponseMode = '''', cf_AckBody = '''', cf_Handshake = '''', cf_BodyLimitBytes = 0,
       cf_Expr = ''*/5 * * * *'', cf_Misfire = ''catch_up_once'', cf_Events = []\<rparr>,
     tr_Token = '''', tr_Enabled = True, tr_NextRunAt = Some (1700000100 * sec)\<rparr>"

text \<open>Two scans with the same snapshot; then the next run is claimed, taken back, and claimed again.\<close>

definition demo_race :: "cron_step list" where
  "demo_race = [ClaimRun ''p1'' (1700000110 * sec) demo_trigger, ClaimRun ''p1'' (1700000111 * sec) demo_trigger,
     ClaimRun ''p1'' (1700000405 * sec) (demo_trigger\<lparr>tr_NextRunAt := Some (1700000400 * sec)\<rparr>),
     UndoClaim \<lparr>cl_ProjectID = ''p1'', cl_FunctionID = ''f1'', cl_TriggerID = ''t1'', cl_ScheduledFor = 1700000400 * sec\<rparr>
       (1700000405 * sec),
     ClaimRun ''p1'' (1700000410 * sec) (demo_trigger\<lparr>tr_NextRunAt := Some (1700000400 * sec)\<rparr>)]"

theorem cron_run_claimed_once_witness:
  "map cl_ScheduledFor (fst (run_cron_steps demo_race [demo_trigger])) =
     [1700000100 * sec, 1700000400 * sec, 1700000400 * sec] \<and>
   length (filter (\<lambda>c. (cl_ProjectID c, cl_TriggerID c, cl_ScheduledFor c) = (''p1'', ''t1'', 1700000100 * sec))
     (fst (run_cron_steps demo_race [demo_trigger]))) \<le> 1"
proof
  show "map cl_ScheduledFor (fst (run_cron_steps demo_race [demo_trigger])) =
     [1700000100 * sec, 1700000400 * sec, 1700000400 * sec]" by code_simp
  have due: "\<forall>st \<in> set demo_race. due_step st" and spares: "\<forall>st \<in> set demo_race. spares_run (''p1'', ''t1'', 1700000100 * sec) st"
    by (simp_all add: demo_race_def demo_trigger_def due_time_def sec_def)
  show "length (filter (\<lambda>c. (cl_ProjectID c, cl_TriggerID c, cl_ScheduledFor c) = (''p1'', ''t1'', 1700000100 * sec))
     (fst (run_cron_steps demo_race [demo_trigger]))) \<le> 1"
  proof (rule cron_run_claimed_once [OF _ _ due spares])
    show "run_cron_steps demo_race [demo_trigger] =
        (fst (run_cron_steps demo_race [demo_trigger]), snd (run_cron_steps demo_race [demo_trigger]))" by simp
    show "distinct (map trigger_key [demo_trigger])" by simp
  qed
qed

end
