(* ===== verification/Event_Match.thy ===== *)
theory Event_Match
  imports Cron_Triggers "HOL-Library.Char_ord" "HOL-Library.List_Lexorder"
begin

text \<open>
  Event subscriptions: the catalog of system events, \<^verbatim>\<open>internal/domain/events/catalog.go\<close>,
  and the patterns, their parser and the in-memory index of event triggers,
  \<^verbatim>\<open>internal/domain/functions/eventmatch.go\<close>. The index of the webhooks
  (theory \<^verbatim>\<open>Webhooks\<close>) is built the same way, so what a lookup finds is proved once, in
  the locale \<open>event_index\<close>.
\<close>

section \<open>The catalog of system events\<close>

text \<open>
  A map from a domain to its event names; Go's order of iteration over it is random, but the
  functions that iterate sort their result.
\<close>

definition system_event_catalog :: "(string \<times> string list) list" where
  "system_event_catalog =
     [(''auth'', [''auth.users.created'', ''auth.users.signed_in'', ''auth.users.signed_out'']),
      (''payments'', [''payments.orders.paid'', ''payments.orders.failed'', ''payments.orders.refunded'']),
      (''economy'', [''economy.assets.granted'', ''economy.assets.consumed'', ''economy.assets.transferred'',
        ''economy.assets.mutated'', ''economy.assets.expired'']),
      (''subscriptions'', [''subscriptions.activated'', ''subscriptions.renewed'', ''subscriptions.past_due'',
        ''subscriptions.canceled'', ''subscriptions.expired''])]"

definition system_event_domains :: "string list" where
  "system_event_domains = sort (map fst system_event_catalog)"

definition system_events :: "string list" where
  "system_events = sort (concat (map snd system_event_catalog))"

text \<open>The text before the first dot, the whole text when there is none.\<close>

definition first_segment :: "string \<Rightarrow> string" where
  "first_segment s = (case cut_at CHR ''.'' s of None \<Rightarrow> s | Some (a, _) \<Rightarrow> a)"

definition is_system_event_name :: "string \<Rightarrow> bool" where
  "is_system_event_name name =
     (if name = '''' then False
      else case map_of system_event_catalog (first_segment name) of
          None \<Rightarrow> False
        | Some names \<Rightarrow> list_ex (\<lambda>n. n = name) names)"

datatype pattern_err = PatEmpty | PatTooLong nat | PatUnknownDomain string "string list" | PatBareDomain string
  | PatWildcardPlace | PatNoMatch string | PatSegments nat | PatFixedSegments | PatDatabaseEmpty
  | PatDatabaseWildcard | PatCollectionEmpty | PatOp string

definition max_system_pattern_bytes :: nat where "max_system_pattern_bytes = 200"

definition resolve_system_patterns :: "string \<Rightarrow> pattern_err + string list" where
  "resolve_system_patterns s =
     (if s = '''' then Inl PatEmpty
      else if max_system_pattern_bytes < length s then Inl (PatTooLong max_system_pattern_bytes)
      else let parts = split_on CHR ''.'' s; domain = hd parts
        in case map_of system_event_catalog domain of
          None \<Rightarrow> Inl (PatUnknownDomain domain system_event_domains)
        | Some names \<Rightarrow>
            if length parts = 1 then Inl (PatBareDomain (domain @ ''.*''))
            else if ''*'' \<in> set (butlast parts) then Inl PatWildcardPlace
            else let out =
                (if last parts = ''*''
                 then filter (has_prefix (join_with ''.'' (butlast parts) @ ''.'')) names
                 else (case find (\<lambda>n. n = s) names of None \<Rightarrow> [] | Some n \<Rightarrow> [n]))
              in if out = [] then Inl (PatNoMatch s) else Inr out)"

section \<open>Patterns\<close>

record event_pattern =
  ep_Kind :: string
  ep_DatabaseID :: string
  ep_CollectionID :: string
  ep_Op :: string
  ep_SystemEvents :: "string list"

definition max_event_patterns :: nat where "max_event_patterns = 64"
definition max_event_pattern_bytes :: nat where "max_event_pattern_bytes = 200"

definition pattern_matches :: "event_pattern \<Rightarrow> string \<Rightarrow> string \<Rightarrow> string \<Rightarrow> bool" where
  "pattern_matches p databaseID collectionID op =
     (if ep_DatabaseID p \<noteq> databaseID then False
      else if ep_CollectionID p \<noteq> ''*'' \<and> ep_CollectionID p \<noteq> collectionID then False
      else if ep_Op p \<noteq> ''*'' \<and> ep_Op p \<noteq> op then False
      else True)"

definition pattern_string :: "event_pattern \<Rightarrow> string" where
  "pattern_string p =
     (if ep_Kind p = ''system'' then ''system:'' @ itoa (length (ep_SystemEvents p)) @ ''-events''
      else ''databases.'' @ ep_DatabaseID p @ ''.collections.'' @ ep_CollectionID p @ ''.documents.'' @ ep_Op p)"

definition parse_event_pattern :: "string \<Rightarrow> pattern_err + event_pattern" where
  "parse_event_pattern s =
     (if s = '''' then Inl PatEmpty
      else if max_event_pattern_bytes < length s then Inl (PatTooLong max_event_pattern_bytes)
      else if \<not> has_prefix ''databases.'' s then
        (case resolve_system_patterns s of Inl e \<Rightarrow> Inl e
         | Inr names \<Rightarrow> Inr \<lparr>ep_Kind = ''system'', ep_DatabaseID = '''', ep_CollectionID = '''',
             ep_Op = '''', ep_SystemEvents = names\<rparr>)
      else let parts = split_on CHR ''.'' s
        in if length parts \<noteq> 6 then Inl (PatSegments (length parts))
        else if parts ! 0 \<noteq> ''databases'' \<or> parts ! 2 \<noteq> ''collections'' \<or> parts ! 4 \<noteq> ''documents''
          then Inl PatFixedSegments
        else let p = \<lparr>ep_Kind = ''document'', ep_DatabaseID = parts ! 1, ep_CollectionID = parts ! 3,
            ep_Op = parts ! 5, ep_SystemEvents = []\<rparr>
        in if ep_DatabaseID p = '''' then Inl PatDatabaseEmpty
        else if ep_DatabaseID p = ''*'' then Inl PatDatabaseWildcard
        else if ep_CollectionID p = '''' then Inl PatCollectionEmpty
        else if ep_Op p \<in> {''create'', ''update'', ''delete'', ''*''} then Inr p
        else Inl (PatOp (ep_Op p)))"

datatype patterns_err = EventsRequired | TooManyEvents nat | InvalidEvent string pattern_err

fun first_bad_pattern :: "string list \<Rightarrow> patterns_err option" where
  "first_bad_pattern [] = None"
| "first_bad_pattern (e # es) =
     (case parse_event_pattern e of Inl err \<Rightarrow> Some (InvalidEvent e err) | Inr _ \<Rightarrow> first_bad_pattern es)"

definition validate_event_patterns :: "string list \<Rightarrow> patterns_err option" where
  "validate_event_patterns events =
     (if events = [] then Some EventsRequired
      else if max_event_patterns < length events then Some (TooManyEvents max_event_patterns)
      else first_bad_pattern events)"

definition event_op_from_envelope :: "string \<Rightarrow> string" where
  "event_op_from_envelope event =
     (case cut_last CHR ''.'' event of None \<Rightarrow> ''''
      | Some (_, op) \<Rightarrow>
          if op = '''' then ''''
          else if op \<in> {''create'', ''update'', ''delete''} then op else '''')"

section \<open>The index\<close>

text \<open>Both maps of Go give \<^verbatim>\<open>nil\<close>, the empty list, for a key they do not hold.\<close>

record 'sub pattern_index =
  px_byProject :: "string \<rightharpoonup> 'sub list"
  px_byProjectSystem :: "string \<rightharpoonup> (string \<rightharpoonup> 'sub list)"
  px_count :: nat

definition empty_index :: "'sub pattern_index" where
  "empty_index = \<lparr>px_byProject = Map.empty, px_byProjectSystem = Map.empty, px_count = 0\<rparr>"

definition slot :: "(string \<rightharpoonup> 'a list) \<Rightarrow> string \<Rightarrow> 'a list" where
  "slot m k = (case m k of None \<Rightarrow> [] | Some xs \<Rightarrow> xs)"

definition push :: "string \<Rightarrow> 'a \<Rightarrow> (string \<rightharpoonup> 'a list) \<Rightarrow> (string \<rightharpoonup> 'a list)" where
  "push k x m = m(k \<mapsto> slot m k @ [x])"

definition index_add :: "string \<Rightarrow> event_pattern \<Rightarrow> 'sub \<Rightarrow> 'sub pattern_index \<Rightarrow> 'sub pattern_index" where
  "index_add project p sub idx =
     (if ep_Kind p = ''system'' then
        let m = (case px_byProjectSystem idx project of None \<Rightarrow> Map.empty | Some m \<Rightarrow> m)
        in idx\<lparr>px_byProjectSystem := (px_byProjectSystem idx)
              (project \<mapsto> fold (\<lambda>name. push name sub) (ep_SystemEvents p) m),
            px_count := px_count idx + length (ep_SystemEvents p)\<rparr>
      else idx\<lparr>px_byProject := push project sub (px_byProject idx), px_count := px_count idx + 1\<rparr>)"

definition index_events ::
  "string \<Rightarrow> (event_pattern \<Rightarrow> 'sub) \<Rightarrow> string list \<Rightarrow> 'sub pattern_index \<Rightarrow> 'sub pattern_index" where
  "index_events project mk events idx =
     fold (\<lambda>raw idx. case parse_event_pattern raw of Inl _ \<Rightarrow> idx | Inr p \<Rightarrow> index_add project p (mk p) idx)
       events idx"

record event_subscription =
  es_ProjectID :: string
  es_FunctionID :: string
  es_TriggerID :: string
  es_Pattern :: event_pattern

definition subscription_matches :: "event_subscription \<Rightarrow> string \<Rightarrow> string \<Rightarrow> string \<Rightarrow> string \<Rightarrow> bool" where
  "subscription_matches s projectID databaseID collectionID op \<longleftrightarrow>
     es_ProjectID s = projectID \<and> pattern_matches (es_Pattern s) databaseID collectionID op"

definition trigger_subscription :: "trigger \<Rightarrow> event_pattern \<Rightarrow> event_subscription" where
  "trigger_subscription t p = \<lparr>es_ProjectID = tr_ProjectID t, es_FunctionID = tr_FunctionID t,
     es_TriggerID = tr_ID t, es_Pattern = p\<rparr>"

definition event_trigger_live :: "trigger \<Rightarrow> bool" where
  "event_trigger_live t \<longleftrightarrow> \<not> (tr_Type t \<noteq> ''event'' \<or> \<not> tr_Enabled t)"

definition new_event_trigger_index :: "trigger list \<Rightarrow> event_subscription pattern_index" where
  "new_event_trigger_index triggers =
     fold (\<lambda>t idx. if \<not> event_trigger_live t then idx
        else index_events (tr_ProjectID t) (trigger_subscription t) (cf_Events (tr_Config t)) idx)
       triggers empty_index"

definition trigger_match ::
  "event_subscription pattern_index \<Rightarrow> string \<Rightarrow> string \<Rightarrow> string \<Rightarrow> string \<Rightarrow> event_subscription list" where
  "trigger_match x projectID databaseID collectionID op =
     filter (\<lambda>s. subscription_matches s projectID databaseID collectionID op) (slot (px_byProject x) projectID)"

definition trigger_match_system ::
  "event_subscription pattern_index \<Rightarrow> string \<Rightarrow> string \<Rightarrow> event_subscription list" where
  "trigger_match_system x projectID event =
     (case px_byProjectSystem x projectID of None \<Rightarrow> [] | Some m \<Rightarrow> slot m event)"

definition index_len :: "'sub pattern_index \<Rightarrow> nat" where
  "index_len x = px_count x"

section \<open>What the catalog holds\<close>

lemma catalog_checked:
  "list_all (\<lambda>(d, ns). CHR ''.'' \<notin> set d \<and> distinct ns \<and>
      list_all (\<lambda>n. has_prefix (d @ ''.'') n \<and> CHR ''*'' \<notin> set n \<and> length n < 100) ns) system_event_catalog \<and>
   distinct (map fst system_event_catalog)"
  by code_simp

lemma system_events_set: "e \<in> set system_events \<longleftrightarrow> (\<exists>d ns. (d, ns) \<in> set system_event_catalog \<and> e \<in> set ns)"
  by (force simp: system_events_def)

lemma first_segment_append [simp]: "CHR ''.'' \<notin> set d \<Longrightarrow> first_segment (d @ CHR ''.'' # r) = d"
  by (simp add: first_segment_def)

lemma catalog_lookup:
  assumes "e \<in> set system_events"
  shows "\<exists>ns. map_of system_event_catalog (first_segment e) = Some ns \<and> e \<in> set ns"
proof -
  obtain d ns where d: "(d, ns) \<in> set system_event_catalog" "e \<in> set ns"
    using assms by (auto simp: system_events_set)
  then have "has_prefix (d @ ''.'') e" "CHR ''.'' \<notin> set d"
    using catalog_checked by (fastforce simp: list_all_iff)+
  then have "first_segment e = d"
    by (auto simp: has_prefix_iff)
  with d catalog_checked show ?thesis
    by (auto intro: map_of_is_SomeI)
qed

lemma catalog_entry:
  assumes "map_of system_event_catalog d = Some ns"
  shows "distinct ns" and "set ns = {e \<in> set system_events. first_segment e = d}"
proof -
  have m: "(d, ns) \<in> set system_event_catalog" using assms by (rule map_of_SomeD)
  with catalog_checked show "distinct ns" by (fastforce simp: list_all_iff)
  have "first_segment e = d" if "e \<in> set ns" for e
  proof -
    have "has_prefix (d @ ''.'') e" "CHR ''.'' \<notin> set d"
      using m that catalog_checked by (fastforce simp: list_all_iff)+
    then show ?thesis by (auto simp: has_prefix_iff)
  qed
  moreover have "e \<in> set ns" if "e \<in> set system_events" "first_segment e = d" for e
    using catalog_lookup [OF that(1)] that(2) assms by simp
  ultimately show "set ns = {e \<in> set system_events. first_segment e = d}"
    using m by (auto simp: system_events_set)
qed

lemma system_event_shape:
  assumes "e \<in> set system_events"
  shows "CHR ''*'' \<notin> set e" and "CHR ''.'' \<in> set e" and "length e < 100"
proof -
  obtain d ns where "(d, ns) \<in> set system_event_catalog" "e \<in> set ns"
    using assms by (auto simp: system_events_set)
  then have "CHR ''*'' \<notin> set e \<and> length e < 100 \<and> has_prefix (d @ ''.'') e"
    using catalog_checked by (fastforce simp: list_all_iff)
  then show "CHR ''*'' \<notin> set e" "CHR ''.'' \<in> set e" "length e < 100"
    by (auto simp: has_prefix_iff)
qed

text \<open>\<^verbatim>\<open>IsSystemEventName\<close> decides membership in the list of all names.\<close>

lemma is_system_event_name_iff: "is_system_event_name n \<longleftrightarrow> n \<in> set system_events"
proof
  assume "is_system_event_name n"
  then obtain ns where "map_of system_event_catalog (first_segment n) = Some ns" "n \<in> set ns"
    by (auto simp: is_system_event_name_def list_ex_iff split: if_splits option.splits)
  then show "n \<in> set system_events" by (auto simp: catalog_entry(2))
next
  assume n: "n \<in> set system_events"
  then have "n \<noteq> ''''" using system_event_shape(2) by fastforce
  with catalog_lookup [OF n] show "is_system_event_name n"
    by (auto simp: is_system_event_name_def list_ex_iff)
qed

section \<open>What a pattern denotes\<close>

text \<open>
  A system pattern denotes an event name if it is the name, or if it ends in \<^verbatim>\<open>.*\<close> and what
  is before the star is a prefix of the name.
\<close>

definition covers :: "string \<Rightarrow> string \<Rightarrow> bool" where
  "covers s e \<longleftrightarrow> s = e \<or> (\<exists>pre. s = pre @ ''.*'' \<and> has_prefix (pre @ ''.'') e)"

lemma hd_split_on: "hd (split_on CHR ''.'' s) = first_segment s"
proof (cases "cut_at CHR ''.'' s")
  case None
  then have "split_on CHR ''.'' s = [s]" by (simp add: cut_at_None_iff split_on_single)
  with None show ?thesis by (simp add: first_segment_def)
next
  case (Some ab)
  then show ?thesis
    by (cases ab) (auto simp: first_segment_def split_on_append_sep dest: cut_at_SomeD)
qed

lemma split_on_append: "split_on c (a @ c # b) = split_on c a @ split_on c b"
proof (induction a)
  case Nil
  then show ?case by simp
next
  case (Cons x a)
  then show ?case by (cases "split_on c a") auto
qed

lemma join_with_snoc: "xs \<noteq> [] \<Longrightarrow> join_with sep (xs @ [y]) = join_with sep xs @ sep @ y"
  by (induction sep xs rule: join_with.induct) auto

lemma split_star: "split_on CHR ''.'' (pre @ ''.*'') = split_on CHR ''.'' pre @ [''*'']"
  using split_on_append [of "CHR ''.''" pre "''*''"] by simp

lemma split_last_star:
  assumes "last (split_on CHR ''.'' s) = ''*''" and "length (split_on CHR ''.'' s) \<noteq> 1"
  shows "s = join_with ''.'' (butlast (split_on CHR ''.'' s)) @ ''.*''"
proof -
  let ?ps = "split_on CHR ''.'' s"
  have "butlast ?ps \<noteq> []" using assms(2) by (cases ?ps rule: rev_cases) auto
  then have "join_with ''.'' (butlast ?ps @ [last ?ps]) = join_with ''.'' (butlast ?ps) @ ''.*''"
    using assms(1) join_with_snoc [of "butlast ?ps" "''.''" "last ?ps"] by simp
  then show ?thesis using join_split [of "CHR ''.''" s] by simp
qed

lemma first_segment_prefix:
  assumes "has_prefix (pre @ ''.'') e"
  shows "first_segment e = first_segment (pre @ ''.*'')"
  using assms by (auto simp: has_prefix_iff hd_split_on [symmetric] split_on_append split_star hd_append)

lemma resolve_Inr:
  assumes "resolve_system_patterns s = Inr out"
  shows "out \<noteq> []" and "distinct out" and "set out = {e \<in> set system_events. covers s e}"
proof -
  let ?ps = "split_on CHR ''.'' s"
  obtain names where n: "map_of system_event_catalog (first_segment s) = Some names" "length ?ps \<noteq> 1"
    and out: "out = (if last ?ps = ''*'' then filter (has_prefix (join_with ''.'' (butlast ?ps) @ ''.'')) names
       else (case find (\<lambda>n. n = s) names of None \<Rightarrow> [] | Some n \<Rightarrow> [n]))"
    and "out \<noteq> []"
    using assms by (auto simp: resolve_system_patterns_def Let_def hd_split_on split: if_splits option.splits)
  show "out \<noteq> []" by fact
  note names = catalog_entry [OF n(1)]
  show "distinct out" using names(1) out by (simp split: option.splits)
  show "set out = {e \<in> set system_events. covers s e}"
  proof (cases "last ?ps = ''*''")
    case True
    define pre where "pre = join_with ''.'' (butlast ?ps)"
    have s: "s = pre @ ''.*''" using split_last_star [OF True n(2)] by (simp add: pre_def)
    have "covers s e \<longleftrightarrow> has_prefix (pre @ ''.'') e" if "e \<in> set system_events" for e
      using system_event_shape(1) [OF that] by (auto simp: covers_def s)
    moreover have "out = filter (has_prefix (pre @ ''.'')) names" using out True by (simp add: pre_def)
    moreover have "first_segment e = first_segment s" if "has_prefix (pre @ ''.'') e" for e
      using first_segment_prefix [OF that] s by simp
    ultimately show ?thesis using names(2) by auto
  next
    case False
    then have "covers s e \<longleftrightarrow> s = e" for e by (auto simp: covers_def split_star)
    moreover obtain n where n': "find (\<lambda>n. n = s) names = Some n"
      using out False \<open>out \<noteq> []\<close> by (cases "find (\<lambda>n. n = s) names") simp_all
    moreover have "n = s" "s \<in> set names" using find_Some_member [OF n'] by auto
    moreover have "out = [s]" using out False n' \<open>n = s\<close> by simp
    ultimately show ?thesis using names(2) by auto
  qed
qed

lemma resolve_covers:
  assumes "e \<in> set system_events" and "covers s e"
  shows "\<exists>out. resolve_system_patterns s = Inr out"
proof -
  let ?ps = "split_on CHR ''.'' s"
  note shape = system_event_shape [OF assms(1)]
  obtain names where names: "map_of system_event_catalog (first_segment e) = Some names" "e \<in> set names"
    using catalog_lookup [OF assms(1)] by blast
  have seg: "first_segment s = first_segment e"
    using assms(2) first_segment_prefix by (auto simp: covers_def)
  have star: "CHR ''*'' \<notin> set p" if "p \<in> set (butlast ?ps)" for p
  proof -
    have sub: "set p \<subseteq> set t" if "p \<in> set (split_on CHR ''.'' t)" for t
      using that by (induction t arbitrary: p) (fastforce split: list.splits if_splits)+
    from assms(2) consider "s = e" | pre r where "s = pre @ ''.*''" "e = pre @ ''.'' @ r"
      unfolding covers_def has_prefix_iff by fastforce
    then show ?thesis
    proof cases
      case 1
      then show ?thesis using sub [of e] in_set_butlastD [OF that] shape(1) by auto
    next
      case 2
      then show ?thesis using sub [of pre] that shape(1) by (auto simp: split_star)
    qed
  qed
  have "length s \<le> 200" using assms(2) shape(3) by (auto simp: covers_def has_prefix_iff)
  moreover have "s \<noteq> ''''" using assms(2) shape(2) by (auto simp: covers_def)
  moreover have "length ?ps \<noteq> 1"
  proof -
    have "CHR ''.'' \<in> set s" using assms(2) shape(2) by (auto simp: covers_def)
    then obtain a b where "s = a @ CHR ''.'' # b" by (auto dest: split_list)
    moreover have "0 < length (split_on CHR ''.'' a)" "0 < length (split_on CHR ''.'' b)" by simp_all
    ultimately show ?thesis by (simp add: split_on_append del: length_greater_0_conv)
  qed
  moreover have "''*'' \<notin> set (butlast ?ps)" using star by force
  moreover have "e \<in> set (if last ?ps = ''*'' then filter (has_prefix (join_with ''.'' (butlast ?ps) @ ''.'')) names
       else (case find (\<lambda>n. n = s) names of None \<Rightarrow> [] | Some n \<Rightarrow> [n]))"
  proof (cases "last ?ps = ''*''")
    case True
    note s = split_last_star [OF True \<open>length ?ps \<noteq> 1\<close>]
    then have "s \<noteq> e" using shape(1) by (metis UnCI list.set_intros(1,2) set_append)
    with assms(2) s have "has_prefix (join_with ''.'' (butlast ?ps) @ ''.'') e"
      unfolding covers_def by (metis append_same_eq)
    with True names(2) show ?thesis by simp
  next
    case False
    then have "s = e" using assms(2) by (auto simp: covers_def split_star)
    with names(2) obtain n where n: "find (\<lambda>n. n = s) names = Some n"
      by (cases "find (\<lambda>n. n = s) names") (auto simp: find_None_iff)
    then have "n = e" using find_Some_member [OF n] \<open>s = e\<close> by simp
    then show ?thesis using False n by simp
  qed
  ultimately show ?thesis
    using names(1) seg by (auto simp: resolve_system_patterns_def max_system_pattern_bytes_def Let_def hd_split_on)
qed

lemma length_split_on: "length (split_on c s) = Suc (length (filter (\<lambda>x. x = c) s))"
proof (induction s)
  case Nil
  then show ?case by simp
next
  case (Cons x s)
  then show ?case by (cases "split_on c s") auto
qed

text \<open>Document patterns: the text form and the parsed form determine each other.\<close>

definition document_string :: "string \<Rightarrow> string \<Rightarrow> string \<Rightarrow> string" where
  "document_string d c op = ''databases.'' @ d @ ''.collections.'' @ c @ ''.documents.'' @ op"

definition document_pattern :: "string \<Rightarrow> string \<Rightarrow> string \<Rightarrow> event_pattern" where
  "document_pattern d c op =
     \<lparr>ep_Kind = ''document'', ep_DatabaseID = d, ep_CollectionID = c, ep_Op = op, ep_SystemEvents = []\<rparr>"

lemma split_document_string:
  assumes "CHR ''.'' \<notin> set d" "CHR ''.'' \<notin> set c" "CHR ''.'' \<notin> set op"
  shows "split_on CHR ''.'' (document_string d c op) = [''databases'', d, ''collections'', c, ''documents'', op]"
proof -
  have "document_string d c op = ''databases'' @ CHR ''.'' # d @ CHR ''.'' # ''collections'' @ CHR ''.'' #
      c @ CHR ''.'' # ''documents'' @ CHR ''.'' # op"
    by (simp add: document_string_def)
  then show ?thesis
    using assms by (simp add: split_on_append_sep split_on_single del: append.simps split_on.simps)
qed

lemma six_parts:
  assumes "length xs = 6"
  shows "xs = [xs ! 0, xs ! 1, xs ! 2, xs ! 3, xs ! 4, xs ! 5]"
  by (rule nth_equalityI) (use assms in \<open>auto simp: less_Suc_eq numeral_eq_Suc\<close>)

lemma join_document:
  "join_with ''.'' [''databases'', d, ''collections'', c, ''documents'', op] = document_string d c op"
  by (simp add: document_string_def)

lemma parse_document:
  assumes "parse_event_pattern s = Inr p" and "has_prefix ''databases.'' s"
  obtains d c op where "s = document_string d c op" and "p = document_pattern d c op"
    and "CHR ''.'' \<notin> set d" "CHR ''.'' \<notin> set c" "d \<notin> {'''', ''*''}" "c \<noteq> ''''"
    and "op \<in> {''create'', ''update'', ''delete'', ''*''}" "length s \<le> 200"
proof -
  define ps where "ps = split_on CHR ''.'' s"
  have l: "length ps = 6" "ps ! 0 = ''databases''" "ps ! 2 = ''collections''" "ps ! 4 = ''documents''"
    and p: "p = document_pattern (ps ! 1) (ps ! 3) (ps ! 5)"
    and c: "ps ! 1 \<notin> {'''', ''*''}" "ps ! 3 \<noteq> ''''" "ps ! 5 \<in> {''create'', ''update'', ''delete'', ''*''}" "length s \<le> 200"
    using assms unfolding ps_def
    by (auto simp: parse_event_pattern_def max_event_pattern_bytes_def document_pattern_def Let_def split: if_splits)
  have "ps = [''databases'', ps ! 1, ''collections'', ps ! 3, ''documents'', ps ! 5]"
    using six_parts [OF l(1)] l(2-4) by simp
  then have "join_with ''.'' ps = document_string (ps ! 1) (ps ! 3) (ps ! 5)"
    by (metis join_document)
  moreover have "join_with ''.'' ps = s" unfolding ps_def by (rule join_split)
  moreover have "CHR ''.'' \<notin> set (ps ! 1)" "CHR ''.'' \<notin> set (ps ! 3)"
    using l(1) unfolding ps_def by (auto intro!: split_on_no_sep nth_mem)
  ultimately show thesis using that p c by metis
qed

lemma parse_document_string:
  assumes "CHR ''.'' \<notin> set d" "CHR ''.'' \<notin> set c" "d \<notin> {'''', ''*''}" "c \<noteq> ''''"
    and "op \<in> {''create'', ''update'', ''delete'', ''*''}" "length (document_string d c op) \<le> 200"
  shows "parse_event_pattern (document_string d c op) = Inr (document_pattern d c op)"
proof -
  have "CHR ''.'' \<notin> set op" using assms(5) by auto
  note ps = split_document_string [OF assms(1,2) this]
  have "has_prefix ''databases.'' (document_string d c op)" "document_string d c op \<noteq> ''''"
    by (simp_all add: document_string_def has_prefix_iff)
  then show ?thesis
    using assms ps by (simp add: parse_event_pattern_def max_event_pattern_bytes_def document_pattern_def Let_def)
qed

lemma parse_system:
  "\<not> has_prefix ''databases.'' s \<Longrightarrow> parse_event_pattern s =
     (if s = '''' then Inl PatEmpty
      else if max_event_pattern_bytes < length s then Inl (PatTooLong max_event_pattern_bytes)
      else case resolve_system_patterns s of Inl e \<Rightarrow> Inl e
        | Inr names \<Rightarrow> Inr \<lparr>ep_Kind = ''system'', ep_DatabaseID = '''', ep_CollectionID = '''',
            ep_Op = '''', ep_SystemEvents = names\<rparr>)"
  by (simp add: parse_event_pattern_def)

lemma parse_kind:
  assumes "parse_event_pattern s = Inr p"
  shows "ep_Kind p = (if has_prefix ''databases.'' s then ''document'' else ''system'')"
proof (cases "has_prefix ''databases.'' s")
  case True
  then show ?thesis using assms by (auto elim!: parse_document simp: document_pattern_def)
next
  case False
  then show ?thesis using assms by (auto simp: parse_system split: if_splits sum.splits)
qed

text \<open>What an event string of a configuration asks for.\<close>

definition wants_document :: "string \<Rightarrow> string \<Rightarrow> string \<Rightarrow> string \<Rightarrow> bool" where
  "wants_document s d c op \<longleftrightarrow> length s \<le> 200 \<and>
     s \<in> {document_string d c op, document_string d ''*'' op, document_string d c ''*'', document_string d ''*'' ''*''}"

definition wants_system :: "string \<Rightarrow> string \<Rightarrow> bool" where
  "wants_system s e \<longleftrightarrow> e \<in> set system_events \<and> covers s e"

definition document_event :: "string \<Rightarrow> string \<Rightarrow> string \<Rightarrow> bool" where
  "document_event d c op \<longleftrightarrow> CHR ''.'' \<notin> set d \<and> CHR ''.'' \<notin> set c \<and> d \<notin> {'''', ''*''} \<and> c \<noteq> '''' \<and>
     op \<in> {''create'', ''update'', ''delete''}"

definition hits_document :: "event_pattern \<Rightarrow> string \<Rightarrow> string \<Rightarrow> string \<Rightarrow> bool" where
  "hits_document p d c op \<longleftrightarrow> ep_Kind p \<noteq> ''system'' \<and> pattern_matches p d c op"

definition hits_system :: "event_pattern \<Rightarrow> string \<Rightarrow> bool" where
  "hits_system p e \<longleftrightarrow> ep_Kind p = ''system'' \<and> e \<in> set (ep_SystemEvents p)"

lemma has_prefix_document [simp]: "has_prefix ''databases.'' (document_string d c op)"
  by (simp add: document_string_def has_prefix_iff)

lemma wants_document_iff:
  assumes "document_event d c op"
  shows "wants_document s d c op \<longleftrightarrow> (\<exists>p. parse_event_pattern s = Inr p \<and> hits_document p d c op)"
proof
  assume w: "wants_document s d c op"
  then obtain c' op' where s: "s = document_string d c' op'" "c' \<in> {c, ''*''}" "op' \<in> {op, ''*''}"
    by (auto simp: wants_document_def)
  have "parse_event_pattern s = Inr (document_pattern d c' op')"
    unfolding s(1) by (rule parse_document_string) (use assms w s in \<open>auto simp: document_event_def wants_document_def\<close>)
  moreover have "hits_document (document_pattern d c' op') d c op"
    using s by (auto simp: hits_document_def document_pattern_def pattern_matches_def)
  ultimately show "\<exists>p. parse_event_pattern s = Inr p \<and> hits_document p d c op" by blast
next
  assume "\<exists>p. parse_event_pattern s = Inr p \<and> hits_document p d c op"
  then obtain p where p: "parse_event_pattern s = Inr p" "hits_document p d c op" by blast
  then have "has_prefix ''databases.'' s"
    using parse_kind [OF p(1)] by (auto simp: hits_document_def split: if_splits)
  with p(1) obtain d' c' op' where "s = document_string d' c' op'" "p = document_pattern d' c' op'" "length s \<le> 200"
    by (rule parse_document) blast
  with p(2) show "wants_document s d c op"
    by (auto simp: wants_document_def hits_document_def document_pattern_def pattern_matches_def split: if_splits)
qed

lemma wants_system_iff:
  "wants_system s e \<longleftrightarrow> (\<exists>p. parse_event_pattern s = Inr p \<and> hits_system p e)"
proof
  assume w: "wants_system s e"
  then have e: "e \<in> set system_events" "covers s e" by (simp_all add: wants_system_def)
  have "\<not> has_prefix ''databases.'' s"
  proof
    assume "has_prefix ''databases.'' s"
    then have "first_segment s = ''databases''"
      using first_segment_append [of "''databases''"] by (auto simp: has_prefix_iff)
    moreover have "first_segment e = first_segment s"
      using e(2) first_segment_prefix by (auto simp: covers_def)
    ultimately show False using catalog_lookup [OF e(1)] by (simp add: system_event_catalog_def)
  qed
  moreover obtain out where out: "resolve_system_patterns s = Inr out"
    using resolve_covers [OF e] by blast
  moreover from out have "s \<noteq> ''''" "length s \<le> 200"
    by (auto simp: resolve_system_patterns_def max_system_pattern_bytes_def split: if_splits)
  ultimately show "\<exists>p. parse_event_pattern s = Inr p \<and> hits_system p e"
    using resolve_Inr(3) [OF out] e
    by (simp add: parse_system max_event_pattern_bytes_def hits_system_def)
next
  assume "\<exists>p. parse_event_pattern s = Inr p \<and> hits_system p e"
  then obtain p where p: "parse_event_pattern s = Inr p" "hits_system p e" by blast
  then have "\<not> has_prefix ''databases.'' s"
    using parse_kind [OF p(1)] by (auto simp: hits_system_def)
  with p obtain out where "resolve_system_patterns s = Inr out" "ep_SystemEvents p = out"
    by (auto simp: parse_system split: if_splits sum.splits)
  with p(2) show "wants_system s e"
    using resolve_Inr(3) [of s out] by (auto simp: wants_system_def hits_system_def)
qed

section \<open>What a lookup in an index finds\<close>

text \<open>The patterns of a configuration that parse; the others are skipped.\<close>

definition parsed_patterns :: "string list \<Rightarrow> event_pattern list" where
  "parsed_patterns es = concat (map (\<lambda>s. case parse_event_pattern s of Inl _ \<Rightarrow> [] | Inr p \<Rightarrow> [p]) es)"

lemma parsed_patterns_simps [simp]:
  "parsed_patterns [] = []"
  "parsed_patterns (s # es) = (case parse_event_pattern s of Inl _ \<Rightarrow> [] | Inr p \<Rightarrow> [p]) @ parsed_patterns es"
  by (simp_all add: parsed_patterns_def)

lemma set_parsed_patterns: "p \<in> set (parsed_patterns es) \<longleftrightarrow> (\<exists>s \<in> set es. parse_event_pattern s = Inr p)"
  by (induction es) (auto split: sum.splits)

lemma parsed_distinct: "p \<in> set (parsed_patterns es) \<Longrightarrow> distinct (ep_SystemEvents p)"
proof -
  assume "p \<in> set (parsed_patterns es)"
  then obtain s where s: "parse_event_pattern s = Inr p" by (auto simp: set_parsed_patterns)
  show "distinct (ep_SystemEvents p)"
  proof (cases "has_prefix ''databases.'' s")
    case True
    with s show ?thesis by (auto elim!: parse_document simp: document_pattern_def)
  next
    case False
    with s show ?thesis by (auto simp: parse_system resolve_Inr(2) split: if_splits sum.splits)
  qed
qed

lemma slot_push [simp]: "slot (push k x m) k' = slot m k' @ (if k' = k then [x] else [])"
  by (simp add: push_def slot_def)

lemma slot_empty [simp]: "slot Map.empty k = []"
  by (simp add: slot_def)

lemma slot_fold_push:
  "distinct ks \<Longrightarrow> slot (fold (\<lambda>k. push k x) ks m) k = slot m k @ (if k \<in> set ks then [x] else [])"
  by (induction ks arbitrary: m) auto

definition documents_of :: "'sub pattern_index \<Rightarrow> string \<Rightarrow> 'sub list" where
  "documents_of x pr = slot (px_byProject x) pr"

definition systems_of :: "'sub pattern_index \<Rightarrow> string \<Rightarrow> string \<Rightarrow> 'sub list" where
  "systems_of x pr e = (case px_byProjectSystem x pr of None \<Rightarrow> [] | Some m \<Rightarrow> slot m e)"

lemma index_add_documents:
  "documents_of (index_add pr p sub x) pr' =
     documents_of x pr' @ (if pr' = pr \<and> ep_Kind p \<noteq> ''system'' then [sub] else [])"
  by (simp add: documents_of_def index_add_def Let_def)

lemma index_add_systems:
  "distinct (ep_SystemEvents p) \<Longrightarrow> systems_of (index_add pr p sub x) pr' e =
     systems_of x pr' e @ (if pr' = pr \<and> hits_system p e then [sub] else [])"
  by (auto simp: systems_of_def index_add_def Let_def slot_fold_push hits_system_def split: option.splits)

lemma index_events_fold:
  "index_events pr mk es x = fold (\<lambda>p. index_add pr p (mk p)) (parsed_patterns es) x"
  by (induction es arbitrary: x) (auto simp: index_events_def split: sum.splits)

lemma fold_index_documents:
  "documents_of (fold (\<lambda>p. index_add pr p (mk p)) ps x) pr' =
     documents_of x pr' @ (if pr' = pr then map mk (filter (\<lambda>p. ep_Kind p \<noteq> ''system'') ps) else [])"
  by (induction ps arbitrary: x) (auto simp: index_add_documents)

lemma fold_index_systems:
  "\<forall>p \<in> set ps. distinct (ep_SystemEvents p) \<Longrightarrow>
   systems_of (fold (\<lambda>p. index_add pr p (mk p)) ps x) pr' e =
     systems_of x pr' e @ (if pr' = pr then map mk (filter (\<lambda>p. hits_system p e) ps) else [])"
  by (induction ps arbitrary: x) (auto simp: index_add_systems)

text \<open>
  The contract of a builder: it starts from the empty index and registers the patterns of
  every live owner under the owner's project.
\<close>

locale event_index =
  fixes build :: "'owner list \<Rightarrow> 'sub pattern_index"
    and live :: "'owner \<Rightarrow> bool"
    and project :: "'owner \<Rightarrow> string"
    and events :: "'owner \<Rightarrow> string list"
    and mk :: "'owner \<Rightarrow> event_pattern \<Rightarrow> 'sub"
  assumes build_Nil: "build [] = empty_index"
    and build_dead: "\<not> live o1 \<Longrightarrow> build (os @ [o1]) = build os"
    and build_live: "live o1 \<Longrightarrow> build (os @ [o1]) = index_events (project o1) (mk o1) (events o1) (build os)"
begin

text \<open>The reference: all owners of the project, all their patterns, in order.\<close>

definition found :: "(event_pattern \<Rightarrow> bool) \<Rightarrow> string \<Rightarrow> 'owner list \<Rightarrow> 'sub list" where
  "found hit pr os = concat (map (\<lambda>o1. map (mk o1) (filter hit (parsed_patterns (events o1))))
     (filter (\<lambda>o1. live o1 \<and> project o1 = pr) os))"

lemma build_documents: "documents_of (build os) pr = found (\<lambda>p. ep_Kind p \<noteq> ''system'') pr os"
proof (induction os rule: rev_induct)
  case Nil
  then show ?case by (simp add: build_Nil empty_index_def documents_of_def found_def)
next
  case (snoc o1 os)
  then show ?case
    by (cases "live o1") (simp_all add: build_dead build_live found_def index_events_fold fold_index_documents)
qed

lemma build_systems: "systems_of (build os) pr e = found (\<lambda>p. hits_system p e) pr os"
proof (induction os rule: rev_induct)
  case Nil
  then show ?case by (simp add: build_Nil empty_index_def systems_of_def found_def)
next
  case (snoc o1 os)
  have "\<forall>p \<in> set (parsed_patterns (events o1)). distinct (ep_SystemEvents p)"
    by (blast intro: parsed_distinct)
  with snoc show ?case
    by (cases "live o1") (simp_all add: build_dead build_live found_def index_events_fold fold_index_systems)
qed

lemma found_filter: "filter P (found h pr os) =
    concat (map (\<lambda>o1. map (mk o1) (filter (\<lambda>p. h p \<and> P (mk o1 p)) (parsed_patterns (events o1))))
     (filter (\<lambda>o1. live o1 \<and> project o1 = pr) os))"
  by (simp add: found_def filter_concat comp_def filter_map conj_commute)

lemma set_found: "s \<in> set (found hit pr os) \<longleftrightarrow>
    (\<exists>o1 \<in> set os. live o1 \<and> project o1 = pr \<and>
      (\<exists>raw \<in> set (events o1). \<exists>p. parse_event_pattern raw = Inr p \<and> hit p \<and> s = mk o1 p))"
  by (auto simp: found_def set_parsed_patterns)

lemma mem_documents: "s \<in> set (documents_of (build os) pr) \<longleftrightarrow>
    (\<exists>o1 \<in> set os. live o1 \<and> project o1 = pr \<and>
      (\<exists>raw \<in> set (events o1). \<exists>p. parse_event_pattern raw = Inr p \<and> ep_Kind p \<noteq> ''system'' \<and> s = mk o1 p))"
  unfolding build_documents by (rule set_found)

lemma mem_systems: "s \<in> set (systems_of (build os) pr e) \<longleftrightarrow>
    (\<exists>o1 \<in> set os. live o1 \<and> project o1 = pr \<and>
      (\<exists>raw \<in> set (events o1). \<exists>p. parse_event_pattern raw = Inr p \<and> hits_system p e \<and> s = mk o1 p))"
  unfolding build_systems by (rule set_found)

end

interpretation trig: event_index new_event_trigger_index event_trigger_live tr_ProjectID
  "\<lambda>t. cf_Events (tr_Config t)" trigger_subscription
  by unfold_locales (simp_all add: new_event_trigger_index_def)

lemma trigger_match_system_alt: "trigger_match_system x pr e = systems_of x pr e"
  by (simp add: trigger_match_system_def systems_of_def)

lemma trigger_match_eq:
  "trigger_match (new_event_trigger_index ts) pr d c op =
     concat (map (\<lambda>t. map (trigger_subscription t) (filter (\<lambda>p. hits_document p d c op) (parsed_patterns (cf_Events (tr_Config t)))))
       (filter (\<lambda>t. event_trigger_live t \<and> tr_ProjectID t = pr) ts))"
proof -
  have "trigger_match (new_event_trigger_index ts) pr d c op =
      filter (\<lambda>s. subscription_matches s pr d c op) (trig.found (\<lambda>p. ep_Kind p \<noteq> ''system'') pr ts)"
    using trig.build_documents [of ts pr] by (simp add: trigger_match_def documents_of_def)
  also have "\<dots> = concat (map (\<lambda>t. map (trigger_subscription t) (filter (\<lambda>p. hits_document p d c op) (parsed_patterns (cf_Events (tr_Config t)))))
       (filter (\<lambda>t. event_trigger_live t \<and> tr_ProjectID t = pr) ts))"
    unfolding trig.found_filter
    by (intro arg_cong [where f = concat] map_cong refl arg_cong2 [where f = map] filter_cong)
      (auto simp: subscription_matches_def trigger_subscription_def hits_document_def)
  finally show ?thesis .
qed

lemma trigger_match_system_eq:
  "trigger_match_system (new_event_trigger_index ts) pr e =
     concat (map (\<lambda>t. map (trigger_subscription t) (filter (\<lambda>p. hits_system p e) (parsed_patterns (cf_Events (tr_Config t)))))
       (filter (\<lambda>t. event_trigger_live t \<and> tr_ProjectID t = pr) ts))"
  by (simp add: trigger_match_system_alt trig.build_systems trig.found_def)

end
