(* ===== verification/Webhooks.thy ===== *)
theory Webhooks
  imports Event_Match
begin

text \<open>
  Webhooks: the entity and its validation, \<^verbatim>\<open>internal/domain/webhooks/webhook.go\<close>, the
  index of subscriptions, \<^verbatim>\<open>eventmatch.go\<close> there, the subscriptions' create, update, delete
  and rotation of the signing key, \<^verbatim>\<open>internal/app/webhooks/service.go\<close>, and the statements
  of \<^verbatim>\<open>bunrepo/webhook_repo.go\<close> they use. A table is the list of the rows of one project's
  schema. SHA-256, the AES-GCM box and the random generator are parameters.
\<close>

section \<open>The entity\<close>

record webhook =
  wh_ID :: string
  wh_ProjectID :: string
  wh_URL :: string
  wh_Events :: "string list"
  wh_Status :: string
  wh_SecretEnc :: string
  wh_PreviousSecretEnc :: string
  wh_SecretRotatedAt :: gtime
  wh_SecretFingerprint :: string
  wh_CreatedAt :: gtime
  wh_UpdatedAt :: gtime

definition max_events :: nat where "max_events = 64"
definition max_event_bytes :: nat where "max_event_bytes = 200"
definition max_url_bytes :: nat where "max_url_bytes = 2048"
definition secret_rotation_window :: int where "secret_rotation_window = 24 * hour"

definition webhook_enabled :: "webhook \<Rightarrow> bool" where
  "webhook_enabled w = (wh_Status w = ''enabled'')"

text \<open>\<open>sha\<close> is the hexadecimal SHA-256 of a text.\<close>

definition fingerprint :: "(string \<Rightarrow> string) \<Rightarrow> string \<Rightarrow> string" where
  "fingerprint sha secret = ''whsec_'' @ take 8 (sha secret)"

definition effective_previous_secret :: "gtime \<Rightarrow> gtime \<Rightarrow> int \<Rightarrow> bool" where
  "effective_previous_secret now rotatedAt window =
     (if rotatedAt = zero_time then False
      else now - rotatedAt < (if window \<le> 0 then secret_rotation_window else window))"

datatype webhook_err = WhPermission | WhUrlRequired | WhUrlTooLong nat | WhUrlScheme
  | WhEventsRequired | WhTooManyEvents nat | WhEventTooLong string nat | WhInvalidEvent string pattern_err
  | WhStatus | WhQuota int | WhSecret | WhEncrypt | WhDecrypt string | WhNotFound | WhDuplicate

definition validate_url :: "string \<Rightarrow> webhook_err option" where
  "validate_url u =
     (if u = '''' then Some WhUrlRequired
      else if max_url_bytes < length u then Some (WhUrlTooLong max_url_bytes)
      else if \<not> has_prefix ''https://'' u then Some WhUrlScheme
      else None)"

section \<open>The index of subscriptions\<close>

record subscription =
  sb_ProjectID :: string
  sb_WebhookID :: string
  sb_Pattern :: event_pattern

definition webhook_subscription :: "webhook \<Rightarrow> event_pattern \<Rightarrow> subscription" where
  "webhook_subscription w p = \<lparr>sb_ProjectID = wh_ProjectID w, sb_WebhookID = wh_ID w, sb_Pattern = p\<rparr>"

definition new_subscription_index :: "webhook list \<Rightarrow> subscription pattern_index" where
  "new_subscription_index webhooks =
     fold (\<lambda>w idx. if \<not> webhook_enabled w then idx
        else index_events (wh_ProjectID w) (webhook_subscription w) (wh_Events w) idx)
       webhooks empty_index"

text \<open>The loop of both lookups: \<open>seen\<close> are the ids given out so far.\<close>

fun collect_ids :: "(subscription \<Rightarrow> bool) \<Rightarrow> string set \<Rightarrow> subscription list \<Rightarrow> string list" where
  "collect_ids hit seen [] = []"
| "collect_ids hit seen (s # subs) =
     (if \<not> hit s then collect_ids hit seen subs
      else if sb_WebhookID s \<in> seen then collect_ids hit seen subs
      else sb_WebhookID s # collect_ids hit (insert (sb_WebhookID s) seen) subs)"

definition subscription_index_match ::
  "subscription pattern_index \<Rightarrow> string \<Rightarrow> string \<Rightarrow> string \<Rightarrow> string \<Rightarrow> string list" where
  "subscription_index_match x projectID databaseID collectionID op =
     collect_ids (\<lambda>s. sb_ProjectID s = projectID \<and> pattern_matches (sb_Pattern s) databaseID collectionID op)
       {} (slot (px_byProject x) projectID)"

definition subscription_index_match_system :: "subscription pattern_index \<Rightarrow> string \<Rightarrow> string \<Rightarrow> string list" where
  "subscription_index_match_system x projectID event =
     (case px_byProjectSystem x projectID of None \<Rightarrow> []
      | Some m \<Rightarrow> collect_ids (\<lambda>_. True) {} (slot m event))"

lemma collect_ids_correct:
  "distinct (collect_ids hit seen subs) \<and>
   set (collect_ids hit seen subs) = sb_WebhookID ` {s \<in> set subs. hit s} - seen"
  by (induction hit seen subs rule: collect_ids.induct) auto

interpretation wh: event_index new_subscription_index webhook_enabled wh_ProjectID wh_Events webhook_subscription
  by unfold_locales (simp_all add: new_subscription_index_def)

lemma ids_of_found:
  assumes mem: "\<And>s. s \<in> S \<longleftrightarrow> (\<exists>w \<in> W. live w \<and> (\<exists>raw \<in> set (wh_Events w). \<exists>p. P raw p \<and> s = webhook_subscription w p))"
  shows "sb_WebhookID ` {s \<in> S. hit s} =
    {wh_ID w | w. w \<in> W \<and> live w \<and> (\<exists>raw \<in> set (wh_Events w). \<exists>p. P raw p \<and> hit (webhook_subscription w p))}"
    (is "?L = ?R")
proof (intro equalityI subsetI)
  fix x assume "x \<in> ?L"
  then obtain s where s: "x = sb_WebhookID s" "s \<in> S" "hit s" by blast
  then obtain w raw p where w: "w \<in> W" "live w" "raw \<in> set (wh_Events w)" "P raw p" "s = webhook_subscription w p"
    unfolding mem by blast
  then have "x = wh_ID w" using s by (simp add: webhook_subscription_def)
  with w s(3) show "x \<in> ?R" by blast
next
  fix x assume "x \<in> ?R"
  then obtain w raw p where w: "x = wh_ID w" "w \<in> W" "live w" "raw \<in> set (wh_Events w)" "P raw p"
      "hit (webhook_subscription w p)" by blast
  then have "webhook_subscription w p \<in> S" unfolding mem by blast
  then show "x \<in> ?L"
    using w by (intro image_eqI [of _ _ "webhook_subscription w p"]) (simp_all add: webhook_subscription_def)
qed

lemma subscription_match_correct:
  "distinct (subscription_index_match (new_subscription_index ws) pr d c op) \<and>
   set (subscription_index_match (new_subscription_index ws) pr d c op) =
     {wh_ID w | w. w \<in> set ws \<and> webhook_enabled w \<and> wh_ProjectID w = pr \<and>
        (\<exists>raw \<in> set (wh_Events w). \<exists>p. parse_event_pattern raw = Inr p \<and> hits_document p d c op)}"
  (is "?D \<and> ?L = ?R")
proof
  let ?subs = "documents_of (new_subscription_index ws) pr"
  let ?hit = "\<lambda>s. sb_ProjectID s = pr \<and> pattern_matches (sb_Pattern s) d c op"
  have m: "subscription_index_match (new_subscription_index ws) pr d c op = collect_ids ?hit {} ?subs"
    by (simp add: subscription_index_match_def documents_of_def)
  show ?D unfolding m using collect_ids_correct by blast
  have mem: "s \<in> set ?subs \<longleftrightarrow> (\<exists>w \<in> set ws. (webhook_enabled w \<and> wh_ProjectID w = pr) \<and>
      (\<exists>raw \<in> set (wh_Events w). \<exists>p. (parse_event_pattern raw = Inr p \<and> ep_Kind p \<noteq> ''system'') \<and>
        s = webhook_subscription w p))" for s
    unfolding wh.mem_documents by blast
  have "?L = sb_WebhookID ` {s \<in> set ?subs. ?hit s}"
    unfolding m using collect_ids_correct by simp
  also have "\<dots> = ?R"
    unfolding ids_of_found [OF mem] webhook_subscription_def hits_document_def by auto
  finally show "?L = ?R" .
qed

lemma subscription_match_system_correct:
  "distinct (subscription_index_match_system (new_subscription_index ws) pr e) \<and>
   set (subscription_index_match_system (new_subscription_index ws) pr e) =
     {wh_ID w | w. w \<in> set ws \<and> webhook_enabled w \<and> wh_ProjectID w = pr \<and>
        (\<exists>raw \<in> set (wh_Events w). \<exists>p. parse_event_pattern raw = Inr p \<and> hits_system p e)}"
  (is "?D \<and> ?L = ?R")
proof
  let ?subs = "systems_of (new_subscription_index ws) pr e"
  have m: "subscription_index_match_system (new_subscription_index ws) pr e = collect_ids (\<lambda>_. True) {} ?subs"
    by (simp add: subscription_index_match_system_def systems_of_def split: option.splits)
  show ?D unfolding m using collect_ids_correct by blast
  have mem: "s \<in> set ?subs \<longleftrightarrow> (\<exists>w \<in> set ws. (webhook_enabled w \<and> wh_ProjectID w = pr) \<and>
      (\<exists>raw \<in> set (wh_Events w). \<exists>p. (parse_event_pattern raw = Inr p \<and> hits_system p e) \<and>
        s = webhook_subscription w p))" for s
    unfolding wh.mem_systems by blast
  have "?L = sb_WebhookID ` {s \<in> set ?subs. True}"
    unfolding m using collect_ids_correct by simp
  also have "\<dots> = ?R"
    unfolding ids_of_found [OF mem] by auto
  finally show "?L = ?R" .
qed

section \<open>Statements on the table\<close>

definition webhook_is :: "string \<Rightarrow> string \<Rightarrow> webhook \<Rightarrow> bool" where
  "webhook_is project i w \<longleftrightarrow> wh_ProjectID w = project \<and> wh_ID w = i"

definition webhook_get :: "string \<Rightarrow> string \<Rightarrow> webhook list \<Rightarrow> webhook_err + webhook" where
  "webhook_get project i tbl = (case find (webhook_is project i) tbl of None \<Rightarrow> Inl WhNotFound | Some w \<Rightarrow> Inr w)"

definition webhook_insert :: "webhook \<Rightarrow> webhook list \<Rightarrow> webhook_err + webhook list" where
  "webhook_insert w tbl = (if wh_ID w \<in> wh_ID ` set tbl then Inl WhDuplicate else Inr (tbl @ [w]))"

definition webhook_write :: "webhook \<Rightarrow> webhook \<Rightarrow> webhook" where
  "webhook_write w r = r\<lparr>wh_URL := wh_URL w, wh_Events := wh_Events w, wh_Status := wh_Status w,
     wh_SecretEnc := wh_SecretEnc w, wh_PreviousSecretEnc := wh_PreviousSecretEnc w,
     wh_SecretRotatedAt := wh_SecretRotatedAt w, wh_SecretFingerprint := wh_SecretFingerprint w,
     wh_UpdatedAt := wh_UpdatedAt w\<rparr>"

definition webhook_update_row :: "webhook \<Rightarrow> webhook list \<Rightarrow> webhook_err + webhook list" where
  "webhook_update_row w tbl =
     (if list_ex (webhook_is (wh_ProjectID w) (wh_ID w)) tbl
      then Inr (map (\<lambda>r. if webhook_is (wh_ProjectID w) (wh_ID w) r then webhook_write w r else r) tbl)
      else Inl WhNotFound)"

definition webhook_delete_row :: "string \<Rightarrow> string \<Rightarrow> webhook list \<Rightarrow> webhook_err + webhook list" where
  "webhook_delete_row project i tbl =
     (if list_ex (webhook_is project i) tbl then Inr (filter (\<lambda>r. \<not> webhook_is project i r) tbl) else Inl WhNotFound)"

definition webhook_count :: "string \<Rightarrow> webhook list \<Rightarrow> int" where
  "webhook_count project tbl = int (length (filter (\<lambda>w. wh_ProjectID w = project) tbl))"

definition list_enabled_webhooks :: "string \<Rightarrow> webhook list \<Rightarrow> webhook list" where
  "list_enabled_webhooks project tbl = filter (\<lambda>w. wh_ProjectID w = project \<and> wh_Status w = ''enabled'') tbl"

section \<open>The service\<close>

text \<open>
  What a call gets from outside: whether the caller is a server principal, the clock, the
  random text (\<open>None\<close>: the generator failed), the box, a fresh id, and whether the count
  for the quota could be read.
\<close>

record webhook_env =
  we_server :: bool
  we_now :: gtime
  we_random :: "string option"
  we_encrypt :: "string \<Rightarrow> string option"
  we_decrypt :: "string \<Rightarrow> string option"
  we_sha :: "string \<Rightarrow> string"
  we_uuid :: string
  we_count_ok :: bool
  we_maxPerProject :: int
  we_secretGrace :: int

fun normalize_events_from :: "string set \<Rightarrow> string list \<Rightarrow> webhook_err + string list" where
  "normalize_events_from seen [] = Inr []"
| "normalize_events_from seen (e # es) =
     (if max_event_bytes < length e then Inl (WhEventTooLong e max_event_bytes)
      else case parse_event_pattern e of Inl err \<Rightarrow> Inl (WhInvalidEvent e err)
      | Inr _ \<Rightarrow>
          if e \<in> seen then normalize_events_from seen es
          else (case normalize_events_from (insert e seen) es of Inl err \<Rightarrow> Inl err | Inr out \<Rightarrow> Inr (e # out)))"

definition normalize_events :: "string list \<Rightarrow> webhook_err + string list" where
  "normalize_events events =
     (if events = [] then Inl WhEventsRequired
      else if max_events < length events then Inl (WhTooManyEvents max_events)
      else normalize_events_from {} events)"

definition generate_secret :: "webhook_env \<Rightarrow> string option" where
  "generate_secret env = (case we_random env of None \<Rightarrow> None | Some r \<Rightarrow> Some (''whsec_'' @ r))"

record create_webhook_command =
  cw_ID :: string
  cw_ProjectID :: string
  cw_URL :: string
  cw_Events :: "string list"
  cw_Status :: string

definition create_webhook ::
  "webhook_env \<Rightarrow> create_webhook_command \<Rightarrow> webhook list \<Rightarrow> webhook_err + (webhook \<times> string \<times> webhook list)" where
  "create_webhook env cmd tbl =
     (if \<not> we_server env then Inl WhPermission
      else case validate_url (cw_URL cmd) of Some err \<Rightarrow> Inl err
      | None \<Rightarrow> (case normalize_events (cw_Events cmd) of Inl err \<Rightarrow> Inl err
      | Inr events \<Rightarrow>
        if cw_Status cmd \<noteq> '''' \<and> cw_Status cmd \<noteq> ''enabled'' \<and> cw_Status cmd \<noteq> ''paused'' then Inl WhStatus
        else let st = (if cw_Status cmd \<noteq> '''' then cw_Status cmd else ''enabled'')
        in if we_count_ok env \<and> we_maxPerProject env \<le> webhook_count (cw_ProjectID cmd) tbl
           then Inl (WhQuota (we_maxPerProject env))
        else case generate_secret env of None \<Rightarrow> Inl WhSecret
        | Some secret \<Rightarrow> (case we_encrypt env secret of None \<Rightarrow> Inl WhEncrypt
        | Some enc \<Rightarrow>
          let w = \<lparr>wh_ID = (if cw_ID cmd = '''' then ''wh-'' @ we_uuid env else cw_ID cmd),
              wh_ProjectID = cw_ProjectID cmd, wh_URL = cw_URL cmd, wh_Events = events, wh_Status = st,
              wh_SecretEnc = enc, wh_PreviousSecretEnc = '''', wh_SecretRotatedAt = zero_time,
              wh_SecretFingerprint = fingerprint (we_sha env) secret,
              wh_CreatedAt = we_now env, wh_UpdatedAt = we_now env\<rparr>
          in (case webhook_insert w tbl of Inl err \<Rightarrow> Inl err | Inr tbl' \<Rightarrow> Inr (w, secret, tbl')))))"

record update_webhook_command =
  uw_ProjectID :: string
  uw_WebhookID :: string
  uw_URL :: "string option"
  uw_Events :: "string list"
  uw_EventsSet :: bool
  uw_Status :: "string option"

definition update_webhook ::
  "webhook_env \<Rightarrow> update_webhook_command \<Rightarrow> webhook list \<Rightarrow> webhook_err + (webhook \<times> webhook list)" where
  "update_webhook env cmd tbl =
     (if \<not> we_server env then Inl WhPermission
      else case webhook_get (uw_ProjectID cmd) (uw_WebhookID cmd) tbl of Inl err \<Rightarrow> Inl err
      | Inr w \<Rightarrow>
        (case (case uw_URL cmd of None \<Rightarrow> Inr w
            | Some u \<Rightarrow> (case validate_url u of Some err \<Rightarrow> Inl err | None \<Rightarrow> Inr (w\<lparr>wh_URL := u\<rparr>))) of
          Inl err \<Rightarrow> Inl err
        | Inr w1 \<Rightarrow>
        (case (if uw_EventsSet cmd
            then (case normalize_events (uw_Events cmd) of Inl err \<Rightarrow> Inl err | Inr ev \<Rightarrow> Inr (w1\<lparr>wh_Events := ev\<rparr>))
            else Inr w1) of
          Inl err \<Rightarrow> Inl err
        | Inr w2 \<Rightarrow>
        (case (case uw_Status cmd of None \<Rightarrow> Inr w2
            | Some st \<Rightarrow> if st \<noteq> ''enabled'' \<and> st \<noteq> ''paused'' then Inl WhStatus else Inr (w2\<lparr>wh_Status := st\<rparr>)) of
          Inl err \<Rightarrow> Inl err
        | Inr w3 \<Rightarrow>
          let w4 = w3\<lparr>wh_UpdatedAt := we_now env\<rparr>
          in (case webhook_update_row w4 tbl of Inl err \<Rightarrow> Inl err | Inr tbl' \<Rightarrow> Inr (w4, tbl'))))))"

definition delete_webhook :: "webhook_env \<Rightarrow> string \<Rightarrow> string \<Rightarrow> webhook list \<Rightarrow> webhook_err + webhook list" where
  "delete_webhook env project i tbl =
     (if \<not> we_server env then Inl WhPermission
      else case webhook_get project i tbl of Inl err \<Rightarrow> Inl err
      | Inr _ \<Rightarrow> webhook_delete_row project i tbl)"

definition rotate_webhook_secret ::
  "webhook_env \<Rightarrow> string \<Rightarrow> string \<Rightarrow> webhook list \<Rightarrow> webhook_err + (webhook \<times> string \<times> webhook list)" where
  "rotate_webhook_secret env project i tbl =
     (if \<not> we_server env then Inl WhPermission
      else case webhook_get project i tbl of Inl err \<Rightarrow> Inl err
      | Inr w \<Rightarrow> (case generate_secret env of None \<Rightarrow> Inl WhSecret
      | Some secret \<Rightarrow> (case we_encrypt env secret of None \<Rightarrow> Inl WhEncrypt
      | Some enc \<Rightarrow>
        let w' = w\<lparr>wh_PreviousSecretEnc := wh_SecretEnc w, wh_SecretRotatedAt := we_now env,
            wh_SecretEnc := enc, wh_SecretFingerprint := fingerprint (we_sha env) secret,
            wh_UpdatedAt := we_now env\<rparr>
        in (case webhook_update_row w' tbl of Inl err \<Rightarrow> Inl err | Inr tbl' \<Rightarrow> Inr (w', secret, tbl')))))"

text \<open>The keys a delivery is signed with: the current one, and the previous one or none.\<close>

definition effective_secrets :: "webhook_env \<Rightarrow> webhook \<Rightarrow> webhook_err + (string \<times> string)" where
  "effective_secrets env w =
     (case we_decrypt env (wh_SecretEnc w) of None \<Rightarrow> Inl (WhDecrypt (wh_ID w))
      | Some current \<Rightarrow>
        if wh_PreviousSecretEnc w \<noteq> '''' \<and>
           effective_previous_secret (we_now env) (wh_SecretRotatedAt w) (we_secretGrace env)
        then Inr (current, case we_decrypt env (wh_PreviousSecretEnc w) of None \<Rightarrow> '''' | Some previous \<Rightarrow> previous)
        else Inr (current, ''''))"

section \<open>What the service keeps\<close>

definition webhook_ok :: "webhook \<Rightarrow> bool" where
  "webhook_ok w \<longleftrightarrow> has_prefix ''https://'' (wh_URL w) \<and> length (wh_URL w) \<le> 2048 \<and>
     wh_Events w \<noteq> [] \<and> length (wh_Events w) \<le> 64 \<and> distinct (wh_Events w) \<and>
     (\<forall>e \<in> set (wh_Events w). \<exists>p. parse_event_pattern e = Inr p) \<and>
     wh_Status w \<in> {''enabled'', ''paused''}"

definition webhooks_ok :: "webhook list \<Rightarrow> bool" where
  "webhooks_ok tbl \<longleftrightarrow> distinct (map wh_ID tbl) \<and> (\<forall>w \<in> set tbl. webhook_ok w)"

lemma validate_url_None: "validate_url u = None \<Longrightarrow> has_prefix ''https://'' u \<and> length u \<le> 2048"
  by (auto simp: validate_url_def max_url_bytes_def split: if_splits)

lemma normalize_events_from_Inr:
  "normalize_events_from seen es = Inr out \<Longrightarrow>
     distinct out \<and> set out = set es - seen \<and> length out \<le> length es \<and>
     (\<forall>e \<in> set es. \<exists>p. parse_event_pattern e = Inr p)"
proof (induction seen es arbitrary: out rule: normalize_events_from.induct)
  case (1 seen)
  then show ?case by simp
next
  case (2 seen e es)
  show ?case
  proof (cases "e \<in> seen")
    case True
    with 2 show ?thesis by (fastforce split: if_splits sum.splits)
  next
    case False
    with 2(3) obtain out' p where o: "normalize_events_from (insert e seen) es = Inr out'" "out = e # out'"
        "parse_event_pattern e = Inr p" and l: "\<not> max_event_bytes < length e"
      by (auto split: if_splits sum.splits)
    from 2(2) [OF l o(3) False o(1)] show ?thesis using o(2,3) False by auto
  qed
qed

lemma normalize_events_Inr:
  assumes "normalize_events es = Inr out"
  shows "out \<noteq> []" "length out \<le> 64" "distinct out" "set out = set es"
    "\<forall>e \<in> set out. \<exists>p. parse_event_pattern e = Inr p"
  using assms normalize_events_from_Inr [of "{}" es out]
  by (auto simp: normalize_events_def max_events_def split: if_splits)

lemma create_webhook_Inr:
  assumes "create_webhook env cmd tbl = Inr (w, secret, tbl')"
  shows "tbl' = tbl @ [w]" "wh_ID w \<notin> wh_ID ` set tbl" "webhook_ok w" "wh_ProjectID w = cw_ProjectID cmd"
    "we_count_ok env \<Longrightarrow> webhook_count (wh_ProjectID w) tbl < we_maxPerProject env"
    "we_encrypt env secret = Some (wh_SecretEnc w)"
proof -
  obtain events enc where v: "validate_url (cw_URL cmd) = None" "normalize_events (cw_Events cmd) = Inr events"
      "\<not> (cw_Status cmd \<noteq> '''' \<and> cw_Status cmd \<noteq> ''enabled'' \<and> cw_Status cmd \<noteq> ''paused'')"
    and q: "\<not> (we_count_ok env \<and> we_maxPerProject env \<le> webhook_count (cw_ProjectID cmd) tbl)"
    and enc: "we_encrypt env secret = Some enc"
    and w: "w = \<lparr>wh_ID = (if cw_ID cmd = '''' then ''wh-'' @ we_uuid env else cw_ID cmd),
        wh_ProjectID = cw_ProjectID cmd, wh_URL = cw_URL cmd, wh_Events = events,
        wh_Status = (if cw_Status cmd \<noteq> '''' then cw_Status cmd else ''enabled''),
        wh_SecretEnc = enc, wh_PreviousSecretEnc = '''', wh_SecretRotatedAt = zero_time,
        wh_SecretFingerprint = fingerprint (we_sha env) secret,
        wh_CreatedAt = we_now env, wh_UpdatedAt = we_now env\<rparr>"
    and ins: "webhook_insert w tbl = Inr tbl'"
    using assms unfolding create_webhook_def Let_def by (auto split: if_splits option.splits sum.splits)
  show "tbl' = tbl @ [w]" "wh_ID w \<notin> wh_ID ` set tbl"
    using ins by (auto simp: webhook_insert_def split: if_splits)
  show "webhook_ok w"
    using v validate_url_None normalize_events_Inr [OF v(2)] by (auto simp: w webhook_ok_def)
  show "wh_ProjectID w = cw_ProjectID cmd" by (simp add: w)
  show "webhook_count (wh_ProjectID w) tbl < we_maxPerProject env" if "we_count_ok env"
    using q that by (simp add: w)
  show "we_encrypt env secret = Some (wh_SecretEnc w)" by (simp add: w enc)
qed

lemma webhook_get_Inr:
  "webhook_get pr i tbl = Inr w \<Longrightarrow> w \<in> set tbl \<and> wh_ProjectID w = pr \<and> wh_ID w = i"
  by (auto simp: webhook_get_def webhook_is_def split: option.splits dest: find_Some_member)

lemma webhook_write_keys [simp]: "wh_ID (webhook_write w r) = wh_ID r" "wh_ProjectID (webhook_write w r) = wh_ProjectID r"
  by (simp_all add: webhook_write_def)

lemma webhook_ok_write [simp]: "webhook_ok (webhook_write w r) = webhook_ok w"
  by (simp add: webhook_ok_def webhook_write_def)

lemma webhook_update_row_ok:
  assumes "webhook_update_row w tbl = Inr tbl'" and "webhooks_ok tbl" and "webhook_ok w"
  shows "webhooks_ok tbl'"
proof -
  have tbl': "tbl' = map (\<lambda>r. if webhook_is (wh_ProjectID w) (wh_ID w) r then webhook_write w r else r) tbl"
    using assms(1) by (auto simp: webhook_update_row_def split: if_splits)
  have "map wh_ID tbl' = map wh_ID tbl" by (simp add: tbl')
  moreover have "\<forall>r \<in> set tbl'. webhook_ok r"
    using assms(2,3) by (auto simp: tbl' webhooks_ok_def)
  ultimately show ?thesis using assms(2) by (simp add: webhooks_ok_def)
qed

lemma update_webhook_Inr:
  assumes "update_webhook env cmd tbl = Inr (w', tbl')" and "webhooks_ok tbl"
  shows "webhook_ok w'" "webhook_update_row w' tbl = Inr tbl'"
proof -
  obtain w where w: "webhook_get (uw_ProjectID cmd) (uw_WebhookID cmd) tbl = Inr w"
    using assms(1) by (auto simp: update_webhook_def split: if_splits sum.splits)
  then have ok: "webhook_ok w" using assms(2) webhook_get_Inr by (auto simp: webhooks_ok_def)
  obtain w1 where w1: "(case uw_URL cmd of None \<Rightarrow> Inr w
      | Some u \<Rightarrow> (case validate_url u of Some err \<Rightarrow> Inl err | None \<Rightarrow> Inr (w\<lparr>wh_URL := u\<rparr>))) = Inr w1"
    using assms(1) w by (auto simp: update_webhook_def split: if_splits sum.splits)
  have ok1: "webhook_ok w1"
    using w1 ok validate_url_None by (auto simp: webhook_ok_def split: option.splits)
  obtain w2 where w2: "(if uw_EventsSet cmd
      then (case normalize_events (uw_Events cmd) of Inl err \<Rightarrow> Inl err | Inr ev \<Rightarrow> Inr (w1\<lparr>wh_Events := ev\<rparr>))
      else Inr w1) = Inr w2"
    using assms(1) w w1 unfolding update_webhook_def by (auto split: if_splits sum.splits)
  have ok2: "webhook_ok w2"
    using w2 ok1 normalize_events_Inr by (auto simp: webhook_ok_def split: if_splits sum.splits)
  obtain w3 where w3: "(case uw_Status cmd of None \<Rightarrow> Inr w2
      | Some st \<Rightarrow> if st \<noteq> ''enabled'' \<and> st \<noteq> ''paused'' then Inl WhStatus else Inr (w2\<lparr>wh_Status := st\<rparr>)) = Inr w3"
    using assms(1) w w1 w2 unfolding update_webhook_def by (auto split: if_splits sum.splits)
  have ok3: "webhook_ok w3"
    using w3 ok2 by (auto simp: webhook_ok_def split: option.splits if_splits)
  have "w' = w3\<lparr>wh_UpdatedAt := we_now env\<rparr>" and upd: "webhook_update_row w' tbl = Inr tbl'"
    using assms(1) w w1 w2 w3 unfolding update_webhook_def Let_def by (auto split: if_splits sum.splits)
  then show "webhook_ok w'" "webhook_update_row w' tbl = Inr tbl'"
    using ok3 by (simp_all add: webhook_ok_def)
qed

lemma rotate_Inr:
  assumes "rotate_webhook_secret env pr i tbl = Inr (w', secret, tbl')"
  obtains w enc where "webhook_get pr i tbl = Inr w" "we_encrypt env secret = Some enc"
    "w' = w\<lparr>wh_PreviousSecretEnc := wh_SecretEnc w, wh_SecretRotatedAt := we_now env, wh_SecretEnc := enc,
        wh_SecretFingerprint := fingerprint (we_sha env) secret, wh_UpdatedAt := we_now env\<rparr>"
    "webhook_update_row w' tbl = Inr tbl'"
  using assms unfolding rotate_webhook_secret_def Let_def by (auto split: if_splits option.splits sum.splits)

datatype webhook_cmd = CreateWebhook create_webhook_command | UpdateWebhook update_webhook_command
  | DeleteWebhook string string | RotateSecret string string

text \<open>A call that fails changes nothing: each one writes with a single statement, its last.\<close>

definition exec_webhook :: "webhook_env \<Rightarrow> webhook_cmd \<Rightarrow> webhook list \<Rightarrow> webhook list" where
  "exec_webhook env c tbl = (case c of
     CreateWebhook cmd \<Rightarrow> (case create_webhook env cmd tbl of Inl _ \<Rightarrow> tbl | Inr (_, _, tbl') \<Rightarrow> tbl')
   | UpdateWebhook cmd \<Rightarrow> (case update_webhook env cmd tbl of Inl _ \<Rightarrow> tbl | Inr (_, tbl') \<Rightarrow> tbl')
   | DeleteWebhook pr i \<Rightarrow> (case delete_webhook env pr i tbl of Inl _ \<Rightarrow> tbl | Inr tbl' \<Rightarrow> tbl')
   | RotateSecret pr i \<Rightarrow> (case rotate_webhook_secret env pr i tbl of Inl _ \<Rightarrow> tbl | Inr (_, _, tbl') \<Rightarrow> tbl'))"

lemma exec_webhook_ok:
  assumes "webhooks_ok tbl"
  shows "webhooks_ok (exec_webhook env c tbl)"
proof (cases c)
  case (CreateWebhook cmd)
  show ?thesis
  proof (cases "create_webhook env cmd tbl")
    case (Inr r)
    then obtain w secret tbl' where r: "create_webhook env cmd tbl = Inr (w, secret, tbl')" by (cases r) auto
    note * = create_webhook_Inr [OF r]
    have "webhooks_ok tbl'" using assms *(2,3) unfolding *(1) by (auto simp: webhooks_ok_def)
    then show ?thesis by (simp add: exec_webhook_def CreateWebhook r)
  qed (simp add: exec_webhook_def CreateWebhook assms)
next
  case (UpdateWebhook cmd)
  show ?thesis
  proof (cases "update_webhook env cmd tbl")
    case (Inr r)
    then obtain w tbl' where r: "update_webhook env cmd tbl = Inr (w, tbl')" by (cases r) auto
    note * = update_webhook_Inr [OF r assms]
    show ?thesis using webhook_update_row_ok [OF *(2) assms *(1)] by (simp add: exec_webhook_def UpdateWebhook r)
  qed (simp add: exec_webhook_def UpdateWebhook assms)
next
  case (DeleteWebhook pr i)
  then show ?thesis
    using assms by (auto simp: exec_webhook_def delete_webhook_def webhook_delete_row_def webhooks_ok_def
      distinct_map_filter split: sum.splits)
next
  case (RotateSecret pr i)
  show ?thesis
  proof (cases "rotate_webhook_secret env pr i tbl")
    case (Inr r)
    then obtain w' secret tbl' where r: "rotate_webhook_secret env pr i tbl = Inr (w', secret, tbl')" by (cases r) auto
    from rotate_Inr [OF r] obtain w enc where w: "webhook_get pr i tbl = Inr w"
        "w' = w\<lparr>wh_PreviousSecretEnc := wh_SecretEnc w, wh_SecretRotatedAt := we_now env, wh_SecretEnc := enc,
          wh_SecretFingerprint := fingerprint (we_sha env) secret, wh_UpdatedAt := we_now env\<rparr>"
        "webhook_update_row w' tbl = Inr tbl'" .
    have "webhook_ok w" using webhook_get_Inr [OF w(1)] assms by (auto simp: webhooks_ok_def)
    then have "webhook_ok w'" by (simp add: w(2) webhook_ok_def)
    then show ?thesis
      using webhook_update_row_ok [OF w(3) assms] by (simp add: exec_webhook_def RotateSecret r)
  qed (simp add: exec_webhook_def RotateSecret assms)
qed

definition run_webhooks :: "(webhook_env \<times> webhook_cmd) list \<Rightarrow> webhook list \<Rightarrow> webhook list" where
  "run_webhooks cs tbl = fold (\<lambda>(env, c). exec_webhook env c) cs tbl"

lemma run_webhooks_ok: "webhooks_ok tbl \<Longrightarrow> webhooks_ok (run_webhooks cs tbl)"
  by (induction cs arbitrary: tbl) (auto simp: run_webhooks_def exec_webhook_ok)

text \<open>What a delivery is signed with after a rotation.\<close>

lemma rotate_keeps_old_key:
  assumes r: "rotate_webhook_secret env pr i tbl = Inr (w', secret, tbl')"
    and w: "webhook_get pr i tbl = Inr w" and old: "we_decrypt env (wh_SecretEnc w) = Some old"
    and box: "\<And>s e. we_encrypt env s = Some e \<Longrightarrow> we_decrypt env e = Some s"
    and ne: "wh_SecretEnc w \<noteq> ''''" "we_now env \<noteq> zero_time" "0 < we_secretGrace env"
  shows "effective_secrets (env\<lparr>we_now := t\<rparr>) w' =
    Inr (secret, if t - we_now env < we_secretGrace env then old else '''')"
proof -
  from rotate_Inr [OF r] obtain w0 enc where w0: "webhook_get pr i tbl = Inr w0" "we_encrypt env secret = Some enc"
      "w' = w0\<lparr>wh_PreviousSecretEnc := wh_SecretEnc w0, wh_SecretRotatedAt := we_now env, wh_SecretEnc := enc,
        wh_SecretFingerprint := fingerprint (we_sha env) secret, wh_UpdatedAt := we_now env\<rparr>" .
  then have "w0 = w" using w by simp
  with w0 box [OF w0(2)] old ne show ?thesis
    by (simp add: effective_secrets_def effective_previous_secret_def)
qed

end
