(* ===== verification/Webhook_Deliveries.thy ===== *)
theory Webhook_Deliveries
  imports Webhooks
begin

text \<open>
  Deliveries of webhooks: the policy of retries, \<^verbatim>\<open>internal/domain/webhooks/delivery.go\<close>,
  the statements of \<^verbatim>\<open>bunrepo/webhook_delivery_repo.go\<close> with the atomic claim, and the
  engine of \<^verbatim>\<open>internal/app/webhooks/deliveries.go\<close>. Workers run at the same time and
  every statement commits by itself, so the unit that interleaves is a statement; a claim is
  a compare-and-set on a row of an older snapshot. JSON and the HTTP notifier are parameters.
\<close>

section \<open>The policy\<close>

definition default_retry_backoff :: "int list" where
  "default_retry_backoff = [10 * sec, minute, 5 * minute, 30 * minute, 2 * hour, 8 * hour]"

definition default_max_attempts :: int where "default_max_attempts = 15"
definition default_retry_window :: int where "default_retry_window = 24 * hour"
definition max_attempts_ceiling :: int where "max_attempts_ceiling = 100"

record delivery_policy =
  dp_Backoff :: "int list"
  dp_MaxAttempts :: int
  dp_RetryWindow :: int

definition new_delivery_policy :: "int list \<Rightarrow> int \<Rightarrow> int \<Rightarrow> delivery_policy" where
  "new_delivery_policy backoff maxAttempts retryWindow =
     (let backoff = (if backoff = [] then default_retry_backoff else backoff);
          maxAttempts = (if maxAttempts \<le> 0 then default_max_attempts else maxAttempts);
          maxAttempts = (if max_attempts_ceiling < maxAttempts then max_attempts_ceiling else maxAttempts);
          retryWindow = (if retryWindow \<le> 0 then default_retry_window else retryWindow)
      in \<lparr>dp_Backoff = backoff, dp_MaxAttempts = maxAttempts, dp_RetryWindow = retryWindow\<rparr>)"

definition backoff_for :: "delivery_policy \<Rightarrow> int \<Rightarrow> int" where
  "backoff_for p attempts =
     (let bs = (if dp_Backoff p = [] then default_retry_backoff else dp_Backoff p);
          attempts = (if attempts < 1 then 1 else attempts);
          idx = attempts - 1;
          idx = (if int (length bs) \<le> idx then int (length bs) - 1 else idx)
      in bs ! nat idx)"

record delivery =
  dl_ID :: string
  dl_ProjectID :: string
  dl_WebhookID :: string
  dl_EventID :: string
  dl_EventType :: string
  dl_Seq :: int
  dl_Payload :: string
  dl_Status :: string
  dl_Attempts :: int
  dl_NextAttemptAt :: gtime
  dl_LastResponseCode :: int
  dl_LastError :: string
  dl_CreatedAt :: gtime
  dl_UpdatedAt :: gtime

record attempt_plan =
  ap_Attempt :: bool
  ap_Terminal :: bool
  ap_Next :: gtime

definition plan_attempt :: "delivery_policy \<Rightarrow> delivery \<Rightarrow> gtime \<Rightarrow> attempt_plan" where
  "plan_attempt p d now =
     (let next = backoff_for p (dl_Attempts d + 1)
      in if dp_MaxAttempts p < dl_Attempts d + 1 \<or> dl_CreatedAt d + dp_RetryWindow p < now + next
         then \<lparr>ap_Attempt = False, ap_Terminal = True, ap_Next = zero_time\<rparr>
         else \<lparr>ap_Attempt = True, ap_Terminal = False, ap_Next = now + next\<rparr>)"

section \<open>Statements on the table\<close>

definition delivery_is :: "string \<Rightarrow> string \<Rightarrow> delivery \<Rightarrow> bool" where
  "delivery_is project i r \<longleftrightarrow> dl_ProjectID r = project \<and> dl_ID r = i"

definition delivery_event :: "delivery \<Rightarrow> string \<times> string" where
  "delivery_event r = (dl_WebhookID r, dl_EventID r)"

text \<open>
  Create: a row whose pair of webhook and event is there already is skipped; an error (a
  taken id, a webhook that is gone) stops the batch and keeps the rows before it.
  \<open>whs\<close> are the ids of the webhooks.
\<close>

fun create_delivery_rows ::
  "string set \<Rightarrow> delivery list \<Rightarrow> int \<Rightarrow> delivery list \<Rightarrow> (int \<times> bool) \<times> delivery list" where
  "create_delivery_rows whs [] inserted tbl = ((inserted, True), tbl)"
| "create_delivery_rows whs (d # ds) inserted tbl =
     (if delivery_event d \<in> delivery_event ` set tbl then create_delivery_rows whs ds inserted tbl
      else if dl_ID d \<in> dl_ID ` set tbl \<or> dl_WebhookID d \<notin> whs then ((inserted, False), tbl)
      else create_delivery_rows whs ds (inserted + 1) (tbl @ [d]))"

definition update_outcome ::
  "string \<Rightarrow> string \<Rightarrow> gtime \<Rightarrow> string \<Rightarrow> int \<Rightarrow> string \<Rightarrow> delivery list \<Rightarrow> delivery list" where
  "update_outcome project i now status code err tbl =
     map (\<lambda>r. if delivery_is project i r \<and> dl_Status r = ''pending''
        then r\<lparr>dl_Status := status, dl_NextAttemptAt := now, dl_LastResponseCode := code,
               dl_LastError := err, dl_UpdatedAt := now\<rparr> else r) tbl"

definition mark_delivered :: "string \<Rightarrow> string \<Rightarrow> gtime \<Rightarrow> int \<Rightarrow> delivery list \<Rightarrow> delivery list" where
  "mark_delivered project i now code = update_outcome project i now ''delivered'' code ''''"

definition mark_failed :: "string \<Rightarrow> string \<Rightarrow> gtime \<Rightarrow> int \<Rightarrow> string \<Rightarrow> delivery list \<Rightarrow> delivery list" where
  "mark_failed project i now code err = update_outcome project i now ''failed'' code err"

definition record_attempt_error ::
  "string \<Rightarrow> string \<Rightarrow> gtime \<Rightarrow> int \<Rightarrow> string \<Rightarrow> delivery list \<Rightarrow> delivery list" where
  "record_attempt_error project i now code err tbl =
     map (\<lambda>r. if delivery_is project i r
        then r\<lparr>dl_LastResponseCode := code, dl_LastError := err, dl_UpdatedAt := now\<rparr> else r) tbl"

definition resettable :: "string \<Rightarrow> string \<Rightarrow> string \<Rightarrow> delivery \<Rightarrow> bool" where
  "resettable project webhook i r \<longleftrightarrow> delivery_is project i r \<and> dl_WebhookID r = webhook \<and>
     dl_Status r \<in> {''delivered'', ''failed''}"

definition reset_for_redeliver ::
  "string \<Rightarrow> string \<Rightarrow> string \<Rightarrow> gtime \<Rightarrow> delivery list \<Rightarrow> bool \<times> delivery list" where
  "reset_for_redeliver project webhook i now tbl =
     (list_ex (resettable project webhook i) tbl,
      map (\<lambda>r. if resettable project webhook i r
        then r\<lparr>dl_Status := ''pending'', dl_Attempts := 0, dl_NextAttemptAt := now,
               dl_LastResponseCode := 0, dl_LastError := '''', dl_UpdatedAt := now\<rparr> else r) tbl)"

text \<open>Which rows the limit of the subselect picks is open in SQL; the model picks the first ones.\<close>

fun prune_terminal :: "string \<Rightarrow> gtime \<Rightarrow> nat \<Rightarrow> delivery list \<Rightarrow> int \<times> delivery list" where
  "prune_terminal project cutoff limit [] = (0, [])"
| "prune_terminal project cutoff limit (r # tbl) =
     (if 0 < limit \<and> dl_ProjectID r = project \<and> dl_Status r \<in> {''delivered'', ''failed''} \<and> dl_CreatedAt r < cutoff
      then (case prune_terminal project cutoff (limit - 1) tbl of (n, tbl') \<Rightarrow> (n + 1, tbl'))
      else (case prune_terminal project cutoff limit tbl of (n, tbl') \<Rightarrow> (n, r # tbl')))"

definition get_delivery :: "string \<Rightarrow> string \<Rightarrow> string \<Rightarrow> delivery list \<Rightarrow> delivery option" where
  "get_delivery project webhook i tbl = find (\<lambda>r. delivery_is project i r \<and> dl_WebhookID r = webhook) tbl"

section \<open>The atomic claim\<close>

definition due_delivery :: "string \<Rightarrow> gtime \<Rightarrow> delivery \<Rightarrow> bool" where
  "due_delivery project now r \<longleftrightarrow>
     dl_ProjectID r = project \<and> dl_Status r = ''pending'' \<and> dl_NextAttemptAt r \<le> now"

definition due_candidates :: "string \<Rightarrow> gtime \<Rightarrow> int \<Rightarrow> delivery list \<Rightarrow> delivery list" where
  "due_candidates project now limit tbl =
     take (nat limit) (sort_key dl_NextAttemptAt (filter (due_delivery project now) tbl))"

definition claim_hits :: "string \<Rightarrow> delivery \<Rightarrow> delivery \<Rightarrow> bool" where
  "claim_hits project row r \<longleftrightarrow> delivery_is project (dl_ID row) r \<and>
     dl_Attempts r = dl_Attempts row \<and> dl_NextAttemptAt r = dl_NextAttemptAt row"

text \<open>The body of the loop for one row of the snapshot, on the table as it is by then.\<close>

definition claim_delivery ::
  "(delivery \<Rightarrow> attempt_plan) \<Rightarrow> string \<Rightarrow> gtime \<Rightarrow> delivery \<Rightarrow> delivery list \<Rightarrow> delivery option \<times> delivery list" where
  "claim_delivery plan project now row tbl =
     (let p = plan row
      in if ap_Terminal p then (None, mark_failed project (dl_ID row) now 0 ''retry policy exhausted'' tbl)
      else let tbl' = map (\<lambda>r. if claim_hits project row r
             then r\<lparr>dl_Attempts := dl_Attempts row + 1, dl_NextAttemptAt := ap_Next p, dl_UpdatedAt := now\<rparr> else r) tbl
        in if \<not> list_ex (claim_hits project row) tbl \<or> \<not> ap_Attempt p then (None, tbl')
           else (Some (row\<lparr>dl_Attempts := dl_Attempts row + 1, dl_NextAttemptAt := ap_Next p\<rparr>), tbl'))"

text \<open>\<open>fails n\<close>: the n-th update fails; the error discards the claims made before it.\<close>

fun claim_deliveries ::
  "(nat \<Rightarrow> bool) \<Rightarrow> (delivery \<Rightarrow> attempt_plan) \<Rightarrow> string \<Rightarrow> gtime \<Rightarrow> delivery list \<Rightarrow> nat \<Rightarrow> delivery list \<Rightarrow>
    delivery list option \<times> delivery list" where
  "claim_deliveries fails plan project now [] n tbl = (Some [], tbl)"
| "claim_deliveries fails plan project now (row # rows) n tbl =
     (if fails n then (None, tbl)
      else case claim_delivery plan project now row tbl of (c, tbl') \<Rightarrow>
        (case claim_deliveries fails plan project now rows (Suc n) tbl' of
           (None, tbl'') \<Rightarrow> (None, tbl'')
         | (Some cs, tbl'') \<Rightarrow> (Some ((case c of None \<Rightarrow> [] | Some x \<Rightarrow> [x]) @ cs), tbl'')))"

definition claim_due ::
  "(nat \<Rightarrow> bool) \<Rightarrow> (delivery \<Rightarrow> attempt_plan) \<Rightarrow> string \<Rightarrow> gtime \<Rightarrow> int \<Rightarrow> delivery list \<Rightarrow>
    delivery list option \<times> delivery list" where
  "claim_due fails plan project now limit tbl =
     (if limit \<le> 0 then (Some [], tbl)
      else claim_deliveries fails plan project now (due_candidates project now limit tbl) 0 tbl)"

section \<open>The engine\<close>

text \<open>The document and the attributes of an envelope are kept as their JSON texts.\<close>

record envelope =
  en_EventID :: string
  en_Event :: string
  en_ProjectID :: string
  en_DatabaseID :: string
  en_CollectionID :: string
  en_DocumentID :: string
  en_Version :: int
  en_CreatedAt :: gtime
  en_Truncated :: bool
  en_Data :: "string option"
  en_Seq :: int
  en_Domain :: string
  en_Attrs :: "string option"

record cloud_event =
  ce_Specversion :: string
  ce_ID :: string
  ce_Source :: string
  ce_Type :: string
  ce_Time :: string
  ce_DataContentType :: string
  ce_Data :: string
  ce_TwProject :: string
  ce_TwSeq :: int

definition rfc3339 :: "gtime \<Rightarrow> string" where
  "rfc3339 t = rfc3339_nano (t - t mod sec)"

definition build_cloud_event :: "string \<Rightarrow> envelope \<Rightarrow> string \<Rightarrow> cloud_event" where
  "build_cloud_event deliveryID ev data =
     \<lparr>ce_Specversion = ''1.0'', ce_ID = deliveryID, ce_Source = ''projects/'' @ en_ProjectID ev,
      ce_Type = en_Event ev, ce_Time = rfc3339 (en_CreatedAt ev), ce_DataContentType = ''application/json'',
      ce_Data = data, ce_TwProject = en_ProjectID ev, ce_TwSeq = en_Seq ev\<rparr>"

text \<open>\<open>marshal\<close> is \<^verbatim>\<open>json.Marshal\<close>; it fails on data that is not JSON.\<close>

fun delivery_items ::
  "(cloud_event \<Rightarrow> string option) \<Rightarrow> string \<Rightarrow> gtime \<Rightarrow> envelope \<Rightarrow> string \<Rightarrow> (string \<times> string) list \<Rightarrow>
    delivery list option" where
  "delivery_items marshal project now ev data [] = Some []"
| "delivery_items marshal project now ev data ((whID, uuid) # rest) =
     (let i = ''whd-'' @ uuid
      in case marshal (build_cloud_event i ev data) of None \<Rightarrow> None
      | Some payload \<Rightarrow> (case delivery_items marshal project now ev data rest of None \<Rightarrow> None
        | Some items \<Rightarrow> Some (\<lparr>dl_ID = i, dl_ProjectID = project, dl_WebhookID = whID, dl_EventID = en_EventID ev,
            dl_EventType = en_Event ev, dl_Seq = en_Seq ev, dl_Payload = payload, dl_Status = ''pending'',
            dl_Attempts = 0, dl_NextAttemptAt = now, dl_LastResponseCode = 0, dl_LastError = '''',
            dl_CreatedAt = now, dl_UpdatedAt = now\<rparr> # items)))"

text \<open>The hit webhooks come with the fresh ids of their rows.\<close>

definition create_deliveries ::
  "string set \<Rightarrow> (cloud_event \<Rightarrow> string option) \<Rightarrow> gtime \<Rightarrow> string \<Rightarrow> (string \<times> string) list \<Rightarrow> envelope option \<Rightarrow>
    string \<Rightarrow> delivery list \<Rightarrow> (int \<times> bool) \<times> delivery list" where
  "create_deliveries whs marshal now project ids env data tbl =
     (case env of None \<Rightarrow> ((0, True), tbl)
      | Some ev \<Rightarrow> if ids = [] then ((0, True), tbl)
        else case delivery_items marshal project now ev data ids of
            None \<Rightarrow> ((0, False), tbl)
          | Some items \<Rightarrow> create_delivery_rows whs items 0 tbl)"

text \<open>The text after the last occurrence of \<open>p\<close>.\<close>

fun after_last :: "string \<Rightarrow> string \<Rightarrow> string option" where
  "after_last p [] = (if p = [] then Some [] else None)"
| "after_last p (c # s) = (case after_last p s of Some r \<Rightarrow> Some r | None \<Rightarrow> cut_prefix p (c # s))"

text \<open>\<^verbatim>\<open>strconv.Atoi\<close> fails on a number that does not fit an \<^verbatim>\<open>int\<close>.\<close>

definition delivery_response_code :: "string \<Rightarrow> int" where
  "delivery_response_code msg = (case after_last ''status '' msg of None \<Rightarrow> 0
     | Some rest \<Rightarrow>
        let digits = takeWhile is_digit rest
        in if digits = [] then 0
           else if max_i64 < int (dec_val 0 digits) then 0 else int (dec_val 0 digits))"

definition truncate_err :: "string \<Rightarrow> string" where
  "truncate_err s = (if 512 < length s then take 512 s @ [CHR 0xE2, CHR 0x80, CHR 0xA6] else s)"

record notification =
  nt_TargetURL :: string
  nt_TargetSecret :: string
  nt_TargetPreviousSecret :: string
  nt_Event :: cloud_event
  nt_TimeoutSeconds :: int

text \<open>
  One attempt. \<open>notify\<close> gives \<open>None\<close> for an answer of the 2xx class and the text of the
  error otherwise, \<open>later\<close> is the clock after the attempt, \<open>decrypt_err\<close> the text of a
  decryption error, and \<open>unmarshal\<close> is \<^verbatim>\<open>json.Unmarshal\<close> with the text of its error.
  The result also says whether a request was sent, and what was sent.
\<close>

record delivery_env =
  de_webhook :: webhook_env
  de_decryptErr :: string
  de_unmarshal :: "string \<Rightarrow> string + cloud_event"
  de_notify :: "notification \<Rightarrow> string option"
  de_later :: gtime
  de_timeoutSeconds :: int

definition deliver_one ::
  "delivery_env \<Rightarrow> string \<Rightarrow> delivery \<Rightarrow> gtime \<Rightarrow> webhook list \<Rightarrow> delivery list \<Rightarrow> notification option \<times> delivery list" where
  "deliver_one env project claim now whs tbl =
     (case webhook_get project (dl_WebhookID claim) whs of Inl _ \<Rightarrow> (None, tbl)
      | Inr w \<Rightarrow> (case effective_secrets (de_webhook env) w of
          Inl _ \<Rightarrow> (None, record_attempt_error project (dl_ID claim) now 0 (truncate_err (de_decryptErr env)) tbl)
        | Inr (current, previous) \<Rightarrow> (case de_unmarshal env (dl_Payload claim) of
            Inl err \<Rightarrow> (None, mark_failed project (dl_ID claim) now 0 (truncate_err (''corrupt payload: '' @ err)) tbl)
          | Inr ev \<Rightarrow>
            let n = \<lparr>nt_TargetURL = wh_URL w, nt_TargetSecret = current, nt_TargetPreviousSecret = previous,
                nt_Event = ev, nt_TimeoutSeconds = de_timeoutSeconds env\<rparr>
            in (case de_notify env n of
                None \<Rightarrow> (Some n, mark_delivered project (dl_ID claim) (de_later env) 200 tbl)
              | Some err \<Rightarrow> (Some n, record_attempt_error project (dl_ID claim) (de_later env)
                  (delivery_response_code err) (truncate_err err) tbl)))))"

datatype redeliver_err = RdPermission | RdNotFound | RdPending

definition redeliver_delivery ::
  "bool \<Rightarrow> string \<Rightarrow> string \<Rightarrow> string \<Rightarrow> gtime \<Rightarrow> delivery list \<Rightarrow> (redeliver_err + delivery) \<times> delivery list" where
  "redeliver_delivery server project webhook i now tbl =
     (if \<not> server then (Inl RdPermission, tbl)
      else case get_delivery project webhook i tbl of None \<Rightarrow> (Inl RdNotFound, tbl)
      | Some _ \<Rightarrow> (case reset_for_redeliver project webhook i now tbl of (ok, tbl') \<Rightarrow>
          if \<not> ok then (Inl RdPending, tbl')
          else (case get_delivery project webhook i tbl' of None \<Rightarrow> (Inl RdNotFound, tbl')
            | Some d \<Rightarrow> (Inr d, tbl'))))"

section \<open>Interleaved statements\<close>

text \<open>
  The statements of any number of workers and callers, in the order the database runs them.
  A claim carries the row as its scan read it, however long ago.
\<close>

datatype delivery_step =
    StCreate "string set" "cloud_event \<Rightarrow> string option" gtime "(string \<times> string) list" "envelope option" string
  | StClaim gtime delivery
  | StDelivered string gtime int
  | StFailed string gtime int string
  | StRecord string gtime int string
  | StReset string string gtime
  | StPrune gtime nat

definition exec_step ::
  "delivery_policy \<Rightarrow> string \<Rightarrow> delivery_step \<Rightarrow> delivery list \<Rightarrow> delivery option \<times> delivery list" where
  "exec_step pol pr st tbl = (case st of
     StCreate whs marshal now ids ev data \<Rightarrow> (None, snd (create_deliveries whs marshal now pr ids ev data tbl))
   | StClaim now row \<Rightarrow> claim_delivery (\<lambda>d. plan_attempt pol d now) pr now row tbl
   | StDelivered i now code \<Rightarrow> (None, mark_delivered pr i now code tbl)
   | StFailed i now code err \<Rightarrow> (None, mark_failed pr i now code err tbl)
   | StRecord i now code err \<Rightarrow> (None, record_attempt_error pr i now code err tbl)
   | StReset wh i now \<Rightarrow> (None, snd (reset_for_redeliver pr wh i now tbl))
   | StPrune cutoff limit \<Rightarrow> (None, snd (prune_terminal pr cutoff limit tbl)))"

fun run_steps ::
  "delivery_policy \<Rightarrow> string \<Rightarrow> delivery_step list \<Rightarrow> delivery list \<Rightarrow> delivery list \<times> delivery list" where
  "run_steps pol pr [] tbl = ([], tbl)"
| "run_steps pol pr (st # sts) tbl = (case exec_step pol pr st tbl of (c, tbl') \<Rightarrow>
     (case run_steps pol pr sts tbl' of (cs, tbl'') \<Rightarrow> ((case c of None \<Rightarrow> [] | Some x \<Rightarrow> [x]) @ cs, tbl'')))"

subsection \<open>What every row keeps\<close>

definition row_ok :: "delivery_policy \<Rightarrow> delivery \<Rightarrow> bool" where
  "row_ok pol r \<longleftrightarrow> dl_Status r \<in> {''pending'', ''delivered'', ''failed''} \<and>
     0 \<le> dl_Attempts r \<and> dl_Attempts r \<le> dp_MaxAttempts pol"

definition deliveries_ok :: "delivery_policy \<Rightarrow> delivery list \<Rightarrow> bool" where
  "deliveries_ok pol tbl \<longleftrightarrow> distinct (map dl_ID tbl) \<and> distinct (map delivery_event tbl) \<and> (\<forall>r \<in> set tbl. row_ok pol r)"

lemma prune_subset: "set (snd (prune_terminal pr cutoff limit tbl)) \<subseteq> set tbl"
  by (induction pr cutoff limit tbl rule: prune_terminal.induct) (auto split: prod.splits)

lemma prune_distinct: "distinct (map f tbl) \<Longrightarrow> distinct (map f (snd (prune_terminal pr cutoff limit tbl)))"
proof (induction pr cutoff limit tbl rule: prune_terminal.induct)
  case (1 pr cutoff limit)
  then show ?case by simp
next
  case (2 pr cutoff limit r tbl)
  have "f r \<notin> f ` set (snd (prune_terminal pr cutoff limit tbl))"
    using 2(3) prune_subset [of pr cutoff limit tbl] by auto
  with 2 show ?case
    by (cases "prune_terminal pr cutoff (limit - 1) tbl"; cases "prune_terminal pr cutoff limit tbl") auto
qed

lemma record_error_keys [simp]:
  "map dl_ID (record_attempt_error pr i now code err tbl) = map dl_ID tbl"
  "map delivery_event (record_attempt_error pr i now code err tbl) = map delivery_event tbl"
  by (simp_all add: record_attempt_error_def delivery_event_def)

text \<open>A claim either marks the row failed, or rewrites the rows it hits, or changes nothing.\<close>

definition advance :: "string \<Rightarrow> delivery \<Rightarrow> gtime \<Rightarrow> gtime \<Rightarrow> delivery \<Rightarrow> delivery" where
  "advance pr row now nxt r = (if claim_hits pr row r
     then r\<lparr>dl_Attempts := dl_Attempts row + 1, dl_NextAttemptAt := nxt, dl_UpdatedAt := now\<rparr> else r)"

lemma claim_delivery_cases:
  assumes "claim_delivery (\<lambda>d. plan_attempt pol d now) pr now row tbl = (c, tbl')"
  obtains (terminal) "c = None" "tbl' = mark_failed pr (dl_ID row) now 0 ''retry policy exhausted'' tbl"
  | (attempt) nxt where "nxt = now + backoff_for pol (dl_Attempts row + 1)"
      "dl_Attempts row + 1 \<le> dp_MaxAttempts pol" "nxt \<le> dl_CreatedAt row + dp_RetryWindow pol"
      "tbl' = map (advance pr row now nxt) tbl"
      "c = (if list_ex (claim_hits pr row) tbl
        then Some (row\<lparr>dl_Attempts := dl_Attempts row + 1, dl_NextAttemptAt := nxt\<rparr>) else None)"
proof (cases "ap_Terminal (plan_attempt pol row now)")
  case True
  with assms show thesis by (intro terminal) (simp_all add: claim_delivery_def Let_def)
next
  case False
  then have p: "plan_attempt pol row now = \<lparr>ap_Attempt = True, ap_Terminal = False,
      ap_Next = now + backoff_for pol (dl_Attempts row + 1)\<rparr>"
    and b: "dl_Attempts row + 1 \<le> dp_MaxAttempts pol"
      "now + backoff_for pol (dl_Attempts row + 1) \<le> dl_CreatedAt row + dp_RetryWindow pol"
    by (auto simp: plan_attempt_def Let_def split: if_splits)
  show thesis
    by (rule attempt [OF refl b])
      (use assms p in \<open>auto simp: claim_delivery_def Let_def advance_def [abs_def] split: if_splits\<close>)
qed

lemma claim_delivery_keys:
  assumes "claim_delivery (\<lambda>d. plan_attempt pol d now) pr now row tbl = (c, tbl')"
  shows "map dl_ID tbl' = map dl_ID tbl" "map delivery_event tbl' = map delivery_event tbl"
  using assms
  by (cases rule: claim_delivery_cases;
      auto simp: mark_failed_def update_outcome_def advance_def delivery_event_def)+

lemma update_outcome_keys [simp]:
  "map dl_ID (update_outcome pr i now st code err tbl) = map dl_ID tbl"
  "map delivery_event (update_outcome pr i now st code err tbl) = map delivery_event tbl"
  by (simp_all add: update_outcome_def delivery_event_def)

lemma update_outcome_ok:
  "st \<in> {''delivered'', ''failed''} \<Longrightarrow> deliveries_ok pol tbl \<Longrightarrow>
   deliveries_ok pol (update_outcome pr i now st code err tbl)"
  unfolding deliveries_ok_def update_outcome_keys by (auto simp: update_outcome_def row_ok_def)

lemma claim_delivery_ok:
  assumes c: "claim_delivery (\<lambda>d. plan_attempt pol d now) pr now row tbl = (c, tbl')"
    and ok: "deliveries_ok pol tbl"
  shows "deliveries_ok pol tbl'"
  using c
proof (cases rule: claim_delivery_cases)
  case terminal
  then show ?thesis
    using ok by (simp add: mark_failed_def update_outcome_ok)
next
  case (attempt nxt)
  then have "\<forall>r \<in> set tbl'. row_ok pol r"
    using ok by (auto simp: deliveries_ok_def row_ok_def advance_def claim_hits_def)
  then show ?thesis
    using ok claim_delivery_keys [OF c] by (simp add: deliveries_ok_def)
qed

lemma delivery_items_fresh:
  "delivery_items marshal pr now ev data ids = Some items \<Longrightarrow>
   r \<in> set items \<Longrightarrow> dl_Status r = ''pending'' \<and> dl_Attempts r = 0 \<and> dl_NextAttemptAt r = now \<and> dl_CreatedAt r = now"
  by (induction marshal pr now ev data ids arbitrary: items rule: delivery_items.induct)
    (auto simp: Let_def split: option.splits)

lemma create_rows_ok:
  "deliveries_ok pol tbl \<Longrightarrow> 0 \<le> dp_MaxAttempts pol \<Longrightarrow>
   \<forall>r \<in> set items. dl_Status r = ''pending'' \<and> dl_Attempts r = 0 \<Longrightarrow>
   deliveries_ok pol (snd (create_delivery_rows whs items n tbl))"
proof (induction whs items n tbl rule: create_delivery_rows.induct)
  case (1 whs inserted tbl)
  then show ?case by simp
next
  case (2 whs d ds inserted tbl)
  show ?case
  proof (cases "delivery_event d \<in> delivery_event ` set tbl \<or> dl_ID d \<in> dl_ID ` set tbl \<or> dl_WebhookID d \<notin> whs")
    case True
    with 2 show ?thesis by auto
  next
    case False
    then have "deliveries_ok pol (tbl @ [d])"
      using 2(3-5) by (auto simp: deliveries_ok_def row_ok_def)
    with 2 False show ?thesis by simp
  qed
qed

lemma exec_step_ok:
  assumes "deliveries_ok pol tbl" and "0 \<le> dp_MaxAttempts pol"
  shows "deliveries_ok pol (snd (exec_step pol pr st tbl))"
proof (cases st)
  case (StCreate whs marshal now ids ev data)
  then show ?thesis
    using assms create_rows_ok [OF assms] delivery_items_fresh
    by (auto simp: exec_step_def create_deliveries_def split: option.splits if_splits)
next
  case (StClaim now row)
  then show ?thesis
    using claim_delivery_ok [OF _ assms(1)] by (simp add: exec_step_def) (metis prod.collapse)
next
  case (StReset wh i now)
  have "map dl_ID (snd (exec_step pol pr st tbl)) = map dl_ID tbl"
    "map delivery_event (snd (exec_step pol pr st tbl)) = map delivery_event tbl"
    by (simp_all add: StReset exec_step_def reset_for_redeliver_def delivery_event_def)
  moreover have "\<forall>r \<in> set (snd (exec_step pol pr st tbl)). row_ok pol r"
    using assms by (auto simp: StReset exec_step_def reset_for_redeliver_def deliveries_ok_def row_ok_def)
  ultimately show ?thesis using assms(1) by (simp add: deliveries_ok_def)
next
  case (StPrune cutoff limit)
  then show ?thesis
    using assms(1) prune_distinct [of dl_ID] prune_distinct [of delivery_event] prune_subset [of pr cutoff limit tbl]
    by (auto simp: exec_step_def deliveries_ok_def)
next
  case (StRecord i now code err)
  have "\<forall>r \<in> set (snd (exec_step pol pr st tbl)). row_ok pol r"
    using assms by (auto simp: StRecord exec_step_def record_attempt_error_def deliveries_ok_def row_ok_def)
  then show ?thesis using assms(1) by (simp add: StRecord exec_step_def deliveries_ok_def)
qed (use assms(1) in \<open>simp_all add: exec_step_def mark_delivered_def mark_failed_def update_outcome_ok\<close>)

lemma run_steps_ok:
  "deliveries_ok pol tbl \<Longrightarrow> 0 \<le> dp_MaxAttempts pol \<Longrightarrow> deliveries_ok pol (snd (run_steps pol pr sts tbl))"
proof (induction sts arbitrary: tbl)
  case Nil
  then show ?case by simp
next
  case (Cons st sts)
  obtain c tbl' where e: "exec_step pol pr st tbl = (c, tbl')" by force
  have "deliveries_ok pol tbl'" using exec_step_ok [OF Cons.prems, of pr st] e by simp
  from Cons.IH [OF this Cons.prems(2)] show ?case
    by (cases "run_steps pol pr sts tbl'") (simp add: e)
qed

subsection \<open>How often a row is claimed\<close>

text \<open>Every statement but a manual redelivery and the creation of rows.\<close>

fun plain_step :: "delivery_step \<Rightarrow> bool" where
  "plain_step (StReset _ _ _) = False"
| "plain_step (StCreate _ _ _ _ _ _) = False"
| "plain_step _ = True"

text \<open>A row changes only forward, and keeps its key and its creation time.\<close>

definition later_row :: "delivery \<Rightarrow> delivery \<Rightarrow> bool" where
  "later_row r r' \<longleftrightarrow> dl_ID r' = dl_ID r \<and> dl_ProjectID r' = dl_ProjectID r \<and> dl_CreatedAt r' = dl_CreatedAt r \<and>
     dl_Attempts r \<le> dl_Attempts r'"

lemma later_row_refl [simp]: "later_row r r"
  by (simp add: later_row_def)

lemma outcome_later: "r' \<in> set (update_outcome pr i now st code err tbl) \<Longrightarrow> \<exists>r \<in> set tbl. later_row r r'"
  by (auto simp: update_outcome_def later_row_def)

lemma record_later: "r' \<in> set (record_attempt_error pr i now code err tbl) \<Longrightarrow> \<exists>r \<in> set tbl. later_row r r'"
  by (force simp: record_attempt_error_def later_row_def)

lemma plain_step_later:
  assumes "exec_step pol pr st tbl = (c, tbl')" and "plain_step st" and "r' \<in> set tbl'"
  shows "\<exists>r \<in> set tbl. later_row r r'"
proof (cases st)
  case (StClaim now row)
  then have "claim_delivery (\<lambda>d. plan_attempt pol d now) pr now row tbl = (c, tbl')"
    using assms(1) by (simp add: exec_step_def)
  then show ?thesis
  proof (cases rule: claim_delivery_cases)
    case terminal
    then show ?thesis using assms(3) outcome_later by (simp add: mark_failed_def)
  next
    case (attempt nxt)
    then obtain r where "r \<in> set tbl" "r' = advance pr row now nxt r" using assms(3) by auto
    then show ?thesis by (intro bexI [of _ r]) (auto simp: later_row_def advance_def claim_hits_def)
  qed
next
  case (StPrune cutoff limit)
  then show ?thesis using assms(1,3) prune_subset [of pr cutoff limit tbl] by (force simp: exec_step_def)
next
  case (StRecord i now code err)
  then show ?thesis
    using assms(1,3) record_later [of r' pr i now code err tbl] by (auto simp: exec_step_def)
qed (use assms outcome_later in \<open>auto simp: exec_step_def mark_delivered_def mark_failed_def\<close>)

definition claim_key :: "delivery \<Rightarrow> string \<times> int" where
  "claim_key c = (dl_ID c, dl_Attempts c)"

definition counted :: "string \<Rightarrow> (string \<times> int) \<Rightarrow> delivery list \<Rightarrow> bool" where
  "counted pr k tbl \<longleftrightarrow> (\<forall>r \<in> set tbl. delivery_is pr (fst k) r \<longrightarrow> snd k \<le> dl_Attempts r)"

lemma plain_step_counted:
  assumes "exec_step pol pr st tbl = (c, tbl')" and "plain_step st" and "counted pr k tbl"
  shows "counted pr k tbl'"
  unfolding counted_def
proof (intro ballI impI)
  fix r' assume r': "r' \<in> set tbl'" "delivery_is pr (fst k) r'"
  obtain r where "r \<in> set tbl" "later_row r r'"
    using plain_step_later [OF assms(1,2) r'(1)] by blast
  then show "snd k \<le> dl_Attempts r'"
    using assms(3) r'(2) by (auto simp: counted_def later_row_def delivery_is_def)
qed

lemma claim_step_Some:
  assumes "exec_step pol pr st tbl = (Some c, tbl')" and "plain_step st" and "distinct (map dl_ID tbl)"
  shows "counted pr (claim_key c) tbl'" and "\<not> counted pr (claim_key c) tbl"
    and "dl_Attempts c \<le> dp_MaxAttempts pol"
    and "\<exists>r \<in> set tbl. delivery_is pr (dl_ID c) r \<and> dl_Attempts c = dl_Attempts r + 1"
proof -
  obtain now row where st: "st = StClaim now row"
    using assms(1,2) by (cases st) (auto simp: exec_step_def)
  then have "claim_delivery (\<lambda>d. plan_attempt pol d now) pr now row tbl = (Some c, tbl')"
    using assms(1) by (simp add: exec_step_def)
  then obtain nxt where a: "dl_Attempts row + 1 \<le> dp_MaxAttempts pol" "tbl' = map (advance pr row now nxt) tbl"
      "list_ex (claim_hits pr row) tbl" "c = row\<lparr>dl_Attempts := dl_Attempts row + 1, dl_NextAttemptAt := nxt\<rparr>"
    by (cases rule: claim_delivery_cases) (auto split: if_splits)
  then obtain r0 where r0: "r0 \<in> set tbl" "claim_hits pr row r0" by (auto simp: list_ex_iff)
  show "dl_Attempts c \<le> dp_MaxAttempts pol" using a by simp
  show "\<exists>r \<in> set tbl. delivery_is pr (dl_ID c) r \<and> dl_Attempts c = dl_Attempts r + 1"
    using r0 a(4) by (auto simp: claim_hits_def)
  show "\<not> counted pr (claim_key c) tbl"
    using r0 a(4) by (auto simp: counted_def claim_key_def claim_hits_def)
  show "counted pr (claim_key c) tbl'"
    unfolding counted_def
  proof (intro ballI impI)
    fix r' assume r': "r' \<in> set tbl'" "delivery_is pr (fst (claim_key c)) r'"
    then obtain r where r: "r \<in> set tbl" "r' = advance pr row now nxt r" using a(2) by auto
    have "dl_ID r = dl_ID r0"
      using r r' r0 a(4) by (auto simp: claim_key_def advance_def delivery_is_def claim_hits_def split: if_splits)
    then have "r = r0" using assms(3) r(1) r0(1) by (auto simp: distinct_map inj_on_def)
    then show "snd (claim_key c) \<le> dl_Attempts r'"
      using r(2) r0(2) a(4) by (simp add: advance_def claim_key_def)
  qed
qed

lemma plain_step_distinct:
  assumes "exec_step pol pr st tbl = (c, tbl')" and "plain_step st" and "distinct (map dl_ID tbl)"
  shows "distinct (map dl_ID tbl')"
  using assms prune_distinct [of dl_ID tbl]
  by (cases st) (auto simp: exec_step_def mark_delivered_def mark_failed_def dest!: claim_delivery_keys(1))

lemma run_steps_claims:
  "run_steps pol pr sts tbl = (cs, tbl') \<Longrightarrow> distinct (map dl_ID tbl) \<Longrightarrow> \<forall>st \<in> set sts. plain_step st \<Longrightarrow>
   distinct (map claim_key cs) \<and> (\<forall>c \<in> set cs. \<not> counted pr (claim_key c) tbl \<and> dl_Attempts c \<le> dp_MaxAttempts pol)"
proof (induction sts arbitrary: tbl cs)
  case Nil
  then show ?case by simp
next
  case (Cons st sts)
  obtain c tbl1 where e: "exec_step pol pr st tbl = (c, tbl1)" by force
  obtain cs1 where cs1: "run_steps pol pr sts tbl1 = (cs1, tbl')" "cs = (case c of None \<Rightarrow> [] | Some x \<Rightarrow> [x]) @ cs1"
    using Cons.prems(1) by (auto simp: e split: prod.splits)
  have plain: "plain_step st" using Cons.prems(3) by simp
  have ih: "distinct (map claim_key cs1)"
      "\<forall>c \<in> set cs1. \<not> counted pr (claim_key c) tbl1 \<and> dl_Attempts c \<le> dp_MaxAttempts pol"
    using Cons.IH [OF cs1(1) plain_step_distinct [OF e plain Cons.prems(2)]] Cons.prems(3) by auto
  have before: "\<forall>c \<in> set cs1. \<not> counted pr (claim_key c) tbl"
    using ih(2) plain_step_counted [OF e plain] by blast
  show ?case
  proof (cases c)
    case None
    with ih before cs1(2) show ?thesis by simp
  next
    case (Some x)
    note new = claim_step_Some [OF e [unfolded Some] plain Cons.prems(2)]
    have "claim_key x \<notin> claim_key ` set cs1" using new(1) ih(2) by auto
    with ih before new cs1(2) Some show ?thesis by simp
  qed
qed

text \<open>
  All statements, for one row: those that neither redeliver it by hand nor draw its id again for
  a new row. Every other row may be created, redelivered and pruned in between.
\<close>

fun spares_row :: "string \<Rightarrow> delivery_step \<Rightarrow> bool" where
  "spares_row i (StReset wh j now) \<longleftrightarrow> j \<noteq> i"
| "spares_row i (StCreate whs marshal now ids ev data) \<longleftrightarrow> (\<forall>(wh, uuid) \<in> set ids. ''whd-'' @ uuid \<noteq> i)"
| "spares_row i _ \<longleftrightarrow> True"

lemma create_rows_ids:
  "distinct (map dl_ID tbl) \<Longrightarrow> distinct (map dl_ID (snd (create_delivery_rows whs items n tbl)))"
  by (induction whs items n tbl rule: create_delivery_rows.induct) auto

lemma create_rows_mem: "set (snd (create_delivery_rows whs items n tbl)) \<subseteq> set tbl \<union> set items"
  by (induction whs items n tbl rule: create_delivery_rows.induct) auto

lemma delivery_items_ids:
  "delivery_items marshal pr now ev data ids = Some items \<Longrightarrow> r \<in> set items \<Longrightarrow>
   \<exists>(wh, uuid) \<in> set ids. dl_ID r = ''whd-'' @ uuid"
  by (induction marshal pr now ev data ids arbitrary: items rule: delivery_items.induct)
    (fastforce simp: Let_def split: option.splits)+

lemma exec_step_distinct:
  assumes "exec_step pol pr st tbl = (c, tbl')" and "distinct (map dl_ID tbl)"
  shows "distinct (map dl_ID tbl')"
proof (cases "plain_step st")
  case True
  show ?thesis by (rule plain_step_distinct [OF assms(1) True assms(2)])
next
  case False
  then show ?thesis
  proof (cases st)
    case (StCreate whs marshal now ids ev data)
    then have tbl': "tbl' = snd (create_deliveries whs marshal now pr ids ev data tbl)"
      using assms(1) by (simp add: exec_step_def)
    show ?thesis
      unfolding tbl' create_deliveries_def using assms(2) create_rows_ids by (simp split: option.split)
  next
    case (StReset wh j now)
    then have "map dl_ID tbl' = map dl_ID tbl"
      using assms(1) by (auto simp: exec_step_def reset_for_redeliver_def)
    with assms(2) show ?thesis by simp
  qed simp_all
qed

lemma spares_later:
  assumes "exec_step pol pr st tbl = (c, tbl')" and "spares_row (dl_ID r') st" and "r' \<in> set tbl'"
  shows "\<exists>r \<in> set tbl. later_row r r'"
proof (cases "plain_step st")
  case True
  then show ?thesis by (rule plain_step_later [OF assms(1) _ assms(3)])
next
  case False
  then show ?thesis
  proof (cases st)
    case (StCreate whs marshal now ids ev data)
    have "r' \<in> set tbl"
    proof (rule ccontr)
      assume new: "r' \<notin> set tbl"
      then obtain x items where "delivery_items marshal pr now x data ids = Some items"
        "r' \<in> set (snd (create_delivery_rows whs items 0 tbl))"
        using assms(1,3) by (auto simp: StCreate exec_step_def create_deliveries_def split: option.splits if_splits)
      with new create_rows_mem delivery_items_ids have "\<exists>(wh, uuid) \<in> set ids. dl_ID r' = ''whd-'' @ uuid" by blast
      with assms(2) StCreate show False by auto
    qed
    then show ?thesis by (intro bexI [of _ r']) simp_all
  next
    case (StReset wh j now)
    then have "r' \<in> set tbl"
      using assms by (auto simp: exec_step_def reset_for_redeliver_def resettable_def delivery_is_def split: if_splits)
    then show ?thesis by (intro bexI [of _ r']) simp_all
  qed simp_all
qed

lemma spares_counted:
  assumes "exec_step pol pr st tbl = (c, tbl')" and "spares_row i st" and "counted pr (i, k) tbl"
  shows "counted pr (i, k) tbl'"
  unfolding counted_def
proof (intro ballI impI)
  fix r' assume r': "r' \<in> set tbl'" "delivery_is pr (fst (i, k)) r'"
  then have "spares_row (dl_ID r') st" using assms(2) by (simp add: delivery_is_def)
  from spares_later [OF assms(1) this r'(1)] show "snd (i, k) \<le> dl_Attempts r'"
    using assms(3) r'(2) by (auto simp: counted_def later_row_def delivery_is_def)
qed

lemma run_steps_claims_of:
  "run_steps pol pr sts tbl = (cs, tbl') \<Longrightarrow> distinct (map dl_ID tbl) \<Longrightarrow> \<forall>st \<in> set sts. spares_row i st \<Longrightarrow>
   distinct (map claim_key (filter (\<lambda>c. dl_ID c = i) cs)) \<and>
   (\<forall>c \<in> set cs. dl_ID c = i \<longrightarrow> \<not> counted pr (claim_key c) tbl \<and> dl_Attempts c \<le> dp_MaxAttempts pol)"
proof (induction sts arbitrary: tbl cs)
  case Nil
  then show ?case by simp
next
  case (Cons st sts)
  obtain c tbl1 where e: "exec_step pol pr st tbl = (c, tbl1)" by force
  obtain cs1 where cs1: "run_steps pol pr sts tbl1 = (cs1, tbl')" "cs = (case c of None \<Rightarrow> [] | Some x \<Rightarrow> [x]) @ cs1"
    using Cons.prems(1) by (auto simp: e split: prod.splits)
  have spares: "spares_row i st" using Cons.prems(3) by simp
  have ih: "distinct (map claim_key (filter (\<lambda>c. dl_ID c = i) cs1))"
      "\<forall>c \<in> set cs1. dl_ID c = i \<longrightarrow> \<not> counted pr (claim_key c) tbl1 \<and> dl_Attempts c \<le> dp_MaxAttempts pol"
    using Cons.IH [OF cs1(1) exec_step_distinct [OF e Cons.prems(2)]] Cons.prems(3) by auto
  have before: "\<forall>c \<in> set cs1. dl_ID c = i \<longrightarrow> \<not> counted pr (claim_key c) tbl"
    using ih(2) spares_counted [OF e spares] unfolding claim_key_def by blast
  show ?case
  proof (cases c)
    case None
    with ih before cs1(2) show ?thesis by simp
  next
    case (Some x)
    have "plain_step st" using e Some by (cases st) (simp_all add: exec_step_def)
    note new = claim_step_Some [OF e [unfolded Some] this Cons.prems(2)]
    have "claim_key x \<notin> claim_key ` set (filter (\<lambda>c. dl_ID c = i) cs1)" if "dl_ID x = i"
      using new(1) ih(2) by auto
    with ih before new cs1(2) Some show ?thesis by simp
  qed
qed


section \<open>The schedule of the default policy\<close>

text \<open>
  \<open>default_offsets ! k\<close> is the earliest time after its creation at which a row can be due
  with \<open>k\<close> attempts made.
\<close>

definition default_policy :: delivery_policy where
  "default_policy = new_delivery_policy [] 0 0"

definition default_offsets :: "int list" where
  "default_offsets = map (\<lambda>s. s * sec) [0, 10, 70, 370, 2170, 9370, 38170, 66970]"

definition on_schedule :: "delivery \<Rightarrow> bool" where
  "on_schedule r \<longleftrightarrow> 0 \<le> dl_Attempts r \<and> dl_Attempts r \<le> 7 \<and>
     dl_CreatedAt r + default_offsets ! nat (dl_Attempts r) \<le> dl_NextAttemptAt r"

definition created_as :: "delivery list \<Rightarrow> delivery \<Rightarrow> bool" where
  "created_as tbl row \<longleftrightarrow> (\<forall>r \<in> set tbl. dl_ID r = dl_ID row \<longrightarrow> dl_CreatedAt r = dl_CreatedAt row)"

lemma default_policy_fields:
  "dp_Backoff default_policy = default_retry_backoff" "dp_MaxAttempts default_policy = 15"
  "dp_RetryWindow default_policy = 86400 * sec"
  by (simp_all add: default_policy_def new_delivery_policy_def default_max_attempts_def
    max_attempts_ceiling_def default_retry_window_def hour_def minute_def sec_def Let_def)

lemma due_on_schedule:
  assumes "on_schedule row" and "dl_NextAttemptAt row \<le> now"
    and "now + backoff_for default_policy (dl_Attempts row + 1) \<le> dl_CreatedAt row + dp_RetryWindow default_policy"
  shows "dl_Attempts row + 1 \<le> 7"
    and "dl_CreatedAt row + default_offsets ! nat (dl_Attempts row + 1) \<le> now + backoff_for default_policy (dl_Attempts row + 1)"
proof -
  have k: "dl_Attempts row \<in> {0, 1, 2, 3, 4, 5, 6, 7}" using assms(1) by (auto simp: on_schedule_def)
  have *: "backoff_for default_policy (dl_Attempts row + 1) =
      [10 * sec, 60 * sec, 300 * sec, 1800 * sec, 7200 * sec, 28800 * sec, 28800 * sec, 28800 * sec] ! nat (dl_Attempts row)"
    using k by (elim insertE emptyE)
      (simp_all add: backoff_for_def default_policy_fields default_retry_backoff_def hour_def minute_def sec_def Let_def)
  show "dl_Attempts row + 1 \<le> 7"
    using k assms unfolding * on_schedule_def default_policy_fields default_offsets_def
    by (elim insertE emptyE) (simp_all add: sec_def)
  show "dl_CreatedAt row + default_offsets ! nat (dl_Attempts row + 1) \<le> now + backoff_for default_policy (dl_Attempts row + 1)"
    using k assms unfolding * on_schedule_def default_policy_fields default_offsets_def
    by (elim insertE emptyE) (simp_all add: sec_def)
qed

definition pending_on_schedule :: "delivery list \<Rightarrow> bool" where
  "pending_on_schedule tbl \<longleftrightarrow> (\<forall>r \<in> set tbl. dl_Status r = ''pending'' \<longrightarrow> on_schedule r)"

lemma claim_on_schedule:
  assumes c: "claim_delivery (\<lambda>d. plan_attempt default_policy d now) pr now row tbl = (c, tbl')"
    and row: "on_schedule row" "dl_NextAttemptAt row \<le> now" "created_as tbl row"
    and tbl: "pending_on_schedule tbl"
  shows "pending_on_schedule tbl'" and "\<And>x. c = Some x \<Longrightarrow> 1 \<le> dl_Attempts x \<and> dl_Attempts x \<le> 7"
proof -
  have "pending_on_schedule tbl' \<and> (\<forall>x. c = Some x \<longrightarrow> 1 \<le> dl_Attempts x \<and> dl_Attempts x \<le> 7)"
    using c
  proof (cases rule: claim_delivery_cases)
    case terminal
    then show ?thesis
      using tbl by (auto simp: pending_on_schedule_def mark_failed_def update_outcome_def)
  next
    case (attempt nxt)
    note next_time = due_on_schedule [OF row(1,2) attempt(3) [unfolded attempt(1)]]
    have "on_schedule (advance pr row now nxt r)"
      if "r \<in> set tbl" "dl_Status (advance pr row now nxt r) = ''pending''" for r
    proof (cases "claim_hits pr row r")
      case True
      then have "dl_CreatedAt r = dl_CreatedAt row"
        using row(3) that(1) by (auto simp: created_as_def claim_hits_def delivery_is_def)
      then show ?thesis
        using True next_time row(1) attempt(1) by (simp add: advance_def on_schedule_def)
    next
      case False
      then show ?thesis using tbl that by (simp add: advance_def pending_on_schedule_def)
    qed
    then show ?thesis
      using next_time row(1) attempt(4,5) by (auto simp: pending_on_schedule_def on_schedule_def)
  qed
  then show "pending_on_schedule tbl'" "\<And>x. c = Some x \<Longrightarrow> 1 \<le> dl_Attempts x \<and> dl_Attempts x \<le> 7" by blast+
qed

lemma claims_on_schedule:
  "run_steps default_policy pr (map (StClaim now) rows) tbl = (cs, tbl') \<Longrightarrow>
   \<forall>row \<in> set rows. on_schedule row \<and> dl_NextAttemptAt row \<le> now \<and> created_as tbl row \<Longrightarrow>
   pending_on_schedule tbl \<Longrightarrow>
   pending_on_schedule tbl' \<and> (\<forall>x \<in> set cs. 1 \<le> dl_Attempts x \<and> dl_Attempts x \<le> 7)"
proof (induction rows arbitrary: tbl cs)
  case Nil
  then show ?case by simp
next
  case (Cons row rows)
  obtain c tbl1 where e: "exec_step default_policy pr (StClaim now row) tbl = (c, tbl1)" by force
  then have c: "claim_delivery (\<lambda>d. plan_attempt default_policy d now) pr now row tbl = (c, tbl1)"
    by (simp add: exec_step_def)
  obtain cs1 where cs1: "run_steps default_policy pr (map (StClaim now) rows) tbl1 = (cs1, tbl')"
      "cs = (case c of None \<Rightarrow> [] | Some x \<Rightarrow> [x]) @ cs1"
    using Cons.prems(1) by (auto simp: e split: prod.splits)
  have "created_as tbl1 r" if "created_as tbl r" for r
    using that plain_step_later [OF e] unfolding created_as_def later_row_def by fastforce
  then have "\<forall>row \<in> set rows. on_schedule row \<and> dl_NextAttemptAt row \<le> now \<and> created_as tbl1 row"
    using Cons.prems(2) by simp
  moreover note first = claim_on_schedule [OF c] Cons.prems(2,3)
  ultimately show ?case
    using Cons.IH [OF cs1(1)] cs1(2) by (auto split: option.splits)
qed

text \<open>A scan without a failing statement is the sequence of the claims of its snapshot.\<close>

lemma claim_deliveries_steps:
  "claim_deliveries (\<lambda>_. False) (\<lambda>d. plan_attempt pol d now) pr now rows n tbl =
     (case run_steps pol pr (map (StClaim now) rows) tbl of (cs, tbl') \<Rightarrow> (Some cs, tbl'))"
  by (induction rows arbitrary: n tbl) (auto simp: exec_step_def split: prod.splits)

fun run_scans :: "delivery_policy \<Rightarrow> string \<Rightarrow> (gtime \<times> int) list \<Rightarrow> delivery list \<Rightarrow> delivery list \<times> delivery list" where
  "run_scans pol pr [] tbl = ([], tbl)"
| "run_scans pol pr ((now, limit) # scans) tbl =
     (case claim_due (\<lambda>_. False) (\<lambda>d. plan_attempt pol d now) pr now limit tbl of (cs, tbl') \<Rightarrow>
       (case run_scans pol pr scans tbl' of (cs', tbl'') \<Rightarrow>
         ((case cs of None \<Rightarrow> [] | Some xs \<Rightarrow> xs) @ cs', tbl'')))"

lemma run_steps_distinct:
  "run_steps pol pr sts tbl = (cs, tbl') \<Longrightarrow> \<forall>st \<in> set sts. plain_step st \<Longrightarrow> distinct (map dl_ID tbl) \<Longrightarrow>
   distinct (map dl_ID tbl')"
proof (induction sts arbitrary: tbl cs)
  case Nil
  then show ?case by simp
next
  case (Cons st sts)
  obtain c tbl1 where e: "exec_step pol pr st tbl = (c, tbl1)" by force
  obtain cs1 where "run_steps pol pr sts tbl1 = (cs1, tbl')"
    using Cons.prems(1) by (auto simp: e split: prod.splits)
  with Cons.IH [of tbl1 cs1] plain_step_distinct [OF e] Cons.prems(2,3) show ?case by simp
qed

lemma run_steps_append:
  "run_steps pol pr (sts @ sts') tbl = (case run_steps pol pr sts tbl of (cs, tbl') \<Rightarrow>
     (case run_steps pol pr sts' tbl' of (cs', tbl'') \<Rightarrow> (cs @ cs', tbl'')))"
  by (induction sts arbitrary: tbl) (auto split: prod.splits)

lemma claim_due_steps:
  "claim_due (\<lambda>_. False) (\<lambda>d. plan_attempt pol d now) pr now limit tbl =
     (case run_steps pol pr (map (StClaim now) (due_candidates pr now limit tbl)) tbl of (cs, tbl') \<Rightarrow> (Some cs, tbl'))"
  by (simp add: claim_due_def claim_deliveries_steps due_candidates_def)

lemma due_candidates_mem: "row \<in> set (due_candidates pr now limit tbl) \<Longrightarrow> row \<in> set tbl \<and> due_delivery pr now row"
  by (auto simp: due_candidates_def dest!: in_set_takeD)

lemma run_scans_on_schedule:
  "run_scans default_policy pr scans tbl = (cs, tbl') \<Longrightarrow> distinct (map dl_ID tbl) \<Longrightarrow> pending_on_schedule tbl \<Longrightarrow>
   (\<forall>x \<in> set cs. 1 \<le> dl_Attempts x \<and> dl_Attempts x \<le> 7) \<and>
   (\<exists>sts. (\<forall>st \<in> set sts. plain_step st) \<and> run_steps default_policy pr sts tbl = (cs, tbl'))"
proof (induction scans arbitrary: tbl cs)
  case Nil
  then show ?case by (auto intro: exI [of _ "[]"])
next
  case (Cons scan scans)
  obtain now limit where scan: "scan = (now, limit)" by (cases scan)
  let ?rows = "due_candidates pr now limit tbl"
  obtain cs1 tbl1 where r: "run_steps default_policy pr (map (StClaim now) ?rows) tbl = (cs1, tbl1)" by force
  obtain cs2 where cs2: "run_scans default_policy pr scans tbl1 = (cs2, tbl')" "cs = cs1 @ cs2"
    using Cons.prems(1) by (auto simp: scan claim_due_steps r split: prod.splits)
  have "created_as tbl row" if "row \<in> set tbl" for row
    using that Cons.prems(2) by (auto simp: created_as_def distinct_map inj_on_def)
  then have "\<forall>row \<in> set ?rows. on_schedule row \<and> dl_NextAttemptAt row \<le> now \<and> created_as tbl row"
    using Cons.prems(3) due_candidates_mem by (fastforce simp: due_delivery_def pending_on_schedule_def)
  from claims_on_schedule [OF r this Cons.prems(3)]
  have 1: "pending_on_schedule tbl1" "\<forall>x \<in> set cs1. 1 \<le> dl_Attempts x \<and> dl_Attempts x \<le> 7" by auto
  have plain: "\<forall>st \<in> set (map (StClaim now) ?rows). plain_step st" by simp
  have "distinct (map dl_ID tbl1)" by (rule run_steps_distinct [OF r plain Cons.prems(2)])
  from Cons.IH [OF cs2(1) this 1(1)] obtain sts where
    2: "\<forall>x \<in> set cs2. 1 \<le> dl_Attempts x \<and> dl_Attempts x \<le> 7" "\<forall>st \<in> set sts. plain_step st"
      "run_steps default_policy pr sts tbl1 = (cs2, tbl')" by blast
  have "run_steps default_policy pr (map (StClaim now) ?rows @ sts) tbl = (cs, tbl')"
    by (simp add: run_steps_append r 2(3) cs2(2))
  moreover have "\<forall>st \<in> set (map (StClaim now) ?rows @ sts). plain_step st" using plain 2(2) by auto
  ultimately have "\<exists>sts. (\<forall>st \<in> set sts. plain_step st) \<and> run_steps default_policy pr sts tbl = (cs, tbl')" by blast
  then show ?case using 1(2) 2(1) cs2(2) by auto
qed

lemma claims_per_row:
  assumes "distinct (map claim_key cs)" and "\<forall>c \<in> set cs. 1 \<le> dl_Attempts c \<and> dl_Attempts c \<le> int n"
  shows "length (filter (\<lambda>c. dl_ID c = i) cs) \<le> n"
proof -
  let ?cs = "filter (\<lambda>c. dl_ID c = i) cs"
  have "distinct (map claim_key ?cs)" using assms(1) by (rule distinct_map_filter)
  then have "card (claim_key ` set ?cs) = length ?cs" using distinct_card by fastforce
  moreover have "claim_key ` set ?cs \<subseteq> {i} \<times> {1..int n}" using assms(2) by (auto simp: claim_key_def)
  then have "card (claim_key ` set ?cs) \<le> card ({i} \<times> {1..int n})" by (intro card_mono) auto
  ultimately show ?thesis by (simp add: card_cartesian_product)
qed

section \<open>Redelivery by hand\<close>

lemma redeliver_Inr:
  assumes "redeliver_delivery server pr wh i now tbl = (Inr d, tbl1)" and "distinct (map dl_ID tbl)"
  obtains r where "r \<in> set tbl" "resettable pr wh i r" "d \<in> set tbl1" "dl_Status d = ''pending''" "dl_Attempts d = 0"
    "dl_NextAttemptAt d = now" "dl_CreatedAt d = dl_CreatedAt r" "dl_ID d = i" "dl_ProjectID d = pr"
    "distinct (map dl_ID tbl1)"
proof -
  have tbl1: "tbl1 = snd (reset_for_redeliver pr wh i now tbl)" "list_ex (resettable pr wh i) tbl"
    and d: "find (\<lambda>r. delivery_is pr i r \<and> dl_WebhookID r = wh) tbl1 = Some d"
    using assms(1) by (auto simp: redeliver_delivery_def get_delivery_def reset_for_redeliver_def
      split: if_splits option.splits)
  obtain r where r: "r \<in> set tbl" "resettable pr wh i r" using tbl1(2) by (auto simp: list_ex_iff)
  have d1: "d \<in> set tbl1" "delivery_is pr i d" using find_Some_member [OF d] by auto
  then obtain r' where r': "r' \<in> set tbl" "d = (if resettable pr wh i r'
      then r'\<lparr>dl_Status := ''pending'', dl_Attempts := 0, dl_NextAttemptAt := now,
             dl_LastResponseCode := 0, dl_LastError := '''', dl_UpdatedAt := now\<rparr> else r')"
    using tbl1(1) by (auto simp: reset_for_redeliver_def)
  have "dl_ID r' = dl_ID r"
    using r' d1(2) r(2) by (auto simp: delivery_is_def resettable_def split: if_splits)
  then have "r' = r" using r(1) r'(1) assms(2) by (auto simp: distinct_map inj_on_def)
  moreover have "map dl_ID tbl1 = map dl_ID tbl" using tbl1(1) by (simp add: reset_for_redeliver_def)
  ultimately show thesis
    using that [OF r d1(1)] r r' d1(2) assms(2) by (simp add: delivery_is_def)
qed

end
