(* ===== verification/Webhook_Events.thy ===== *)
theory Webhook_Events
  imports Webhook_Deliveries
begin

text \<open>
  From events to deliveries, \<^verbatim>\<open>worker/webhook_events.go\<close>: the snapshot of subscriptions
  the worker matches against (\<^verbatim>\<open>RefreshSubscriptionIndex\<close> of
  \<^verbatim>\<open>internal/app/webhooks/deliveries.go\<close>), the projection of an event
  (\<^verbatim>\<open>internal/domain/functions/eventdata.go\<close>), the consumption of a batch of stream entries
  with its acknowledgement and the watermark, and the backfill from the outbox. Redis, the
  decoder of envelopes and JSON are parameters.
\<close>

section \<open>The snapshot\<close>

record project_info =
  pj_ID :: string
  pj_Status :: string

text \<open>\<open>list p\<close> is \<^verbatim>\<open>ListEnabledWebhooks\<close>, \<open>None\<close> when it fails.\<close>

fun refresh_loop ::
  "int \<Rightarrow> (string \<Rightarrow> webhook list option) \<Rightarrow> project_info list \<Rightarrow> webhook list \<Rightarrow> bool \<Rightarrow> webhook list \<times> bool" where
  "refresh_loop budget list [] collected failed = (collected, failed)"
| "refresh_loop budget list (p # ps) collected failed =
     (if pj_Status p \<noteq> ''active'' then refresh_loop budget list ps collected failed
      else if 0 < budget \<and> budget \<le> int (length collected) then (collected, failed)
      else case list (pj_ID p) of
          None \<Rightarrow> refresh_loop budget list ps collected True
        | Some ws \<Rightarrow>
            let ws' = (if 0 < budget \<and> budget < int (length collected + length ws)
                then take (nat (budget - int (length collected))) ws else ws)
            in refresh_loop budget list ps (collected @ ws') failed)"

definition refresh_subscription_index ::
  "int \<Rightarrow> (string \<Rightarrow> webhook list option) \<Rightarrow> project_info list \<Rightarrow> subscription pattern_index \<times> bool" where
  "refresh_subscription_index budget list projects =
     (case refresh_loop budget list projects [] False of (collected, failed) \<Rightarrow>
       (new_subscription_index collected, failed))"

text \<open>The worker stores the snapshot unless the scan of a project failed; its budget is 100.\<close>

definition webhook_scan_budget :: int where "webhook_scan_budget = 100"

definition refresh_index ::
  "(string \<Rightarrow> webhook list option) \<Rightarrow> project_info list \<Rightarrow> subscription pattern_index \<Rightarrow> subscription pattern_index" where
  "refresh_index list projects idx =
     (case refresh_subscription_index webhook_scan_budget list projects of (new, failed) \<Rightarrow>
       if failed then idx else new)"

section \<open>The data of an event\<close>

record event_invocation_data =
  ed_Type :: string
  ed_Event :: string
  ed_EventID :: string
  ed_Seq :: int
  ed_DatabaseID :: string
  ed_CollectionID :: string
  ed_DocumentID :: string
  ed_Version :: int
  ed_EnvelopeTruncated :: bool
  ed_Data :: "string option"
  ed_DataTruncated :: bool

record system_event_invocation_data =
  sd_Type :: string
  sd_Event :: string
  sd_EventID :: string
  sd_Seq :: int
  sd_Domain :: string
  sd_CreatedAt :: string
  sd_Version :: int
  sd_Attrs :: "string option"
  sd_AttrsTruncated :: bool

definition event_data_budget :: nat where "event_data_budget = 32768"

definition build_event_invocation_data ::
  "(event_invocation_data \<Rightarrow> string option) \<Rightarrow> envelope \<Rightarrow> string option" where
  "build_event_invocation_data marshal ev =
     (let out = \<lparr>ed_Type = ''event'', ed_Event = en_Event ev, ed_EventID = en_EventID ev, ed_Seq = en_Seq ev,
          ed_DatabaseID = en_DatabaseID ev, ed_CollectionID = en_CollectionID ev,
          ed_DocumentID = en_DocumentID ev, ed_Version = en_Version ev,
          ed_EnvelopeTruncated = en_Truncated ev, ed_Data = en_Data ev, ed_DataTruncated = False\<rparr>
      in case marshal out of None \<Rightarrow> None
        | Some payload \<Rightarrow>
            if length payload \<le> event_data_budget then Some payload
            else marshal (out\<lparr>ed_Data := None, ed_DataTruncated := True\<rparr>))"

definition build_system_event_invocation_data ::
  "(system_event_invocation_data \<Rightarrow> string option) \<Rightarrow> envelope \<Rightarrow> string option" where
  "build_system_event_invocation_data marshal ev =
     (let out = \<lparr>sd_Type = ''event'', sd_Event = en_Event ev, sd_EventID = en_EventID ev, sd_Seq = en_Seq ev,
          sd_Domain = en_Domain ev, sd_CreatedAt = rfc3339_nano (en_CreatedAt ev), sd_Version = en_Version ev,
          sd_Attrs = en_Attrs ev, sd_AttrsTruncated = False\<rparr>
      in case marshal out of None \<Rightarrow> None
        | Some payload \<Rightarrow>
            if length payload \<le> event_data_budget then Some payload
            else marshal (out\<lparr>sd_Attrs := None, sd_AttrsTruncated := True\<rparr>))"

section \<open>The consumer\<close>

text \<open>
  What the consumer works on: the tables of deliveries of the projects, the watermark in
  Redis, the ids of the stream entries it has acknowledged, and how many fresh ids and
  inserts it has used.
\<close>

record consumer_world =
  cs_deliveries :: "string \<Rightarrow> delivery list"
  cs_watermark :: int
  cs_acked :: "string list"
  cs_ids :: nat
  cs_ops :: nat

record consumer_env =
  ce_index :: "subscription pattern_index"
  ce_webhooks :: "string \<Rightarrow> string set"
  ce_decode :: "string \<Rightarrow> envelope option"
  ce_marshal :: "cloud_event \<Rightarrow> string option"
  ce_marshal_data :: "event_invocation_data \<Rightarrow> string option"
  ce_marshal_system :: "system_event_invocation_data \<Rightarrow> string option"
  ce_now :: gtime
  ce_uuid :: "nat \<Rightarrow> string"
  ce_db_fails :: "nat \<Rightarrow> bool"

text \<open>An insert that fails in the database leaves the table as it was.\<close>

definition enqueue ::
  "consumer_env \<Rightarrow> envelope \<Rightarrow> string list \<Rightarrow> string \<Rightarrow> consumer_world \<Rightarrow> consumer_world" where
  "enqueue env ev whIDs data w =
     (let w1 = w\<lparr>cs_ids := cs_ids w + length whIDs, cs_ops := Suc (cs_ops w)\<rparr>
      in if ce_db_fails env (cs_ops w) then w1
         else case create_deliveries (ce_webhooks env (en_ProjectID ev)) (ce_marshal env) (ce_now env)
             (en_ProjectID ev) (zip whIDs (map (ce_uuid env) [cs_ids w..<cs_ids w + length whIDs]))
             (Some ev) data (cs_deliveries w (en_ProjectID ev)) of
           (_, tbl) \<Rightarrow> w1\<lparr>cs_deliveries := (cs_deliveries w)(en_ProjectID ev := tbl)\<rparr>)"

definition deliver_system :: "consumer_env \<Rightarrow> envelope \<Rightarrow> consumer_world \<Rightarrow> consumer_world" where
  "deliver_system env ev w =
     (if \<not> is_system_event_name (en_Event ev) then w
      else let whIDs = subscription_index_match_system (ce_index env) (en_ProjectID ev) (en_Event ev)
        in if whIDs = [] then w
           else case build_system_event_invocation_data (ce_marshal_system env) ev of None \<Rightarrow> w
             | Some data \<Rightarrow> enqueue env ev whIDs data w)"

definition deliver :: "consumer_env \<Rightarrow> envelope \<Rightarrow> consumer_world \<Rightarrow> consumer_world" where
  "deliver env ev w =
     (if en_Domain ev \<noteq> '''' then deliver_system env ev w
      else let op = event_op_from_envelope (en_Event ev)
        in if op = '''' then w
           else let whIDs = subscription_index_match (ce_index env) (en_ProjectID ev) (en_DatabaseID ev)
               (en_CollectionID ev) op
             in if whIDs = [] then w
                else case build_event_invocation_data (ce_marshal_data env) ev of None \<Rightarrow> w
                  | Some data \<Rightarrow> enqueue env ev whIDs data w)"

record stream_entry =
  se_ID :: string
  se_Payload :: string

definition process_entry :: "consumer_env \<Rightarrow> stream_entry \<Rightarrow> consumer_world \<Rightarrow> int \<times> consumer_world" where
  "process_entry env msg w =
     (if se_Payload msg = '''' then (0, w)
      else case ce_decode env (se_Payload msg) of None \<Rightarrow> (0, w)
        | Some ev \<Rightarrow> (en_Seq ev, deliver env ev w))"

definition advance_watermark :: "int \<Rightarrow> consumer_world \<Rightarrow> consumer_world" where
  "advance_watermark seq w =
     (if seq \<le> 0 then w
      else if cs_watermark w < seq then w\<lparr>cs_watermark := seq\<rparr> else w)"

fun process_entries ::
  "consumer_env \<Rightarrow> stream_entry list \<Rightarrow> int \<Rightarrow> consumer_world \<Rightarrow> int \<times> consumer_world" where
  "process_entries env [] maxSeq w = (maxSeq, w)"
| "process_entries env (msg # msgs) maxSeq w =
     (case process_entry env msg w of (seq, w') \<Rightarrow>
       process_entries env msgs (if maxSeq < seq then seq else maxSeq) w')"

text \<open>A batch of one stream, new or claimed from a dead consumer; \<open>ack_ok\<close>: the XACK went through.\<close>

definition consume_batch ::
  "consumer_env \<Rightarrow> bool \<Rightarrow> stream_entry list \<Rightarrow> consumer_world \<Rightarrow> consumer_world" where
  "consume_batch env ack_ok msgs w =
     (case process_entries env msgs 0 w of (maxSeq, w1) \<Rightarrow>
       if msgs = [] then w1
       else if \<not> ack_ok then w1
       else let w2 = w1\<lparr>cs_acked := cs_acked w1 @ map se_ID msgs\<rparr>
         in if 0 < maxSeq then advance_watermark maxSeq w2 else w2)"

section \<open>The backfill\<close>

record outbox_row =
  ob_EventID :: string
  ob_Seq :: int
  ob_ProjectID :: string
  ob_Payload :: string

definition scan_outbox :: "outbox_row list \<Rightarrow> int \<Rightarrow> int \<Rightarrow> nat \<Rightarrow> outbox_row list" where
  "scan_outbox outbox after last_seq limit =
     take limit (sort_key ob_Seq (filter (\<lambda>r. after < ob_Seq r \<and> ob_Seq r \<le> last_seq) outbox))"

definition event_backfill_batch :: nat where "event_backfill_batch = 500"

fun backfill_rows :: "consumer_env \<Rightarrow> outbox_row list \<Rightarrow> int \<Rightarrow> consumer_world \<Rightarrow> int \<times> consumer_world" where
  "backfill_rows env [] maxSeq w = (maxSeq, w)"
| "backfill_rows env (r # rs) maxSeq w =
     backfill_rows env rs (if maxSeq < ob_Seq r then ob_Seq r else maxSeq)
       (case ce_decode env (ob_Payload r) of None \<Rightarrow> w
        | Some ev \<Rightarrow> deliver env (ev\<lparr>en_Seq := ob_Seq r\<rparr>) w)"

lemma backfill_rows_max: "fst (backfill_rows env rs m w) = foldl max m (map ob_Seq rs)"
  by (induction rs arbitrary: m w) (auto simp: max_def)

lemma foldl_max_ge: "m \<le> foldl max m xs" "x \<in> set xs \<Longrightarrow> x \<le> foldl max m (xs :: int list)"
proof (induction xs arbitrary: m)
  case (Cons y ys)
  { case 1 show ?case using Cons(1) [of "max m y"] by simp }
  { case 2 then show ?case using Cons(1) [of "max m y"] Cons(2) [of "max m y"] by auto }
qed simp_all

lemma scan_outbox_mem: "r \<in> set (scan_outbox outbox a b n) \<Longrightarrow> r \<in> set outbox \<and> a < ob_Seq r \<and> ob_Seq r \<le> b"
  by (auto simp: scan_outbox_def dest!: in_set_takeD)

lemma backfill_progress:
  assumes "scan_outbox outbox cursor first n \<noteq> []"
    and "backfill_rows env (scan_outbox outbox cursor first n) cursor w = (m, w1)"
  shows "cursor < m"
proof -
  obtain r rs where r: "scan_outbox outbox cursor first n = r # rs"
    using assms(1) by (cases "scan_outbox outbox cursor first n") auto
  then have "cursor < ob_Seq r" using scan_outbox_mem [of r outbox cursor first n] by simp
  moreover have "m = foldl max cursor (map ob_Seq (r # rs))"
    using assms(2) backfill_rows_max [of env "r # rs" cursor w] by (simp add: r)
  moreover have "ob_Seq r \<le> foldl max cursor (map ob_Seq (r # rs))"
    by (rule foldl_max_ge(2)) simp
  ultimately show ?thesis by simp
qed

text \<open>
  The loop over the gap, without a failing scan; every round moves the cursor, for a row of
  the gap lies behind it, so the loop ends.
\<close>

function backfill_loop :: "consumer_env \<Rightarrow> outbox_row list \<Rightarrow> int \<Rightarrow> int \<Rightarrow> consumer_world \<Rightarrow> consumer_world" where
  "backfill_loop env outbox first cursor w =
     (if \<not> cursor < first then w
      else let rows = scan_outbox outbox cursor first event_backfill_batch
        in if rows = [] then w
           else case backfill_rows env rows cursor w of (maxSeq, w1) \<Rightarrow>
             backfill_loop env outbox first maxSeq (advance_watermark maxSeq w1))"
  by pat_completeness auto

termination
  by (relation "measure (\<lambda>(env, outbox, first, cursor, w). nat (first - cursor))")
    (auto dest: backfill_progress [OF _ sym])

declare backfill_loop.simps [simp del]

text \<open>\<open>first\<close> is the sequence number of the first entry the stream still has, 0 if unknown.\<close>

definition backfill :: "consumer_env \<Rightarrow> outbox_row list \<Rightarrow> int \<Rightarrow> consumer_world \<Rightarrow> consumer_world" where
  "backfill env outbox first w =
     (if first \<le> 0 \<or> first \<le> cs_watermark w + 1 then w
      else backfill_loop env outbox first (cs_watermark w) w)"

section \<open>What reaches the tables\<close>

text \<open>The webhooks an event is for, by the snapshot.\<close>

definition event_targets :: "consumer_env \<Rightarrow> envelope \<Rightarrow> string list" where
  "event_targets env ev =
     (if en_Domain ev \<noteq> '''' then
        (if is_system_event_name (en_Event ev)
         then subscription_index_match_system (ce_index env) (en_ProjectID ev) (en_Event ev) else [])
      else let op = event_op_from_envelope (en_Event ev)
        in if op = '''' then []
           else subscription_index_match (ce_index env) (en_ProjectID ev) (en_DatabaseID ev) (en_CollectionID ev) op)"

text \<open>Nothing fails: JSON can be written, the ids are fresh, the webhooks are there.\<close>

definition env_fine :: "consumer_env \<Rightarrow> bool" where
  "env_fine env \<longleftrightarrow> (\<forall>n. \<not> ce_db_fails env n) \<and> (\<forall>m n. ce_uuid env m = ce_uuid env n \<longrightarrow> m = n) \<and>
     (\<forall>x. ce_marshal env x \<noteq> None) \<and> (\<forall>x. ce_marshal_data env x \<noteq> None) \<and> (\<forall>x. ce_marshal_system env x \<noteq> None)"

definition ids_fresh :: "consumer_env \<Rightarrow> consumer_world \<Rightarrow> bool" where
  "ids_fresh env w \<longleftrightarrow> (\<forall>p. \<forall>d \<in> set (cs_deliveries w p). \<forall>k \<ge> cs_ids w. dl_ID d \<noteq> ''whd-'' @ ce_uuid env k)"

lemma create_rows_all:
  "distinct (map dl_ID items) \<Longrightarrow> dl_ID ` set items \<inter> dl_ID ` set tbl = {} \<Longrightarrow> dl_WebhookID ` set items \<subseteq> whs \<Longrightarrow>
   delivery_event ` set (snd (create_delivery_rows whs items n tbl)) = delivery_event ` set tbl \<union> delivery_event ` set items \<and>
   (\<exists>new. snd (create_delivery_rows whs items n tbl) = tbl @ new \<and> set new \<subseteq> set items)"
proof (induction whs items n tbl rule: create_delivery_rows.induct)
  case (1 whs inserted tbl)
  then show ?case by simp
next
  case (2 whs d ds inserted tbl)
  show ?case
  proof (cases "delivery_event d \<in> delivery_event ` set tbl")
    case True
    with 2 show ?thesis by auto
  next
    case False
    have ok: "\<not> (dl_ID d \<in> dl_ID ` set tbl \<or> dl_WebhookID d \<notin> whs)"
      using 2(4,5) by auto
    from "2.IH"(2) [OF False ok] 2(3-5)
    have ih: "delivery_event ` set (snd (create_delivery_rows whs ds (inserted + 1) (tbl @ [d]))) =
          delivery_event ` set (tbl @ [d]) \<union> delivery_event ` set ds"
        "\<exists>new. snd (create_delivery_rows whs ds (inserted + 1) (tbl @ [d])) = (tbl @ [d]) @ new \<and> set new \<subseteq> set ds"
      by auto
    then show ?thesis using False ok by auto
  qed
qed

lemma delivery_items_Some:
  assumes "\<forall>x. marshal x \<noteq> None"
  shows "\<exists>items. delivery_items marshal pr now ev data ids = Some items \<and>
    map dl_ID items = map (\<lambda>(_, u). ''whd-'' @ u) ids \<and> map delivery_event items = map (\<lambda>(wh, _). (wh, en_EventID ev)) ids"
proof (induction ids)
  case Nil
  then show ?case by simp
next
  case (Cons a ids)
  obtain wh u where a: "a = (wh, u)" by (cases a)
  obtain payload where "marshal (build_cloud_event (''whd-'' @ u) ev data) = Some payload"
    using assms by auto
  with Cons show ?case by (auto simp: a Let_def delivery_event_def)
qed

lemma enqueue_all:
  assumes env: "env_fine env" and fresh: "ids_fresh env w" and whs: "set whIDs \<subseteq> ce_webhooks env (en_ProjectID ev)"
    and res: "w' = enqueue env ev whIDs data w"
  shows "\<forall>wh \<in> set whIDs. (wh, en_EventID ev) \<in> delivery_event ` set (cs_deliveries w' (en_ProjectID ev))"
    and "ids_fresh env w'" and "\<And>p. \<exists>new. cs_deliveries w' p = cs_deliveries w p @ new"
    and "cs_watermark w' = cs_watermark w"
proof -
  let ?pr = "en_ProjectID ev" and ?n = "cs_ids w"
  let ?uuids = "map (ce_uuid env) [?n..<?n + length whIDs]"
  let ?ids = "zip whIDs ?uuids"
  obtain items where items: "delivery_items (ce_marshal env) ?pr (ce_now env) ev data ?ids = Some items"
      "map dl_ID items = map (\<lambda>(_, u). ''whd-'' @ u) ?ids" "map delivery_event items = map (\<lambda>(wh, _). (wh, en_EventID ev)) ?ids"
    using delivery_items_Some [of "ce_marshal env" ?pr "ce_now env" ev data ?ids] env by (auto simp: env_fine_def)
  have id_list: "map dl_ID items = map (\<lambda>k. ''whd-'' @ ce_uuid env k) [?n..<?n + length whIDs]"
    unfolding items(2) by (rule nth_equalityI) (simp_all add: split_beta)
  have ev_list: "map delivery_event items = map (\<lambda>wh. (wh, en_EventID ev)) whIDs"
    unfolding items(3) by (rule nth_equalityI) (simp_all add: split_beta)
  have dist: "distinct (map dl_ID items)"
    unfolding id_list using env by (auto simp: distinct_map inj_on_def env_fine_def)
  have item_id: "\<exists>k. ?n \<le> k \<and> k < ?n + length whIDs \<and> dl_ID d = ''whd-'' @ ce_uuid env k" if "d \<in> set items" for d
  proof -
    have "dl_ID d \<in> set (map dl_ID items)" using that by simp
    then show ?thesis unfolding id_list by auto
  qed
  have disj: "dl_ID ` set items \<inter> dl_ID ` set (cs_deliveries w ?pr) = {}"
    using fresh item_id unfolding ids_fresh_def by fastforce
  have "dl_WebhookID d \<in> set whIDs" if "d \<in> set items" for d
  proof -
    have "delivery_event d \<in> set (map delivery_event items)" using that by simp
    then show ?thesis unfolding ev_list by (auto simp: delivery_event_def)
  qed
  then have wh: "dl_WebhookID ` set items \<subseteq> ce_webhooks env ?pr" using whs by auto
  note rows = create_rows_all [OF dist disj wh, of 0]
  define tbl where "tbl = snd (create_delivery_rows (ce_webhooks env ?pr) items 0 (cs_deliveries w ?pr))"
  obtain new where new: "tbl = cs_deliveries w ?pr @ new" "set new \<subseteq> set items"
    using rows unfolding tbl_def by blast
  have "delivery_event ` set items = (\<lambda>wh. (wh, en_EventID ev)) ` set whIDs"
    using ev_list by (metis list.set_map)
  with rows have events: "(wh, en_EventID ev) \<in> delivery_event ` set tbl" if "wh \<in> set whIDs" for wh
    using that unfolding tbl_def by auto
  show first: "\<forall>wh \<in> set whIDs. (wh, en_EventID ev) \<in> delivery_event ` set (cs_deliveries w' ?pr)"
    and "cs_watermark w' = cs_watermark w"
    and "\<And>p. \<exists>new. cs_deliveries w' p = cs_deliveries w p @ new"
    and "ids_fresh env w'"
  proof -
    have w': "w' = w\<lparr>cs_ids := ?n + length whIDs, cs_ops := Suc (cs_ops w), cs_deliveries := (cs_deliveries w)(?pr := tbl)\<rparr>"
    proof (cases "whIDs = []")
      case True
      then have "tbl = cs_deliveries w ?pr"
        using items(1) by (simp add: tbl_def)
      then show ?thesis
        using env True by (simp add: res enqueue_def env_fine_def create_deliveries_def Let_def)
    next
      case False
      then have "?ids \<noteq> []" by (cases whIDs) (auto simp: upt_rec)
      then show ?thesis
        using env items(1) by (simp add: res enqueue_def env_fine_def create_deliveries_def Let_def tbl_def split_beta)
    qed
    show "\<forall>wh \<in> set whIDs. (wh, en_EventID ev) \<in> delivery_event ` set (cs_deliveries w' ?pr)"
      using events by (simp add: w')
    show "cs_watermark w' = cs_watermark w" by (simp add: w')
    show "\<exists>new. cs_deliveries w' p = cs_deliveries w p @ new" for p using new(1) by (simp add: w')
    show "ids_fresh env w'"
      unfolding ids_fresh_def
    proof (intro allI ballI impI)
      fix p d k assume d: "d \<in> set (cs_deliveries w' p)" and k: "cs_ids w' \<le> k"
      show "dl_ID d \<noteq> ''whd-'' @ ce_uuid env k"
      proof (cases "d \<in> set (cs_deliveries w p)")
        case True
        then show ?thesis using fresh k by (simp add: ids_fresh_def w')
      next
        case False
        then have "d \<in> set items" using d new by (auto simp: w' split: if_splits)
        from item_id [OF this] obtain k' where "k' < ?n + length whIDs" "dl_ID d = ''whd-'' @ ce_uuid env k'" by blast
        then have "k' \<noteq> k" and "dl_ID d = ''whd-'' @ ce_uuid env k'" using k by (auto simp: w')
          then show ?thesis using env by (auto simp: env_fine_def)
      qed
    qed
  qed
qed


lemma deliver_cases:
  assumes "env_fine env"
  obtains (none) "event_targets env ev = []" "deliver env ev w = w"
  | (some) data where "deliver env ev w = enqueue env ev (event_targets env ev) data w"
proof (cases "event_targets env ev = []")
  case True
  then have "deliver env ev w = w"
    by (auto simp: deliver_def deliver_system_def event_targets_def Let_def split: if_splits)
  with True show thesis by (rule none)
next
  case False
  have m: "\<And>x. ce_marshal_data env x \<noteq> None" "\<And>x. ce_marshal_system env x \<noteq> None"
    using assms unfolding env_fine_def by blast+
  have "build_event_invocation_data (ce_marshal_data env) ev \<noteq> None"
    unfolding build_event_invocation_data_def Let_def by (simp add: m split: option.split del: not_None_eq)
  then obtain d1 where d1: "build_event_invocation_data (ce_marshal_data env) ev = Some d1" by blast
  have "build_system_event_invocation_data (ce_marshal_system env) ev \<noteq> None"
    unfolding build_system_event_invocation_data_def Let_def by (simp add: m split: option.split del: not_None_eq)
  then obtain d2 where d2: "build_system_event_invocation_data (ce_marshal_system env) ev = Some d2" by blast
  show thesis
    by (rule some [of "if en_Domain ev \<noteq> '''' then d2 else d1"])
      (use False d1 d2 in \<open>auto simp: deliver_def deliver_system_def event_targets_def Let_def split: if_splits\<close>)
qed

lemma deliver_all:
  assumes "env_fine env" and "ids_fresh env w" and "set (event_targets env ev) \<subseteq> ce_webhooks env (en_ProjectID ev)"
  shows "\<forall>wh \<in> set (event_targets env ev).
      (wh, en_EventID ev) \<in> delivery_event ` set (cs_deliveries (deliver env ev w) (en_ProjectID ev))"
    and "ids_fresh env (deliver env ev w)" and "\<exists>new. cs_deliveries (deliver env ev w) p = cs_deliveries w p @ new"
    and "cs_watermark (deliver env ev w) = cs_watermark w"
proof -
  have "(\<forall>wh \<in> set (event_targets env ev).
      (wh, en_EventID ev) \<in> delivery_event ` set (cs_deliveries (deliver env ev w) (en_ProjectID ev))) \<and>
    ids_fresh env (deliver env ev w) \<and> (\<exists>new. cs_deliveries (deliver env ev w) p = cs_deliveries w p @ new) \<and>
    cs_watermark (deliver env ev w) = cs_watermark w"
    using assms(1)
  proof (cases rule: deliver_cases [of env ev w])
    case none
    then show ?thesis using assms(2) by simp
  next
    case (some data)
    then show ?thesis using enqueue_all [OF assms some] by blast
  qed
  then show "\<forall>wh \<in> set (event_targets env ev).
      (wh, en_EventID ev) \<in> delivery_event ` set (cs_deliveries (deliver env ev w) (en_ProjectID ev))"
    "ids_fresh env (deliver env ev w)" "\<exists>new. cs_deliveries (deliver env ev w) p = cs_deliveries w p @ new"
    "cs_watermark (deliver env ev w) = cs_watermark w" by blast+
qed

text \<open>The events of a batch that can be decoded.\<close>

definition batch_events :: "consumer_env \<Rightarrow> stream_entry list \<Rightarrow> envelope list" where
  "batch_events env msgs =
     List.map_filter (\<lambda>m. if se_Payload m = '''' then None else ce_decode env (se_Payload m)) msgs"

definition targets_exist :: "consumer_env \<Rightarrow> envelope list \<Rightarrow> bool" where
  "targets_exist env evs \<longleftrightarrow> (\<forall>ev \<in> set evs. set (event_targets env ev) \<subseteq> ce_webhooks env (en_ProjectID ev))"

definition delivered :: "consumer_world \<Rightarrow> consumer_env \<Rightarrow> envelope \<Rightarrow> bool" where
  "delivered w env ev \<longleftrightarrow> (\<forall>wh \<in> set (event_targets env ev).
     (wh, en_EventID ev) \<in> delivery_event ` set (cs_deliveries w (en_ProjectID ev)))"

lemma delivered_mono:
  "delivered w env ev \<Longrightarrow> \<exists>new. cs_deliveries w' (en_ProjectID ev) = cs_deliveries w (en_ProjectID ev) @ new \<Longrightarrow>
   delivered w' env ev"
  by (auto simp: delivered_def)

lemma process_entries_all:
  "env_fine env \<Longrightarrow> ids_fresh env w \<Longrightarrow> targets_exist env (batch_events env msgs) \<Longrightarrow>
   process_entries env msgs m w = (m', w') \<Longrightarrow>
   (\<forall>ev \<in> set (batch_events env msgs). delivered w' env ev) \<and> ids_fresh env w' \<and>
   (\<forall>p. \<exists>new. cs_deliveries w' p = cs_deliveries w p @ new) \<and> cs_watermark w' = cs_watermark w \<and> m \<le> m'"
proof (induction msgs arbitrary: m w)
  case Nil
  then show ?case by (simp add: batch_events_def)
next
  case (Cons msg msgs)
  obtain seq w1 where e: "process_entry env msg w = (seq, w1)" by force
  have rest: "process_entries env msgs (if m < seq then seq else m) w1 = (m', w')"
    using Cons.prems(4) by (simp add: e)
  show ?case
  proof (cases "if se_Payload msg = '''' then None else ce_decode env (se_Payload msg)")
    case None
    then have w1: "w1 = w" and evs: "batch_events env (msg # msgs) = batch_events env msgs"
      using e by (auto simp: process_entry_def batch_events_def split: if_splits option.splits)
    have "targets_exist env (batch_events env msgs)" using Cons.prems(3) evs by simp
    from Cons.IH [OF Cons.prems(1,2) this rest [unfolded w1]]
    show ?thesis using evs by (auto split: if_splits)
  next
    case (Some ev)
    then have w1: "w1 = deliver env ev w" and evs: "batch_events env (msg # msgs) = ev # batch_events env msgs"
      using e by (auto simp: process_entry_def batch_events_def split: if_splits option.splits)
    have tg: "set (event_targets env ev) \<subseteq> ce_webhooks env (en_ProjectID ev)" "targets_exist env (batch_events env msgs)"
      using Cons.prems(3) by (auto simp: evs targets_exist_def)
    note d = deliver_all [OF Cons.prems(1,2) tg(1)]
    have ih: "\<forall>ev \<in> set (batch_events env msgs). delivered w' env ev" "ids_fresh env w'"
        "\<forall>p. \<exists>new. cs_deliveries w' p = cs_deliveries w1 p @ new" "cs_watermark w' = cs_watermark w1"
        "(if m < seq then seq else m) \<le> m'"
      using Cons.IH [OF Cons.prems(1) _ tg(2) rest] d(2) by (auto simp: w1)
    have "delivered w1 env ev" using d(1) by (simp add: delivered_def w1)
    with ih(3) have "delivered w' env ev" using delivered_mono by blast
    moreover have "\<exists>new. cs_deliveries w' p = cs_deliveries w p @ new" for p
    proof -
      obtain n1 n2 where "cs_deliveries w1 p = cs_deliveries w p @ n1" "cs_deliveries w' p = cs_deliveries w1 p @ n2"
        using ih(3) d(3) [of p] unfolding w1 by blast
      then show ?thesis by simp
    qed
    ultimately show ?thesis
      using ih(1,2,4,5) d(4) by (auto simp: evs w1 split: if_splits)
  qed
qed

text \<open>A pair of webhook and event that has a row gets no second one.\<close>

lemma create_rows_distinct:
  "distinct (map delivery_event tbl) \<Longrightarrow> distinct (map delivery_event (snd (create_delivery_rows whs items n tbl)))"
  by (induction whs items n tbl rule: create_delivery_rows.induct) auto

lemma deliver_distinct:
  assumes "\<forall>p. distinct (map delivery_event (cs_deliveries w p))"
  shows "distinct (map delivery_event (cs_deliveries (deliver env ev w) p))"
  using assms create_rows_distinct
  by (auto simp: deliver_def deliver_system_def enqueue_def create_deliveries_def Let_def
    split: if_splits option.splits prod.splits) (metis snd_conv)+

lemma process_entries_distinct:
  "\<forall>p. distinct (map delivery_event (cs_deliveries w p)) \<Longrightarrow> process_entries env msgs m w = (m', w') \<Longrightarrow>
   distinct (map delivery_event (cs_deliveries w' p))"
proof (induction msgs arbitrary: m w)
  case Nil
  then show ?case by simp
next
  case (Cons msg msgs)
  obtain seq w1 where e: "process_entry env msg w = (seq, w1)" by force
  then have "\<forall>p. distinct (map delivery_event (cs_deliveries w1 p))"
    using Cons.prems(1) deliver_distinct [OF Cons.prems(1)]
    by (auto simp: process_entry_def split: if_splits option.splits)
  with Cons.IH [of w1] Cons.prems(2) show ?case by (simp add: e)
qed

section \<open>What the backfill cannot reach\<close>

lemma scan_below: "\<forall>r \<in> set outbox. ob_Seq r \<le> a \<Longrightarrow> scan_outbox outbox a b n = []"
proof -
  assume "\<forall>r \<in> set outbox. ob_Seq r \<le> a"
  then have "filter (\<lambda>r. a < ob_Seq r \<and> ob_Seq r \<le> b) outbox = []" by (auto simp: filter_empty_conv)
  then show ?thesis by (simp add: scan_outbox_def)
qed

lemma backfill_below: "\<forall>r \<in> set outbox. ob_Seq r \<le> cs_watermark w \<Longrightarrow> backfill env outbox first w = w"
  by (simp add: backfill_def backfill_loop.simps [of env outbox first "cs_watermark w" w] scan_below Let_def)

section \<open>What the snapshot leaves out\<close>

definition listed :: "(string \<Rightarrow> webhook list option) \<Rightarrow> project_info \<Rightarrow> webhook list" where
  "listed list p = (if pj_Status p = ''active'' then (case list (pj_ID p) of None \<Rightarrow> [] | Some ws \<Rightarrow> ws) else [])"

lemma refresh_loop_full:
  "0 < budget \<Longrightarrow> budget \<le> int (length collected) \<Longrightarrow>
   refresh_loop budget list ps collected failed = (collected, failed)"
  by (induction ps) auto

lemma refresh_loop_cut:
  "0 < budget \<Longrightarrow> int (length collected) \<le> budget \<Longrightarrow>
   budget \<le> int (length collected) + int (length (concat (map (listed list) ps))) \<Longrightarrow>
   refresh_loop budget list (ps @ qs) collected failed = (ws, failed') \<Longrightarrow>
   set ws \<subseteq> set collected \<union> set (concat (map (listed list) ps))"
proof (induction ps arbitrary: collected failed)
  case Nil
  then show ?case by (auto simp: refresh_loop_full)
next
  case (Cons p ps)
  show ?case
  proof (cases "pj_Status p = ''active'' \<and> \<not> budget \<le> int (length collected) \<and> list (pj_ID p) \<noteq> None")
    case False
    then consider "pj_Status p \<noteq> ''active''" | "budget \<le> int (length collected)"
      | "pj_Status p = ''active''" "\<not> budget \<le> int (length collected)" "list (pj_ID p) = None" by auto
    then show ?thesis
    proof cases
      case 1
      with Cons.IH [of collected failed] Cons.prems show ?thesis by (simp add: listed_def)
    next
      case 2
      have "refresh_loop budget list ((p # ps) @ qs) collected failed = (collected, failed)"
        by (rule refresh_loop_full [OF Cons.prems(1) 2])
      with Cons.prems(4) show ?thesis by simp
    next
      case 3
      with Cons.IH [of collected True] Cons.prems show ?thesis by (simp add: listed_def)
    qed
  next
    case True
    then obtain xs where xs: "list (pj_ID p) = Some xs" by blast
    define ws' where "ws' = (if budget < int (length collected + length xs)
      then take (nat (budget - int (length collected))) xs else xs)"
    have run: "refresh_loop budget list (ps @ qs) (collected @ ws') failed = (ws, failed')"
      using Cons.prems(1,4) True xs by (simp add: ws'_def Let_def)
    have l: "listed list p = xs" using True xs by (simp add: listed_def)
    have sub: "set ws' \<subseteq> set xs" by (auto simp: ws'_def dest: in_set_takeD)
    show ?thesis
    proof (cases "budget < int (length collected + length xs)")
      case cut: True
      then have "int (length (collected @ ws')) = budget" using Cons.prems(2) by (simp add: ws'_def)
      with run Cons.prems(1) sub l show ?thesis by (auto simp: refresh_loop_full)
    next
      case whole: False
      then have "ws' = xs" by (simp add: ws'_def)
      with Cons.IH [of "collected @ ws'" failed] Cons.prems(1,3) run whole l sub show ?thesis by auto
    qed
  qed
qed

end
