(* ===== verification/Project_Rotation.thy ===== *)
theory Project_Rotation
  imports Prelude
begin

text \<open>
  The rotating scan of the workers: the cursor of \<^verbatim>\<open>internal/app/shared/rotation.go\<close> and
  the loop over the projects that every worker with a budget has, as in \<^verbatim>\<open>RunDueDeliveries\<close>
  of \<^verbatim>\<open>internal/app/webhooks/deliveries.go\<close>. The cursor's mutex makes each of its
  operations atomic. A scan stops when its budget is used up and goes on from there the next
  time.
\<close>

text \<open>The cursor is the field \<^verbatim>\<open>next\<close>.\<close>

definition rotation_start :: "int \<Rightarrow> int \<Rightarrow> int \<times> int" where
  "rotation_start n cur =
     (if n \<le> 0 then (0, 0) else let cur = (if n \<le> cur then 0 else cur) in (cur, cur))"

definition rotation_resume_at :: "int \<Rightarrow> int \<Rightarrow> int" where
  "rotation_resume_at idx cur = (if idx < 0 then 0 else idx)"

definition rotation_complete :: "int \<Rightarrow> int" where
  "rotation_complete cur = 0"

text \<open>
  The loop: \<open>work idx remaining s\<close> is the work on one active project, with the part of the
  budget it uses. The first component of the result is \<^verbatim>\<open>stopped\<close>.
\<close>

fun scan_loop ::
  "(nat \<Rightarrow> int \<Rightarrow> 's \<Rightarrow> int \<times> 's) \<Rightarrow> (nat \<Rightarrow> bool) \<Rightarrow> nat list \<Rightarrow> int \<Rightarrow> 's \<Rightarrow> int \<times> 's" where
  "scan_loop work active [] remaining s = (- 1, s)"
| "scan_loop work active (idx # order) remaining s =
     (if remaining \<le> 0 then (int idx, s)
      else if \<not> active idx then scan_loop work active order remaining s
      else case work idx remaining s of (used, s') \<Rightarrow> scan_loop work active order (remaining - used) s')"

definition scan_order :: "int \<Rightarrow> nat \<Rightarrow> nat list" where
  "scan_order start n = map (\<lambda>i. nat ((start + int i) mod int n)) [0..<n]"

definition rotation_round ::
  "(nat \<Rightarrow> int \<Rightarrow> 's \<Rightarrow> int \<times> 's) \<Rightarrow> (nat \<Rightarrow> bool) \<Rightarrow> nat \<Rightarrow> int \<Rightarrow> int \<times> 's \<Rightarrow> int \<times> 's" where
  "rotation_round work active n budget st =
     (case st of (cur, s) \<Rightarrow>
      case rotation_start (int n) cur of (start, cur1) \<Rightarrow>
      (case scan_loop work active (scan_order start n) budget s of (stopped, s') \<Rightarrow>
        ((if 0 \<le> stopped then rotation_resume_at stopped cur1 else rotation_complete cur1), s')))"

text \<open>What the work on each project keeps, a whole scan keeps.\<close>

lemma scan_loop_keeps:
  assumes "\<And>idx r s. P s \<Longrightarrow> P (snd (work idx r s))"
  shows "P s \<Longrightarrow> P (snd (scan_loop work active order remaining s))"
proof (induction order arbitrary: remaining s)
  case (Cons idx order)
  obtain used s' where w: "work idx remaining s = (used, s')" by fastforce
  then have "P s'" using assms [OF Cons.prems] by (metis snd_conv)
  with w Cons show ?case by simp
qed simp

lemma rotation_round_keeps:
  assumes "\<And>idx r s. P s \<Longrightarrow> P (snd (work idx r s))" and "P (snd st)"
  shows "P (snd (rotation_round work active n budget st))"
proof -
  have "P (snd (scan_loop work active order remaining (snd st)))" for order remaining
    by (rule scan_loop_keeps [where P = P, OF assms])
  then show ?thesis
    by (simp add: rotation_round_def split: prod.split) (metis snd_conv)
qed

section \<open>Who is served\<close>

text \<open>The projects a scan works on.\<close>

fun scan_visits ::
  "(nat \<Rightarrow> int \<Rightarrow> 's \<Rightarrow> int \<times> 's) \<Rightarrow> (nat \<Rightarrow> bool) \<Rightarrow> nat list \<Rightarrow> int \<Rightarrow> 's \<Rightarrow> nat list" where
  "scan_visits work active [] remaining s = []"
| "scan_visits work active (idx # order) remaining s =
     (if remaining \<le> 0 then []
      else if \<not> active idx then scan_visits work active order remaining s
      else case work idx remaining s of (used, s') \<Rightarrow> idx # scan_visits work active order (remaining - used) s')"

definition round_visits ::
  "(nat \<Rightarrow> int \<Rightarrow> 's \<Rightarrow> int \<times> 's) \<Rightarrow> (nat \<Rightarrow> bool) \<Rightarrow> nat \<Rightarrow> int \<Rightarrow> int \<times> 's \<Rightarrow> nat list" where
  "round_visits work active n budget st =
     scan_visits work active (scan_order (fst (rotation_start (int n) (fst st))) n) budget (snd st)"

text \<open>Successive scans, each with its own work and budget; the visits of each of them.\<close>

type_synonym 's round = "(nat \<Rightarrow> int \<Rightarrow> 's \<Rightarrow> int \<times> 's) \<times> (nat \<Rightarrow> bool) \<times> int"

fun rounds_visits :: "nat \<Rightarrow> 's round list \<Rightarrow> int \<times> 's \<Rightarrow> nat list list" where
  "rounds_visits n [] st = []"
| "rounds_visits n ((work, active, budget) # rs) st =
     round_visits work active n budget st # rounds_visits n rs (rotation_round work active n budget st)"

lemma scan_loop_outcome:
  "scan_loop work active order remaining s = (stopped, s') \<Longrightarrow>
   (stopped = -1 \<and> set (scan_visits work active order remaining s) = {i \<in> set order. active i}) \<or>
   (\<exists>m < length order. stopped = int (order ! m) \<and> (0 < remaining \<longrightarrow> 0 < m) \<and>
      set (scan_visits work active order remaining s) = {i \<in> set (take m order). active i})"
proof (induction work active order remaining s rule: scan_loop.induct)
  case (1 work active remaining s)
  then show ?case by simp
next
  case (2 work active idx order remaining s)
  let ?G = "\<lambda>order vis remaining. (stopped = -1 \<and> set vis = {i \<in> set order. active i}) \<or>
     (\<exists>m < length order. stopped = int (order ! m) \<and> (0 < remaining \<longrightarrow> 0 < m) \<and>
        set vis = {i \<in> set (take m order). active i})"
  have lift: "?G (idx # order) vis' r'"
    if "?G order vis r" "set vis' = (if active idx then insert idx (set vis) else set vis)" for vis vis' r r'
    using that(1)
  proof (elim disjE exE conjE)
    assume "stopped = -1" "set vis = {i \<in> set order. active i}"
    then show ?thesis using that(2) by (intro disjI1) auto
  next
    fix m assume "m < length order" "stopped = int (order ! m)" "set vis = {i \<in> set (take m order). active i}"
    then show ?thesis using that(2) by (intro disjI2 exI [of _ "Suc m"]) auto
  qed
  consider "remaining \<le> 0" | "0 < remaining" "\<not> active idx" | "0 < remaining" "active idx" by linarith
  then show ?case
  proof cases
    case 1
    then show ?thesis using 2(3) by (intro disjI2 exI [of _ 0]) auto
  next
    case 2
    then have a: "\<not> remaining \<le> 0" "scan_loop work active order remaining s = (stopped, s')"
      using \<open>scan_loop work active (idx # order) remaining s = _\<close> by simp_all
    show ?thesis by (rule lift [OF "2.IH"(1) [OF a(1) 2(2) a(2)]]) (use 2 in simp)
  next
    case 3
    obtain used s1 where w: "work idx remaining s = (used, s1)" by force
    then have a: "\<not> remaining \<le> 0" "scan_loop work active order (remaining - used) s1 = (stopped, s')"
      using 3 \<open>scan_loop work active (idx # order) remaining s = _\<close> by simp_all
    have nn: "\<not> \<not> active idx" using 3 by simp
    show ?thesis by (rule lift [OF "2.IH"(2) [OF a(1) nn w [symmetric] a(2)]]) (use 3 w in simp_all)
  qed
qed

text \<open>How far \<open>j\<close> is ahead of the cursor.\<close>

definition ahead :: "nat \<Rightarrow> nat \<Rightarrow> int \<Rightarrow> nat" where
  "ahead n j cur = nat ((int j - fst (rotation_start (int n) cur)) mod int n)"

lemma rotation_start_range:
  "0 < n \<Longrightarrow> 0 \<le> cur \<Longrightarrow> 0 \<le> fst (rotation_start (int n) cur) \<and> fst (rotation_start (int n) cur) < int n"
  by (simp add: rotation_start_def Let_def)

lemma ahead_less: "0 < n \<Longrightarrow> ahead n j cur < n"
  by (simp add: ahead_def nat_less_iff)

lemma scan_order_ahead: "j < n \<Longrightarrow> scan_order (fst (rotation_start (int n) cur)) n ! ahead n j cur = j"
proof -
  assume j: "j < n"
  let ?s = "fst (rotation_start (int n) cur)"
  have "(?s + (int j - ?s) mod int n) mod int n = int j"
    using j by (simp add: mod_simps)
  then show ?thesis
    using j ahead_less [of n j cur] by (simp add: scan_order_def ahead_def)
qed

lemma round_outcome:
  assumes "rotation_round work active n budget (cur, s) = (cur', s')" and "0 < budget" "0 < n" "0 \<le> cur"
    and "j < n" "active j" "j \<notin> set (round_visits work active n budget (cur, s))"
  shows "0 \<le> cur' \<and> ahead n j cur' < ahead n j cur"
proof -
  let ?s = "fst (rotation_start (int n) cur)" and ?order = "scan_order (fst (rotation_start (int n) cur)) n"
  obtain stopped where l: "scan_loop work active ?order budget s = (stopped, s')"
      and cur': "cur' = (if 0 \<le> stopped then stopped else 0)"
    using assms(1) by (auto simp: rotation_round_def rotation_resume_at_def rotation_complete_def split: prod.splits)
  have len: "length ?order = n" by (simp add: scan_order_def)
  have "j \<in> set ?order"
    using nth_mem [of "ahead n j cur" ?order] scan_order_ahead [OF assms(5)] ahead_less [OF assms(3)] len by metis
  moreover have v: "j \<notin> set (scan_visits work active ?order budget s)"
    using assms(7) by (simp add: round_visits_def)
  ultimately obtain m where m: "m < n" "stopped = int (?order ! m)" "0 < m"
      "set (scan_visits work active ?order budget s) = {i \<in> set (take m ?order). active i}"
    using scan_loop_outcome [OF l] assms(2,6) len by auto
  have le: "m \<le> ahead n j cur"
  proof (rule ccontr)
    assume "\<not> m \<le> ahead n j cur"
    then have "take m ?order ! ahead n j cur = j" "ahead n j cur < length (take m ?order)"
      using scan_order_ahead [OF assms(5), of cur] m(1) len by simp_all
    then have "j \<in> set (take m ?order)" by (metis nth_mem)
    with v m(4) assms(6) show False by blast
  qed
  have "int (?order ! m) = (?s + int m) mod int n"
    using m(1) assms(3) by (simp add: scan_order_def)
  then have c: "cur' = (?s + int m) mod int n"
    using m(2) cur' by simp
  then have r: "0 \<le> cur'" "cur' < int n" using assms(3) by simp_all
  have a: "int (ahead n j cur) = (int j - ?s) mod int n" using assms(3) by (simp add: ahead_def)
  have "fst (rotation_start (int n) cur') = cur'" using r by (simp add: rotation_start_def Let_def)
  then have "int (ahead n j cur') = (int j - (?s + int m)) mod int n"
    using c assms(3) by (simp add: ahead_def mod_simps)
  also have "\<dots> = ((int j - ?s) mod int n - int m) mod int n" by (simp add: mod_simps algebra_simps)
  also have "\<dots> = int (ahead n j cur) - int m"
    using le m(1) ahead_less [OF assms(3), of j cur] unfolding a [symmetric] by simp
  finally show ?thesis using m(3) r by simp
qed

lemma rounds_reach:
  "0 < n \<Longrightarrow> j < n \<Longrightarrow> 0 \<le> fst st \<Longrightarrow> \<forall>(work, active, budget) \<in> set rs. active j \<and> 0 < budget \<Longrightarrow>
   ahead n j (fst st) < length rs \<Longrightarrow> \<exists>v \<in> set (rounds_visits n rs st). j \<in> set v"
proof (induction rs arbitrary: st)
  case Nil
  then show ?case by simp
next
  case (Cons r rs)
  obtain work active budget where r: "r = (work, active, budget)" by (cases r)
  obtain cur s where st: "st = (cur, s)" by (cases st)
  obtain cur' s' where st': "rotation_round work active n budget st = (cur', s')" by force
  show ?case
  proof (cases "j \<in> set (round_visits work active n budget st)")
    case True
    then show ?thesis by (simp add: r)
  next
    case False
    have "0 \<le> cur' \<and> ahead n j cur' < ahead n j cur"
      by (rule round_outcome [OF st' [unfolded st]]) (use Cons.prems False in \<open>auto simp: r st\<close>)
    with Cons.IH [of "(cur', s')"] Cons.prems st' show ?thesis by (auto simp: r st)
  qed
qed

end
