(* ===== verification/Worker_Scans.thy ===== *)
theory Worker_Scans
  imports Webhook_Events Project_Rotation Asset_Service
begin

text \<open>
  The scans of the workers over all projects, each with a budget and the rotating cursor of
  theory \<^verbatim>\<open>Project_Rotation\<close>: due deliveries (\<^verbatim>\<open>internal/app/webhooks/deliveries.go\<close>),
  due cron triggers (\<^verbatim>\<open>internal/app/functions/triggers.go\<close>), orphaned invocations
  (\<^verbatim>\<open>invocations.go\<close> there) and expired holdings (\<^verbatim>\<open>internal/app/assets/expire.go\<close>).
\<close>

definition project_active :: "project_info list \<Rightarrow> nat \<Rightarrow> bool" where
  "project_active projects i \<longleftrightarrow> pj_Status (projects ! i) = ''active''"

section \<open>Due deliveries\<close>

record delivery_world =
  dw_webhooks :: "string \<Rightarrow> webhook list"
  dw_deliveries :: "string \<Rightarrow> delivery list"
  dw_attempted :: int
  dw_sent :: "notification list"

text \<open>
  The goroutines of a batch work on different rows with one statement each, so the model runs
  them one after the other.
\<close>

definition run_delivery_claims ::
  "delivery_env \<Rightarrow> string \<Rightarrow> delivery list \<Rightarrow> gtime \<Rightarrow> delivery_world \<Rightarrow> delivery_world" where
  "run_delivery_claims env project claims now w =
     fold (\<lambda>claim w. case deliver_one env project claim now (dw_webhooks w project) (dw_deliveries w project) of
        (n, tbl) \<Rightarrow> w\<lparr>dw_deliveries := (dw_deliveries w)(project := tbl),
          dw_sent := dw_sent w @ (case n of None \<Rightarrow> [] | Some x \<Rightarrow> [x])\<rparr>) claims w"

definition due_work ::
  "delivery_env \<Rightarrow> (string \<Rightarrow> nat \<Rightarrow> bool) \<Rightarrow> delivery_policy \<Rightarrow> gtime \<Rightarrow> project_info list \<Rightarrow>
    nat \<Rightarrow> int \<Rightarrow> delivery_world \<Rightarrow> int \<times> delivery_world" where
  "due_work env fails pol now projects idx remaining w =
     (let pr = pj_ID (projects ! idx)
      in case claim_due (fails pr) (\<lambda>d. plan_attempt pol d now) pr now remaining (dw_deliveries w pr) of
          (None, tbl) \<Rightarrow> (0, w\<lparr>dw_deliveries := (dw_deliveries w)(pr := tbl)\<rparr>)
        | (Some claims, tbl) \<Rightarrow>
            let w1 = w\<lparr>dw_deliveries := (dw_deliveries w)(pr := tbl), dw_attempted := dw_attempted w + int (length claims)\<rparr>
            in (int (length claims), run_delivery_claims env pr claims now w1))"

definition run_due_deliveries ::
  "delivery_env \<Rightarrow> (string \<Rightarrow> nat \<Rightarrow> bool) \<Rightarrow> delivery_policy \<Rightarrow> gtime \<Rightarrow> int \<Rightarrow> project_info list \<Rightarrow>
    int \<times> delivery_world \<Rightarrow> int \<times> delivery_world" where
  "run_due_deliveries env fails pol now budget projects st =
     rotation_round (due_work env fails pol now projects) (project_active projects) (length projects) budget
       (fst st, (snd st)\<lparr>dw_attempted := 0\<rparr>)"

text \<open>The prune of old rows: no cursor, at most 500 rows of a project.\<close>

fun prune_old_deliveries ::
  "gtime \<Rightarrow> int \<Rightarrow> project_info list \<Rightarrow> int \<Rightarrow> (string \<Rightarrow> delivery list) \<Rightarrow> int \<times> (string \<Rightarrow> delivery list)" where
  "prune_old_deliveries cutoff budget [] pruned tbls = (pruned, tbls)"
| "prune_old_deliveries cutoff budget (p # ps) pruned tbls =
     (if pj_Status p \<noteq> ''active'' then prune_old_deliveries cutoff budget ps pruned tbls
      else if 0 < budget \<and> budget \<le> pruned then (pruned, tbls)
      else case prune_terminal (pj_ID p) cutoff 500 (tbls (pj_ID p)) of (n, tbl) \<Rightarrow>
        prune_old_deliveries cutoff budget ps (pruned + n) (tbls(pj_ID p := tbl)))"

section \<open>Due cron triggers\<close>

record cron_world =
  kw_triggers :: "string \<Rightarrow> trigger list"
  kw_dispatched :: "cron_claim list"

text \<open>\<open>invoke c\<close>: the invocation of the function could be queued.\<close>

definition dispatch_claims ::
  "(cron_claim \<Rightarrow> bool) \<Rightarrow> gtime \<Rightarrow> string \<Rightarrow> cron_claim list \<Rightarrow> cron_world \<Rightarrow> cron_world" where
  "dispatch_claims invoke now pr claims w =
     fold (\<lambda>c w. if invoke c then w\<lparr>kw_dispatched := kw_dispatched w @ [c]\<rparr>
        else w\<lparr>kw_triggers := (kw_triggers w)(pr := undo_cron_claim c now (kw_triggers w pr))\<rparr>) claims w"

definition cron_work ::
  "(cron_claim \<Rightarrow> bool) \<Rightarrow> (string \<Rightarrow> nat \<Rightarrow> bool) \<Rightarrow> gtime \<Rightarrow> project_info list \<Rightarrow> nat \<Rightarrow> int \<Rightarrow> cron_world \<Rightarrow>
    int \<times> cron_world" where
  "cron_work invoke fails now projects idx remaining w =
     (let pr = pj_ID (projects ! idx)
      in case claim_due_cron (fails pr) pr now remaining (kw_triggers w pr) of
          (None, tbl) \<Rightarrow> (0, w\<lparr>kw_triggers := (kw_triggers w)(pr := tbl)\<rparr>)
        | (Some claims, tbl) \<Rightarrow>
            (int (length claims), dispatch_claims invoke now pr claims (w\<lparr>kw_triggers := (kw_triggers w)(pr := tbl)\<rparr>)))"

definition dispatch_due_cron_triggers ::
  "(cron_claim \<Rightarrow> bool) \<Rightarrow> (string \<Rightarrow> nat \<Rightarrow> bool) \<Rightarrow> gtime \<Rightarrow> int \<Rightarrow> project_info list \<Rightarrow>
    int \<times> cron_world \<Rightarrow> int \<times> cron_world" where
  "dispatch_due_cron_triggers invoke fails now budget projects st =
     rotation_round (cron_work invoke fails now projects) (project_active projects) (length projects) budget
       (fst st, (snd st)\<lparr>kw_dispatched := []\<rparr>)"

section \<open>Orphaned invocations\<close>

record invocation =
  iv_ID :: string
  iv_ProjectID :: string
  iv_Status :: string
  iv_Error :: string
  iv_TimeoutSeconds :: int
  iv_UpdatedAt :: gtime

definition orphan_grace_seconds :: int where "orphan_grace_seconds = 120"

definition orphan :: "string \<Rightarrow> gtime \<Rightarrow> invocation \<Rightarrow> bool" where
  "orphan pr now r \<longleftrightarrow> iv_ProjectID r = pr \<and> iv_Status r \<in> {''queued'', ''running''} \<and>
     iv_UpdatedAt r < now - (iv_TimeoutSeconds r + orphan_grace_seconds) * sec"

definition recover_orphans_in_project :: "string \<Rightarrow> gtime \<Rightarrow> int \<Rightarrow> invocation list \<Rightarrow> int \<times> invocation list" where
  "recover_orphans_in_project pr now limit tbl =
     (if limit \<le> 0 then (0, tbl)
      else let ids = map iv_ID (take (nat limit) (sort_key iv_UpdatedAt (filter (orphan pr now) tbl)))
        in (int (length (filter (\<lambda>r. iv_ID r \<in> set ids) tbl)),
            map (\<lambda>r. if iv_ID r \<in> set ids then r\<lparr>iv_Status := ''failed'', iv_Error := ''orphaned invocation recovered'',
              iv_UpdatedAt := now\<rparr> else r) tbl))"

definition recover_orphan_batch :: int where "recover_orphan_batch = 500"

definition recover_work ::
  "gtime \<Rightarrow> project_info list \<Rightarrow> nat \<Rightarrow> int \<Rightarrow> (string \<Rightarrow> invocation list) \<Rightarrow> int \<times> (string \<Rightarrow> invocation list)" where
  "recover_work now projects idx remaining tbls =
     (let pr = pj_ID (projects ! idx)
      in case recover_orphans_in_project pr now remaining (tbls pr) of (n, tbl) \<Rightarrow> (n, tbls(pr := tbl)))"

definition recover_orphan_invocations ::
  "gtime \<Rightarrow> project_info list \<Rightarrow> int \<times> (string \<Rightarrow> invocation list) \<Rightarrow> int \<times> (string \<Rightarrow> invocation list)" where
  "recover_orphan_invocations now projects st =
     rotation_round (recover_work now projects) (project_active projects) (length projects) recover_orphan_batch st"

section \<open>Expired holdings\<close>

definition expire_project_batch :: int where "expire_project_batch = 500"

text \<open>An error of one project is logged and its rows wait for the next scan.\<close>

definition expire_work ::
  "asset_env \<Rightarrow> (holding \<Rightarrow> bool) \<Rightarrow> string option \<Rightarrow> gtime \<Rightarrow> project_info list \<Rightarrow> nat \<Rightarrow> int \<Rightarrow> asset_world \<Rightarrow> int \<times> asset_world" where
  "expire_work e locked operator now projects idx remaining w =
     (case expire_due e locked \<lparr>sc_ProjectID = pj_ID (projects ! idx), sc_Operator = operator\<rparr> now remaining w of
        (Inl _, w') \<Rightarrow> (0, w')
      | (Inr n, w') \<Rightarrow> (n, w'))"

definition expire_due_holdings ::
  "asset_env \<Rightarrow> (holding \<Rightarrow> bool) \<Rightarrow> string option \<Rightarrow> gtime \<Rightarrow> project_info list \<Rightarrow> int \<times> asset_world \<Rightarrow> int \<times> asset_world" where
  "expire_due_holdings e locked operator now projects st =
     rotation_round (expire_work e locked operator now projects) (project_active projects) (length projects)
       expire_project_batch st"

end
