(* ===== verification/Webhook_Properties.thy ===== *)
theory Webhook_Properties
  imports Worker_Scans
begin

text \<open>
  The properties of event subscriptions, webhooks, their deliveries and the rotating scans,
  each with a witness at a concrete input.
\<close>

section \<open>Subscriptions\<close>

text \<open>
  C20. The text of a document pattern is parsed back to the pattern, and no other text gives
  that pattern.
\<close>

theorem pattern_document_roundtrip:
  assumes "CHR ''.'' \<notin> set d" "CHR ''.'' \<notin> set c" "d \<notin> {'''', ''*''}" "c \<noteq> ''''"
    and "op \<in> {''create'', ''update'', ''delete'', ''*''}"
    and "length d + length c + length op \<le> 165"
  defines "p \<equiv> \<lparr>ep_Kind = ''document'', ep_DatabaseID = d, ep_CollectionID = c, ep_Op = op, ep_SystemEvents = []\<rparr>"
  shows "parse_event_pattern (pattern_string p) = Inr p \<and> (\<forall>s. parse_event_pattern s = Inr p \<longrightarrow> s = pattern_string p)"
proof
  have p: "p = document_pattern d c op" by (simp add: p_def document_pattern_def)
  have s: "pattern_string p = document_string d c op"
    by (simp add: p_def pattern_string_def document_string_def)
  show "parse_event_pattern (pattern_string p) = Inr p"
    unfolding s unfolding p by (rule parse_document_string [OF assms(1-5)]) (use assms(6) in \<open>simp add: document_string_def\<close>)
  show "\<forall>s. parse_event_pattern s = Inr p \<longrightarrow> s = pattern_string p"
  proof (intro allI impI)
    fix s' assume a: "parse_event_pattern s' = Inr p"
    have "has_prefix ''databases.'' s'" using parse_kind [OF a] by (simp add: p_def split: if_splits)
    with a show "s' = pattern_string p"
      by (rule parse_document) (simp add: p document_pattern_def pattern_string_def document_string_def)
  qed
qed

theorem pattern_document_roundtrip_witness:
  "parse_event_pattern ''databases.blog.collections.*.documents.create'' =
     Inr \<lparr>ep_Kind = ''document'', ep_DatabaseID = ''blog'', ep_CollectionID = ''*'', ep_Op = ''create'', ep_SystemEvents = []\<rparr>"
  using pattern_document_roundtrip [of "''blog''" "''*''" "''create''"] by (simp add: pattern_string_def)

text \<open>
  C21. A system pattern resolves to exactly the catalog events it denotes, each once, and it
  is an error if there is none.
\<close>

theorem system_pattern_resolves:
  "case resolve_system_patterns s of
     Inr names \<Rightarrow> names \<noteq> [] \<and> distinct names \<and> set names = {e \<in> set system_events. covers s e}
   | Inl _ \<Rightarrow> \<not> (\<exists>e \<in> set system_events. covers s e)"
  using resolve_Inr [of s] resolve_covers [of _ s] by (cases "resolve_system_patterns s") auto

lemma trigger_ids_filter:
  "(\<And>raw. P raw \<longleftrightarrow> (\<exists>p. parse_event_pattern raw = Inr p \<and> hit p)) \<Longrightarrow>
   map es_TriggerID (map (trigger_subscription t) (filter hit (parsed_patterns es))) = map (\<lambda>_. tr_ID t) (filter P es)"
  by (induction es) (auto simp: trigger_subscription_def split: sum.splits)

text \<open>
  C22. The index of event triggers delivers an event once for every event string that asks for
  it, of every enabled event trigger of the project, in the order of the triggers; a string is
  matched as it is written, whatever was parsed from it.
\<close>

theorem trigger_index_reference:
  assumes "document_event d c op"
  shows "map es_TriggerID (trigger_match (new_event_trigger_index trgs) pr d c op) =
      concat (map (\<lambda>t. map (\<lambda>_. tr_ID t) (filter (\<lambda>raw. wants_document raw d c op) (cf_Events (tr_Config t))))
        (filter (\<lambda>t. tr_Type t = ''event'' \<and> tr_Enabled t \<and> tr_ProjectID t = pr) trgs)) \<and>
    map es_TriggerID (trigger_match_system (new_event_trigger_index trgs) pr e) =
      concat (map (\<lambda>t. map (\<lambda>_. tr_ID t) (filter (\<lambda>raw. wants_system raw e) (cf_Events (tr_Config t))))
        (filter (\<lambda>t. tr_Type t = ''event'' \<and> tr_Enabled t \<and> tr_ProjectID t = pr) trgs))"
proof -
  have live: "event_trigger_live t \<and> tr_ProjectID t = pr \<longleftrightarrow> tr_Type t = ''event'' \<and> tr_Enabled t \<and> tr_ProjectID t = pr" for t
    by (auto simp: event_trigger_live_def)
  show ?thesis
    unfolding trigger_match_eq trigger_match_system_eq live map_concat map_map comp_def
    using trigger_ids_filter [OF wants_document_iff [OF assms]] trigger_ids_filter [OF wants_system_iff]
    by (simp add: comp_def)
qed

definition demo_event_trigger :: trigger where
  "demo_event_trigger = \<lparr>tr_ID = ''t1'', tr_ProjectID = ''p1'', tr_FunctionID = ''f1'', tr_Type = ''event'',
     tr_Config = \<lparr>cf_ResponseMode = '''', cf_AckBody = '''', cf_Handshake = '''', cf_BodyLimitBytes = 0,
       cf_Expr = '''', cf_Misfire = '''',
       cf_Events = [''databases.blog.collections.*.documents.create'', ''auth.users.*'',
         ''databases.blog.collections.posts.documents.*'', ''auth.oops'']\<rparr>,
     tr_Token = '''', tr_Enabled = True, tr_NextRunAt = None\<rparr>"

theorem trigger_index_reference_witness:
  "map es_TriggerID (trigger_match (new_event_trigger_index [demo_event_trigger]) ''p1'' ''blog'' ''posts'' ''create'') = [''t1'', ''t1'']"
proof -
  have "document_event ''blog'' ''posts'' ''create''" by (simp add: document_event_def)
  note * = conjunct1 [OF trigger_index_reference [OF this, of "[demo_event_trigger]" "''p1''"]]
  show ?thesis
    unfolding * by (simp add: demo_event_trigger_def wants_document_def document_string_def)
qed

text \<open>
  C23. The index of the webhooks gives each webhook at most once for an event, and exactly the
  enabled webhooks of the project of which an event string asks for it.
\<close>

theorem webhook_index_reference:
  assumes "document_event d c op"
  shows "distinct (subscription_index_match (new_subscription_index ws) pr d c op) \<and>
    set (subscription_index_match (new_subscription_index ws) pr d c op) =
      {wh_ID w | w. w \<in> set ws \<and> wh_Status w = ''enabled'' \<and> wh_ProjectID w = pr \<and>
         (\<exists>raw \<in> set (wh_Events w). wants_document raw d c op)} \<and>
    distinct (subscription_index_match_system (new_subscription_index ws) pr e) \<and>
    set (subscription_index_match_system (new_subscription_index ws) pr e) =
      {wh_ID w | w. w \<in> set ws \<and> wh_Status w = ''enabled'' \<and> wh_ProjectID w = pr \<and>
         (\<exists>raw \<in> set (wh_Events w). wants_system raw e)}"
  unfolding wants_document_iff [OF assms] wants_system_iff webhook_enabled_def [symmetric] conj_assoc [symmetric]
  by (intro conjI subscription_match_correct [THEN conjunct1] subscription_match_system_correct [THEN conjunct1]
    subscription_match_correct [THEN conjunct2, unfolded conj_assoc [symmetric]]
    subscription_match_system_correct [THEN conjunct2, unfolded conj_assoc [symmetric]])

definition demo_webhook :: webhook where
  "demo_webhook = \<lparr>wh_ID = ''wh-1'', wh_ProjectID = ''p1'', wh_URL = ''https://a.b/c'',
     wh_Events = [''databases.blog.collections.*.documents.create'', ''databases.blog.collections.posts.documents.*'',
       ''payments.*''], wh_Status = ''enabled'', wh_SecretEnc = ''enc:k'', wh_PreviousSecretEnc = '''',
     wh_SecretRotatedAt = zero_time, wh_SecretFingerprint = '''', wh_CreatedAt = 0, wh_UpdatedAt = 0\<rparr>"

theorem webhook_index_reference_witness:
  "set (subscription_index_match (new_subscription_index [demo_webhook]) ''p1'' ''blog'' ''posts'' ''create'') = {''wh-1''}"
proof -
  have "document_event ''blog'' ''posts'' ''create''" by (simp add: document_event_def)
  note * = webhook_index_reference [OF this, of "[demo_webhook]" "''p1''" "''payments.orders.paid''"]
  show ?thesis
    using * by (simp add: demo_webhook_def wants_document_def document_string_def)
qed

section \<open>Webhooks\<close>

text \<open>
  C24. Whatever calls create, update, rotate and delete the webhooks of a project, and with
  whatever outcome, every webhook has an https address of at most 2048 bytes, between one and
  64 different event strings that all parse, and a known status; their ids differ.
\<close>

theorem webhooks_stay_valid:
  "webhooks_ok (run_webhooks calls [])"
  by (rule run_webhooks_ok) (simp add: webhooks_ok_def)

text \<open>
  C25. After a rotation a delivery is signed with the new key at once, and with the old key as
  well exactly as long as the grace period lasts.
\<close>

theorem rotation_keeps_old_key:
  assumes "rotate_webhook_secret env pr i tbl = Inr (w', secret, tbl')"
    and "webhook_get pr i tbl = Inr w" and "we_decrypt env (wh_SecretEnc w) = Some old"
    and "\<And>s e. we_encrypt env s = Some e \<Longrightarrow> we_decrypt env e = Some s"
    and "wh_SecretEnc w \<noteq> ''''" and "we_now env \<noteq> zero_time" and "0 < we_secretGrace env"
  shows "effective_secrets (env\<lparr>we_now := t\<rparr>) w' =
    Inr (secret, if t - we_now env < we_secretGrace env then old else '''')"
  by (rule rotate_keeps_old_key [OF assms])

definition demo_webhook_env :: webhook_env where
  "demo_webhook_env = \<lparr>we_server = True, we_now = 1700000000 * sec, we_random = Some ''abc'',
     we_encrypt = (\<lambda>s. Some (''enc:'' @ s)), we_decrypt = cut_prefix ''enc:'', we_sha = (\<lambda>_. ''0123456789''),
     we_uuid = ''u1'', we_count_ok = True, we_maxPerProject = 32, we_secretGrace = 24 * hour\<rparr>"

theorem rotation_keeps_old_key_witness:
  "case rotate_webhook_secret demo_webhook_env ''p1'' ''wh-1'' [demo_webhook] of
     Inr (w', secret, tbl') \<Rightarrow>
       effective_secrets (demo_webhook_env\<lparr>we_now := 1700000000 * sec + 23 * hour\<rparr>) w' = Inr (''whsec_abc'', ''k'')
   | Inl _ \<Rightarrow> False"
proof -
  obtain w' tbl' where r: "rotate_webhook_secret demo_webhook_env ''p1'' ''wh-1'' [demo_webhook] = Inr (w', ''whsec_abc'', tbl')"
    by (simp add: rotate_webhook_secret_def demo_webhook_env_def demo_webhook_def webhook_get_def webhook_is_def
      generate_secret_def webhook_update_row_def Let_def)
  have "effective_secrets (demo_webhook_env\<lparr>we_now := 1700000000 * sec + 23 * hour\<rparr>) w' =
      Inr (''whsec_abc'', if 1700000000 * sec + 23 * hour - we_now demo_webhook_env < we_secretGrace demo_webhook_env then ''k'' else '''')"
    by (rule rotation_keeps_old_key [OF r, of demo_webhook])
      (auto simp: webhook_get_def webhook_is_def demo_webhook_def demo_webhook_env_def zero_time_def day_ns_def sec_def hour_def minute_def)
  moreover have "1700000000 * sec + 23 * hour - we_now demo_webhook_env < we_secretGrace demo_webhook_env"
    by (simp add: demo_webhook_env_def hour_def minute_def sec_def)
  ultimately show ?thesis
    by (simp only: r sum.case prod.case if_True)
qed

end
