(* ===== verification/Delivery_Properties.thy ===== *)
theory Delivery_Properties
  imports Worker_Scans
begin

text \<open>
  The properties of the deliveries of webhooks, of the consumer that creates them and of the
  rotating scans, each with a witness at a concrete input.
\<close>

section \<open>Deliveries\<close>

text \<open>
  C26. Under any interleaving of creations, claims, outcomes, redeliveries and prunes, every
  row keeps a known status and between zero and \<^verbatim>\<open>MaxAttempts\<close> attempts, at most 100
  whatever is configured; ids are unique, and so is the pair of webhook and event.
\<close>

theorem delivery_rows_bounded:
  "deliveries_ok (new_delivery_policy backoff maxAttempts window)
     (snd (run_steps (new_delivery_policy backoff maxAttempts window) pr sts [])) \<and>
   1 \<le> dp_MaxAttempts (new_delivery_policy backoff maxAttempts window) \<and>
   dp_MaxAttempts (new_delivery_policy backoff maxAttempts window) \<le> 100"
proof -
  have b: "1 \<le> dp_MaxAttempts (new_delivery_policy backoff maxAttempts window)"
    "dp_MaxAttempts (new_delivery_policy backoff maxAttempts window) \<le> 100"
    by (simp_all add: new_delivery_policy_def default_max_attempts_def max_attempts_ceiling_def Let_def)
  then show ?thesis by (intro conjI run_steps_ok) (simp_all add: deliveries_ok_def)
qed

text \<open>
  C27. Any interleaving of all statements on the rows of a project: claims of any number of
  scans on snapshots of any age, outcomes, the creation, the redelivery and the pruning of rows.
  As long as a delivery is not redelivered by hand itself, and its id is not drawn again, none of
  its attempts is given out twice, and it is given out at most \<^verbatim>\<open>MaxAttempts\<close> times: the
  retries end.
\<close>

theorem delivery_attempt_claimed_once:
  assumes "run_steps pol pr sts tbl = (claims, tbl')" and "deliveries_ok pol tbl"
    and "\<forall>st \<in> set sts. spares_row i st"
  shows "distinct (map dl_Attempts (filter (\<lambda>c. dl_ID c = i) claims)) \<and>
    int (length (filter (\<lambda>c. dl_ID c = i) claims)) \<le> max 0 (dp_MaxAttempts pol)"
proof
  let ?cs = "filter (\<lambda>c. dl_ID c = i) claims"
  have d: "distinct (map dl_ID tbl)" using assms(2) by (simp add: deliveries_ok_def)
  note c = run_steps_claims_of [OF assms(1) d assms(3)]
  have "inj_on dl_Attempts (set ?cs)" if "inj_on claim_key (set ?cs)"
    using that by (auto simp: inj_on_def claim_key_def)
  with c show "distinct (map dl_Attempts ?cs)" by (simp add: distinct_map)
  have "1 \<le> dl_Attempts x \<and> dl_Attempts x \<le> int (nat (dp_MaxAttempts pol))" if "x \<in> set ?cs" for x
  proof -
    have "\<not> counted pr (claim_key x) tbl" "dl_Attempts x \<le> dp_MaxAttempts pol" using c that by auto
    then obtain r where "r \<in> set tbl" "dl_Attempts r < dl_Attempts x"
      by (auto simp: counted_def claim_key_def not_le)
    moreover have "0 \<le> dl_Attempts r" using assms(2) \<open>r \<in> set tbl\<close> by (auto simp: deliveries_ok_def row_ok_def)
    ultimately show ?thesis using \<open>dl_Attempts x \<le> dp_MaxAttempts pol\<close> by simp
  qed
  then have "length (filter (\<lambda>c. dl_ID c = i) ?cs) \<le> nat (dp_MaxAttempts pol)"
    using c by (intro claims_per_row) auto
  then show "int (length ?cs) \<le> max 0 (dp_MaxAttempts pol)" by simp
qed

definition demo_delivery :: delivery where
  "demo_delivery = \<lparr>dl_ID = ''whd-1'', dl_ProjectID = ''p1'', dl_WebhookID = ''wh-1'', dl_EventID = ''e1'',
     dl_EventType = ''auth.users.created'', dl_Seq = 1, dl_Payload = ''{}'', dl_Status = ''pending'',
     dl_Attempts = 0, dl_NextAttemptAt = 0, dl_LastResponseCode = 0, dl_LastError = '''',
     dl_CreatedAt = 0, dl_UpdatedAt = 0\<rparr>"

text \<open>
  Two workers with the same snapshot: the second claim is lost, and a third one is due later.
  In between another delivery is redelivered by hand.
\<close>

definition demo_claims :: "delivery_step list" where
  "demo_claims = [StClaim sec demo_delivery, StReset ''wh-1'' ''whd-2'' (2 * sec), StClaim (2 * sec) demo_delivery,
     StRecord ''whd-1'' (3 * sec) 500 ''status 500'']"

theorem delivery_attempt_claimed_once_witness:
  "map dl_Attempts (fst (run_steps default_policy ''p1'' demo_claims [demo_delivery])) = [1] \<and>
   distinct (map dl_Attempts (filter (\<lambda>c. dl_ID c = ''whd-1'') (fst (run_steps default_policy ''p1'' demo_claims [demo_delivery]))))"
proof
  let ?r = "run_steps default_policy ''p1'' demo_claims [demo_delivery]"
  show "map dl_Attempts (fst ?r) = [1]" by code_simp
  have r: "?r = (fst ?r, snd ?r)" by simp
  have ok: "deliveries_ok default_policy [demo_delivery]"
    by (simp add: deliveries_ok_def row_ok_def demo_delivery_def default_policy_fields)
  have spares: "\<forall>st \<in> set demo_claims. spares_row ''whd-1'' st" by (simp add: demo_claims_def)
  show "distinct (map dl_Attempts (filter (\<lambda>c. dl_ID c = ''whd-1'') (fst ?r)))"
    using delivery_attempt_claimed_once [OF r ok spares] by blast
qed

text \<open>
  C28. Under the default policy of 15 attempts in 24 hours a delivery that starts without
  attempts and is not redelivered by hand is attempted at most seven times, whenever the scans
  run: the attempt is refused as soon as the one after it would be outside the window.
\<close>

theorem default_policy_seven_attempts:
  assumes "run_scans default_policy pr scans tbl = (claims, tbl')" and "distinct (map dl_ID tbl)"
    and "\<forall>r \<in> set tbl. dl_Attempts r = 0 \<and> dl_CreatedAt r \<le> dl_NextAttemptAt r"
  shows "length (filter (\<lambda>c. dl_ID c = i) claims) \<le> 7"
proof -
  have "pending_on_schedule tbl"
    using assms(3) by (auto simp: pending_on_schedule_def on_schedule_def default_offsets_def)
  from run_scans_on_schedule [OF assms(1,2) this] obtain sts where
    b: "\<forall>x \<in> set claims. 1 \<le> dl_Attempts x \<and> dl_Attempts x \<le> 7" and
    s: "\<forall>st \<in> set sts. plain_step st" "run_steps default_policy pr sts tbl = (claims, tbl')" by blast
  have "distinct (map claim_key claims)" using run_steps_claims [OF s(2) assms(2) s(1)] by blast
  with b show ?thesis by (intro claims_per_row) simp_all
qed

text \<open>Scans at the second each attempt is due: seven attempts, then failed after 18.6 hours.\<close>

definition demo_scans :: "(gtime \<times> int) list" where
  "demo_scans = map (\<lambda>s. (s * sec, 100)) [0, 10, 70, 370, 2170, 9370, 38170, 66970]"

theorem default_policy_seven_attempts_witness:
  "map dl_Status (snd (run_scans default_policy ''p1'' demo_scans [demo_delivery])) = [''failed''] \<and>
   length (fst (run_scans default_policy ''p1'' demo_scans [demo_delivery])) = 7 \<and>
   length (filter (\<lambda>c. dl_ID c = ''whd-1'') (fst (run_scans default_policy ''p1'' demo_scans [demo_delivery]))) \<le> 7"
proof (intro conjI)
  let ?r = "run_scans default_policy ''p1'' demo_scans [demo_delivery]"
  show "map dl_Status (snd ?r) = [''failed'']" by code_simp
  show "length (fst ?r) = 7" by code_simp
  have r: "?r = (fst ?r, snd ?r)" by simp
  show "length (filter (\<lambda>c. dl_ID c = ''whd-1'') (fst ?r)) \<le> 7"
    by (rule default_policy_seven_attempts [OF r]) (simp_all add: demo_delivery_def)
qed

text \<open>
  C29. A delivery that is redelivered by hand after its window is never attempted: the reset
  keeps the time of creation, so the scan that takes it up marks it failed again.
\<close>

theorem redeliver_after_window_fails:
  assumes "redeliver_delivery server pr wh i now tbl = (Inr d, tbl1)" and "distinct (map dl_ID tbl)"
    and "dl_CreatedAt d + dp_RetryWindow pol < now + backoff_for pol 1" and "now \<le> now'"
    and "claim_delivery (\<lambda>d. plan_attempt pol d now') pr now' d tbl1 = (c, tbl2)"
  shows "c = None \<and> (\<exists>r \<in> set tbl2. dl_ID r = i \<and> dl_Status r = ''failed'' \<and> dl_Attempts r = 0)"
proof -
  from redeliver_Inr [OF assms(1,2)] obtain r where
    d: "d \<in> set tbl1" "dl_Status d = ''pending''" "dl_Attempts d = 0" "dl_ID d = i" "dl_ProjectID d = pr" by blast
  from assms(5) show ?thesis
  proof (cases rule: claim_delivery_cases)
    case terminal
    define d' where "d' = d\<lparr>dl_Status := ''failed'', dl_NextAttemptAt := now', dl_LastResponseCode := 0,
        dl_LastError := ''retry policy exhausted'', dl_UpdatedAt := now'\<rparr>"
    have "d' \<in> set tbl2"
      using d terminal(2) unfolding d'_def by (force simp: mark_failed_def update_outcome_def delivery_is_def)
    moreover have "dl_ID d' = i \<and> dl_Status d' = ''failed'' \<and> dl_Attempts d' = 0"
      using d by (simp add: d'_def)
    ultimately show ?thesis using terminal(1) by blast
  next
    case (attempt nxt)
    then show ?thesis using assms(3,4) d(3) by simp
  qed
qed

definition demo_dlq :: delivery where
  "demo_dlq = demo_delivery\<lparr>dl_Status := ''failed'', dl_Attempts := 7, dl_NextAttemptAt := 66970 * sec\<rparr>"

theorem redeliver_after_window_fails_witness:
  "case redeliver_delivery True ''p1'' ''wh-1'' ''whd-1'' (25 * hour) [demo_dlq] of
     (Inr d, tbl1) \<Rightarrow> (case claim_delivery (\<lambda>d. plan_attempt default_policy d (25 * hour)) ''p1'' (25 * hour) d tbl1 of
        (c, tbl2) \<Rightarrow> c = None)
   | (Inl _, _) \<Rightarrow> False"
proof -
  obtain d tbl1 where r: "redeliver_delivery True ''p1'' ''wh-1'' ''whd-1'' (25 * hour) [demo_dlq] = (Inr d, tbl1)"
      "dl_CreatedAt d = 0"
    by (simp add: redeliver_delivery_def get_delivery_def reset_for_redeliver_def resettable_def delivery_is_def
      demo_dlq_def demo_delivery_def)
  obtain c tbl2 where c: "claim_delivery (\<lambda>d. plan_attempt default_policy d (25 * hour)) ''p1'' (25 * hour) d tbl1 = (c, tbl2)"
    by force
  have "c = None"
    using redeliver_after_window_fails [OF r(1) _ _ order_refl c]
    by (simp add: r(2) default_policy_fields backoff_for_def default_retry_backoff_def hour_def minute_def sec_def)
  then show ?thesis by (simp add: r(1) c)
qed

section \<open>From events to deliveries\<close>

lemma count_list_distinct: "distinct xs \<Longrightarrow> x \<in> set xs \<Longrightarrow> count_list xs x = 1"
  by (induction xs) (auto simp: count_list_0_iff)

text \<open>
  C31. If nothing fails, then after a batch of stream entries every webhook that an event of
  the batch is for has a row for it, and never two of them, however often the entries come
  again; rows that were there stay as they are.
\<close>

theorem batch_reaches_every_webhook:
  assumes "env_fine env" and "ids_fresh env w" and "targets_exist env (batch_events env msgs)"
    and "\<forall>p. distinct (map delivery_event (cs_deliveries w p))"
  shows "(\<forall>ev \<in> set (batch_events env msgs). \<forall>wh \<in> set (event_targets env ev).
      length (filter (\<lambda>d. dl_WebhookID d = wh \<and> dl_EventID d = en_EventID ev)
        (cs_deliveries (consume_batch env ack_ok msgs w) (en_ProjectID ev))) = 1) \<and>
    (\<forall>p. \<exists>new. cs_deliveries (consume_batch env ack_ok msgs w) p = cs_deliveries w p @ new)"
proof -
  obtain m w1 where p: "process_entries env msgs 0 w = (m, w1)" by force
  have d: "cs_deliveries (consume_batch env ack_ok msgs w) = cs_deliveries w1"
    by (simp add: consume_batch_def p advance_watermark_def Let_def)
  note all = process_entries_all [OF assms(1-3) p]
  have "length (filter (\<lambda>d. dl_WebhookID d = wh \<and> dl_EventID d = en_EventID ev) (cs_deliveries w1 (en_ProjectID ev))) = 1"
    if "ev \<in> set (batch_events env msgs)" "wh \<in> set (event_targets env ev)" for ev wh
  proof -
    let ?rows = "cs_deliveries w1 (en_ProjectID ev)"
    have "(wh, en_EventID ev) \<in> set (map delivery_event ?rows)"
      using all that by (auto simp: delivered_def)
    moreover have "distinct (map delivery_event ?rows)" by (rule process_entries_distinct [OF assms(4) p])
    ultimately have "count_list (map delivery_event ?rows) (wh, en_EventID ev) = 1"
      by (rule count_list_distinct [rotated])
    moreover have "count_list (map delivery_event xs) (wh, en_EventID ev) =
        length (filter (\<lambda>d. dl_WebhookID d = wh \<and> dl_EventID d = en_EventID ev) xs)" for xs
      by (induction xs) (auto simp: delivery_event_def)
    ultimately show ?thesis by simp
  qed
  with all show ?thesis unfolding d by blast
qed

definition demo_hook :: webhook where
  "demo_hook = \<lparr>wh_ID = ''wh-1'', wh_ProjectID = ''p1'', wh_URL = ''https://a.b/c'',
     wh_Events = [''auth.users.*'', ''auth.users.created''], wh_Status = ''enabled'', wh_SecretEnc = ''k'',
     wh_PreviousSecretEnc = '''', wh_SecretRotatedAt = zero_time, wh_SecretFingerprint = '''',
     wh_CreatedAt = 0, wh_UpdatedAt = 0\<rparr>"

definition demo_event :: envelope where
  "demo_event = \<lparr>en_EventID = ''e1'', en_Event = ''auth.users.created'', en_ProjectID = ''p1'', en_DatabaseID = '''',
     en_CollectionID = '''', en_DocumentID = '''', en_Version = 1, en_CreatedAt = 0, en_Truncated = False,
     en_Data = None, en_Seq = 5, en_Domain = ''auth'', en_Attrs = None\<rparr>"

definition demo_consumer :: "(nat \<Rightarrow> bool) \<Rightarrow> consumer_env" where
  "demo_consumer fails = \<lparr>ce_index = new_subscription_index [demo_hook], ce_webhooks = (\<lambda>_. {''wh-1''}),
     ce_decode = (\<lambda>s. if s = ''E'' then Some demo_event else None), ce_marshal = (\<lambda>_. Some ''{}''),
     ce_marshal_data = (\<lambda>_. Some ''{}''), ce_marshal_system = (\<lambda>_. Some ''{}''), ce_now = 0,
     ce_uuid = (\<lambda>n. replicate n CHR ''x''), ce_db_fails = fails\<rparr>"

definition demo_entry :: "string \<Rightarrow> stream_entry" where
  "demo_entry i = \<lparr>se_ID = i, se_Payload = ''E''\<rparr>"

definition empty_consumer :: consumer_world where
  "empty_consumer = \<lparr>cs_deliveries = (\<lambda>_. []), cs_watermark = 0, cs_acked = [], cs_ids = 0, cs_ops = 0\<rparr>"

lemma demo_targets: "event_targets (demo_consumer fails) demo_event = [''wh-1'']"
proof -
  have "event_targets (demo_consumer fails) demo_event = event_targets (demo_consumer (\<lambda>_. False)) demo_event"
    by (simp only: event_targets_def demo_consumer_def consumer_env.select_convs)
  also have "\<dots> = [''wh-1'']" by code_simp
  finally show ?thesis .
qed

theorem batch_reaches_every_webhook_witness:
  "length (filter (\<lambda>d. dl_WebhookID d = ''wh-1'' \<and> dl_EventID d = ''e1'')
     (cs_deliveries (consume_batch (demo_consumer (\<lambda>_. False)) True [demo_entry ''1-0'', demo_entry ''1-1''] empty_consumer) ''p1'')) = 1"
proof -
  let ?env = "demo_consumer (\<lambda>_. False)" and ?msgs = "[demo_entry ''1-0'', demo_entry ''1-1'']"
  have ev: "batch_events ?env ?msgs = [demo_event, demo_event]"
    by (simp add: batch_events_def demo_entry_def demo_consumer_def)
  have "env_fine ?env"
    by (auto simp: env_fine_def demo_consumer_def dest: arg_cong [where f = length])
  moreover have "ids_fresh ?env empty_consumer" by (simp add: ids_fresh_def empty_consumer_def)
  moreover have "targets_exist ?env (batch_events ?env ?msgs)"
    by (simp add: ev targets_exist_def demo_targets) (simp add: demo_consumer_def)
  moreover have "\<forall>p. distinct (map delivery_event (cs_deliveries empty_consumer p))" by (simp add: empty_consumer_def)
  ultimately show ?thesis
    using batch_reaches_every_webhook [of ?env empty_consumer ?msgs True]
    by (simp add: ev demo_targets) (simp add: demo_event_def)
qed

section \<open>Rotating scans\<close>

text \<open>
  C34. No project starves: among as many successive scans as there are projects, each with
  some budget, one works on any given active project, whatever the others use up.
\<close>

theorem rotation_serves_every_project:
  assumes "j < n" and "n \<le> length rs" and "0 \<le> cur" and "\<forall>(work, active, budget) \<in> set rs. active j \<and> 0 < budget"
  shows "\<exists>visits \<in> set (rounds_visits n rs (cur, s)). j \<in> set visits"
proof (rule rounds_reach)
  show "0 < n" using assms(1) by simp
  then show "ahead n j (fst (cur, s)) < length rs" using ahead_less [of n j cur] assms(2) by simp
qed (use assms in auto)

definition busy_work :: "nat \<Rightarrow> int \<Rightarrow> unit \<Rightarrow> int \<times> unit" where
  "busy_work idx remaining s = (remaining, s)"

theorem rotation_serves_every_project_witness:
  "rounds_visits 3 (replicate 3 (busy_work, \<lambda>_. True, 100)) (0, ()) = [[0], [1], [2]] \<and>
   (\<exists>visits \<in> set (rounds_visits 3 (replicate 3 (busy_work, \<lambda>_. True, 100)) (0, ())). 2 \<in> set visits)"
proof
  show "rounds_visits 3 (replicate 3 (busy_work, \<lambda>_. True, 100)) (0, ()) = [[0], [1], [2]]" by code_simp
  show "\<exists>visits \<in> set (rounds_visits 3 (replicate 3 (busy_work, \<lambda>_. True, 100)) (0, ())). 2 \<in> set visits"
    by (rule rotation_serves_every_project) auto
qed

text \<open>
  C35. The guarantee is lost when two workers share a cursor, as the cron scan and the
  recovery of orphans do in \<^verbatim>\<open>Functions\<close>: if the first project has work for the whole cron
  budget and there is nothing to recover, the recovery puts the cursor back to the first
  project after every cron scan, and no cron scan ever reaches another project.
\<close>

theorem shared_cursor_starves:
  assumes "2 \<le> n" and "0 < budget" and "0 < budget'" and "active 0"
    and "\<And>s. budget \<le> fst (cron 0 budget s)" and "\<And>i r s. fst (recover i r s) = 0"
    and "i < k"
  shows "rounds_visits n (concat (replicate k [(cron, active, budget), (recover, active, budget')])) (0, s) ! (2 * i) = [0]"
  using assms(7)
proof (induction k arbitrary: i s)
  case 0
  then show ?case by simp
next
  case (Suc k)
  obtain n' where n': "n = Suc (Suc n')" using assms(1) by (metis One_nat_def Suc_1 Suc_le_D Suc_le_mono)
  have order: "scan_order 0 n = 0 # 1 # map (\<lambda>i. nat (int i mod int n)) [2..<n]"
    by (simp add: scan_order_def n' upt_conv_Cons numeral_2_eq_2 del: upt_Suc)
  obtain u s1 where u: "cron 0 budget s = (u, s1)" by force
  have used: "budget - u \<le> 0" using assms(5) [of s] u by simp
  have cron_round: "round_visits cron active n budget (0, s) = [0]" "rotation_round cron active n budget (0, s) = (1, s1)"
    using assms(2,4) used by (simp_all add: round_visits_def rotation_round_def rotation_start_def order [unfolded n'] u Let_def
      rotation_resume_at_def n')
  have full: "\<And>order s. \<exists>s'. scan_loop recover active order budget' s = (-1, s')"
  proof -
    fix order s show "\<exists>s'. scan_loop recover active order budget' s = (-1, s')"
    proof (induction order arbitrary: s)
      case (Cons j js)
      obtain s2 where "recover j budget' s = (0, s2)" using assms(6) [of j budget' s] by (metis prod.collapse)
      then show ?case using Cons.IH assms(3) by simp
    qed simp
  qed
  obtain s2 where s2: "rotation_round recover active n budget' (1, s1) = (0, s2)"
    using full [of "scan_order 1 n" s1] by (auto simp: rotation_round_def rotation_start_def n' rotation_complete_def)
  show ?case
    using Suc.IH [of "i - 1" s2] Suc.prems
    by (cases i) (simp_all add: cron_round s2)
qed

definition idle_work :: "nat \<Rightarrow> int \<Rightarrow> unit \<Rightarrow> int \<times> unit" where
  "idle_work idx remaining s = (0, s)"

theorem shared_cursor_starves_witness:
  "rounds_visits 3 (concat (replicate 2 [(busy_work, \<lambda>_. True, 100), (idle_work, \<lambda>_. True, 500)])) (0, ()) ! (2 * 1) = [0]"
  by (rule shared_cursor_starves) (simp_all add: busy_work_def idle_work_def)

end
