(* ===== verification/Json_Text.thy ===== *)
theory Json_Text
  imports Prelude
begin

text \<open>
  Which texts are JSON documents, as \<^verbatim>\<open>encoding/json\<close> scans them: one byte at a time, with a
  stack of the objects and arrays that are open. \<^verbatim>\<open>json.Marshal\<close> of a \<^verbatim>\<open>json.RawMessage\<close> runs this
  scanner over the bytes and fails if they are no document; an empty one is written as null.
\<close>

datatype json_open = ObjectKey | ObjectValue | ArrayValue

datatype json_state = BeginValue | BeginValueOrEmpty | BeginString | BeginStringOrEmpty
  | EndValue | EndTop | InString | InStringEsc | InStringHex nat
  | Neg | Zero | Digits | Dot | Fraction | Exp | ExpSign | ExpDigits | Literal string

type_synonym json_scanner = "json_state \<times> json_open list"

definition json_space :: "char \<Rightarrow> bool" where
  "json_space c \<longleftrightarrow> c \<in> {CHR '' '', CHR 0x09, CHR 0x0D, CHR 0x0A}"

definition json_digit :: "char \<Rightarrow> bool" where
  "json_digit c \<longleftrightarrow> c \<in> set ''0123456789''"

definition json_hex :: "char \<Rightarrow> bool" where
  "json_hex c \<longleftrightarrow> c \<in> set ''0123456789abcdefABCDEF''"

definition max_nesting :: nat where
  "max_nesting = 10000"

definition json_push :: "json_open \<Rightarrow> json_state \<Rightarrow> json_open list \<Rightarrow> json_scanner option" where
  "json_push k st stack = (if max_nesting < length stack + 1 then None else Some (st, k # stack))"

definition json_pop :: "json_open list \<Rightarrow> json_scanner option" where
  "json_pop stack = (case stack of [] \<Rightarrow> None
   | _ # rest \<Rightarrow> Some (if rest = [] then EndTop else EndValue, rest))"

text \<open>After a value: the end of the text, a separator, or the end of what is open.\<close>

definition json_end_value :: "json_open list \<Rightarrow> char \<Rightarrow> json_scanner option" where
  "json_end_value stack c =
     (case stack of
        [] \<Rightarrow> if json_space c then Some (EndTop, []) else None
      | k # rest \<Rightarrow>
          if json_space c then Some (EndValue, stack)
          else (case k of
              ObjectKey \<Rightarrow> if c = CHR '':'' then Some (BeginValue, ObjectValue # rest) else None
            | ObjectValue \<Rightarrow> if c = CHR '','' then Some (BeginString, ObjectKey # rest)
                else if c = CHR ''}'' then json_pop stack else None
            | ArrayValue \<Rightarrow> if c = CHR '','' then Some (BeginValue, stack)
                else if c = CHR '']'' then json_pop stack else None))"

definition json_begin_value :: "json_open list \<Rightarrow> char \<Rightarrow> json_scanner option" where
  "json_begin_value stack c =
     (if json_space c then Some (BeginValue, stack)
      else if c = CHR ''{'' then json_push ObjectKey BeginStringOrEmpty stack
      else if c = CHR ''['' then json_push ArrayValue BeginValueOrEmpty stack
      else if c = CHR 0x22 then Some (InString, stack)
      else if c = CHR ''-'' then Some (Neg, stack)
      else if c = CHR ''0'' then Some (Zero, stack)
      else if c = CHR ''t'' then Some (Literal ''rue'', stack)
      else if c = CHR ''f'' then Some (Literal ''alse'', stack)
      else if c = CHR ''n'' then Some (Literal ''ull'', stack)
      else if json_digit c then Some (Digits, stack) else None)"

definition json_begin_string :: "json_open list \<Rightarrow> char \<Rightarrow> json_scanner option" where
  "json_begin_string stack c =
     (if json_space c then Some (BeginString, stack)
      else if c = CHR 0x22 then Some (InString, stack) else None)"

fun json_step :: "json_scanner \<Rightarrow> char \<Rightarrow> json_scanner option" where
  "json_step (BeginValue, stack) c = json_begin_value stack c"
| "json_step (BeginValueOrEmpty, stack) c =
     (if json_space c then Some (BeginValueOrEmpty, stack)
      else if c = CHR '']'' then json_end_value stack c else json_begin_value stack c)"
| "json_step (BeginString, stack) c = json_begin_string stack c"
| "json_step (BeginStringOrEmpty, stack) c =
     (if json_space c then Some (BeginStringOrEmpty, stack)
      else if c = CHR ''}'' then json_end_value (ObjectValue # tl stack) c else json_begin_string stack c)"
| "json_step (EndValue, stack) c = json_end_value stack c"
| "json_step (EndTop, stack) c = (if json_space c then Some (EndTop, stack) else None)"
| "json_step (InString, stack) c =
     (if c = CHR 0x22 then Some (EndValue, stack)
      else if c = CHR 0x5C then Some (InStringEsc, stack)
      else if (of_char c :: nat) < 32 then None else Some (InString, stack))"
| "json_step (InStringEsc, stack) c =
     (if c \<in> {CHR ''b'', CHR ''f'', CHR ''n'', CHR ''r'', CHR ''t'', CHR 0x5C, CHR ''/'', CHR 0x22}
      then Some (InString, stack)
      else if c = CHR ''u'' then Some (InStringHex 3, stack) else None)"
| "json_step (InStringHex k, stack) c =
     (if \<not> json_hex c then None
      else Some (case k of 0 \<Rightarrow> InString | Suc j \<Rightarrow> InStringHex j, stack))"
| "json_step (Neg, stack) c =
     (if c = CHR ''0'' then Some (Zero, stack) else if json_digit c then Some (Digits, stack) else None)"
| "json_step (Digits, stack) c =
     (if json_digit c then Some (Digits, stack)
      else if c = CHR ''.'' then Some (Dot, stack)
      else if c = CHR ''e'' \<or> c = CHR ''E'' then Some (Exp, stack) else json_end_value stack c)"
| "json_step (Zero, stack) c =
     (if c = CHR ''.'' then Some (Dot, stack)
      else if c = CHR ''e'' \<or> c = CHR ''E'' then Some (Exp, stack) else json_end_value stack c)"
| "json_step (Dot, stack) c = (if json_digit c then Some (Fraction, stack) else None)"
| "json_step (Fraction, stack) c =
     (if json_digit c then Some (Fraction, stack)
      else if c = CHR ''e'' \<or> c = CHR ''E'' then Some (Exp, stack) else json_end_value stack c)"
| "json_step (Exp, stack) c =
     (if c = CHR ''+'' \<or> c = CHR ''-'' then Some (ExpSign, stack)
      else if json_digit c then Some (ExpDigits, stack) else None)"
| "json_step (ExpSign, stack) c = (if json_digit c then Some (ExpDigits, stack) else None)"
| "json_step (ExpDigits, stack) c =
     (if json_digit c then Some (ExpDigits, stack) else json_end_value stack c)"
| "json_step (Literal rest, stack) c =
     (case rest of [] \<Rightarrow> json_end_value stack c
      | d # ds \<Rightarrow> if c \<noteq> d then None else Some (if ds = [] then EndValue else Literal ds, stack))"

fun json_run :: "json_scanner \<Rightarrow> string \<Rightarrow> json_scanner option" where
  "json_run sc [] = Some sc"
| "json_run sc (c # cs) = (case json_step sc c of None \<Rightarrow> None | Some sc' \<Rightarrow> json_run sc' cs)"

text \<open>At the end of the text the scanner is given a space.\<close>

definition json_valid :: "string \<Rightarrow> bool" where
  "json_valid s = (case json_run (BeginValue, []) s of None \<Rightarrow> False
     | Some sc \<Rightarrow> (case json_step sc (CHR '' '') of None \<Rightarrow> False | Some (st, _) \<Rightarrow> st = EndTop))"

definition raw_marshals :: "string \<Rightarrow> bool" where
  "raw_marshals raw \<longleftrightarrow> raw = '''' \<or> json_valid raw"

section \<open>Texts that are no documents\<close>

lemma json_valid_start:
  assumes "json_valid (c # cs)"
  shows "json_space c \<or> json_digit c \<or> c \<in> {CHR ''{'', CHR ''['', CHR 0x22, CHR ''-'', CHR ''t'', CHR ''f'', CHR ''n''}"
  using assms by (auto simp: json_valid_def json_begin_value_def json_digit_def split: option.splits if_splits)

text \<open>
  A token signed as JWS starts with the letter e, as it is a JSON object in Base64; a form starts
  with the name of its first field.
\<close>

lemma jws_not_json: "\<not> raw_marshals (CHR ''e'' # token)"
  using json_valid_start [of "CHR ''e''" token] by (auto simp: raw_marshals_def json_space_def json_digit_def)

lemma json_valid_examples:
  "json_valid '' { } ''" "json_valid ''[1, -2.5e+3, true, null, []]''" "\<not> json_valid ''[1,]''" "\<not> json_valid ''01''"
  "\<not> json_valid ''gmt_create=2026'' " "\<not> json_valid ''{} {}''" "json_valid (CHR 0x22 # ''a'' @ [CHR 0x5C] @ ''u00e9'' @ [CHR 0x22])"
  by code_simp+

end
