(* ===== verification/Payment_Orders.thy ===== *)
theory Payment_Orders
  imports Tx_Monad Go_Time Json_Text
begin

text \<open>
  Payment orders: the entity and its state machine (\<^verbatim>\<open>internal/domain/payments/order.go\<close>),
  the normalised callback of a payment channel and the fulfilment record
  (\<^verbatim>\<open>provider.go\<close>, \<^verbatim>\<open>repo.go\<close> there), and the statements of
  \<^verbatim>\<open>internal/infra/bun/bunrepo/payments_repo.go\<close> and \<^verbatim>\<open>provider_index_repo.go\<close> on the tables
  of \<^verbatim>\<open>internal/infra/projectschema/migrations/000004_payments.up.sql\<close>. A table is the list
  of its rows for all projects, oldest first; each project has a schema of its own, so every
  unique key holds per project.
\<close>

section \<open>The order\<close>

datatype order_status = OrderStatusCreated | OrderStatusPaying | OrderStatusPaid
  | OrderStatusFailed | OrderStatusClosed | OrderStatusRefunding | OrderStatusRefunded

datatype purpose_kind = PurposeTopup | PurposeItemPurchase | PurposeSubscription | PurposeOther string

fun purpose_is_valid :: "purpose_kind \<Rightarrow> bool" where
  "purpose_is_valid (PurposeOther _) = False"
| "purpose_is_valid _ = True"

text \<open>
  The purpose is a JSON object: its fields, in order. A number is \<open>JInt\<close> when it is integral,
  and any other value of a field is \<open>JOther\<close>.
\<close>

datatype json_value = JNull | JString string | JInt int | JFrac | JOther

type_synonym json_object = "(string \<times> json_value) list"

record pay_order =
  po_ID :: string
  po_ProjectID :: string
  po_UserID :: string
  po_Provider :: string
  po_IdempotencyKey :: string
  po_ProviderSessionID :: string
  po_ProviderOrderID :: string
  po_Amount :: int
  po_Currency :: string
  po_PurposeKind :: purpose_kind
  po_Purpose :: json_object
  po_Status :: order_status
  po_CreatedAt :: gtime
  po_UpdatedAt :: gtime
  po_PaidAt :: "gtime option"
  po_ExpiresAt :: gtime

definition allowed_transitions :: "order_status \<Rightarrow> order_status list option" where
  "allowed_transitions s = (case s of
     OrderStatusCreated \<Rightarrow> Some [OrderStatusPaying, OrderStatusPaid, OrderStatusFailed, OrderStatusClosed]
   | OrderStatusPaying \<Rightarrow> Some [OrderStatusPaid, OrderStatusFailed, OrderStatusClosed]
   | OrderStatusPaid \<Rightarrow> Some [OrderStatusRefunding, OrderStatusRefunded]
   | OrderStatusRefunding \<Rightarrow> Some [OrderStatusRefunded]
   | _ \<Rightarrow> None)"

definition can_transition :: "order_status \<Rightarrow> order_status \<Rightarrow> bool" where
  "can_transition from to = (case allowed_transitions from of None \<Rightarrow> False
     | Some targets \<Rightarrow> to \<in> set targets)"

definition order_transition :: "pay_order \<Rightarrow> order_status \<Rightarrow> gtime \<Rightarrow> pay_order option" where
  "order_transition o1 to now =
     (if \<not> can_transition (po_Status o1) to then None
      else Some (o1\<lparr>po_Status := to, po_UpdatedAt := now,
        po_PaidAt := (if to = OrderStatusPaid \<and> po_PaidAt o1 = None then Some now else po_PaidAt o1)\<rparr>))"

fun order_is_terminal :: "order_status \<Rightarrow> bool" where
  "order_is_terminal OrderStatusFailed = True"
| "order_is_terminal OrderStatusClosed = True"
| "order_is_terminal OrderStatusRefunded = True"
| "order_is_terminal _ = False"

definition order_expired :: "pay_order \<Rightarrow> gtime \<Rightarrow> bool" where
  "order_expired o1 now = (case po_Status o1 of
     OrderStatusCreated \<Rightarrow> po_ExpiresAt o1 < now
   | OrderStatusPaying \<Rightarrow> po_ExpiresAt o1 < now
   | _ \<Rightarrow> False)"

section \<open>Callbacks and fulfilments\<close>

datatype callback_type = CallbackPaid | CallbackFailed | CallbackRefunded
  | CallbackSubscriptionUpdated | CallbackSubscriptionActivated | CallbackSubscriptionRenewed
  | CallbackSubscriptionPastDue | CallbackSubscriptionCanceled | CallbackSubscriptionExpired
  | CallbackIgnored | CallbackOther string

fun is_subscription_event :: "callback_type \<Rightarrow> bool" where
  "is_subscription_event CallbackSubscriptionUpdated = True"
| "is_subscription_event CallbackSubscriptionActivated = True"
| "is_subscription_event CallbackSubscriptionRenewed = True"
| "is_subscription_event CallbackSubscriptionPastDue = True"
| "is_subscription_event CallbackSubscriptionCanceled = True"
| "is_subscription_event CallbackSubscriptionExpired = True"
| "is_subscription_event _ = False"

text \<open>A time that is not set is \<open>None\<close>.\<close>

record callback_event =
  cb_Provider :: string
  cb_ProviderEventID :: string
  cb_ProviderSessionID :: string
  cb_ProviderOrderID :: string
  cb_Type :: callback_type
  cb_Amount :: int
  cb_Currency :: string
  cb_OrderID :: string
  cb_ReceivedAt :: "gtime option"
  cb_ProviderSubID :: string
  cb_LocalSubscriptionID :: string
  cb_PeriodStart :: "gtime option"
  cb_PeriodEnd :: "gtime option"
  cb_CancelAtPeriodEnd :: bool
  cb_HostedStatus :: string
  cb_MetadataProjectID :: string
  cb_Raw :: string

datatype fulfillment_status = FulfillmentPending | FulfillmentDone | FulfillmentFailed
  | FulfillmentReverseFailed

text \<open>Of the detail only the previous status, kept when a reversal fails, is modelled.\<close>

record fulfillment =
  fu_ID :: string
  fu_OrderID :: string
  fu_ProjectID :: string
  fu_PurposeKind :: purpose_kind
  fu_Ref :: string
  fu_Status :: fulfillment_status
  fu_Previous :: "fulfillment_status option"
  fu_CreatedAt :: gtime
  fu_UpdatedAt :: gtime

record callback_row =
  cr_ProjectID :: string
  cr_Provider :: string
  cr_ProviderEventID :: string
  cr_Type :: callback_type
  cr_OrderID :: string

datatype order_event_kind = EventOrderPaid | EventOrderFailed | EventOrderRefunded

record order_event =
  oe_EventID :: string
  oe_Event :: order_event_kind
  oe_ProjectID :: string
  oe_Channel :: string
  oe_CreatedAt :: gtime
  oe_Version :: int
  oe_OrderID :: string
  oe_UserID :: string
  oe_Amount :: int
  oe_Currency :: string
  oe_Status :: order_status

section \<open>Errors\<close>

datatype grpc_code = InvalidArgument | NotFound | FailedPrecondition | PermissionDenied
  | Unauthenticated | Aborted | Internal | Unimplemented | AlreadyExists

text \<open>
  \<open>PayStatus\<close> is a gRPC status, without its text; \<open>PayDB\<close> an error of the database, a violated
  constraint included; \<open>PayAsset\<close> an error of the asset system. The type is a parameter of it:
  the asset system is only known to who implements the fulfilment.
\<close>

datatype 'e pay_err = PayStatus grpc_code | PayDB | ErrSignatureInvalid | ErrNotConfigured
  | ErrUnsupported | ErrLegacyReceiptUnsupported | ErrReceiptBoundToOtherUser | ProviderError int
  | ErrProviderIndexMiss | ErrInvalidTransition | EncodingError | ErrBillingOrderExhausted | PayAsset 'e

section \<open>The tables\<close>

record pay_tables =
  pt_orders :: "pay_order list"
  pt_callbacks :: "callback_row list"
  pt_fulfillments :: "fulfillment list"
  pt_index :: "((string \<times> string \<times> string) \<times> string) list"
  pt_outbox :: "order_event list"

text \<open>
  The world of a call: these tables, the state \<open>'x\<close> of whoever fulfils the orders (in the same
  database, hence in the same transactions), and how many identifiers, clock readings and
  statements were used.
\<close>

record 'x pay_world =
  pw_db :: pay_tables
  pw_ext :: 'x
  pw_ids :: nat
  pw_ticks :: nat
  pw_ops :: nat

type_synonym ('x, 'e, 'a) ptx = "('x pay_world, 'e pay_err, 'a) tx"

text \<open>
  \<open>tx_try\<close> hands an error to the caller as a value; what was done before it stays done.
\<close>

definition tx_try :: "('s, 'e, 'a) tx \<Rightarrow> ('s, 'e, 'e + 'a) tx" where
  "tx_try m = (\<lambda>s. case m s of (r, s') \<Rightarrow> (Inr r, s'))"

text \<open>
  A payment channel. Its answers come from outside, so they may depend on when it is asked;
  the input of \<^verbatim>\<open>CreatePayment\<close> and \<^verbatim>\<open>Refund\<close> is the order they are made for.
\<close>

record pay_session =
  ps_SessionID :: string
  ps_PaymentURL :: string
  ps_ProviderOrderID :: string

record verified_purchase =
  vp_TransactionID :: string
  vp_OriginalTransactionID :: string
  vp_Amount :: int
  vp_Currency :: string

record 'e pay_provider =
  pv_Name :: string
  pv_CreatePayment :: "nat \<Rightarrow> pay_order \<Rightarrow> 'e pay_err + pay_session"
  pv_VerifyCallback :: "string \<Rightarrow> 'e pay_err + callback_event"
  pv_Refund :: "nat \<Rightarrow> pay_order \<Rightarrow> int \<Rightarrow> 'e pay_err + bool"
  pv_VerifyReceipt :: "(nat \<Rightarrow> string \<Rightarrow> 'e pay_err + verified_purchase) option"

text \<open>
  What a call gets from outside: clock, identifiers, failing statements, how a rolled back
  transaction restores the other state, the channels, the fulfilment of an order and its
  reversal, the mirror of hosted subscriptions, and which errors come from the database.
\<close>

record ('x, 'e) pay_env =
  pe_clock :: "nat \<Rightarrow> gtime"
  pe_id :: "nat \<Rightarrow> string"
  pe_fails :: "nat \<Rightarrow> bool"
  pe_undo :: "'x \<Rightarrow> 'x \<Rightarrow> 'x"
  pe_providers :: "string \<Rightarrow> 'e pay_provider option"
  pe_Fulfill :: "pay_order \<Rightarrow> ('x, 'e pay_err, string) tx"
  pe_Reverse :: "pay_order \<Rightarrow> ('x, 'e pay_err, unit) tx"
  pe_Hosted :: "callback_event \<Rightarrow> ('x, 'e, unit) ptx"
  pe_db_err :: "'e pay_err \<Rightarrow> bool"

definition pay_op :: "('x, 'e) pay_env \<Rightarrow> ('x, 'e, 'a) ptx \<Rightarrow> ('x, 'e, 'a) ptx" where
  "pay_op e f = (\<lambda>w. let w' = w\<lparr>pw_ops := Suc (pw_ops w)\<rparr>
     in if pe_fails e (pw_ops w) then (Inl PayDB, w') else f w')"

definition pay_read :: "('x, 'e) pay_env \<Rightarrow> (pay_tables \<Rightarrow> 'a) \<Rightarrow> ('x, 'e, 'a) ptx" where
  "pay_read e f = pay_op e (\<lambda>w. (Inr (f (pw_db w)), w))"

definition pay_write ::
  "('x, 'e) pay_env \<Rightarrow> (pay_tables \<Rightarrow> 'e pay_err + 'a \<times> pay_tables) \<Rightarrow> ('x, 'e, 'a) ptx" where
  "pay_write e f = pay_op e (\<lambda>w. case f (pw_db w) of Inl err \<Rightarrow> (Inl err, w)
     | Inr (a, db) \<Rightarrow> (Inr a, w\<lparr>pw_db := db\<rparr>))"

text \<open>A step of the other state, and the transaction around a body.\<close>

definition ext_step :: "('x, 'e pay_err, 'a) tx \<Rightarrow> ('x, 'e, 'a) ptx" where
  "ext_step m = (\<lambda>w. case m (pw_ext w) of (r, x) \<Rightarrow> (r, w\<lparr>pw_ext := x\<rparr>))"

definition pay_run :: "('x, 'e) pay_env \<Rightarrow> ('x, 'e, 'a) ptx \<Rightarrow> ('x, 'e, 'a) ptx" where
  "pay_run e m = (\<lambda>w.
     let w0 = w\<lparr>pw_ops := Suc (pw_ops w)\<rparr>;
         undo = (\<lambda>w'. w'\<lparr>pw_db := pw_db w, pw_ext := pe_undo e (pw_ext w) (pw_ext w')\<rparr>)
     in if pe_fails e (pw_ops w) then (Inl PayDB, w0)
        else (case m w0 of
            (Inl err, w') \<Rightarrow> (Inl err, undo w')
          | (Inr a, w') \<Rightarrow>
              if pe_fails e (pw_ops w') then (Inl PayDB, undo (w'\<lparr>pw_ops := Suc (pw_ops w')\<rparr>))
              else (Inr a, w'\<lparr>pw_ops := Suc (pw_ops w')\<rparr>)))"

definition pay_new_id :: "('x, 'e) pay_env \<Rightarrow> ('x, 'e, string) ptx" where
  "pay_new_id e = (\<lambda>w. (Inr (pe_id e (pw_ids w)), w\<lparr>pw_ids := Suc (pw_ids w)\<rparr>))"

definition pay_now :: "('x, 'e) pay_env \<Rightarrow> ('x, 'e, gtime) ptx" where
  "pay_now e = (\<lambda>w. (Inr (pe_clock e (pw_ticks w)), w\<lparr>pw_ticks := Suc (pw_ticks w)\<rparr>))"

section \<open>The statements\<close>

definition order_key :: "pay_order \<Rightarrow> string \<times> string" where
  "order_key o1 = (po_ProjectID o1, po_ID o1)"

definition order_idem :: "pay_order \<Rightarrow> string \<times> string" where
  "order_idem o1 = (po_ProjectID o1, po_IdempotencyKey o1)"

definition order_ref :: "pay_order \<Rightarrow> string \<times> string \<times> string" where
  "order_ref o1 = (po_ProjectID o1, po_Provider o1, po_ProviderOrderID o1)"

text \<open>
  The constraints of \<^verbatim>\<open>payment_orders\<close>: primary key, idempotency key, the channel's order id
  where there is one (the empty string is stored as NULL), and the positive amount.
\<close>

definition orders_ok :: "pay_order list \<Rightarrow> bool" where
  "orders_ok os \<longleftrightarrow> distinct (map order_key os) \<and> distinct (map order_idem os) \<and>
     distinct (map order_ref (filter (\<lambda>o1. po_ProviderOrderID o1 \<noteq> '''') os)) \<and>
     list_all (\<lambda>o1. 0 < po_Amount o1) os"

definition order_get :: "('x, 'e) pay_env \<Rightarrow> string \<Rightarrow> string \<Rightarrow> ('x, 'e, pay_order option) ptx" where
  "order_get e p i = pay_read e (\<lambda>db. find (\<lambda>o1. order_key o1 = (p, i)) (pt_orders db))"

definition order_get_by_idempotency_key ::
  "('x, 'e) pay_env \<Rightarrow> string \<Rightarrow> string \<Rightarrow> ('x, 'e, pay_order option) ptx" where
  "order_get_by_idempotency_key e p key =
     pay_read e (\<lambda>db. find (\<lambda>o1. order_idem o1 = (p, key)) (pt_orders db))"

definition order_get_by_provider_ref ::
  "('x, 'e) pay_env \<Rightarrow> string \<Rightarrow> string \<Rightarrow> string \<Rightarrow> string \<Rightarrow> ('x, 'e, pay_order option) ptx" where
  "order_get_by_provider_ref e p provider session ref =
     (if session = '''' \<and> ref = '''' then tx_ret None
      else pay_read e (\<lambda>db.
        (case sort_key po_CreatedAt (filter (\<lambda>o1. po_ProjectID o1 = p \<and> po_Provider o1 = provider \<and>
            (session \<noteq> '''' \<and> po_ProviderSessionID o1 = session \<or>
             ref \<noteq> '''' \<and> po_ProviderOrderID o1 = ref)) (pt_orders db)) of
           [] \<Rightarrow> None | o1 # _ \<Rightarrow> Some o1)))"

definition order_insert ::
  "('x, 'e) pay_env \<Rightarrow> pay_order \<Rightarrow> ('x, 'e, pay_order option \<times> bool) ptx" where
  "order_insert e o1 = tx_bind (pay_write e (\<lambda>db.
       if list_ex (\<lambda>r. order_idem r = order_idem o1) (pt_orders db) then Inr (False, db)
       else let os = pt_orders db @ [o1]
         in if orders_ok os then Inr (True, db\<lparr>pt_orders := os\<rparr>) else Inl PayDB))
     (\<lambda>inserted. if inserted then tx_ret (None, True)
       else tx_bind (order_get_by_idempotency_key e (po_ProjectID o1) (po_IdempotencyKey o1)) (\<lambda>existing.
         case existing of None \<Rightarrow> tx_fail (PayStatus Internal) | Some r \<Rightarrow> tx_ret (Some r, False)))"

definition order_columns :: "pay_order \<Rightarrow> pay_order \<Rightarrow> pay_order" where
  "order_columns o1 r = r\<lparr>po_Status := po_Status o1, po_UpdatedAt := po_UpdatedAt o1,
     po_PaidAt := po_PaidAt o1, po_ProviderSessionID := po_ProviderSessionID o1,
     po_ProviderOrderID := po_ProviderOrderID o1\<rparr>"

definition order_update ::
  "('x, 'e) pay_env \<Rightarrow> pay_order \<Rightarrow> order_status \<Rightarrow> ('x, 'e, unit) ptx" where
  "order_update e o1 expect = pay_write e (\<lambda>db.
     let hit = (\<lambda>r. order_key r = order_key o1 \<and> po_Status r = expect);
         os = map (\<lambda>r. if hit r then order_columns o1 r else r) (pt_orders db)
     in if \<not> list_ex hit (pt_orders db) then Inl (PayStatus Aborted)
        else if orders_ok os then Inr ((), db\<lparr>pt_orders := os\<rparr>) else Inl PayDB)"

text \<open>\<^verbatim>\<open>ORDER BY expires_at LIMIT n\<close>; \<^verbatim>\<open>SKIP LOCKED\<close> has nothing to skip between transactions.\<close>

definition order_overdue :: "string \<Rightarrow> gtime \<Rightarrow> pay_order \<Rightarrow> bool" where
  "order_overdue p now o1 \<longleftrightarrow> po_ProjectID o1 = p \<and>
     po_Status o1 \<in> {OrderStatusCreated, OrderStatusPaying} \<and> po_ExpiresAt o1 \<le> now"

definition close_expired_in_project ::
  "('x, 'e) pay_env \<Rightarrow> string \<Rightarrow> gtime \<Rightarrow> int \<Rightarrow> ('x, 'e, int) ptx" where
  "close_expired_in_project e p now limit =
     (if limit \<le> 0 then tx_ret 0
      else pay_write e (\<lambda>db.
        let picked = take (nat limit) (sort_key po_ExpiresAt (filter (order_overdue p now) (pt_orders db)));
            ids = set (map po_ID picked)
        in Inr (int (length picked), db\<lparr>pt_orders := map (\<lambda>r.
             if po_ProjectID r = p \<and> po_ID r \<in> ids
             then r\<lparr>po_Status := OrderStatusClosed, po_UpdatedAt := now\<rparr> else r) (pt_orders db)\<rparr>)))"

definition callback_key :: "callback_row \<Rightarrow> string \<times> string \<times> string" where
  "callback_key r = (cr_ProjectID r, cr_Provider r, cr_ProviderEventID r)"

text \<open>
  The event is stored with its raw body as a \<^verbatim>\<open>json.RawMessage\<close>, so a body that is no JSON
  document is an error before anything is written.
\<close>

definition callback_insert_if_absent ::
  "('x, 'e) pay_env \<Rightarrow> callback_event \<Rightarrow> string \<Rightarrow> string \<Rightarrow> ('x, 'e, bool) ptx" where
  "callback_insert_if_absent e ev p orderID =
     tx_when (\<not> raw_marshals (cb_Raw ev)) EncodingError (pay_write e (\<lambda>db.
     let row = \<lparr>cr_ProjectID = p, cr_Provider = cb_Provider ev, cr_ProviderEventID = cb_ProviderEventID ev,
           cr_Type = cb_Type ev, cr_OrderID = orderID\<rparr>
     in if list_ex (\<lambda>r. callback_key r = callback_key row) (pt_callbacks db) then Inr (False, db)
        else Inr (True, db\<lparr>pt_callbacks := pt_callbacks db @ [row]\<rparr>)))"

text \<open>
  The constraints of \<^verbatim>\<open>payment_fulfillments\<close>: primary key, one row per order and purpose, and
  one row per reference.
\<close>

definition fulfillments_ok :: "fulfillment list \<Rightarrow> bool" where
  "fulfillments_ok fs \<longleftrightarrow> distinct (map (\<lambda>f. (fu_ProjectID f, fu_ID f)) fs) \<and>
     distinct (map (\<lambda>f. (fu_ProjectID f, fu_OrderID f, fu_PurposeKind f)) fs) \<and>
     distinct (map (\<lambda>f. (fu_ProjectID f, fu_Ref f)) fs)"

definition order_exists :: "pay_tables \<Rightarrow> string \<Rightarrow> string \<Rightarrow> bool" where
  "order_exists db p i = list_ex (\<lambda>o1. order_key o1 = (p, i)) (pt_orders db)"

definition fulfillment_get_by_order ::
  "('x, 'e) pay_env \<Rightarrow> string \<Rightarrow> string \<Rightarrow> ('x, 'e, fulfillment option) ptx" where
  "fulfillment_get_by_order e p i =
     pay_read e (\<lambda>db. find (\<lambda>f. fu_ProjectID f = p \<and> fu_OrderID f = i) (pt_fulfillments db))"

definition fulfillment_add :: "pay_tables \<Rightarrow> fulfillment \<Rightarrow> 'e pay_err + bool \<times> pay_tables" where
  "fulfillment_add db f =
     (if list_ex (\<lambda>r. fu_ProjectID r = fu_ProjectID f \<and> fu_OrderID r = fu_OrderID f \<and>
           fu_PurposeKind r = fu_PurposeKind f) (pt_fulfillments db) then Inr (False, db)
      else let fs = pt_fulfillments db @ [f]
        in if fulfillments_ok fs \<and> order_exists db (fu_ProjectID f) (fu_OrderID f)
           then Inr (True, db\<lparr>pt_fulfillments := fs\<rparr>) else Inl PayDB)"

definition fulfillment_insert_pending ::
  "('x, 'e) pay_env \<Rightarrow> fulfillment \<Rightarrow> ('x, 'e, fulfillment option \<times> bool) ptx" where
  "fulfillment_insert_pending e f =
     tx_bind (pay_write e (\<lambda>db. fulfillment_add db (f\<lparr>fu_Status := FulfillmentPending\<rparr>))) (\<lambda>inserted.
       if inserted then tx_ret (None, True)
       else tx_bind (fulfillment_get_by_order e (fu_ProjectID f) (fu_OrderID f)) (\<lambda>existing.
         tx_ret (existing, False)))"

definition fulfillment_set ::
  "('x, 'e) pay_env \<Rightarrow> string \<Rightarrow> string \<Rightarrow> (fulfillment \<Rightarrow> fulfillment) \<Rightarrow> ('x, 'e, unit) ptx" where
  "fulfillment_set e p i upd = pay_write e (\<lambda>db.
     let fs = map (\<lambda>f. if fu_ProjectID f = p \<and> fu_ID f = i then upd f else f) (pt_fulfillments db)
     in if fulfillments_ok fs then Inr ((), db\<lparr>pt_fulfillments := fs\<rparr>) else Inl PayDB)"

definition fulfillment_mark_done ::
  "('x, 'e) pay_env \<Rightarrow> string \<Rightarrow> string \<Rightarrow> string \<Rightarrow> ('x, 'e, unit) ptx" where
  "fulfillment_mark_done e p i ref = tx_bind (pay_now e) (\<lambda>now.
     fulfillment_set e p i (\<lambda>f. f\<lparr>fu_Status := FulfillmentDone, fu_Ref := ref, fu_UpdatedAt := now\<rparr>))"

definition fulfillment_mark_reverse_failed ::
  "('x, 'e) pay_env \<Rightarrow> pay_order \<Rightarrow> ('x, 'e, unit) ptx" where
  "fulfillment_mark_reverse_failed e o1 =
     tx_bind (fulfillment_get_by_order e (po_ProjectID o1) (po_ID o1)) (\<lambda>existing.
     tx_bind (pay_now e) (\<lambda>now. case existing of
         None \<Rightarrow> tx_bind (pay_new_id e) (\<lambda>i. tx_bind (pay_write e (\<lambda>db. fulfillment_add db
           \<lparr>fu_ID = i, fu_OrderID = po_ID o1, fu_ProjectID = po_ProjectID o1,
            fu_PurposeKind = po_PurposeKind o1, fu_Ref = ''reverse:'' @ po_ID o1,
            fu_Status = FulfillmentReverseFailed, fu_Previous = None,
            fu_CreatedAt = now, fu_UpdatedAt = now\<rparr>)) (\<lambda>_. tx_ret ()))
       | Some f \<Rightarrow> fulfillment_set e (po_ProjectID o1) (fu_ID f)
           (\<lambda>r. r\<lparr>fu_Status := FulfillmentReverseFailed, fu_Previous := Some (fu_Status f),
             fu_UpdatedAt := now\<rparr>)))"

text \<open>The index of channel references; an absent one is the empty string.\<close>

definition index_get :: "pay_tables \<Rightarrow> string \<times> string \<times> string \<Rightarrow> string" where
  "index_get db k = (case map_of (pt_index db) k of None \<Rightarrow> '''' | Some p \<Rightarrow> p)"

definition index_lookup ::
  "('x, 'e) pay_env \<Rightarrow> string \<Rightarrow> string \<Rightarrow> string \<Rightarrow> ('x, 'e, string) ptx" where
  "index_lookup e provider kind ref =
     (if provider = '''' \<or> kind = '''' \<or> ref = '''' then tx_ret ''''
      else pay_read e (\<lambda>db. index_get db (provider, kind, ref)))"

definition index_upsert ::
  "('x, 'e) pay_env \<Rightarrow> string \<Rightarrow> string \<Rightarrow> string \<Rightarrow> string \<Rightarrow> ('x, 'e, unit) ptx" where
  "index_upsert e provider kind ref p =
     (if provider = '''' \<or> kind = '''' \<or> ref = '''' \<or> p = '''' then tx_fail (PayStatus InvalidArgument)
      else tx_bind (pay_write e (\<lambda>db. if map_of (pt_index db) (provider, kind, ref) \<noteq> None then Inr (False, db)
            else Inr (True, db\<lparr>pt_index := pt_index db @ [((provider, kind, ref), p)]\<rparr>)))
        (\<lambda>inserted. if inserted then tx_ret ()
          else tx_bind (index_lookup e provider kind ref) (\<lambda>existing.
            if existing \<noteq> '''' \<and> existing \<noteq> p then tx_fail (PayStatus PermissionDenied) else tx_ret ())))"

definition upsert_provider_index ::
  "('x, 'e) pay_env \<Rightarrow> string \<Rightarrow> string \<Rightarrow> string \<Rightarrow> string \<Rightarrow> ('x, 'e, unit) ptx" where
  "upsert_provider_index e provider kind ref p =
     (if ref = '''' then tx_ret () else index_upsert e provider kind ref p)"

definition order_publish ::
  "('x, 'e) pay_env \<Rightarrow> pay_order \<Rightarrow> order_event_kind \<Rightarrow> gtime \<Rightarrow> ('x, 'e, unit) ptx" where
  "order_publish e o1 kind now = tx_bind (pay_new_id e) (\<lambda>i. pay_write e (\<lambda>db.
     Inr ((), db\<lparr>pt_outbox := pt_outbox db @ [\<lparr>oe_EventID = i, oe_Event = kind,
       oe_ProjectID = po_ProjectID o1, oe_Channel = ''accounts.'' @ po_UserID o1, oe_CreatedAt = now,
       oe_Version = po_UpdatedAt o1, oe_OrderID = po_ID o1, oe_UserID = po_UserID o1,
       oe_Amount = po_Amount o1, oe_Currency = po_Currency o1, oe_Status = po_Status o1\<rparr>]\<rparr>)))"

end
