(* ===== verification/Payments.thy ===== *)
theory Payments
  imports Payment_Orders Project_Rotation
begin

text \<open>
  The payment service (\<^verbatim>\<open>internal/app/payments\<close>): creating an order, the callbacks of the
  channels, receipts of the iOS store, refunds, fulfilment by hand and the scan that closes
  orders nobody paid. Logs and metrics are left out. A transaction in PostgreSQL is aborted by
  the first statement that fails, so an error of the database that the code only logs still
  makes the statement after it fail.
\<close>

section \<open>Callers\<close>

datatype actor_kind = ActorKindAdmin | ActorKindService | ActorKindExecution | ActorKindOther

record principal =
  pr_ProjectID :: string
  pr_UserID :: string
  pr_ActorKind :: actor_kind

definition end_user :: "principal option \<Rightarrow> 'e pay_err + string \<times> string" where
  "end_user pr = (case pr of None \<Rightarrow> Inl (PayStatus Unauthenticated)
   | Some p \<Rightarrow> if pr_ProjectID p = '''' \<or> pr_UserID p = '''' then Inl (PayStatus Unauthenticated)
       else Inr (pr_ProjectID p, pr_UserID p))"

definition project_scope :: "principal option \<Rightarrow> 'e pay_err + string" where
  "project_scope pr = (case pr of None \<Rightarrow> Inl (PayStatus Unauthenticated)
   | Some p \<Rightarrow> if pr_ProjectID p = '''' then Inl (PayStatus Unauthenticated) else Inr (pr_ProjectID p))"

definition require_server_principal :: "principal option \<Rightarrow> 'e pay_err + unit" where
  "require_server_principal pr = (case pr of None \<Rightarrow> Inl (PayStatus Unauthenticated)
   | Some p \<Rightarrow> (case pr_ActorKind p of ActorKindOther \<Rightarrow> Inl (PayStatus PermissionDenied) | _ \<Rightarrow> Inr ()))"

section \<open>Creating an order\<close>

definition provider_stripe :: string where
  "provider_stripe = ''stripe''"

definition provider_ios_iap :: string where
  "provider_ios_iap = ''ios_iap''"

definition kind_payment_session :: string where
  "kind_payment_session = ''payment_session''"

definition kind_payment_order :: string where
  "kind_payment_order = ''payment_order''"

definition kind_subscription :: string where
  "kind_subscription = ''subscription''"

definition kind_ios_transaction :: string where
  "kind_ios_transaction = ''ios_transaction''"

definition default_order_ttl :: int where "default_order_ttl = 24 * hour"
definition max_order_ttl :: int where "max_order_ttl = 24 * hour"
definition min_order_ttl :: int where "min_order_ttl = minute"
definition max_idempotency_key_len :: nat where "max_idempotency_key_len = 128"
definition close_expired_batch :: int where "close_expired_batch = 500"

text \<open>\<^verbatim>\<open>strings.ToUpper\<close> on what the currency pattern accepts, and that pattern.\<close>

definition upper_byte :: "char \<Rightarrow> char" where
  "upper_byte c = (if is_lower c then char_of (of_char c - 32 :: nat) else c)"

definition to_upper :: "string \<Rightarrow> string" where
  "to_upper s = map upper_byte s"

definition currency_ok :: "string \<Rightarrow> bool" where
  "currency_ok s \<longleftrightarrow> length s = 3 \<and> list_all (\<lambda>c. is_lower c \<or> is_upper c) s"

record created_order_spec =
  cs_ProjectID :: string
  cs_UserID :: string
  cs_Provider :: string
  cs_Amount :: int
  cs_Currency :: string
  cs_PurposeKind :: purpose_kind
  cs_Purpose :: json_object
  cs_IdempotencyKey :: string
  cs_ExpiresIn :: int
  cs_Now :: "gtime option"

definition check_created_order :: "created_order_spec \<Rightarrow> 'e pay_err + int" where
  "check_created_order s =
     (if cs_Amount s \<le> 0 then Inl (PayStatus InvalidArgument)
      else if \<not> currency_ok (cs_Currency s) then Inl (PayStatus InvalidArgument)
      else if \<not> purpose_is_valid (cs_PurposeKind s) then Inl (PayStatus InvalidArgument)
      else if trim_space (cs_IdempotencyKey s) = '''' then Inl (PayStatus InvalidArgument)
      else if max_idempotency_key_len < length (cs_IdempotencyKey s) then Inl (PayStatus InvalidArgument)
      else if trim_space (cs_Provider s) = '''' then Inl (PayStatus InvalidArgument)
      else let ttl = (if cs_ExpiresIn s = 0 then default_order_ttl else cs_ExpiresIn s)
        in if ttl < min_order_ttl \<or> max_order_ttl < ttl then Inl (PayStatus InvalidArgument) else Inr ttl)"

definition new_created_order :: "('x, 'e) pay_env \<Rightarrow> created_order_spec \<Rightarrow> ('x, 'e, pay_order) ptx" where
  "new_created_order e s =
     tx_bind (tx_lift (check_created_order s)) (\<lambda>ttl.
     tx_bind (case cs_Now s of None \<Rightarrow> pay_now e | Some t \<Rightarrow> tx_ret t) (\<lambda>now.
     tx_bind (pay_new_id e) (\<lambda>i. tx_ret
       \<lparr>po_ID = i, po_ProjectID = cs_ProjectID s, po_UserID = cs_UserID s, po_Provider = cs_Provider s,
        po_IdempotencyKey = cs_IdempotencyKey s, po_ProviderSessionID = '''', po_ProviderOrderID = '''',
        po_Amount = cs_Amount s, po_Currency = to_upper (cs_Currency s),
        po_PurposeKind = cs_PurposeKind s, po_Purpose = cs_Purpose s, po_Status = OrderStatusCreated,
        po_CreatedAt = now, po_UpdatedAt = now, po_PaidAt = None, po_ExpiresAt = now + ttl\<rparr>)))"

definition insert_created_order ::
  "('x, 'e) pay_env \<Rightarrow> pay_order \<Rightarrow> ('x, 'e, pay_order option \<times> bool) ptx" where
  "insert_created_order e o1 = tx_bind (order_insert e o1) (\<lambda>(existing, inserted).
     if \<not> inserted then tx_ret (existing, False)
     else tx_bind (upsert_provider_index e (po_Provider o1) kind_payment_session (po_ID o1) (po_ProjectID o1))
       (\<lambda>_. tx_ret (None, True)))"

definition insert_order_with_index ::
  "('x, 'e) pay_env \<Rightarrow> pay_order \<Rightarrow> ('x, 'e, pay_order option \<times> bool) ptx" where
  "insert_order_with_index e o1 = pay_run e (insert_created_order e o1)"

text \<open>A JSON number that is integral has become an \<^verbatim>\<open>int64\<close> or a whole \<^verbatim>\<open>float64\<close>.\<close>

definition validate_topup_amount :: "json_object \<Rightarrow> int \<Rightarrow> 'e pay_err + unit" where
  "validate_topup_amount purpose amount = (case map_of purpose ''amount'' of
     Some (JInt n) \<Rightarrow> if n \<noteq> amount then Inl (PayStatus InvalidArgument) else Inr ()
   | _ \<Rightarrow> Inl (PayStatus InvalidArgument))"

text \<open>What the cashier session adds to an order that is still created, in a transaction.\<close>

definition attach_session ::
  "('x, 'e) pay_env \<Rightarrow> pay_order \<Rightarrow> pay_session \<Rightarrow> gtime option \<Rightarrow> ('x, 'e, pay_order) ptx" where
  "attach_session e o1 s at = tx_bind (order_get e (po_ProjectID o1) (po_ID o1)) (\<lambda>row. case row of
       None \<Rightarrow> tx_fail (PayStatus NotFound)
     | Some locked \<Rightarrow>
         if po_Status locked \<noteq> OrderStatusCreated then tx_ret locked
         else tx_bind (case at of None \<Rightarrow> pay_now e | Some t \<Rightarrow> tx_ret t) (\<lambda>now.
           let filled = locked\<lparr>po_ProviderSessionID := ps_SessionID s,
                 po_ProviderOrderID := (if ps_ProviderOrderID s \<noteq> '''' then ps_ProviderOrderID s
                   else po_ProviderOrderID locked)\<rparr>
           in case order_transition filled OrderStatusPaying now of
             None \<Rightarrow> tx_fail ErrInvalidTransition
           | Some paying \<Rightarrow>
               tx_bind (order_update e paying OrderStatusCreated) (\<lambda>_.
               tx_bind (upsert_provider_index e (po_Provider paying) kind_payment_session
                 (ps_SessionID s) (po_ProjectID paying)) (\<lambda>_.
               tx_bind (upsert_provider_index e (po_Provider paying) kind_payment_order
                 (ps_ProviderOrderID s) (po_ProjectID paying)) (\<lambda>_. tx_ret paying)))))"

definition map_provider_error :: "'e pay_err \<Rightarrow> 'e pay_err" where
  "map_provider_error err = (case err of
     ErrNotConfigured \<Rightarrow> PayStatus FailedPrecondition
   | ErrUnsupported \<Rightarrow> PayStatus Unimplemented
   | ErrLegacyReceiptUnsupported \<Rightarrow> PayStatus FailedPrecondition
   | ErrSignatureInvalid \<Rightarrow> PayStatus Unauthenticated
   | ErrReceiptBoundToOtherUser \<Rightarrow> PayStatus PermissionDenied
   | ProviderError code \<Rightarrow>
       if code = 401 \<or> code = 403 then PayStatus Unauthenticated
       else if code = 404 then PayStatus NotFound
       else if code = 400 \<or> code = 402 \<or> code = 422 then PayStatus FailedPrecondition
       else PayStatus Internal
   | _ \<Rightarrow> PayStatus Internal)"

text \<open>A call to a channel: when it happens is told by the number of statements so far.\<close>

definition ask_provider :: "(nat \<Rightarrow> 'e pay_err + 'a) \<Rightarrow> ('x, 'e, 'a) ptx" where
  "ask_provider f = (\<lambda>w. (f (pw_ops w), w))"

definition tx_map_err :: "('e \<Rightarrow> 'e) \<Rightarrow> ('s, 'e, 'a) tx \<Rightarrow> ('s, 'e, 'a) tx" where
  "tx_map_err g m = (\<lambda>s. case m s of (Inl err, s') \<Rightarrow> (Inl (g err), s') | (Inr a, s') \<Rightarrow> (Inr a, s'))"

record create_order_command =
  co_Provider :: string
  co_Amount :: int
  co_Currency :: string
  co_PurposeKind :: purpose_kind
  co_Purpose :: json_object
  co_IdempotencyKey :: string
  co_ExpiresIn :: int

record created_order_result =
  res_Order :: pay_order
  res_PaymentURL :: string
  res_IdempotentReplay :: bool

definition check_purpose :: "create_order_command \<Rightarrow> 'e pay_err + unit" where
  "check_purpose cmd =
     (if co_PurposeKind cmd = PurposeSubscription then Inl (PayStatus InvalidArgument)
      else if co_PurposeKind cmd = PurposeItemPurchase then Inl (PayStatus InvalidArgument)
      else if co_PurposeKind cmd = PurposeTopup then validate_topup_amount (co_Purpose cmd) (co_Amount cmd)
      else Inr ())"

definition require_row :: "'a option \<Rightarrow> ('x, 'e, 'a) ptx" where
  "require_row r = (case r of None \<Rightarrow> tx_fail (PayStatus NotFound) | Some x \<Rightarrow> tx_ret x)"

definition checkout_order ::
  "('x, 'e) pay_env \<Rightarrow> 'e pay_provider \<Rightarrow> pay_order \<Rightarrow> bool \<Rightarrow> ('x, 'e, created_order_result) ptx" where
  "checkout_order e pv o1 replay =
     (if pv_Name pv = provider_ios_iap then
        tx_ret \<lparr>res_Order = o1, res_PaymentURL = '''', res_IdempotentReplay = replay\<rparr>
      else
        tx_bind (tx_map_err map_provider_error (ask_provider (\<lambda>n. pv_CreatePayment pv n o1))) (\<lambda>session.
        tx_bind (pay_run e (attach_session e o1 session None)) (\<lambda>_.
        tx_bind (order_get e (po_ProjectID o1) (po_ID o1)) (\<lambda>row.
        tx_bind (require_row row) (\<lambda>latest.
        tx_ret \<lparr>res_Order = latest, res_PaymentURL = ps_PaymentURL session,
          res_IdempotentReplay = replay\<rparr>)))))"

definition create_order ::
  "('x, 'e) pay_env \<Rightarrow> principal option \<Rightarrow> create_order_command \<Rightarrow> ('x, 'e, created_order_result) ptx" where
  "create_order e pr cmd =
     tx_bind (tx_lift (end_user pr)) (\<lambda>(p, u).
     tx_bind (tx_lift (check_purpose cmd)) (\<lambda>_.
     tx_bind (new_created_order e \<lparr>cs_ProjectID = p, cs_UserID = u, cs_Provider = co_Provider cmd,
       cs_Amount = co_Amount cmd, cs_Currency = co_Currency cmd, cs_PurposeKind = co_PurposeKind cmd,
       cs_Purpose = co_Purpose cmd, cs_IdempotencyKey = co_IdempotencyKey cmd,
       cs_ExpiresIn = co_ExpiresIn cmd, cs_Now = None\<rparr>) (\<lambda>fresh.
     case pe_providers e (co_Provider cmd) of None \<Rightarrow> tx_fail (PayStatus InvalidArgument)
     | Some pv \<Rightarrow>
     tx_bind (insert_order_with_index e (fresh\<lparr>po_Provider := pv_Name pv\<rparr>)) (\<lambda>(existing, inserted).
       case existing of
         Some r \<Rightarrow>
           if po_Status r \<noteq> OrderStatusCreated
           then tx_ret \<lparr>res_Order = r, res_PaymentURL = '''', res_IdempotentReplay = True\<rparr>
           else checkout_order e pv r True
       | None \<Rightarrow> checkout_order e pv (fresh\<lparr>po_Provider := pv_Name pv\<rparr>) False))))"

definition get_my_order :: "('x, 'e) pay_env \<Rightarrow> principal option \<Rightarrow> string \<Rightarrow> ('x, 'e, pay_order) ptx" where
  "get_my_order e pr i = tx_bind (tx_lift (end_user pr)) (\<lambda>(p, u).
     tx_bind (order_get e p i) (\<lambda>row. case row of None \<Rightarrow> tx_fail (PayStatus NotFound)
       | Some r \<Rightarrow> if po_UserID r \<noteq> u then tx_fail (PayStatus NotFound) else tx_ret r))"

definition get_order :: "('x, 'e) pay_env \<Rightarrow> principal option \<Rightarrow> string \<Rightarrow> ('x, 'e, pay_order) ptx" where
  "get_order e pr i = tx_bind (tx_lift (project_scope pr)) (\<lambda>p.
     tx_bind (order_get e p i) require_row)"

section \<open>Callbacks\<close>

definition fulfillment_for :: "pay_order \<Rightarrow> string \<Rightarrow> gtime \<Rightarrow> fulfillment" where
  "fulfillment_for o1 i now = \<lparr>fu_ID = i, fu_OrderID = po_ID o1, fu_ProjectID = po_ProjectID o1,
     fu_PurposeKind = po_PurposeKind o1, fu_Ref = ''order:'' @ po_ID o1, fu_Status = FulfillmentPending,
     fu_Previous = None, fu_CreatedAt = now, fu_UpdatedAt = now\<rparr>"

text \<open>Fulfil an order and mark its row, as every path of the service does.\<close>

definition fulfill_and_mark ::
  "('x, 'e) pay_env \<Rightarrow> pay_order \<Rightarrow> string \<Rightarrow> string \<Rightarrow> ('x, 'e, unit) ptx" where
  "fulfill_and_mark e o1 rowID rowRef =
     tx_bind (ext_step (pe_Fulfill e o1)) (\<lambda>ref.
     fulfillment_mark_done e (po_ProjectID o1) rowID (if ref = '''' then rowRef else ref))"

text \<open>Whether the channel's amount and currency let the order be settled.\<close>

definition settle_check :: "callback_event \<Rightarrow> pay_order \<Rightarrow> 'e pay_err + unit" where
  "settle_check ev o1 =
     (if 0 < cb_Amount ev \<and> cb_Amount ev \<noteq> po_Amount o1 then Inl (PayStatus FailedPrecondition)
      else if cb_Amount ev = 0 \<and> 0 < po_Amount o1 then Inl (PayStatus FailedPrecondition)
      else if cb_Currency ev \<noteq> '''' \<and> cb_Currency ev \<noteq> po_Currency o1
        then Inl (PayStatus FailedPrecondition)
      else Inr ())"

definition apply_paid ::
  "('x, 'e) pay_env \<Rightarrow> pay_order \<Rightarrow> callback_event \<Rightarrow> gtime \<Rightarrow> ('x, 'e, unit) ptx" where
  "apply_paid e o1 ev now =
     (if po_Status o1 \<notin> {OrderStatusCreated, OrderStatusPaying} then tx_ret ()
      else
        tx_bind (tx_lift (settle_check ev o1)) (\<lambda>_.
        case order_transition (o1\<lparr>po_ProviderOrderID :=
            (if cb_ProviderOrderID ev \<noteq> '''' \<and> po_ProviderOrderID o1 = ''''
             then cb_ProviderOrderID ev else po_ProviderOrderID o1)\<rparr>) OrderStatusPaid now of
          None \<Rightarrow> tx_fail ErrInvalidTransition
        | Some paid \<Rightarrow>
            tx_bind (order_update e paid (po_Status o1)) (\<lambda>_.
            tx_bind (upsert_provider_index e (po_Provider paid) kind_payment_session
              (cb_ProviderSessionID ev) (po_ProjectID paid)) (\<lambda>_.
            tx_bind (upsert_provider_index e (po_Provider paid) kind_payment_order
              (cb_ProviderOrderID ev) (po_ProjectID paid)) (\<lambda>_.
            tx_bind (pay_new_id e) (\<lambda>i.
            tx_bind (fulfillment_insert_pending e (fulfillment_for paid i now)) (\<lambda>(existing, inserted).
            tx_bind (if inserted then fulfill_and_mark e paid i (''order:'' @ po_ID paid)
                else (case existing of
                    Some f \<Rightarrow> if fu_Status f = FulfillmentPending
                      then fulfillment_mark_done e (po_ProjectID paid) (fu_ID f) (fu_Ref f) else tx_ret ()
                  | None \<Rightarrow> tx_ret ())) (\<lambda>_.
            order_publish e paid EventOrderPaid now))))))))"

definition apply_terminal ::
  "('x, 'e) pay_env \<Rightarrow> pay_order \<Rightarrow> order_status \<Rightarrow> gtime \<Rightarrow> ('x, 'e, unit) ptx" where
  "apply_terminal e o1 to now =
     (if po_Status o1 = to \<or> order_is_terminal (po_Status o1) \<or> po_Status o1 = OrderStatusPaid
      then tx_ret ()
      else (case order_transition o1 to now of None \<Rightarrow> tx_ret ()
        | Some o2 \<Rightarrow>
            tx_bind (order_update e o2 (po_Status o1)) (\<lambda>_. order_publish e o2 EventOrderFailed now)))"

text \<open>
  \<^verbatim>\<open>Reverse\<close>, and the row that records its failure. If the failure is one of the database, the
  transaction is aborted: the statements that follow fail and everything is rolled back.
\<close>

definition reverse_or_record :: "('x, 'e) pay_env \<Rightarrow> pay_order \<Rightarrow> ('x, 'e, unit) ptx" where
  "reverse_or_record e o1 = tx_bind (tx_try (ext_step (pe_Reverse e o1))) (\<lambda>r. case r of
       Inr _ \<Rightarrow> tx_ret ()
     | Inl err \<Rightarrow> if pe_db_err e err then tx_fail PayDB else fulfillment_mark_reverse_failed e o1)"

definition refund_order :: "('x, 'e) pay_env \<Rightarrow> pay_order \<Rightarrow> gtime \<Rightarrow> ('x, 'e, unit) ptx" where
  "refund_order e o2 now = tx_bind (reverse_or_record e o2) (\<lambda>_. order_publish e o2 EventOrderRefunded now)"

definition apply_refunded ::
  "('x, 'e) pay_env \<Rightarrow> pay_order \<Rightarrow> callback_event \<Rightarrow> gtime \<Rightarrow> ('x, 'e, unit) ptx" where
  "apply_refunded e o1 ev now =
     (if po_Status o1 \<notin> {OrderStatusPaid, OrderStatusRefunding} then tx_ret ()
      else if cb_Amount ev \<noteq> po_Amount o1 then tx_ret ()
      else (case order_transition o1 OrderStatusRefunded now of None \<Rightarrow> tx_ret ()
        | Some o2 \<Rightarrow> tx_bind (order_update e o2 (po_Status o1)) (\<lambda>_. refund_order e o2 now)))"

definition has_platform_ref :: "callback_event \<Rightarrow> bool" where
  "has_platform_ref ev \<longleftrightarrow> cb_OrderID ev \<noteq> '''' \<or> cb_LocalSubscriptionID ev \<noteq> '''' \<or>
     cb_ProviderSubID ev \<noteq> '''' \<or>
     cb_MetadataProjectID ev \<noteq> '''' \<and> (cb_ProviderSessionID ev \<noteq> '''' \<or> cb_ProviderOrderID ev \<noteq> '''')"

definition locate_subscription_project ::
  "('x, 'e) pay_env \<Rightarrow> callback_event \<Rightarrow> ('x, 'e, string) ptx" where
  "locate_subscription_project e ev =
     tx_bind (index_lookup e (cb_Provider ev) kind_subscription (cb_LocalSubscriptionID ev)) (\<lambda>p.
     if p \<noteq> '''' then tx_ret p
     else index_lookup e (cb_Provider ev) kind_subscription (cb_ProviderSubID ev))"

definition locate_by_id :: "('x, 'e) pay_env \<Rightarrow> callback_event \<Rightarrow> ('x, 'e, pay_order option) ptx" where
  "locate_by_id e ev =
     tx_bind (index_lookup e (cb_Provider ev) kind_payment_session (cb_OrderID ev)) (\<lambda>p.
     if p = '''' then tx_ret None
     else tx_bind (order_get e p (cb_OrderID ev)) (\<lambda>row. case row of None \<Rightarrow> tx_ret None
       | Some r \<Rightarrow> tx_ret (if po_Provider r = cb_Provider ev then Some r else None)))"

definition locate_by_ref ::
  "('x, 'e) pay_env \<Rightarrow> callback_event \<Rightarrow> string \<Rightarrow> string \<Rightarrow> ('x, 'e, pay_order option) ptx" where
  "locate_by_ref e ev kind ref = tx_bind (index_lookup e (cb_Provider ev) kind ref) (\<lambda>p.
     if p = '''' then tx_ret None
     else order_get_by_provider_ref e p (cb_Provider ev)
       (if kind = kind_payment_session then ref else '''') (if kind = kind_payment_session then '''' else ref))"

definition tx_or_else :: "('s, 'e, 'a option) tx \<Rightarrow> ('s, 'e, 'a option) tx \<Rightarrow> ('s, 'e, 'a option) tx" where
  "tx_or_else m n = tx_bind m (\<lambda>r. case r of None \<Rightarrow> n | Some a \<Rightarrow> tx_ret (Some a))"

definition locate_order :: "('x, 'e) pay_env \<Rightarrow> callback_event \<Rightarrow> ('x, 'e, pay_order option) ptx" where
  "locate_order e ev =
     tx_or_else (if cb_OrderID ev = '''' then tx_ret None else locate_by_id e ev)
    (tx_or_else (if cb_ProviderSessionID ev = '''' then tx_ret None
       else locate_by_ref e ev kind_payment_session (cb_ProviderSessionID ev))
    (tx_or_else (if cb_ProviderOrderID ev = '''' then tx_ret None
       else locate_by_ref e ev kind_payment_order (cb_ProviderOrderID ev))
    (if has_platform_ref ev then tx_fail ErrProviderIndexMiss else tx_ret None)))"

definition handle_subscription_event ::
  "('x, 'e) pay_env \<Rightarrow> callback_event \<Rightarrow> ('x, 'e, unit) ptx" where
  "handle_subscription_event e ev = tx_bind (locate_subscription_project e ev) (\<lambda>p.
     if p = '''' then (if has_platform_ref ev then tx_fail ErrProviderIndexMiss else tx_ret ())
     else let ev' = ev\<lparr>cb_MetadataProjectID :=
            (if cb_MetadataProjectID ev = '''' then p else cb_MetadataProjectID ev)\<rparr>
       in pay_run e (tx_bind (callback_insert_if_absent e ev' p (cb_LocalSubscriptionID ev')) (\<lambda>inserted.
            if \<not> inserted then tx_ret () else pe_Hosted e ev')))"

definition drive_order ::
  "('x, 'e) pay_env \<Rightarrow> callback_event \<Rightarrow> gtime \<Rightarrow> string \<Rightarrow> string \<Rightarrow> ('x, 'e, unit) ptx" where
  "drive_order e ev now p i = tx_bind (order_get e p i) (\<lambda>row. case row of None \<Rightarrow> tx_ret ()
     | Some locked \<Rightarrow> (case cb_Type ev of
         CallbackPaid \<Rightarrow> apply_paid e locked ev now
       | CallbackFailed \<Rightarrow> apply_terminal e locked OrderStatusFailed now
       | CallbackRefunded \<Rightarrow> apply_refunded e locked ev now
       | _ \<Rightarrow> tx_ret ()))"

definition handle_order_event ::
  "('x, 'e) pay_env \<Rightarrow> callback_event \<Rightarrow> ('x, 'e, unit) ptx" where
  "handle_order_event e ev = tx_bind (locate_order e ev) (\<lambda>row. case row of
       None \<Rightarrow> if has_platform_ref ev then tx_fail ErrProviderIndexMiss else tx_ret ()
     | Some o1 \<Rightarrow> tx_bind (pay_now e) (\<lambda>now. pay_run e (
         tx_bind (callback_insert_if_absent e ev (po_ProjectID o1) (po_ID o1)) (\<lambda>inserted.
         if \<not> inserted then tx_ret () else drive_order e ev now (po_ProjectID o1) (po_ID o1)))))"

text \<open>The request is the headers with the body; its signature is checked by the channel.\<close>

definition handle_callback :: "('x, 'e) pay_env \<Rightarrow> string \<Rightarrow> string \<Rightarrow> ('x, 'e, unit) ptx" where
  "handle_callback e name request = (case pe_providers e name of None \<Rightarrow> tx_fail ErrSignatureInvalid
   | Some pv \<Rightarrow> (case pv_VerifyCallback pv request of
       Inl ErrNotConfigured \<Rightarrow> tx_fail ErrSignatureInvalid
     | Inl ErrSignatureInvalid \<Rightarrow> tx_fail ErrSignatureInvalid
     | Inl _ \<Rightarrow> tx_ret ()
     | Inr ev \<Rightarrow>
         if cb_Type ev = CallbackIgnored then tx_ret ()
         else if is_subscription_event (cb_Type ev) then handle_subscription_event e ev
         else handle_order_event e ev))"

section \<open>Receipts\<close>

record verify_receipt_result =
  vr_Order :: pay_order
  vr_TransactionID :: string
  vr_IdempotentReplay :: bool

definition receipt_event :: "verified_purchase \<Rightarrow> pay_order \<Rightarrow> string \<Rightarrow> gtime \<Rightarrow> callback_event" where
  "receipt_event v o1 receipt now = \<lparr>cb_Provider = provider_ios_iap,
     cb_ProviderEventID = ''ios_txn:'' @ vp_TransactionID v,
     cb_ProviderSessionID = vp_OriginalTransactionID v, cb_ProviderOrderID = vp_TransactionID v,
     cb_Type = CallbackPaid, cb_Amount = vp_Amount v, cb_Currency = vp_Currency v, cb_OrderID = po_ID o1,
     cb_ReceivedAt = Some now, cb_ProviderSubID = '''', cb_LocalSubscriptionID = '''',
     cb_PeriodStart = None, cb_PeriodEnd = None, cb_CancelAtPeriodEnd = False, cb_HostedStatus = '''',
     cb_MetadataProjectID = '''', cb_Raw = receipt\<rparr>"

definition receipt_bound ::
  "('x, 'e) pay_env \<Rightarrow> string \<Rightarrow> ('x, 'e, pay_order option) ptx" where
  "receipt_bound e txn = tx_bind (index_lookup e provider_ios_iap kind_ios_transaction txn) (\<lambda>p.
     if p = '''' then tx_ret None else order_get_by_provider_ref e p provider_ios_iap '''' txn)"

definition settle_receipt ::
  "('x, 'e) pay_env \<Rightarrow> string \<Rightarrow> verified_purchase \<Rightarrow> pay_order \<Rightarrow> string \<Rightarrow> gtime \<Rightarrow> ('x, 'e, unit) ptx" where
  "settle_receipt e p v o1 receipt now = (let ev = receipt_event v o1 receipt now in
     tx_bind (callback_insert_if_absent e ev (po_ProjectID o1) (po_ID o1)) (\<lambda>inserted.
     if \<not> inserted then tx_ret ()
     else tx_bind (order_get e (po_ProjectID o1) (po_ID o1)) (\<lambda>row.
       tx_bind (require_row row) (\<lambda>locked.
       tx_bind (upsert_provider_index e provider_ios_iap kind_ios_transaction (vp_TransactionID v) p) (\<lambda>_.
       apply_paid e locked ev now)))))"

definition verify_receipt ::
  "('x, 'e) pay_env \<Rightarrow> principal option \<Rightarrow> string \<Rightarrow> string \<Rightarrow> ('x, 'e, verify_receipt_result) ptx" where
  "verify_receipt e pr orderID receipt =
     tx_bind (tx_lift (end_user pr)) (\<lambda>(p, u).
     tx_when (orderID = '''' \<or> receipt = '''') (PayStatus InvalidArgument) (
     case pe_providers e provider_ios_iap of None \<Rightarrow> tx_fail (PayStatus FailedPrecondition)
     | Some pv \<Rightarrow> (case pv_VerifyReceipt pv of None \<Rightarrow> tx_fail (PayStatus Unimplemented)
     | Some verify \<Rightarrow>
     tx_bind (tx_map_err map_provider_error (ask_provider (\<lambda>n. verify n receipt))) (\<lambda>v.
     tx_when (vp_TransactionID v = '''') (PayStatus FailedPrecondition) (
     tx_bind (receipt_bound e (vp_TransactionID v)) (\<lambda>bound. case bound of
       Some b \<Rightarrow>
         if po_UserID b \<noteq> u \<or> po_ProjectID b \<noteq> p then tx_fail (PayStatus PermissionDenied)
         else tx_ret \<lparr>vr_Order = b, vr_TransactionID = vp_TransactionID v, vr_IdempotentReplay = True\<rparr>
     | None \<Rightarrow>
     tx_bind (order_get e p orderID) (\<lambda>row. case row of None \<Rightarrow> tx_fail (PayStatus NotFound)
     | Some o1 \<Rightarrow>
     tx_when (po_UserID o1 \<noteq> u) (PayStatus NotFound) (
     tx_when (po_Provider o1 \<noteq> provider_ios_iap) (PayStatus InvalidArgument) (
     tx_bind (pay_now e) (\<lambda>now.
     tx_bind (pay_run e (settle_receipt e p v o1 receipt now)) (\<lambda>_.
     tx_bind (order_get e p (po_ID o1)) (\<lambda>row'.
     tx_bind (require_row row') (\<lambda>latest.
     tx_bind (tx_try (receipt_bound e (vp_TransactionID v))) (\<lambda>again. case again of
       Inr (Some b2) \<Rightarrow>
         if po_ID b2 \<noteq> po_ID latest \<and> po_UserID b2 = u \<and> po_ProjectID b2 = p
         then tx_ret \<lparr>vr_Order = b2, vr_TransactionID = vp_TransactionID v, vr_IdempotentReplay = True\<rparr>
         else tx_ret \<lparr>vr_Order = latest, vr_TransactionID = vp_TransactionID v, vr_IdempotentReplay = False\<rparr>
     | _ \<Rightarrow> tx_ret \<lparr>vr_Order = latest, vr_TransactionID = vp_TransactionID v,
         vr_IdempotentReplay = False\<rparr>))))))))))))))"

section \<open>Refunds and fulfilment by hand\<close>

definition settle_refund ::
  "('x, 'e) pay_env \<Rightarrow> string \<Rightarrow> string \<Rightarrow> order_status \<Rightarrow> gtime \<Rightarrow> ('x, 'e, unit) ptx" where
  "settle_refund e p i to now = tx_bind (order_get e p i) (\<lambda>row.
     tx_bind (require_row row) (\<lambda>locked.
     if po_Status locked \<noteq> OrderStatusPaid then tx_ret ()
     else (case order_transition locked to now of None \<Rightarrow> tx_fail ErrInvalidTransition
       | Some o2 \<Rightarrow> tx_bind (order_update e o2 (po_Status locked)) (\<lambda>_.
           if to = OrderStatusRefunded then refund_order e o2 now else tx_ret ()))))"

definition refund ::
  "('x, 'e) pay_env \<Rightarrow> principal option \<Rightarrow> string \<Rightarrow> int \<Rightarrow> ('x, 'e, pay_order option) ptx" where
  "refund e pr i amount =
     tx_bind (tx_lift (require_server_principal pr)) (\<lambda>_.
     tx_bind (tx_lift (project_scope pr)) (\<lambda>p.
     tx_bind (order_get e p i) (\<lambda>row.
     tx_bind (require_row row) (\<lambda>o1.
     if po_Status o1 = OrderStatusRefunded \<or> po_Status o1 = OrderStatusRefunding then tx_ret (Some o1)
     else if po_Status o1 \<noteq> OrderStatusPaid then tx_fail (PayStatus FailedPrecondition)
     else if amount < 0 then tx_fail (PayStatus InvalidArgument)
     else if amount \<noteq> 0 \<and> amount \<noteq> po_Amount o1 then tx_fail (PayStatus InvalidArgument)
     else (case pe_providers e (po_Provider o1) of None \<Rightarrow> tx_fail (PayStatus Internal)
       | Some pv \<Rightarrow>
           tx_bind (tx_map_err map_provider_error (ask_provider (\<lambda>n. pv_Refund pv n o1 amount))) (\<lambda>succeeded.
           tx_bind (pay_now e) (\<lambda>now.
           tx_bind (pay_run e (settle_refund e p i
             (if succeeded then OrderStatusRefunded else OrderStatusRefunding) now)) (\<lambda>_.
           order_get e p i))))))))"

definition fulfill_by_hand :: "('x, 'e) pay_env \<Rightarrow> string \<Rightarrow> pay_order \<Rightarrow> gtime \<Rightarrow> ('x, 'e, fulfillment option) ptx" where
  "fulfill_by_hand e p o1 now =
     tx_bind (fulfillment_get_by_order e p (po_ID o1)) (\<lambda>existing. case existing of
       Some f \<Rightarrow> if fu_Status f = FulfillmentDone then tx_ret (Some f)
         else tx_bind (fulfill_and_mark e o1 (fu_ID f) (fu_Ref f)) (\<lambda>_.
           fulfillment_get_by_order e p (po_ID o1))
     | None \<Rightarrow>
         tx_bind (pay_new_id e) (\<lambda>i.
         tx_bind (fulfillment_insert_pending e (fulfillment_for o1 i now)) (\<lambda>(_, inserted).
         if inserted then
           tx_bind (fulfill_and_mark e o1 i (''order:'' @ po_ID o1)) (\<lambda>_.
             fulfillment_get_by_order e p (po_ID o1))
         else
           tx_bind (fulfillment_get_by_order e p (po_ID o1)) (\<lambda>again. case again of
             None \<Rightarrow> tx_fail (PayStatus Internal)
           | Some f \<Rightarrow> if fu_Status f = FulfillmentDone then tx_ret (Some f)
               else tx_bind (fulfill_and_mark e o1 (fu_ID f) (fu_Ref f)) (\<lambda>_.
                 fulfillment_get_by_order e p (po_ID o1))))))"

definition manual_fulfill ::
  "('x, 'e) pay_env \<Rightarrow> principal option \<Rightarrow> string \<Rightarrow> ('x, 'e, pay_order \<times> fulfillment option) ptx" where
  "manual_fulfill e pr i =
     tx_bind (tx_lift (require_server_principal pr)) (\<lambda>_.
     tx_bind (tx_lift (project_scope pr)) (\<lambda>p.
     tx_bind (order_get e p i) (\<lambda>row.
     tx_bind (require_row row) (\<lambda>o1.
     tx_when (po_Status o1 \<noteq> OrderStatusPaid) (PayStatus FailedPrecondition) (
     tx_bind (pay_now e) (\<lambda>now.
     tx_bind (pay_run e (fulfill_by_hand e p o1 now)) (\<lambda>f. tx_ret (o1, f))))))))"

section \<open>The scan that closes orders\<close>

definition close_work ::
  "('x, 'e) pay_env \<Rightarrow> string list \<Rightarrow> gtime \<Rightarrow> nat \<Rightarrow> int \<Rightarrow> int \<times> 'x pay_world \<Rightarrow> int \<times> (int \<times> 'x pay_world)" where
  "close_work e projects now idx remaining s =
     (case close_expired_in_project e (projects ! idx) now remaining (snd s) of
       (Inl _, w) \<Rightarrow> (0, (fst s, w))
     | (Inr n, w) \<Rightarrow> (n, (fst s + n, w)))"

definition close_expired_orders ::
  "('x, 'e) pay_env \<Rightarrow> string list \<Rightarrow> (nat \<Rightarrow> bool) \<Rightarrow> gtime \<Rightarrow> int \<times> 'x pay_world \<Rightarrow>
    int \<times> (int \<times> 'x pay_world)" where
  "close_expired_orders e projects active now st =
     rotation_round (close_work e projects now) active (length projects) close_expired_batch
       (fst st, (0, snd st))"

end
