(* ===== verification/Payment_Lifecycle.thy ===== *)
theory Payment_Lifecycle
  imports Payments
begin

text \<open>
  What a payment order promises, as an abstract life cycle of each order, and the proof that
  the payment service keeps to it: a simulation, with the books between orders and fulfilments
  as its invariant. Who fulfils the orders is known only by the locale \<open>order_fulfilment\<close>.
\<close>

section \<open>The abstract life cycle\<close>

datatype order_phase = Unpaid | Dropped | Settled | Refunded

text \<open>What is agreed when the order is placed, and never changes.\<close>

record order_terms =
  ot_UserID :: string
  ot_Provider :: string
  ot_IdempotencyKey :: string
  ot_Amount :: int
  ot_Currency :: string
  ot_PurposeKind :: purpose_kind
  ot_Purpose :: json_object
  ot_CreatedAt :: gtime
  ot_ExpiresAt :: gtime

inductive order_step :: "(order_terms \<times> order_phase) option \<Rightarrow> (order_terms \<times> order_phase) option \<Rightarrow> bool" where
  place: "0 < ot_Amount t \<Longrightarrow> order_step None (Some (t, Unpaid))"
| drop: "order_step (Some (t, Unpaid)) (Some (t, Dropped))"
| settle: "order_step (Some (t, Unpaid)) (Some (t, Settled))"
| refund: "order_step (Some (t, Settled)) (Some (t, Refunded))"

inductive_cases order_step_from_dropped: "order_step (Some (t, Dropped)) b"
inductive_cases order_step_from_refunded: "order_step (Some (t, Refunded)) b"

fun phase_of :: "order_status \<Rightarrow> order_phase" where
  "phase_of OrderStatusCreated = Unpaid"
| "phase_of OrderStatusPaying = Unpaid"
| "phase_of OrderStatusPaid = Settled"
| "phase_of OrderStatusFailed = Dropped"
| "phase_of OrderStatusClosed = Dropped"
| "phase_of OrderStatusRefunding = Settled"
| "phase_of OrderStatusRefunded = Refunded"

definition terms_of :: "pay_order \<Rightarrow> order_terms" where
  "terms_of o1 = \<lparr>ot_UserID = po_UserID o1, ot_Provider = po_Provider o1,
     ot_IdempotencyKey = po_IdempotencyKey o1, ot_Amount = po_Amount o1, ot_Currency = po_Currency o1,
     ot_PurposeKind = po_PurposeKind o1, ot_Purpose = po_Purpose o1,
     ot_CreatedAt = po_CreatedAt o1, ot_ExpiresAt = po_ExpiresAt o1\<rparr>"

text \<open>The abstraction: the row with a key, seen as terms and phase.\<close>

definition order_row :: "pay_order list \<Rightarrow> string \<times> string \<Rightarrow> pay_order option" where
  "order_row os k = find (\<lambda>o1. order_key o1 = k) os"

definition order_view :: "pay_order list \<Rightarrow> string \<times> string \<Rightarrow> (order_terms \<times> order_phase) option" where
  "order_view os k = map_option (\<lambda>o1. (terms_of o1, phase_of (po_Status o1))) (order_row os k)"

definition orders_advance :: "pay_order list \<Rightarrow> pay_order list \<Rightarrow> bool" where
  "orders_advance os os' \<longleftrightarrow> (\<forall>k. order_step\<^sup>*\<^sup>* (order_view os k) (order_view os' k))"

lemma orders_advance_refl [simp, intro]: "orders_advance os os"
  by (simp add: orders_advance_def)

lemma orders_advance_trans: "orders_advance a b \<Longrightarrow> orders_advance b c \<Longrightarrow> orders_advance a c"
  unfolding orders_advance_def by (meson rtranclp_trans)

section \<open>The books\<close>

definition settled :: "pay_order \<Rightarrow> bool" where
  "settled o1 \<longleftrightarrow> po_Status o1 \<in> {OrderStatusPaid, OrderStatusRefunding, OrderStatusRefunded}"

definition order_wf :: "pay_order \<Rightarrow> bool" where
  "order_wf o1 \<longleftrightarrow> 0 < po_Amount o1 \<and> length (po_Currency o1) = 3 \<and> list_all is_upper (po_Currency o1) \<and>
     purpose_is_valid (po_PurposeKind o1) \<and> po_IdempotencyKey o1 \<noteq> '''' \<and>
     length (po_IdempotencyKey o1) \<le> max_idempotency_key_len \<and>
     min_order_ttl \<le> po_ExpiresAt o1 - po_CreatedAt o1 \<and> po_ExpiresAt o1 - po_CreatedAt o1 \<le> max_order_ttl \<and>
     (po_PaidAt o1 \<noteq> None \<longleftrightarrow> settled o1)"

definition fulfils :: "fulfillment \<Rightarrow> pay_order \<Rightarrow> bool" where
  "fulfils f o1 \<longleftrightarrow> (fu_ProjectID f, fu_OrderID f) = order_key o1 \<and> fu_PurposeKind f = po_PurposeKind o1"

definition fulfilment_matches :: "fulfillment \<Rightarrow> pay_order \<Rightarrow> bool" where
  "fulfilment_matches f o1 \<longleftrightarrow> fu_Status f = FulfillmentDone \<or>
     (fu_Status f = FulfillmentReverseFailed \<and> po_Status o1 = OrderStatusRefunded)"

text \<open>
  The orders in \<open>X\<close> are being settled by the transaction that runs; \<open>L\<close> are the orders that have
  been handed out, of those that \<open>counted\<close> asks for.
\<close>

definition books :: "(purpose_kind \<Rightarrow> bool) \<Rightarrow> (string \<times> string) set \<Rightarrow> pay_order list \<Rightarrow>
    fulfillment list \<Rightarrow> (string \<times> string) set \<Rightarrow> bool" where
  "books counted X os fs L \<longleftrightarrow> orders_ok os \<and> list_all order_wf os \<and> fulfillments_ok fs \<and>
     (\<forall>f \<in> set fs. \<exists>o1 \<in> set os. fulfils f o1 \<and> settled o1 \<and> (order_key o1 \<notin> X \<longrightarrow> fulfilment_matches f o1)) \<and>
     (\<forall>o1 \<in> set os. order_key o1 \<notin> X \<longrightarrow> settled o1 \<longrightarrow>
        (\<exists>f \<in> set fs. fulfils f o1) \<and> (counted (po_PurposeKind o1) \<longrightarrow> order_key o1 \<in> L))"

section \<open>Tables\<close>

lemma order_row_map:
  assumes "\<And>o1. order_key (g o1) = order_key o1"
  shows "order_row (map g os) k = map_option g (order_row os k)"
  using assms by (induction os) (auto simp: order_row_def)

lemma order_row_SomeD: "order_row os k = Some o1 \<Longrightarrow> o1 \<in> set os \<and> order_key o1 = k"
  by (auto simp: order_row_def find_Some_iff)

lemma order_row_set:
  assumes "distinct (map order_key os)" and "o1 \<in> set os"
  shows "order_row os (order_key o1) = Some o1"
  using assms by (induction os) (auto simp: order_row_def)

lemma order_columns_simps [simp]:
  "order_key (order_columns a r) = order_key r" "order_idem (order_columns a r) = order_idem r"
  "terms_of (order_columns a r) = terms_of r" "po_Status (order_columns a r) = po_Status a"
  "po_PurposeKind (order_columns a r) = po_PurposeKind r" "po_PaidAt (order_columns a r) = po_PaidAt a"
  "po_Amount (order_columns a r) = po_Amount r"
  by (simp_all add: order_columns_def order_key_def order_idem_def terms_of_def)

lemma orders_ok_distinct: "orders_ok os \<Longrightarrow> distinct (map order_key os)"
  by (simp add: orders_ok_def)

lemma can_transition_phase:
  assumes "can_transition s s'"
  shows "(phase_of s = phase_of s') \<or> order_step (Some (t, phase_of s)) (Some (t, phase_of s'))"
  using assms
  by (cases s; cases s') (auto simp: can_transition_def allowed_transitions_def
      intro: order_step.intros)

lemma view_step:
  "can_transition s s' \<Longrightarrow> order_step\<^sup>*\<^sup>* (Some (t, phase_of s)) (Some (t, phase_of s'))"
  using can_transition_phase [of s s' t] by auto

lemma order_transition_SomeD:
  assumes "order_transition o1 to now = Some o2"
  shows "can_transition (po_Status o1) to"
    and "o2 = o1\<lparr>po_Status := to, po_UpdatedAt := now,
      po_PaidAt := (if to = OrderStatusPaid \<and> po_PaidAt o1 = None then Some now else po_PaidAt o1)\<rparr>"
  using assms by (auto simp: order_transition_def split: if_splits)

section \<open>Statements on the tables\<close>

lemma pay_write_Inr [tx_simps]:
  "pay_write e f w = (Inr a, w') \<longleftrightarrow> \<not> pe_fails e (pw_ops w) \<and>
     (\<exists>db. f (pw_db w) = Inr (a, db) \<and> w' = w\<lparr>pw_ops := Suc (pw_ops w), pw_db := db\<rparr>)"
  by (auto simp: pay_write_def pay_op_def Let_def split: sum.splits)

lemma pay_read_Inr [tx_simps]:
  "pay_read e f w = (Inr a, w') \<longleftrightarrow> \<not> pe_fails e (pw_ops w) \<and> a = f (pw_db w) \<and>
     w' = w\<lparr>pw_ops := Suc (pw_ops w)\<rparr>"
  by (auto simp: pay_read_def pay_op_def Let_def)

text \<open>What the life cycle is about: orders, fulfilments, and the other state.\<close>

definition core :: "'x pay_world \<Rightarrow> pay_order list \<times> fulfillment list \<times> 'x" where
  "core w = (pt_orders (pw_db w), pt_fulfillments (pw_db w), pw_ext w)"

definition keeps_core :: "('x, 'e, 'a) ptx \<Rightarrow> bool" where
  "keeps_core m \<longleftrightarrow> (\<forall>w r w'. m w = (r, w') \<longrightarrow> core w' = core w)"

lemma keeps_coreI: "(\<And>w r w'. m w = (r, w') \<Longrightarrow> core w' = core w) \<Longrightarrow> keeps_core m"
  by (simp add: keeps_core_def)

lemma keeps_coreD: "keeps_core m \<Longrightarrow> m w = (r, w') \<Longrightarrow> core w' = core w"
  by (simp add: keeps_core_def)

named_theorems core_kept

lemma core_ret [core_kept]: "keeps_core (tx_ret a)"
  by (simp add: keeps_core_def tx_ret_def)

lemma core_fail [core_kept]: "keeps_core (tx_fail a)"
  by (simp add: keeps_core_def tx_fail_def)

lemma core_lift [core_kept]: "keeps_core (tx_lift a)"
  by (simp add: keeps_core_def tx_lift_def)

lemma core_bind [core_kept]: "keeps_core m \<Longrightarrow> (\<And>a. keeps_core (f a)) \<Longrightarrow> keeps_core (tx_bind m f)"
  by (fastforce simp: keeps_core_def tx_bind_def split: prod.splits sum.splits)

lemma core_when [core_kept]: "keeps_core m \<Longrightarrow> keeps_core (tx_when b err m)"
  by (simp add: tx_when_def core_fail)

lemma core_if [core_kept]: "keeps_core m \<Longrightarrow> keeps_core n \<Longrightarrow> keeps_core (if b then m else n)"
  by simp

lemma core_option [core_kept]:
  "keeps_core m \<Longrightarrow> (\<And>a. keeps_core (f a)) \<Longrightarrow> keeps_core (case x of None \<Rightarrow> m | Some a \<Rightarrow> f a)"
  by (cases x) simp_all

lemma core_prod [core_kept]: "(\<And>a b. keeps_core (f a b)) \<Longrightarrow> keeps_core (case x of (a, b) \<Rightarrow> f a b)"
  by (cases x) simp

lemma core_read [core_kept]: "keeps_core (pay_read e f)"
  by (auto simp: keeps_core_def pay_read_def pay_op_def Let_def core_def)

lemma core_write:
  assumes "\<And>db a db'. f db = Inr (a, db') \<Longrightarrow>
    pt_orders db' = pt_orders db \<and> pt_fulfillments db' = pt_fulfillments db"
  shows "keeps_core (pay_write e f)"
  using assms
  by (fastforce simp: keeps_core_def pay_write_def pay_op_def Let_def core_def split: sum.splits)

lemma core_new_id [core_kept]: "keeps_core (pay_new_id e)"
  by (auto simp: keeps_core_def pay_new_id_def core_def)

lemma core_now [core_kept]: "keeps_core (pay_now e)"
  by (auto simp: keeps_core_def pay_now_def core_def)

lemma core_ask [core_kept]: "keeps_core (ask_provider f)"
  by (auto simp: keeps_core_def ask_provider_def core_def)

lemma core_map_err [core_kept]: "keeps_core m \<Longrightarrow> keeps_core (tx_map_err g m)"
  by (fastforce simp: keeps_core_def tx_map_err_def split: prod.splits sum.splits)

lemma core_try [core_kept]: "keeps_core m \<Longrightarrow> keeps_core (tx_try m)"
  by (fastforce simp: keeps_core_def tx_try_def split: prod.splits)

lemma core_get [core_kept]:
  "keeps_core (order_get e p i)" "keeps_core (order_get_by_idempotency_key e p key)"
  "keeps_core (order_get_by_provider_ref e p provider session ref)"
  "keeps_core (fulfillment_get_by_order e p i)" "keeps_core (require_row r)"
  by (simp_all add: order_get_def order_get_by_idempotency_key_def order_get_by_provider_ref_def
      fulfillment_get_by_order_def require_row_def core_kept)

lemma core_lookup [core_kept]: "keeps_core (index_lookup e provider kind ref)"
  by (simp add: index_lookup_def core_kept)

lemma core_upsert [core_kept]: "keeps_core (upsert_provider_index e provider kind ref p)"
  unfolding upsert_provider_index_def index_upsert_def
  by (intro core_kept core_write) (auto split: if_splits)

lemma core_publish [core_kept]: "keeps_core (order_publish e o1 k now)"
  unfolding order_publish_def by (intro core_kept core_write) auto

lemma core_callback [core_kept]: "keeps_core (callback_insert_if_absent e ev p i)"
  unfolding callback_insert_if_absent_def by (intro core_when core_write) (auto simp: Let_def split: if_splits)

lemma core_new_created_order [core_kept]: "keeps_core (new_created_order e s)"
  unfolding new_created_order_def by (intro core_kept)

lemma core_or_else [core_kept]: "keeps_core m \<Longrightarrow> keeps_core n \<Longrightarrow> keeps_core (tx_or_else m n)"
  unfolding tx_or_else_def by (intro core_kept)

lemma core_locate [core_kept]:
  "keeps_core (locate_subscription_project e ev)" "keeps_core (locate_order e ev)"
  "keeps_core (receipt_bound e txn)"
  unfolding locate_subscription_project_def locate_order_def locate_by_id_def locate_by_ref_def
    receipt_bound_def by (intro core_kept)+

section \<open>Statements inside a transaction\<close>

text \<open>
  Inside a transaction only a successful run counts. \<open>during counted X fresh k L w0\<close> is what
  holds on the way: the books, and that the orders have advanced since \<open>w0\<close>.
\<close>

definition during :: "(purpose_kind \<Rightarrow> bool) \<Rightarrow> ('x \<Rightarrow> (string \<times> string) set) \<Rightarrow> (string \<times> string) set \<Rightarrow>
    pay_order list \<Rightarrow> 'x pay_world \<Rightarrow> bool" where
  "during counted logged X os0 w \<longleftrightarrow>
     books counted X (pt_orders (pw_db w)) (pt_fulfillments (pw_db w)) (logged (pw_ext w)) \<and>
     orders_advance os0 (pt_orders (pw_db w))"

lemma during_core: "core w' = core w \<Longrightarrow> during counted logged X os0 w' = during counted logged X os0 w"
  by (simp add: during_def core_def)

lemma keeps_during:
  "keeps_core m \<Longrightarrow> tx_valid (during counted logged X os0) m (\<lambda>_. during counted logged X os0)"
  unfolding tx_valid_def using keeps_coreD during_core by metis

lemma order_get_valid:
  assumes "order_get e p i w = (Inr r, w')"
  shows "r = order_row (pt_orders (pw_db w)) (p, i)" "core w' = core w"
  using assms by (auto simp: order_get_def tx_simps order_row_def core_def)

lemma order_update_Inr:
  assumes "order_update e o1 expect w = (Inr a, w')"
  shows "pt_orders (pw_db w') = map (\<lambda>r. if order_key r = order_key o1 \<and> po_Status r = expect
      then order_columns o1 r else r) (pt_orders (pw_db w))"
    and "orders_ok (pt_orders (pw_db w'))"
    and "pt_fulfillments (pw_db w') = pt_fulfillments (pw_db w)" and "pw_ext w' = pw_ext w"
    and "\<exists>r \<in> set (pt_orders (pw_db w)). order_key r = order_key o1 \<and> po_Status r = expect"
  using assms
  by (auto simp: order_update_def tx_simps Let_def list_ex_iff split: if_splits)

text \<open>An update that the state machine allows, of the row it was read from.\<close>

definition updates :: "pay_order \<Rightarrow> pay_order \<Rightarrow> bool" where
  "updates o1 o2 \<longleftrightarrow> order_columns o2 o1 = o2 \<and> order_key o2 = order_key o1 \<and>
     can_transition (po_Status o1) (po_Status o2) \<and> (po_PaidAt o2 \<noteq> None \<longleftrightarrow> settled o2)"

lemma transition_updates:
  assumes "order_transition (o1\<lparr>po_ProviderSessionID := s, po_ProviderOrderID := r\<rparr>) to now = Some o2"
    and "po_PaidAt o1 \<noteq> None \<longleftrightarrow> settled o1"
  shows "updates o1 o2" "po_Status o2 = to" "po_ProjectID o2 = po_ProjectID o1" "po_ID o2 = po_ID o1"
    "po_PurposeKind o2 = po_PurposeKind o1" "po_Amount o2 = po_Amount o1" "po_UserID o2 = po_UserID o1"
    "po_Purpose o2 = po_Purpose o1"
proof -
  have 1: "can_transition (po_Status o1) to" using order_transition_SomeD(1) [OF assms(1)] by simp
  have 2: "o2 = o1\<lparr>po_ProviderSessionID := s, po_ProviderOrderID := r, po_Status := to, po_UpdatedAt := now,
      po_PaidAt := (if to = OrderStatusPaid \<and> po_PaidAt o1 = None then Some now else po_PaidAt o1)\<rparr>"
    using order_transition_SomeD(2) [OF assms(1)] by simp
  have 3: "settled o1 \<or> to = OrderStatusPaid \<longleftrightarrow> to \<in> {OrderStatusPaid, OrderStatusRefunding, OrderStatusRefunded}"
    using 1 by (cases "po_Status o1"; cases to) (auto simp: can_transition_def allowed_transitions_def settled_def)
  show "updates o1 o2"
    unfolding updates_def 2 using 1 3 assms(2)
    by (auto simp: order_columns_def order_key_def settled_def)
  show "po_Status o2 = to" "po_ProjectID o2 = po_ProjectID o1" "po_ID o2 = po_ID o1"
    "po_PurposeKind o2 = po_PurposeKind o1" "po_Amount o2 = po_Amount o1" "po_UserID o2 = po_UserID o1"
    "po_Purpose o2 = po_Purpose o1"
    by (simp_all add: 2)
qed

lemma books_wf: "books counted X os fs L \<Longrightarrow> o1 \<in> set os \<Longrightarrow> order_wf o1"
  by (auto simp: books_def list_all_iff)

lemma unsettled_no_fulfilment:
  assumes "books counted X os fs L" and "o1 \<in> set os" and "\<not> settled o1" and "f \<in> set fs"
  shows "(fu_ProjectID f, fu_OrderID f) \<noteq> order_key o1"
proof
  assume eq: "(fu_ProjectID f, fu_OrderID f) = order_key o1"
  obtain o2 where o2: "o2 \<in> set os" "fulfils f o2" "settled o2"
    using assms(1,4) unfolding books_def by blast
  have "order_key o2 = order_key o1" using o2(2) eq by (simp add: fulfils_def)
  moreover have "distinct (map order_key os)" using assms(1) by (simp add: books_def orders_ok_def)
  ultimately have "o2 = o1" using o2(1) assms(2) by (metis order_row_set option.inject)
  with o2(3) assms(3) show False by simp
qed

lemma updates_facts:
  assumes "updates o1 o2"
  shows "terms_of o2 = terms_of o1" "order_key o2 = order_key o1" "po_PurposeKind o2 = po_PurposeKind o1"
    "settled o1 \<Longrightarrow> settled o2" "order_wf o1 \<Longrightarrow> order_wf o2"
    "fulfils f o2 = fulfils f o1" "fulfilment_matches f o1 \<Longrightarrow> fulfilment_matches f o2"
    "settled o2 \<Longrightarrow> po_Status o2 \<noteq> OrderStatusPaid \<Longrightarrow> settled o1"
proof -
  have col: "o2 = order_columns o2 o1" and tr: "can_transition (po_Status o1) (po_Status o2)"
    using assms by (simp_all add: updates_def)
  show t: "terms_of o2 = terms_of o1" by (subst col) simp
  show k: "order_key o2 = order_key o1" and p: "po_PurposeKind o2 = po_PurposeKind o1"
    by (subst col, simp)+
  show "settled o1 \<Longrightarrow> settled o2" "settled o2 \<Longrightarrow> po_Status o2 \<noteq> OrderStatusPaid \<Longrightarrow> settled o1"
    using tr by (cases "po_Status o1"; auto simp: settled_def can_transition_def allowed_transitions_def)+
  show "order_wf o1 \<Longrightarrow> order_wf o2"
    using t assms by (auto simp: order_wf_def updates_def terms_of_def)
  show "fulfils f o2 = fulfils f o1" using k p by (simp add: fulfils_def)
  show "fulfilment_matches f o1 \<Longrightarrow> fulfilment_matches f o2"
    using tr by (auto simp: fulfilment_matches_def can_transition_def allowed_transitions_def)
qed

lemma updated_table:
  assumes "distinct (map order_key os)" and "order_row os k = Some o1" and "updates o1 o2"
  shows "map (\<lambda>r. if order_key r = order_key o2 \<and> po_Status r = po_Status o1 then order_columns o2 r else r) os
    = map (\<lambda>r. if r = o1 then o2 else r) os"
proof (rule map_cong [OF refl])
  fix r assume r: "r \<in> set os"
  have "order_key o2 = order_key o1" "order_columns o2 o1 = o2" using assms(3) by (simp_all add: updates_def)
  moreover have "order_key r = order_key o1 \<Longrightarrow> r = o1"
    using assms(1,2) r by (metis order_row_set order_row_SomeD option.inject)
  ultimately show "(if order_key r = order_key o2 \<and> po_Status r = po_Status o1 then order_columns o2 r else r)
      = (if r = o1 then o2 else r)"
    by (cases "r = o1") auto
qed

lemma books_update:
  assumes b: "books counted X os fs L" and row: "order_row os k = Some o1" and u: "updates o1 o2"
    and os': "os' = map (\<lambda>r. if r = o1 then o2 else r) os" and ok: "orders_ok os'"
  shows "books counted (if po_Status o2 = OrderStatusPaid then insert k X else X) os' fs L"
proof -
  note uf = updates_facts [OF u]
  have k: "order_key o1 = k" "o1 \<in> set os" using order_row_SomeD [OF row] by auto
  have mem: "\<And>r. r \<in> set os' \<Longrightarrow> r = o2 \<or> (r \<in> set os \<and> r \<noteq> o1)" unfolding os' by (auto split: if_splits)
  have mem2: "o2 \<in> set os'" unfolding os' using k(2) by force
  have mem1: "\<And>r. r \<in> set os \<Longrightarrow> r \<noteq> o1 \<Longrightarrow> r \<in> set os'" unfolding os' by force
  have "list_all order_wf os'"
    using mem uf(5) books_wf [OF b] k(2) by (auto simp: list_all_iff)
  moreover have "\<exists>r \<in> set os'. fulfils f r \<and> settled r \<and>
      (order_key r \<notin> (if po_Status o2 = OrderStatusPaid then insert k X else X) \<longrightarrow> fulfilment_matches f r)"
    if f: "f \<in> set fs" for f
  proof -
    obtain r where r: "r \<in> set os" "fulfils f r" "settled r" "order_key r \<notin> X \<longrightarrow> fulfilment_matches f r"
      using b f unfolding books_def by blast
    show ?thesis
    proof (cases "r = o1")
      case True
      with r show ?thesis using uf mem2 k(1) by (intro bexI [of _ o2]) auto
    next
      case False
      then show ?thesis using r mem1 by (intro bexI [of _ r]) auto
    qed
  qed
  moreover have "(\<exists>f \<in> set fs. fulfils f r) \<and> (counted (po_PurposeKind r) \<longrightarrow> order_key r \<in> L)"
    if r: "r \<in> set os'" "order_key r \<notin> (if po_Status o2 = OrderStatusPaid then insert k X else X)" "settled r" for r
  proof -
    have X: "order_key r \<notin> X" using r(2) by (auto split: if_splits)
    from mem [OF r(1)] show ?thesis
    proof
      assume "r = o2"
      with r have "po_Status o2 \<noteq> OrderStatusPaid" using uf(2) k(1) by auto
      with r \<open>r = o2\<close> have "settled o1" using uf(8) by simp
      then have "(\<exists>f \<in> set fs. fulfils f o1) \<and> (counted (po_PurposeKind o1) \<longrightarrow> order_key o1 \<in> L)"
        using b k(2) X uf(2) \<open>r = o2\<close> unfolding books_def by simp
      then show ?thesis using uf(2,3,6) \<open>r = o2\<close> by simp
    next
      assume "r \<in> set os \<and> r \<noteq> o1"
      then show ?thesis using b X r(3) unfolding books_def by blast
    qed
  qed
  ultimately show ?thesis
    using b ok unfolding books_def by blast
qed

lemma advance_update:
  assumes "distinct (map order_key os)" and row: "order_row os k = Some o1" and u: "updates o1 o2"
  shows "orders_advance os (map (\<lambda>r. if r = o1 then o2 else r) os)"
    and "order_row (map (\<lambda>r. if r = o1 then o2 else r) os) k = Some o2"
proof -
  note uf = updates_facts [OF u]
  have k: "order_key o1 = k" using order_row_SomeD [OF row] by simp
  have m: "order_row (map (\<lambda>r. if r = o1 then o2 else r) os) k' =
      map_option (\<lambda>r. if r = o1 then o2 else r) (order_row os k')" for k'
    using uf(2) by (intro order_row_map) auto
  show row2: "order_row (map (\<lambda>r. if r = o1 then o2 else r) os) k = Some o2"
    unfolding m row by simp
  show "orders_advance os (map (\<lambda>r. if r = o1 then o2 else r) os)"
    unfolding orders_advance_def
  proof
    fix k'
    show "order_step\<^sup>*\<^sup>* (order_view os k') (order_view (map (\<lambda>r. if r = o1 then o2 else r) os) k')"
    proof (cases "k' = k")
      case True
      then show ?thesis
        using row row2 uf(1) view_step [of "po_Status o1" "po_Status o2"] u
        by (simp add: order_view_def updates_def)
    next
      case False
      then have "order_row os k' \<noteq> Some o1" using order_row_SomeD k by metis
      then have "order_row (map (\<lambda>r. if r = o1 then o2 else r) os) k' = order_row os k'"
        unfolding m by (cases "order_row os k'") auto
      then show ?thesis by (simp add: order_view_def)
    qed
  qed
qed

lemma order_update_during:
  assumes d: "during counted logged X os0 w" and row: "order_row (pt_orders (pw_db w)) k = Some o1"
    and u: "updates o1 o2" and run: "order_update e o2 (po_Status o1) w = (Inr a, w')"
  shows "during counted logged (if po_Status o2 = OrderStatusPaid then insert k X else X) os0 w'"
    "order_row (pt_orders (pw_db w')) k = Some o2"
proof -
  have dist: "distinct (map order_key (pt_orders (pw_db w)))"
    using d by (simp add: during_def books_def orders_ok_def)
  have os': "pt_orders (pw_db w') = map (\<lambda>r. if r = o1 then o2 else r) (pt_orders (pw_db w))"
    using order_update_Inr(1) [OF run] updated_table [OF dist row u] by simp
  have b: "books counted X (pt_orders (pw_db w)) (pt_fulfillments (pw_db w)) (logged (pw_ext w))"
    and adv: "orders_advance os0 (pt_orders (pw_db w))" using d by (simp_all add: during_def)
  show "during counted logged (if po_Status o2 = OrderStatusPaid then insert k X else X) os0 w'"
    unfolding during_def order_update_Inr(3,4) [OF run]
    using books_update [OF b row u os' order_update_Inr(2) [OF run]]
      orders_advance_trans [OF adv advance_update(1) [OF dist row u]] os' by simp
  show "order_row (pt_orders (pw_db w')) k = Some o2"
    unfolding os' by (rule advance_update(2) [OF dist row u])
qed

section \<open>Placing, fulfilling and closing\<close>

lemma books_place:
  assumes b: "books counted X os fs L" and ok: "orders_ok (os @ [o1])" and "order_wf o1" and "\<not> settled o1"
  shows "books counted X (os @ [o1]) fs L"
  using assms unfolding books_def by fastforce

lemma order_row_append:
  "order_row (os @ [o1]) k = (case order_row os k of Some r \<Rightarrow> Some r
     | None \<Rightarrow> if order_key o1 = k then Some o1 else None)"
  by (induction os) (auto simp: order_row_def)

lemma advance_place:
  assumes "distinct (map order_key (os @ [o1]))" and "0 < po_Amount o1" and "phase_of (po_Status o1) = Unpaid"
  shows "orders_advance os (os @ [o1])"
  unfolding orders_advance_def
proof
  fix k
  have "order_step None (Some (terms_of o1, Unpaid))"
    using assms(2) by (intro order_step.place) (simp add: terms_of_def)
  then show "order_step\<^sup>*\<^sup>* (order_view os k) (order_view (os @ [o1]) k)"
    using assms(3) by (auto simp: order_view_def order_row_append split: option.splits)
qed

lemma order_insert_Inr:
  assumes "order_insert e o1 w = (Inr (existing, inserted), w')"
  shows "if inserted then pt_orders (pw_db w') = pt_orders (pw_db w) @ [o1] \<and> orders_ok (pt_orders (pw_db w')) \<and>
      pt_fulfillments (pw_db w') = pt_fulfillments (pw_db w) \<and> pw_ext w' = pw_ext w \<and> existing = None
    else core w' = core w \<and> existing \<noteq> None"
  using assms
  by (auto simp: order_insert_def order_get_by_idempotency_key_def tx_simps core_def Let_def
      split: if_splits option.splits)

lemma insert_created_order_during:
  assumes wf: "order_wf o1" "po_Status o1 = OrderStatusCreated"
  shows "tx_valid (during counted logged X os0) (insert_created_order e o1) (\<lambda>_. during counted logged X os0)"
proof (rule tx_validI)
  fix w a w' assume d: "during counted logged X os0 w" and run: "insert_created_order e o1 w = (Inr a, w')"
  from run obtain existing inserted w1 where 1: "order_insert e o1 w = (Inr (existing, inserted), w1)"
    and 2: "(if \<not> inserted then tx_ret (existing, False)
     else tx_bind (upsert_provider_index e (po_Provider o1) kind_payment_session (po_ID o1) (po_ProjectID o1))
       (\<lambda>_. tx_ret (None, True))) w1 = (Inr a, w')"
    by (fastforce simp: insert_created_order_def elim!: tx_bind_InrE)
  have "keeps_core (if \<not> inserted then tx_ret (existing, False)
     else tx_bind (upsert_provider_index e (po_Provider o1) kind_payment_session (po_ID o1) (po_ProjectID o1))
       (\<lambda>_. tx_ret (None, True)))"
    by (intro core_kept)
  from this 2 have "core w' = core w1" by (rule keeps_coreD)
  moreover have "during counted logged X os0 w1"
  proof (cases inserted)
    case True
    with order_insert_Inr [OF 1] have n: "pt_orders (pw_db w1) = pt_orders (pw_db w) @ [o1]"
      "orders_ok (pt_orders (pw_db w1))" "pt_fulfillments (pw_db w1) = pt_fulfillments (pw_db w)"
      "pw_ext w1 = pw_ext w" by auto
    have "orders_advance (pt_orders (pw_db w)) (pt_orders (pw_db w1))"
      unfolding n(1) using n(2) wf by (intro advance_place) (auto simp: n(1) orders_ok_def)
    moreover have "orders_advance os0 (pt_orders (pw_db w))" using d by (simp add: during_def)
    ultimately have adv: "orders_advance os0 (pt_orders (pw_db w1))" by (rule orders_advance_trans [rotated])
    have "books counted X (pt_orders (pw_db w) @ [o1]) (pt_fulfillments (pw_db w)) (logged (pw_ext w))"
      using d n(1,2) wf by (intro books_place) (simp_all add: during_def settled_def)
    with adv show ?thesis unfolding during_def n(1,3,4) by simp
  next
    case False
    with order_insert_Inr [OF 1] have "core w1 = core w" by simp
    from during_core [OF this] d show ?thesis by simp
  qed
  ultimately show "during counted logged X os0 w'" using during_core by blast
qed

lemma books_fulfil:
  assumes b: "books counted (insert k X) os fs L" and o1: "o1 \<in> set os" "order_key o1 = k" "settled o1"
    and f: "fulfils f o1" "fu_Status f = FulfillmentDone" "fulfillments_ok (fs @ [f])"
    and L: "L \<subseteq> L'" "counted (po_PurposeKind o1) \<longrightarrow> k \<in> L'"
    and none: "\<And>g. g \<in> set fs \<Longrightarrow> (fu_ProjectID g, fu_OrderID g) \<noteq> k"
  shows "books counted X os (fs @ [f]) L'"
proof -
  have dist: "distinct (map order_key os)" using b by (simp add: books_def orders_ok_def)
  have uniq: "\<And>r. r \<in> set os \<Longrightarrow> order_key r = k \<Longrightarrow> r = o1"
    using order_row_set [OF dist] o1(1,2) by (metis option.inject)
  have "\<exists>r \<in> set os. fulfils g r \<and> settled r \<and> (order_key r \<notin> X \<longrightarrow> fulfilment_matches g r)"
    if g: "g \<in> set (fs @ [f])" for g
  proof (cases "g = f")
    case True
    then show ?thesis using o1 f(1,2) by (intro bexI [of _ o1]) (simp_all add: fulfilment_matches_def)
  next
    case False
    with g have g: "g \<in> set fs" by simp
    then obtain r where r: "r \<in> set os" "fulfils g r" "settled r" "order_key r \<notin> insert k X \<longrightarrow> fulfilment_matches g r"
      using b unfolding books_def by blast
    moreover have "order_key r \<noteq> k" using none [OF g] r(2) by (auto simp: fulfils_def)
    ultimately show ?thesis by auto
  qed
  moreover have "(\<exists>g \<in> set (fs @ [f]). fulfils g r) \<and> (counted (po_PurposeKind r) \<longrightarrow> order_key r \<in> L')"
    if r: "r \<in> set os" "order_key r \<notin> X" "settled r" for r
  proof (cases "order_key r = k")
    case True
    then have "r = o1" using uniq r by simp
    then show ?thesis using f L o1 by auto
  next
    case False
    then have "(\<exists>g \<in> set fs. fulfils g r) \<and> (counted (po_PurposeKind r) \<longrightarrow> order_key r \<in> L)"
      using b r unfolding books_def by blast
    then show ?thesis using L by auto
  qed
  ultimately show ?thesis using b f(3) unfolding books_def by blast
qed

lemma fulfillment_insert_Inr:
  assumes "fulfillment_insert_pending e f w = (Inr (existing, inserted), w')"
    and none: "\<And>g. g \<in> set (pt_fulfillments (pw_db w)) \<Longrightarrow> (fu_ProjectID g, fu_OrderID g) \<noteq> (fu_ProjectID f, fu_OrderID f)"
  shows "inserted" "pt_orders (pw_db w') = pt_orders (pw_db w)" "pw_ext w' = pw_ext w"
    "pt_fulfillments (pw_db w') = pt_fulfillments (pw_db w) @ [f\<lparr>fu_Status := FulfillmentPending\<rparr>]"
    "fulfillments_ok (pt_fulfillments (pw_db w'))"
proof -
  have n: "\<not> list_ex (\<lambda>r. fu_ProjectID r = fu_ProjectID f \<and> fu_OrderID r = fu_OrderID f \<and>
      fu_PurposeKind r = fu_PurposeKind f) (pt_fulfillments (pw_db w))"
    using none by (auto simp: list_ex_iff)
  show "inserted" "pt_orders (pw_db w') = pt_orders (pw_db w)" "pw_ext w' = pw_ext w"
    "pt_fulfillments (pw_db w') = pt_fulfillments (pw_db w) @ [f\<lparr>fu_Status := FulfillmentPending\<rparr>]"
    "fulfillments_ok (pt_fulfillments (pw_db w'))"
    using assms(1) n
    by (auto simp: fulfillment_insert_pending_def fulfillment_add_def tx_simps Let_def split: if_splits)
qed

lemma fulfillment_set_Inr:
  assumes "fulfillment_set e p i upd w = (Inr a, w')"
  shows "pt_fulfillments (pw_db w') = map (\<lambda>f. if fu_ProjectID f = p \<and> fu_ID f = i then upd f else f)
      (pt_fulfillments (pw_db w))"
    "fulfillments_ok (pt_fulfillments (pw_db w'))" "pt_orders (pw_db w') = pt_orders (pw_db w)"
    "pw_ext w' = pw_ext w"
  using assms by (auto simp: fulfillment_set_def tx_simps Let_def split: if_splits)

text \<open>Only the row with the id changes, and nothing but its status, reference and times.\<close>

lemma set_last:
  assumes "fulfillments_ok (fs @ [f])" and "fu_ProjectID f = p" and "fu_ID f = i"
  shows "map (\<lambda>g. if fu_ProjectID g = p \<and> fu_ID g = i then upd g else g) (fs @ [f]) = fs @ [upd f]"
proof -
  have "map (\<lambda>g. if fu_ProjectID g = p \<and> fu_ID g = i then upd g else g) fs = map id fs"
    using assms by (intro map_cong) (auto simp: fulfillments_ok_def image_iff)
  then show ?thesis using assms(2,3) by simp
qed

lemma books_reverse_failed:
  assumes b: "books counted X os fs L" and f: "f \<in> set fs" "fulfils f o1"
    and o1: "o1 \<in> set os" "po_Status o1 = OrderStatusRefunded"
    and upd: "\<And>g. (fu_ProjectID (upd g), fu_OrderID (upd g), fu_PurposeKind (upd g)) =
        (fu_ProjectID g, fu_OrderID g, fu_PurposeKind g) \<and> fu_Status (upd g) = FulfillmentReverseFailed"
    and fs': "fs' = map (\<lambda>g. if fu_ProjectID g = fu_ProjectID f \<and> fu_ID g = fu_ID f then upd g else g) fs"
    and ok: "fulfillments_ok fs'"
  shows "books counted X os fs' L"
proof -
  have only: "g = f" if "g \<in> set fs" "fu_ProjectID g = fu_ProjectID f \<and> fu_ID g = fu_ID f" for g
  proof -
    have "inj_on (\<lambda>f. (fu_ProjectID f, fu_ID f)) (set fs)"
      using b by (simp add: books_def fulfillments_ok_def distinct_map)
    then show ?thesis using that f(1) by (auto dest: inj_onD)
  qed
  have ff: "fulfils (upd g) r = fulfils g r" for g r
    using upd [of g] by (auto simp: fulfils_def)
  have "\<exists>r \<in> set os. fulfils g r \<and> settled r \<and> (order_key r \<notin> X \<longrightarrow> fulfilment_matches g r)"
    if g: "g \<in> set fs'" for g
  proof -
    from g obtain h where h: "h \<in> set fs"
      "g = (if fu_ProjectID h = fu_ProjectID f \<and> fu_ID h = fu_ID f then upd h else h)"
      unfolding fs' by auto
    show ?thesis
    proof (cases "fu_ProjectID h = fu_ProjectID f \<and> fu_ID h = fu_ID f")
      case True
      then have "h = f" using only h(1) by simp
      with h True show ?thesis
        using o1 f(2) ff upd by (intro bexI [of _ o1]) (auto simp: fulfilment_matches_def settled_def)
    next
      case False
      with h have "g \<in> set fs" by auto
      then show ?thesis using b unfolding books_def by blast
    qed
  qed
  moreover have "\<exists>g \<in> set fs'. fulfils g r" if "h \<in> set fs" "fulfils h r" for h r
  proof (intro bexI [of _ "if fu_ProjectID h = fu_ProjectID f \<and> fu_ID h = fu_ID f then upd h else h"])
    show "fulfils (if fu_ProjectID h = fu_ProjectID f \<and> fu_ID h = fu_ID f then upd h else h) r"
      using that ff by simp
    show "(if fu_ProjectID h = fu_ProjectID f \<and> fu_ID h = fu_ID f then upd h else h) \<in> set fs'"
      unfolding fs' using that(1) by simp
  qed
  ultimately show ?thesis using b ok unfolding books_def by blast
qed

section \<open>Transactions\<close>

text \<open>What every call keeps, whatever its result.\<close>

definition sound :: "(purpose_kind \<Rightarrow> bool) \<Rightarrow> ('x \<Rightarrow> (string \<times> string) set) \<Rightarrow> ('x, 'e, 'a) ptx \<Rightarrow> bool" where
  "sound counted logged m \<longleftrightarrow> (\<forall>os0 w r w'. during counted logged {} os0 w \<longrightarrow> m w = (r, w') \<longrightarrow>
     during counted logged {} os0 w')"

lemma soundD: "sound counted logged m \<Longrightarrow> m w = (r, w') \<Longrightarrow> during counted logged {} os0 w \<Longrightarrow>
    during counted logged {} os0 w'"
  unfolding sound_def by blast

named_theorems sound_intros

lemma sound_core [sound_intros]:
  assumes "keeps_core m"
  shows "sound counted logged m"
  unfolding sound_def
proof (intro allI impI)
  fix os0 w r w' assume "during counted logged {} os0 w" "m w = (r, w')"
  then show "during counted logged {} os0 w'" using during_core [OF keeps_coreD [OF assms]] by simp
qed

lemma sound_bind [sound_intros]:
  assumes m: "sound counted logged m" and f: "\<And>a. sound counted logged (f a)"
  shows "sound counted logged (tx_bind m f)"
  unfolding sound_def
proof (intro allI impI)
  fix os0 w r w' assume d: "during counted logged {} os0 w" and run: "tx_bind m f w = (r, w')"
  obtain s v where v: "m w = (s, v)" by fastforce
  have dv: "during counted logged {} os0 v" by (rule soundD [OF m v d])
  show "during counted logged {} os0 w'"
  proof (cases s)
    case (Inl err)
    with run v dv show ?thesis by (simp add: tx_bind_def)
  next
    case (Inr a)
    with run v have "f a v = (r, w')" by (simp add: tx_bind_def)
    from soundD [OF f this dv] show ?thesis .
  qed
qed

lemma sound_if [sound_intros]:
  "sound counted logged m \<Longrightarrow> sound counted logged n \<Longrightarrow> sound counted logged (if b then m else n)"
  by simp

lemma sound_when [sound_intros]: "sound counted logged m \<Longrightarrow> sound counted logged (tx_when b err m)"
  by (simp add: tx_when_def sound_core core_fail)

lemma sound_option [sound_intros]:
  "sound counted logged m \<Longrightarrow> (\<And>a. sound counted logged (f a)) \<Longrightarrow>
    sound counted logged (case x of None \<Rightarrow> m | Some a \<Rightarrow> f a)"
  by (cases x) simp_all

lemma sound_prod [sound_intros]:
  "(\<And>a b. sound counted logged (f a b)) \<Longrightarrow> sound counted logged (case x of (a, b) \<Rightarrow> f a b)"
  by (cases x) simp

lemma books_mono: "books counted X os fs L \<Longrightarrow> L \<subseteq> L' \<Longrightarrow> books counted X os fs L'"
  unfolding books_def by blast

text \<open>The row that a transaction has read, and the row it is settling.\<close>

definition holding_row where
  "holding_row counted logged os0 o1 w \<longleftrightarrow> during counted logged {} os0 w \<and>
     order_row (pt_orders (pw_db w)) (order_key o1) = Some o1"

definition settling_row where
  "settling_row counted logged os0 o1 w \<longleftrightarrow> during counted logged {order_key o1} os0 w \<and>
     order_row (pt_orders (pw_db w)) (order_key o1) = Some o1 \<and> settled o1 \<and>
     (\<forall>g \<in> set (pt_fulfillments (pw_db w)). (fu_ProjectID g, fu_OrderID g) \<noteq> order_key o1)"

lemma keeps_rows:
  assumes "keeps_core m"
  shows "tx_valid (holding_row counted logged os0 o1) m (\<lambda>_. holding_row counted logged os0 o1)"
    "tx_valid (settling_row counted logged os0 o1) m (\<lambda>_. settling_row counted logged os0 o1)"
  using keeps_coreD [OF assms] by (auto simp: tx_valid_def holding_row_def settling_row_def core_def during_def)

lemma order_get_tx:
  "tx_valid (during counted logged {} os0) (order_get e p i)
    (\<lambda>r w. during counted logged {} os0 w \<and> (\<forall>o1. r = Some o1 \<longrightarrow> holding_row counted logged os0 o1 w \<and> order_key o1 = (p, i)))"
proof (rule tx_validI)
  fix w r w' assume d: "during counted logged {} os0 w" and run: "order_get e p i w = (Inr r, w')"
  note g = order_get_valid [OF run]
  have o: "pt_orders (pw_db w') = pt_orders (pw_db w)" using g(2) by (simp add: core_def)
  show "during counted logged {} os0 w' \<and> (\<forall>o1. r = Some o1 \<longrightarrow> holding_row counted logged os0 o1 w' \<and> order_key o1 = (p, i))"
    using during_core [OF g(2)] d g(1) o order_row_SomeD [of "pt_orders (pw_db w)" "(p, i)"]
    by (auto simp: holding_row_def)
qed

lemma holding_row_wf: "holding_row counted logged os0 o1 w \<Longrightarrow> order_wf o1"
  unfolding holding_row_def during_def using order_row_SomeD [THEN conjunct1] by (elim conjE books_wf)

lemma update_plain:
  assumes u: "updates o1 o2" and s: "po_Status o2 \<noteq> OrderStatusPaid"
  shows "tx_valid (holding_row counted logged os0 o1) (order_update e o2 (po_Status o1))
    (\<lambda>_. holding_row counted logged os0 o2)"
proof (rule tx_validI)
  fix w a w' assume h: "holding_row counted logged os0 o1 w" and run: "order_update e o2 (po_Status o1) w = (Inr a, w')"
  then have d: "during counted logged {} os0 w" and row: "order_row (pt_orders (pw_db w)) (order_key o1) = Some o1"
    by (simp_all add: holding_row_def)
  show "holding_row counted logged os0 o2 w'"
    using order_update_during [OF d row u run] s updates_facts(2) [OF u] by (simp add: holding_row_def)
qed

lemma update_paid:
  assumes u: "updates o1 o2" and s: "po_Status o2 = OrderStatusPaid" and n: "\<not> settled o1"
  shows "tx_valid (holding_row counted logged os0 o1) (order_update e o2 (po_Status o1))
    (\<lambda>_. settling_row counted logged os0 o2)"
proof (rule tx_validI)
  fix w a w' assume h: "holding_row counted logged os0 o1 w" and run: "order_update e o2 (po_Status o1) w = (Inr a, w')"
  then have d: "during counted logged {} os0 w" and row: "order_row (pt_orders (pw_db w)) (order_key o1) = Some o1"
    by (simp_all add: holding_row_def)
  have k: "order_key o2 = order_key o1" by (rule updates_facts(2) [OF u])
  have "during counted logged {order_key o1} os0 w'"
    using order_update_during(1) [OF d row u run] s by simp
  moreover have "order_row (pt_orders (pw_db w')) (order_key o1) = Some o2"
    by (rule order_update_during(2) [OF d row u run])
  moreover have "\<forall>g \<in> set (pt_fulfillments (pw_db w')). (fu_ProjectID g, fu_OrderID g) \<noteq> order_key o1"
    using unsettled_no_fulfilment [OF _ _ n] d order_row_SomeD [OF row]
    by (auto simp: order_update_Inr(3) [OF run] during_def)
  ultimately show "settling_row counted logged os0 o2 w'"
    using s k by (simp add: settling_row_def settled_def)
qed

lemma run_sound [sound_intros]:
  assumes undo: "\<And>x x'. logged x \<subseteq> logged (pe_undo e x x')"
    and "\<And>os0. tx_valid (during counted logged {} os0) m (\<lambda>_. during counted logged {} os0)"
  shows "sound counted logged (pay_run e m)"
  unfolding sound_def
proof (intro allI impI)
  fix os0 w r w' assume d: "during counted logged {} os0 w" and run: "pay_run e m w = (r, w')"
  have d0: "during counted logged {} os0 (w\<lparr>pw_ops := n\<rparr>)" for n using d by (simp add: during_def)
  have u: "during counted logged {} os0 (v\<lparr>pw_db := pw_db w, pw_ext := pe_undo e (pw_ext w) x\<rparr>)" for v x
    using d books_mono [OF _ undo] by (fastforce simp: during_def)
  show "during counted logged {} os0 w'"
  proof (cases "pe_fails e (pw_ops w)")
    case True
    then show ?thesis using run d0 by (auto simp: pay_run_def Let_def)
  next
    case False
    obtain s v where m: "m (w\<lparr>pw_ops := Suc (pw_ops w)\<rparr>) = (s, v)" by fastforce
    show ?thesis
    proof (cases s)
      case (Inl err)
      then show ?thesis using run False m u [where v = v and x = "pw_ext v"] by (auto simp: pay_run_def Let_def)
    next
      case (Inr a)
      then have "during counted logged {} os0 v" using tx_validD [OF assms(2)] m d0 by blast
      then have "during counted logged {} os0 (v\<lparr>pw_ops := n\<rparr>)" for n by (simp add: during_def)
      then show ?thesis
        using run False m Inr u [where v = "v\<lparr>pw_ops := Suc (pw_ops v)\<rparr>" and x = "pw_ext v"]
        by (auto simp: pay_run_def Let_def split: if_splits)
    qed
  qed
qed

lemma attach_session_tx:
  "tx_valid (during counted logged {} os0) (attach_session e o1 s at) (\<lambda>_. during counted logged {} os0)"
  unfolding attach_session_def
proof (rule tx_valid_bind [OF order_get_tx], goal_cases)
  case (1 row)
  show ?case
  proof (cases row)
    case None
    then show ?thesis by simp
  next
    case (Some locked)
    let ?f = "locked\<lparr>po_ProviderSessionID := ps_SessionID s,
        po_ProviderOrderID := (if ps_ProviderOrderID s \<noteq> '''' then ps_ProviderOrderID s else po_ProviderOrderID locked)\<rparr>"
    have rest: "tx_valid (holding_row counted logged os0 locked) (case order_transition ?f OrderStatusPaying now of
             None \<Rightarrow> tx_fail ErrInvalidTransition
           | Some paying \<Rightarrow>
               tx_bind (order_update e paying OrderStatusCreated) (\<lambda>_.
               tx_bind (upsert_provider_index e (po_Provider paying) kind_payment_session
                 (ps_SessionID s) (po_ProjectID paying)) (\<lambda>_.
               tx_bind (upsert_provider_index e (po_Provider paying) kind_payment_order
                 (ps_ProviderOrderID s) (po_ProjectID paying)) (\<lambda>_. tx_ret paying))))
        (\<lambda>_. during counted logged {} os0)" (is "tx_valid ?P (?m now) ?Q")
      if st: "po_Status locked = OrderStatusCreated" for now
    proof (cases "order_wf locked")
      case False
      then show ?thesis using holding_row_wf by (fastforce simp: tx_valid_def)
    next
      case True
      show ?thesis
      proof (cases "order_transition ?f OrderStatusPaying now")
        case None
        then show ?thesis by simp
      next
        case (Some paying)
        note t = transition_updates [OF this] 
        have u: "updates locked paying" "po_Status paying = OrderStatusPaying"
          using t(1,2) True by (simp_all add: order_wf_def)
        have "tx_valid (holding_row counted logged os0 paying)
           (tx_bind (upsert_provider_index e (po_Provider paying) kind_payment_session
                 (ps_SessionID s) (po_ProjectID paying)) (\<lambda>_.
               tx_bind (upsert_provider_index e (po_Provider paying) kind_payment_order
                 (ps_ProviderOrderID s) (po_ProjectID paying)) (\<lambda>_. tx_ret paying)))
            (\<lambda>_. holding_row counted logged os0 paying)"
          by (intro keeps_rows core_kept)
        from this have "tx_valid (holding_row counted logged os0 locked) (?m now) (\<lambda>_. holding_row counted logged os0 paying)"
          using Some update_plain [OF u(1), of counted logged os0 e] u(2) st by (simp add: tx_valid_bind)
        then show ?thesis by (rule tx_valid_weaken) (simp_all add: holding_row_def)
      qed
    qed
    have "tx_valid (holding_row counted logged os0 locked)
        (tx_bind (case at of None \<Rightarrow> pay_now e | Some t \<Rightarrow> tx_ret t) ?m) ?Q"
      if "po_Status locked = OrderStatusCreated"
      by (rule tx_valid_bind [OF keeps_rows(1) rest [OF that]]) (intro core_kept)
    then show ?thesis
      using Some by (auto simp: Let_def intro!: tx_valid_if tx_valid_ret elim!: tx_valid_pre)
  qed
qed

section \<open>New orders, and orders that time out\<close>

lemma new_created_order_wf:
  fixes e :: "('x, 'e) pay_env"
  assumes "new_created_order e s w = (Inr o1, w')"
  shows "order_wf o1 \<and> po_Status o1 = OrderStatusCreated"
proof -
  have up: "is_lower c \<or> is_upper c \<Longrightarrow> is_upper (upper_byte c)" for c
    by (auto simp: upper_byte_def is_lower_def is_upper_def of_char_of take_bit_eq_mod)
  obtain ttl now i where ttl: "check_created_order s = (Inr ttl :: 'e pay_err + int)" and o1: "o1 =
       \<lparr>po_ID = i, po_ProjectID = cs_ProjectID s, po_UserID = cs_UserID s, po_Provider = cs_Provider s,
        po_IdempotencyKey = cs_IdempotencyKey s, po_ProviderSessionID = '''', po_ProviderOrderID = '''',
        po_Amount = cs_Amount s, po_Currency = to_upper (cs_Currency s),
        po_PurposeKind = cs_PurposeKind s, po_Purpose = cs_Purpose s, po_Status = OrderStatusCreated,
        po_CreatedAt = now, po_UpdatedAt = now, po_PaidAt = None, po_ExpiresAt = now + ttl\<rparr>"
    using assms by (auto simp: new_created_order_def tx_simps)
  have "trim_space '''' = ''''" by code_simp
  then show ?thesis
    using ttl up
    by (auto simp: o1 check_created_order_def Let_def order_wf_def settled_def currency_ok_def to_upper_def
        list_all_iff split: if_splits)
qed

definition closes :: "pay_order \<Rightarrow> pay_order \<Rightarrow> bool" where
  "closes r r' \<longleftrightarrow> po_Status r \<in> {OrderStatusCreated, OrderStatusPaying} \<and>
     (\<exists>now. r' = r\<lparr>po_Status := OrderStatusClosed, po_UpdatedAt := now\<rparr>)"

lemma closes_facts:
  assumes "closes r r'"
  shows "order_key r' = order_key r" "order_idem r' = order_idem r" "order_ref r' = order_ref r"
    "po_ProviderOrderID r' = po_ProviderOrderID r" "po_Amount r' = po_Amount r" "\<not> settled r" "\<not> settled r'"
    "order_wf r \<Longrightarrow> order_wf r'" "terms_of r' = terms_of r" "phase_of (po_Status r) = Unpaid"
    "phase_of (po_Status r') = Dropped"
  using assms
  by (auto simp: closes_def order_key_def order_idem_def order_ref_def settled_def order_wf_def terms_of_def)

lemma books_close:
  assumes b: "books counted X os fs L" and g: "\<And>r. r \<in> set os \<Longrightarrow> g r = r \<or> closes r (g r)"
  shows "books counted X (map g os) fs L"
proof -
  have same: "order_key (g r) = order_key r" "order_idem (g r) = order_idem r" "order_ref (g r) = order_ref r"
    "po_ProviderOrderID (g r) = po_ProviderOrderID r" "po_Amount (g r) = po_Amount r" "settled (g r) = settled r"
    "settled r \<Longrightarrow> g r = r" "order_wf r \<Longrightarrow> order_wf (g r)" if "r \<in> set os" for r
    using g [OF that] closes_facts [of r "g r"] by (metis, metis, metis, metis, metis, metis, metis, metis)
  have keys: "map order_key (map g os) = map order_key os" "map order_idem (map g os) = map order_idem os"
    using same by auto
  have refs: "map order_ref (filter (\<lambda>o1. po_ProviderOrderID o1 \<noteq> '''') (map g os)) =
      map order_ref (filter (\<lambda>o1. po_ProviderOrderID o1 \<noteq> '''') os)"
    using same(3,4) by (induction os) auto
  have "list_all (\<lambda>o1. 0 < po_Amount o1) (map g os)"
    using b same(5) by (auto simp: books_def orders_ok_def list_all_iff)
  then have "orders_ok (map g os)"
    using b unfolding orders_ok_def keys refs by (simp add: books_def orders_ok_def)
  moreover have "list_all order_wf (map g os)"
    using b same(8) by (auto simp: books_def list_all_iff)
  moreover have "\<exists>o1 \<in> set (map g os). fulfils f o1 \<and> settled o1 \<and> (order_key o1 \<notin> X \<longrightarrow> fulfilment_matches f o1)"
    if "f \<in> set fs" for f
  proof -
    obtain r where r: "r \<in> set os" "fulfils f r" "settled r" "order_key r \<notin> X \<longrightarrow> fulfilment_matches f r"
      using b \<open>f \<in> set fs\<close> unfolding books_def by blast
    then have "r \<in> set (map g os)" using same(7) [OF r(1,3)] by force
    with r show ?thesis by blast
  qed
  moreover have "(\<exists>f \<in> set fs. fulfils f o1) \<and> (counted (po_PurposeKind o1) \<longrightarrow> order_key o1 \<in> L)"
    if o1: "o1 \<in> set (map g os)" "order_key o1 \<notin> X" "settled o1" for o1
  proof -
    from o1(1) obtain r where r: "r \<in> set os" "o1 = g r" by auto
    then have "o1 = r" using same(6,7) [OF r(1)] o1(3) by simp
    then show ?thesis using b o1 r(1) unfolding books_def by blast
  qed
  ultimately show ?thesis using b unfolding books_def by blast
qed

lemma advance_close:
  assumes dist: "distinct (map order_key os)" and g: "\<And>r. r \<in> set os \<Longrightarrow> g r = r \<or> closes r (g r)"
  shows "orders_advance os (map g os)"
  unfolding orders_advance_def
proof
  fix k
  have keys: "order_key (g r) = order_key r" if "r \<in> set os" for r
    using g [OF that] closes_facts(1) by metis
  have row: "order_row (map g os) k = map_option g (order_row os k)"
    using keys by (induction os) (auto simp: order_row_def)
  show "order_step\<^sup>*\<^sup>* (order_view os k) (order_view (map g os) k)"
  proof (cases "order_row os k")
    case None
    then show ?thesis by (simp add: order_view_def row)
  next
    case (Some r)
    have "order_step\<^sup>*\<^sup>* (Some (terms_of r, phase_of (po_Status r))) (Some (terms_of (g r), phase_of (po_Status (g r))))"
    proof (cases "g r = r")
      case False
      then have "closes r (g r)" using g order_row_SomeD [OF Some] by blast
      from closes_facts(9-11) [OF this] show ?thesis
        using order_step.drop [of "terms_of r"] by auto
    qed simp
    then show ?thesis using Some by (simp add: order_view_def row)
  qed
qed

end
