(* ===== verification/Payment_Books.thy ===== *)
theory Payment_Books
  imports Payment_Lifecycle
begin

text \<open>
  The payment service relies on whoever fulfils its orders (\<^verbatim>\<open>Fulfiller\<close> in
  \<^verbatim>\<open>internal/domain/payments/repo.go\<close>) and on the mirror of hosted subscriptions
  (\<^verbatim>\<open>SubscriptionCallbackHandler\<close> in \<^verbatim>\<open>provider.go\<close>) through the locale \<open>order_fulfilment\<close>.
  In it every call of the service, with every result, keeps the books and lets each order
  advance along its life cycle.
\<close>

locale order_fulfilment =
  fixes e :: "('x, 'e) pay_env"
    and logged :: "'x \<Rightarrow> (string \<times> string) set"
    and counted :: "purpose_kind \<Rightarrow> bool"
  assumes fulfil_logs: "pe_Fulfill e o1 x = (Inr ref, x') \<Longrightarrow>
      logged x \<subseteq> logged x' \<and> (counted (po_PurposeKind o1) \<longrightarrow> order_key o1 \<in> logged x')"
    and reverse_logs: "pe_Reverse e o1 x = (res, x') \<Longrightarrow> logged x \<subseteq> logged x'"
    and hosted_keeps: "pe_Hosted e ev w = (Inr u, w') \<Longrightarrow> pt_orders (pw_db w') = pt_orders (pw_db w) \<and>
      pt_fulfillments (pw_db w') = pt_fulfillments (pw_db w) \<and> logged (pw_ext w) \<subseteq> logged (pw_ext w')"
    and undo_logs: "logged x \<subseteq> logged (pe_undo e x x')"
begin

lemma ext_step_Inr: "ext_step m w = (Inr a, w') \<Longrightarrow> \<exists>x. m (pw_ext w) = (Inr a, x) \<and> w' = w\<lparr>pw_ext := x\<rparr>"
  by (auto simp: ext_step_def split: prod.splits)

text \<open>The row of the order that is being settled: inserted, then done.\<close>

definition pending_row where
  "pending_row os0 o1 f w \<longleftrightarrow> during counted logged {order_key o1} os0 w \<and>
     order_row (pt_orders (pw_db w)) (order_key o1) = Some o1 \<and> settled o1 \<and> fulfils f o1 \<and>
     (\<exists>fs. pt_fulfillments (pw_db w) = fs @ [f] \<and>
        books counted {order_key o1} (pt_orders (pw_db w)) fs (logged (pw_ext w)) \<and>
        (\<forall>g \<in> set fs. (fu_ProjectID g, fu_OrderID g) \<noteq> order_key o1))"

lemma books_pending:
  assumes b: "books counted {k} os fs L" and o1: "o1 \<in> set os" "settled o1" "order_key o1 = k"
    and f: "fulfils f o1" "fulfillments_ok (fs @ [f])"
  shows "books counted {k} os (fs @ [f]) L"
  using assms unfolding books_def by auto

lemma insert_pending_tx:
  "tx_valid (settling_row counted logged os0 o1) (fulfillment_insert_pending e (fulfillment_for o1 i now))
    (\<lambda>r w. snd r \<and> pending_row os0 o1 (fulfillment_for o1 i now) w)"
proof (rule tx_validI)
  fix w r w'
  let ?f = "fulfillment_for o1 i now"
  assume s: "settling_row counted logged os0 o1 w" and run: "fulfillment_insert_pending e ?f w = (Inr r, w')"
  obtain ex ins where r: "r = (ex, ins)" by (cases r)
  have key: "(fu_ProjectID ?f, fu_OrderID ?f) = order_key o1" by (simp add: fulfillment_for_def order_key_def)
  have none: "(fu_ProjectID g, fu_OrderID g) \<noteq> (fu_ProjectID ?f, fu_OrderID ?f)"
    if "g \<in> set (pt_fulfillments (pw_db w))" for g
    using s that unfolding key settling_row_def by blast
  note ins = fulfillment_insert_Inr [OF run [unfolded r] none, simplified]
  have pend: "?f\<lparr>fu_Status := FulfillmentPending\<rparr> = ?f" by (simp add: fulfillment_for_def)
  have ff: "fulfils ?f o1" using key by (simp add: fulfils_def fulfillment_for_def)
  have d: "during counted logged {order_key o1} os0 w" and row: "order_row (pt_orders (pw_db w)) (order_key o1) = Some o1"
    and st: "settled o1" using s by (simp_all add: settling_row_def)
  have b: "books counted {order_key o1} (pt_orders (pw_db w)) (pt_fulfillments (pw_db w)) (logged (pw_ext w))"
    using d by (simp add: during_def)
  have ok: "fulfillments_ok (pt_fulfillments (pw_db w) @ [?f])" using ins(4,5) pend by simp
  have "books counted {order_key o1} (pt_orders (pw_db w)) (pt_fulfillments (pw_db w) @ [?f]) (logged (pw_ext w))"
    using order_row_SomeD [OF row] by (intro books_pending [OF b _ st _ ff ok]) auto
  then have "during counted logged {order_key o1} os0 w'"
    using d ins(2-4) pend by (simp add: during_def)
  then have "pending_row os0 o1 ?f w'"
    unfolding pending_row_def using ins(2-4) pend row st ff b s by (auto simp: settling_row_def)
  then show "snd r \<and> pending_row os0 o1 ?f w'" using ins(1) r by simp
qed

lemma fulfill_and_mark_tx:
  assumes id: "(fu_ProjectID f, fu_ID f) = (po_ProjectID o1, i)"
  shows "tx_valid (pending_row os0 o1 f) (fulfill_and_mark e o1 i ref0) (\<lambda>_. holding_row counted logged os0 o1)"
proof (rule tx_validI)
  fix w a w' assume p: "pending_row os0 o1 f w" and run: "fulfill_and_mark e o1 i ref0 w = (Inr a, w')"
  let ?upd = "\<lambda>ref now f. f\<lparr>fu_Status := FulfillmentDone, fu_Ref := ref, fu_UpdatedAt := now\<rparr>"
  from run obtain ref w1 now w2 where 1: "ext_step (pe_Fulfill e o1) w = (Inr ref, w1)"
    and 2: "pay_now e w1 = (Inr now, w2)"
    and 3: "fulfillment_set e (po_ProjectID o1) i (?upd (if ref = '''' then ref0 else ref) now) w2 = (Inr a, w')"
    by (auto simp: fulfill_and_mark_def fulfillment_mark_done_def elim!: tx_bind_InrE)
  obtain x where x: "pe_Fulfill e o1 (pw_ext w) = (Inr ref, x)" "w1 = w\<lparr>pw_ext := x\<rparr>"
    using ext_step_Inr [OF 1] by blast
  have w2: "pw_db w2 = pw_db w" "pw_ext w2 = x" using 2 x by (auto simp: pay_now_def)
  note L = fulfil_logs [OF x(1)]
  note s = fulfillment_set_Inr [OF 3]
  obtain fs where fs: "pt_fulfillments (pw_db w) = fs @ [f]"
    "books counted {order_key o1} (pt_orders (pw_db w)) fs (logged (pw_ext w))"
    "\<And>g. g \<in> set fs \<Longrightarrow> (fu_ProjectID g, fu_OrderID g) \<noteq> order_key o1"
    using p unfolding pending_row_def by blast
  have row: "order_row (pt_orders (pw_db w)) (order_key o1) = Some o1" and st: "settled o1" and ff: "fulfils f o1"
    and d: "during counted logged {order_key o1} os0 w"
    using p by (simp_all add: pending_row_def)
  let ?f = "?upd (if ref = '''' then ref0 else ref) now f"
  have ok: "fulfillments_ok (fs @ [f])" using d fs(1) by (simp add: during_def books_def)
  have fs': "pt_fulfillments (pw_db w') = fs @ [?f]"
    using s(1) set_last [OF ok] id w2(1) fs(1) by simp
  have "books counted {} (pt_orders (pw_db w)) (fs @ [?f]) (logged x)"
  proof (rule books_fulfil [where k = "order_key o1" and ?o1.0 = o1 and X = "{}" and L = "logged (pw_ext w)"])
    show "o1 \<in> set (pt_orders (pw_db w))" using order_row_SomeD [OF row] by simp
    show "fulfillments_ok (fs @ [?f])" using s(2) fs' by simp
    show "fulfils ?f o1" using ff by (simp add: fulfils_def)
  qed (use L st fs in auto)
  then show "holding_row counted logged os0 o1 w'"
    using d row s(3,4) w2 fs' by (simp add: holding_row_def during_def)
qed

lemma paid_tail_tx:
  "tx_valid (settling_row counted logged os0 paid)
    (tx_bind (fulfillment_insert_pending e (fulfillment_for paid i now)) (\<lambda>(existing, inserted).
     tx_bind (if inserted then fulfill_and_mark e paid i (''order:'' @ po_ID paid)
                else (case existing of
                    Some f \<Rightarrow> if fu_Status f = FulfillmentPending
                      then fulfillment_mark_done e (po_ProjectID paid) (fu_ID f) (fu_Ref f) else tx_ret ()
                  | None \<Rightarrow> tx_ret ())) (\<lambda>_.
     order_publish e paid EventOrderPaid now)))
    (\<lambda>_. during counted logged {} os0)"
proof (rule tx_valid_bind [OF insert_pending_tx], goal_cases)
  case (1 r)
  obtain ex ins where r: "r = (ex, ins)" by (cases r)
  have "tx_valid (pending_row os0 paid (fulfillment_for paid i now))
      (tx_bind (fulfill_and_mark e paid i (''order:'' @ po_ID paid)) (\<lambda>_. order_publish e paid EventOrderPaid now))
      (\<lambda>_. holding_row counted logged os0 paid)"
    by (rule tx_valid_bind [OF fulfill_and_mark_tx keeps_rows(1)])
      (simp_all add: fulfillment_for_def core_kept)
  then have "tx_valid (pending_row os0 paid (fulfillment_for paid i now))
      (tx_bind (fulfill_and_mark e paid i (''order:'' @ po_ID paid)) (\<lambda>_. order_publish e paid EventOrderPaid now))
      (\<lambda>_. during counted logged {} os0)"
    by (rule tx_valid_weaken) (simp_all add: holding_row_def)
  then show ?case
    unfolding r by (cases ins) (simp_all add: tx_valid_def)
qed

lemma apply_paid_tx:
  "tx_valid (holding_row counted logged os0 o1) (apply_paid e o1 ev now) (\<lambda>_. during counted logged {} os0)"
proof (cases "order_wf o1")
  case False
  then show ?thesis using holding_row_wf by (fastforce simp: tx_valid_def)
next
  case wf: True
  let ?f = "o1\<lparr>po_ProviderSessionID := po_ProviderSessionID o1, po_ProviderOrderID :=
            (if cb_ProviderOrderID ev \<noteq> '''' \<and> po_ProviderOrderID o1 = ''''
             then cb_ProviderOrderID ev else po_ProviderOrderID o1)\<rparr>"
  have f: "o1\<lparr>po_ProviderOrderID :=
            (if cb_ProviderOrderID ev \<noteq> '''' \<and> po_ProviderOrderID o1 = ''''
             then cb_ProviderOrderID ev else po_ProviderOrderID o1)\<rparr> = ?f" by simp
  show ?thesis
  proof (cases "order_transition ?f OrderStatusPaid now")
    case None
    then show ?thesis unfolding apply_paid_def f
      by (auto intro!: tx_valid_if tx_valid_bind [OF keeps_rows(1)] tx_valid_ret
          simp: core_lift holding_row_def)
  next
    case (Some paid)
    note t = transition_updates [OF this]
    have u: "updates o1 paid" "po_Status paid = OrderStatusPaid" using t(1,2) wf by (simp_all add: order_wf_def)
    have n: "\<not> settled o1" if "po_Status o1 \<in> {OrderStatusCreated, OrderStatusPaying}"
      using that by (auto simp: settled_def)
    have "tx_valid (holding_row counted logged os0 o1)
        (tx_bind (tx_lift (settle_check ev o1)) (\<lambda>_.
            tx_bind (order_update e paid (po_Status o1)) (\<lambda>_.
            tx_bind (upsert_provider_index e (po_Provider paid) kind_payment_session
              (cb_ProviderSessionID ev) (po_ProjectID paid)) (\<lambda>_.
            tx_bind (upsert_provider_index e (po_Provider paid) kind_payment_order
              (cb_ProviderOrderID ev) (po_ProjectID paid)) (\<lambda>_.
            tx_bind (pay_new_id e) (\<lambda>i.
            tx_bind (fulfillment_insert_pending e (fulfillment_for paid i now)) (\<lambda>(existing, inserted).
            tx_bind (if inserted then fulfill_and_mark e paid i (''order:'' @ po_ID paid)
                else (case existing of
                    Some f \<Rightarrow> if fu_Status f = FulfillmentPending
                      then fulfillment_mark_done e (po_ProjectID paid) (fu_ID f) (fu_Ref f) else tx_ret ()
                  | None \<Rightarrow> tx_ret ())) (\<lambda>_.
            order_publish e paid EventOrderPaid now))))))))
        (\<lambda>_. during counted logged {} os0)"
      if "po_Status o1 \<in> {OrderStatusCreated, OrderStatusPaying}"
      by (rule tx_valid_bind [OF keeps_rows(1) tx_valid_bind [OF update_paid
            tx_valid_bind [OF keeps_rows(2) tx_valid_bind [OF keeps_rows(2) tx_valid_bind [OF keeps_rows(2) paid_tail_tx]]]]])
        (use u n [OF that] in \<open>simp_all add: core_kept\<close>)
    then show ?thesis
      unfolding apply_paid_def f Some
      by (auto intro!: tx_valid_if tx_valid_ret simp: holding_row_def)
  qed
qed

lemma plain_transition:
  assumes "order_transition o1 to now = Some o2" and "order_wf o1"
  shows "updates o1 o2" "po_Status o2 = to"
  using transition_updates(1,2) [where ?o1.0 = o1 and s = "po_ProviderSessionID o1" and r = "po_ProviderOrderID o1"
      and to = to and now = now and ?o2.0 = o2] assms
  by (simp_all add: order_wf_def)

lemma transition_then:
  assumes "\<And>o2. order_transition o1 to now = Some o2 \<Longrightarrow>
      tx_valid (holding_row counted logged os0 o2) (m o2) (\<lambda>_. holding_row counted logged os0 o2)"
    and "to \<noteq> OrderStatusPaid" and "tx_valid (holding_row counted logged os0 o1) fallback (\<lambda>_. during counted logged {} os0)"
  shows "tx_valid (holding_row counted logged os0 o1)
    (case order_transition o1 to now of None \<Rightarrow> fallback
     | Some o2 \<Rightarrow> tx_bind (order_update e o2 (po_Status o1)) (\<lambda>_. m o2)) (\<lambda>_. during counted logged {} os0)"
proof (cases "order_wf o1")
  case False
  then show ?thesis using holding_row_wf by (fastforce simp: tx_valid_def)
next
  case wf: True
  show ?thesis
  proof (cases "order_transition o1 to now")
    case None
    with assms(3) show ?thesis by simp
  next
    case (Some o2)
    have "tx_valid (holding_row counted logged os0 o1) (tx_bind (order_update e o2 (po_Status o1)) (\<lambda>_. m o2))
        (\<lambda>_. holding_row counted logged os0 o2)"
      using plain_transition [OF Some wf] assms(2) by (intro tx_valid_bind [OF update_plain assms(1) [OF Some]]) auto
    then have "tx_valid (holding_row counted logged os0 o1) (tx_bind (order_update e o2 (po_Status o1)) (\<lambda>_. m o2))
        (\<lambda>_. during counted logged {} os0)"
      by (rule tx_valid_weaken) (simp_all add: holding_row_def)
    with Some show ?thesis by simp
  qed
qed

lemma held_during: "tx_valid (holding_row counted logged os0 o1) (tx_ret a) (\<lambda>_. during counted logged {} os0)"
  by (auto simp: holding_row_def)

lemma apply_terminal_tx:
  assumes "to \<noteq> OrderStatusPaid"
  shows "tx_valid (holding_row counted logged os0 o1) (apply_terminal e o1 to now) (\<lambda>_. during counted logged {} os0)"
  unfolding apply_terminal_def
  by (intro tx_valid_if held_during transition_then [OF keeps_rows(1)] core_publish assms)

lemma reverse_or_record_tx:
  assumes r: "po_Status o2 = OrderStatusRefunded"
  shows "tx_valid (holding_row counted logged os0 o2) (reverse_or_record e o2) (\<lambda>_. holding_row counted logged os0 o2)"
proof (rule tx_validI)
  fix w a w' assume h: "holding_row counted logged os0 o2 w" and run: "reverse_or_record e o2 w = (Inr a, w')"
  have d: "during counted logged {} os0 w" and row: "order_row (pt_orders (pw_db w)) (order_key o2) = Some o2"
    using h by (simp_all add: holding_row_def)
  obtain s x where x: "pe_Reverse e o2 (pw_ext w) = (s, x)" by fastforce
  let ?v = "w\<lparr>pw_ext := x\<rparr>"
  have hv: "holding_row counted logged os0 o2 ?v"
    using d row books_mono [OF _ reverse_logs [OF x]] by (simp add: holding_row_def during_def)
  have tr: "tx_try (ext_step (pe_Reverse e o2)) w = (Inr s, ?v)" using x by (simp add: tx_try_def ext_step_def)
  show "holding_row counted logged os0 o2 w'"
  proof (cases s)
    case (Inr u)
    with run tr hv show ?thesis by (auto simp: reverse_or_record_def tx_bind_def tx_ret_def)
  next
    case (Inl err)
    then have mark: "fulfillment_mark_reverse_failed e o2 ?v = (Inr a, w')" and "\<not> pe_db_err e err"
      using run tr by (auto simp: reverse_or_record_def tx_bind_def tx_fail_def split: if_splits)
    from mark obtain ex v1 now v2 where g: "fulfillment_get_by_order e (po_ProjectID o2) (po_ID o2) ?v = (Inr ex, v1)"
      and n: "pay_now e v1 = (Inr now, v2)"
      and c: "(case ex of
         None \<Rightarrow> tx_bind (pay_new_id e) (\<lambda>i. tx_bind (pay_write e (\<lambda>db. fulfillment_add db
           \<lparr>fu_ID = i, fu_OrderID = po_ID o2, fu_ProjectID = po_ProjectID o2,
            fu_PurposeKind = po_PurposeKind o2, fu_Ref = ''reverse:'' @ po_ID o2,
            fu_Status = FulfillmentReverseFailed, fu_Previous = None,
            fu_CreatedAt = now, fu_UpdatedAt = now\<rparr>)) (\<lambda>_. tx_ret ()))
       | Some f \<Rightarrow> fulfillment_set e (po_ProjectID o2) (fu_ID f)
           (\<lambda>r. r\<lparr>fu_Status := FulfillmentReverseFailed, fu_Previous := Some (fu_Status f),
             fu_UpdatedAt := now\<rparr>)) v2 = (Inr a, w')"
      unfolding fulfillment_mark_reverse_failed_def by (elim tx_bind_InrE) auto
    have v2: "pw_db v2 = pw_db w" "pw_ext v2 = x" using g n
      by (auto simp: fulfillment_get_by_order_def tx_simps pay_now_def)
    have ex: "ex = find (\<lambda>f. fu_ProjectID f = po_ProjectID o2 \<and> fu_OrderID f = po_ID o2) (pt_fulfillments (pw_db w))"
      using g by (auto simp: fulfillment_get_by_order_def tx_simps)
    have b: "books counted {} (pt_orders (pw_db w)) (pt_fulfillments (pw_db w)) (logged x)"
      using hv by (simp add: holding_row_def during_def)
    have o2: "o2 \<in> set (pt_orders (pw_db w))" using order_row_SomeD [OF row] by simp
    have st: "settled o2" using r by (simp add: settled_def)
    obtain g0 where g0: "g0 \<in> set (pt_fulfillments (pw_db w))" "fulfils g0 o2"
      using b o2 st unfolding books_def by blast
    then obtain f where f: "ex = Some f"
      unfolding ex by (cases "find (\<lambda>f. fu_ProjectID f = po_ProjectID o2 \<and> fu_OrderID f = po_ID o2) (pt_fulfillments (pw_db w))")
        (auto simp: find_None_iff fulfils_def order_key_def)
    then have f1: "f \<in> set (pt_fulfillments (pw_db w))" "fu_ProjectID f = po_ProjectID o2" "fu_OrderID f = po_ID o2"
      unfolding ex by (auto simp: find_Some_iff)
    obtain r1 where r1: "r1 \<in> set (pt_orders (pw_db w))" "fulfils f r1"
      using b f1(1) unfolding books_def by blast
    have "order_key r1 = order_key o2" using r1(2) f1 by (simp add: fulfils_def order_key_def)
    then have "r1 = o2" using r1(1) o2 b order_row_set orders_ok_distinct
      by (metis (no_types, lifting) books_def option.inject)
    then have ff: "fulfils f o2" using r1(2) by simp
    note s = fulfillment_set_Inr [OF c [unfolded f option.case]]
    have "books counted {} (pt_orders (pw_db w)) (pt_fulfillments (pw_db w')) (logged x)"
      by (rule books_reverse_failed [where upd = "\<lambda>r. r\<lparr>fu_Status := FulfillmentReverseFailed,
            fu_Previous := Some (fu_Status f), fu_UpdatedAt := now\<rparr>", OF b f1(1) ff o2 r _ _ s(2)]) (use s(1) f1(2) v2(1) in simp_all)
    then show ?thesis using d row s(3,4) v2 by (simp add: holding_row_def during_def)
  qed
qed

lemma refund_order_tx:
  "po_Status o2 = OrderStatusRefunded \<Longrightarrow>
   tx_valid (holding_row counted logged os0 o2) (refund_order e o2 now) (\<lambda>_. holding_row counted logged os0 o2)"
  unfolding refund_order_def by (rule tx_valid_bind [OF reverse_or_record_tx keeps_rows(1)]) (simp_all add: core_publish)

lemma apply_refunded_tx:
  "tx_valid (holding_row counted logged os0 o1) (apply_refunded e o1 ev now) (\<lambda>_. during counted logged {} os0)"
  unfolding apply_refunded_def
  by (intro tx_valid_if held_during transition_then [OF refund_order_tx])
    (auto dest: order_transition_SomeD(2))

lemma settle_refund_tx:
  assumes "to \<noteq> OrderStatusPaid"
  shows "tx_valid (during counted logged {} os0) (settle_refund e p i to now) (\<lambda>_. during counted logged {} os0)"
  unfolding settle_refund_def
proof (rule tx_valid_bind [OF order_get_tx], goal_cases)
  case (1 row)
  show ?case
  proof (cases row)
    case None
    then show ?thesis by (simp add: require_row_def tx_valid_def tx_simps)
  next
    case (Some o1)
    have "tx_valid (holding_row counted logged os0 o1)
      (if po_Status o1 \<noteq> OrderStatusPaid then tx_ret ()
     else (case order_transition o1 to now of None \<Rightarrow> tx_fail ErrInvalidTransition
       | Some o2 \<Rightarrow> tx_bind (order_update e o2 (po_Status o1)) (\<lambda>_.
           if to = OrderStatusRefunded then refund_order e o2 now else tx_ret ()))) (\<lambda>_. during counted logged {} os0)"
      by (intro tx_valid_if held_during transition_then [OF _ assms] refund_order_tx tx_valid_fail tx_valid_ret)
        (auto dest: order_transition_SomeD(2))
    then show ?thesis
      unfolding Some require_row_def option.case tx_bind_ret by (rule tx_valid_pre) simp
  qed
qed

lemma during_wf:
  assumes "during counted logged {} os0 w" and "order_row (pt_orders (pw_db w)) k = Some o1"
  shows "holding_row counted logged os0 o1 w" "order_key o1 = k"
  using order_row_SomeD [OF assms(2)] assms by (auto simp: holding_row_def)

text \<open>
  Fulfilment by hand. With the books in order a paid order already has its row, so the call
  gives it back and fulfils nothing.
\<close>

lemma fulfill_by_hand_run:
  assumes d: "during counted logged {} os0 w" and row: "order_row (pt_orders (pw_db w)) (p, po_ID o1) = Some o1"
    and paid: "po_Status o1 = OrderStatusPaid"
    and run: "pay_run e (fulfill_by_hand e p o1 now) w = (r, w')"
  shows "during counted logged {} os0 w'"
proof -
  have b: "books counted {} (pt_orders (pw_db w)) (pt_fulfillments (pw_db w)) (logged (pw_ext w))"
    using d by (simp add: during_def)
  have k: "o1 \<in> set (pt_orders (pw_db w))" "order_key o1 = (p, po_ID o1)" using order_row_SomeD [OF row] by auto
  have st: "settled o1" using paid by (simp add: settled_def)
  obtain g0 where g0: "g0 \<in> set (pt_fulfillments (pw_db w))" "fulfils g0 o1" using b k(1) st unfolding books_def by blast
  then obtain f where f: "find (\<lambda>f. fu_ProjectID f = p \<and> fu_OrderID f = po_ID o1) (pt_fulfillments (pw_db w)) = Some f"
    using k(2) by (cases "find (\<lambda>f. fu_ProjectID f = p \<and> fu_OrderID f = po_ID o1) (pt_fulfillments (pw_db w))")
      (auto simp: find_None_iff fulfils_def)
  then have f1: "f \<in> set (pt_fulfillments (pw_db w))" "fu_ProjectID f = p" "fu_OrderID f = po_ID o1"
    by (auto simp: find_Some_iff)
  obtain r1 where r1: "r1 \<in> set (pt_orders (pw_db w))" "fulfils f r1" "fulfilment_matches f r1"
    using b f1(1) unfolding books_def by blast
  have "order_key r1 = order_key o1" using r1(2) f1 k(2) by (simp add: fulfils_def)
  then have "r1 = o1" using r1(1) k(1) b order_row_set orders_ok_distinct
    by (metis (no_types, lifting) books_def option.inject)
  then have dn: "fu_Status f = FulfillmentDone" using r1(3) paid by (simp add: fulfilment_matches_def)
  have body: "\<exists>w1. fulfill_by_hand e p o1 now (w\<lparr>pw_ops := n\<rparr>) = (Inr (Some f), w1) \<and> core w1 = core w \<or>
      (\<exists>err. fulfill_by_hand e p o1 now (w\<lparr>pw_ops := n\<rparr>) = (Inl err, w1) \<and> core w1 = core w)" for n
    using f dn
    by (auto simp: fulfill_by_hand_def fulfillment_get_by_order_def pay_read_def pay_op_def Let_def tx_bind_def
        tx_ret_def core_def)
  have core_undo: "during counted logged {} os0 (v\<lparr>pw_db := pw_db w, pw_ext := pe_undo e (pw_ext w) x\<rparr>)" for v :: "'x pay_world" and x
    using d books_mono [OF _ undo_logs] by (fastforce simp: during_def)
  from body [of "Suc (pw_ops w)"] obtain w1 s where m: "fulfill_by_hand e p o1 now (w\<lparr>pw_ops := Suc (pw_ops w)\<rparr>) = (s, w1)"
    and c: "core w1 = core w" by blast
  have d1: "during counted logged {} os0 (w1\<lparr>pw_ops := n\<rparr>)" for n
    using during_core [of "w1\<lparr>pw_ops := n\<rparr>" w counted logged "{}" os0] c d by (simp add: core_def)
  have d0: "during counted logged {} os0 (w\<lparr>pw_ops := n\<rparr>)" for n using d by (simp add: during_def)
  show ?thesis
    using run m d0 d1 core_undo [where x = "pw_ext w1"]
    by (auto simp: pay_run_def Let_def split: if_splits sum.splits)
qed

lemma sound_run: "(\<And>os0. tx_valid (during counted logged {} os0) m (\<lambda>_. during counted logged {} os0)) \<Longrightarrow>
    sound counted logged (pay_run e m)"
  by (rule run_sound [OF undo_logs])

lemma drive_order_tx:
  "tx_valid (during counted logged {} os0) (drive_order e ev now p i) (\<lambda>_. during counted logged {} os0)"
  unfolding drive_order_def
proof (rule tx_valid_bind [OF order_get_tx], goal_cases)
  case (1 row)
  show ?case
  proof (cases row)
    case None
    then show ?thesis by auto
  next
    case (Some o1)
    have "tx_valid (holding_row counted logged os0 o1) (case cb_Type ev of
         CallbackPaid \<Rightarrow> apply_paid e o1 ev now
       | CallbackFailed \<Rightarrow> apply_terminal e o1 OrderStatusFailed now
       | CallbackRefunded \<Rightarrow> apply_refunded e o1 ev now
       | _ \<Rightarrow> tx_ret ()) (\<lambda>_. during counted logged {} os0)"
      by (cases "cb_Type ev") (simp_all add: apply_paid_tx apply_terminal_tx apply_refunded_tx held_during)
    then show ?thesis unfolding Some option.case by (rule tx_valid_pre) simp
  qed
qed

lemma handle_callback_sound: "sound counted logged (handle_callback e name request)"
proof -
  have hosted: "tx_valid (during counted logged {} os0) (pe_Hosted e ev) (\<lambda>_. during counted logged {} os0)" for os0 ev
    using hosted_keeps books_mono by (fastforce simp: tx_valid_def during_def)
  have sub: "sound counted logged (handle_subscription_event e ev)" for ev
    unfolding handle_subscription_event_def Let_def
    by (intro sound_bind sound_if sound_run tx_valid_bind [OF keeps_during] tx_valid_if hosted tx_valid_ret)
      (intro core_kept sound_core | assumption)+
  have ord: "sound counted logged (handle_order_event e ev)" for ev
    unfolding handle_order_event_def
    by (intro sound_bind sound_if sound_option sound_run tx_valid_bind [OF keeps_during] tx_valid_if drive_order_tx tx_valid_ret)
      (intro core_kept sound_core | assumption)+
  show ?thesis
    unfolding handle_callback_def
    by (auto split: option.splits sum.splits pay_err.splits intro!: sound_if sub ord sound_core core_kept)
qed

lemma sound_bind_value:
  assumes "keeps_core m" and v: "\<And>w a w'. m w = (Inr a, w') \<Longrightarrow> V a" and f: "\<And>a. V a \<Longrightarrow> sound counted logged (f a)"
  shows "sound counted logged (tx_bind m f)"
proof -
  have "tx_bind m f = tx_bind m (\<lambda>a. if V a then f a else tx_fail undefined)"
  proof
    fix w obtain r w' where "m w = (r, w')" by fastforce
    then show "tx_bind m f w = tx_bind m (\<lambda>a. if V a then f a else tx_fail undefined) w"
      using v by (cases r) (auto simp: tx_bind_def)
  qed
  moreover have "sound counted logged (if V a then f a else tx_fail undefined)" for a
    using f by (simp add: sound_core core_fail)
  ultimately show ?thesis using assms(1) by (simp add: sound_bind sound_core)
qed

lemma checkout_order_sound: "sound counted logged (checkout_order e pv o1 replay)"
  unfolding checkout_order_def
  by (intro sound_if sound_bind sound_run attach_session_tx) (intro sound_core core_kept)+

lemma insert_with_index_sound:
  "order_wf o1 \<Longrightarrow> po_Status o1 = OrderStatusCreated \<Longrightarrow> sound counted logged (insert_order_with_index e o1)"
  unfolding insert_order_with_index_def by (intro sound_run insert_created_order_during)

lemma create_order_sound: "sound counted logged (create_order e pr cmd)"
  unfolding create_order_def
proof (rule sound_bind [OF sound_core [OF core_lift]], rule sound_prod,
    rule sound_bind [OF sound_core [OF core_lift]], goal_cases)
  case (1 a p u b)
  show ?case
  proof (rule sound_bind_value [where V = "\<lambda>o1. order_wf o1 \<and> po_Status o1 = OrderStatusCreated"], goal_cases)
    case 1
    show ?case by (intro core_kept)
  next
    case (2 w o1 w')
    then show ?case by (rule new_created_order_wf)
  next
    case (3 o1)
    have "order_wf (o1\<lparr>po_Provider := n\<rparr>)" for n using 3 by (simp add: order_wf_def settled_def)
    with 3 show ?case
      by (intro sound_option sound_bind sound_prod sound_if insert_with_index_sound checkout_order_sound)
        (simp_all add: sound_core core_kept)
  qed
qed

lemma settle_receipt_tx:
  "tx_valid (during counted logged {} os0) (settle_receipt e p v o1 receipt now) (\<lambda>_. during counted logged {} os0)"
  unfolding settle_receipt_def Let_def
proof (rule tx_valid_bind [OF keeps_during [OF core_callback]], goal_cases)
  case (1 inserted)
  have "tx_valid (during counted logged {} os0) (tx_bind (order_get e (po_ProjectID o1) (po_ID o1)) (\<lambda>row.
       tx_bind (require_row row) (\<lambda>locked.
       tx_bind (upsert_provider_index e provider_ios_iap kind_ios_transaction (vp_TransactionID v) p) (\<lambda>_.
       apply_paid e locked (receipt_event v o1 receipt now) now)))) (\<lambda>_. during counted logged {} os0)"
  proof (rule tx_valid_bind [OF order_get_tx], goal_cases)
    case (1 row)
    show ?case
    proof (cases row)
      case None
      then show ?thesis by (simp add: require_row_def tx_valid_def tx_simps)
    next
      case (Some locked)
      have "tx_valid (holding_row counted logged os0 locked)
         (tx_bind (upsert_provider_index e provider_ios_iap kind_ios_transaction (vp_TransactionID v) p) (\<lambda>_.
           apply_paid e locked (receipt_event v o1 receipt now) now)) (\<lambda>_. during counted logged {} os0)"
        by (rule tx_valid_bind [OF keeps_rows(1) apply_paid_tx]) (rule core_upsert)
      then show ?thesis unfolding Some require_row_def option.case tx_bind_ret by (rule tx_valid_pre) simp
    qed
  qed
  then show ?case by (intro tx_valid_if tx_valid_ret)
qed

lemma verify_receipt_sound: "sound counted logged (verify_receipt e pr orderID receipt)"
  unfolding verify_receipt_def
  by (intro sound_bind sound_prod sound_when sound_option sound_if sound_run settle_receipt_tx; (intro sound_core core_kept)?)
    (auto split: sum.splits option.splits intro!: sound_core core_kept)

lemma refund_sound: "sound counted logged (refund e pr i amount)"
  unfolding refund_def
  by (intro sound_bind sound_option sound_if sound_run settle_refund_tx; (intro sound_core core_kept)?) (auto split: if_splits)

lemma manual_fulfill_sound: "sound counted logged (manual_fulfill e pr i)"
  unfolding manual_fulfill_def
proof (rule sound_bind [OF sound_core [OF core_lift]], rule sound_bind [OF sound_core [OF core_lift]], goal_cases)
  case (1 a p)
  show ?case
    unfolding sound_def
  proof (intro allI impI)
    fix os0 w r w'
    assume d: "during counted logged {} os0 w" and run: "tx_bind (order_get e p i) (\<lambda>row.
       tx_bind (require_row row) (\<lambda>o1.
       tx_when (po_Status o1 \<noteq> OrderStatusPaid) (PayStatus FailedPrecondition) (
       tx_bind (pay_now e) (\<lambda>now.
       tx_bind (pay_run e (fulfill_by_hand e p o1 now)) (\<lambda>f. tx_ret (o1, f)))))) w = (r, w')"
    obtain g v where g: "order_get e p i w = (g, v)" by fastforce
    have c: "core v = core w" by (rule keeps_coreD [OF core_get(1) g])
    have dv: "during counted logged {} os0 v" using during_core [OF c] d by simp
    show "during counted logged {} os0 w'"
    proof (cases g)
      case (Inl err)
      with run g dv show ?thesis by (simp add: tx_bind_def)
    next
      case (Inr row)
      show ?thesis
      proof (cases row)
        case None
        with run g Inr dv show ?thesis by (simp add: tx_bind_def require_row_def tx_fail_def)
      next
        case (Some o1)
        have row: "order_row (pt_orders (pw_db v)) (p, i) = Some o1"
          using order_get_valid(1) [OF g [unfolded Inr]] Some c by (simp add: core_def)
        have k: "order_key o1 = (p, i)" using order_row_SomeD [OF row] by simp
        show ?thesis
        proof (cases "po_Status o1 = OrderStatusPaid")
          case False
          with run g Inr Some dv show ?thesis
            by (simp add: tx_bind_def require_row_def tx_fail_def tx_when_def tx_ret_def)
        next
          case True
          let ?v = "v\<lparr>pw_ticks := Suc (pw_ticks v)\<rparr>"
          obtain s v' where s: "pay_run e (fulfill_by_hand e p o1 (pe_clock e (pw_ticks v))) ?v = (s, v')" by fastforce
          have "during counted logged {} os0 ?v" using dv by (simp add: during_def)
          moreover have "order_row (pt_orders (pw_db ?v)) (p, po_ID o1) = Some o1"
            using row k by (simp add: order_key_def)
          ultimately have "during counted logged {} os0 v'" by (rule fulfill_by_hand_run [OF _ _ True s])
          with run g Inr Some True s show ?thesis
            by (cases s) (auto simp: tx_bind_def require_row_def tx_when_def tx_ret_def pay_now_def)
        qed
      qed
    qed
  qed
qed

lemma during_orders:
  "books counted X os (pt_fulfillments (pw_db w)) (logged (pw_ext w)) \<Longrightarrow> orders_advance os0 os \<Longrightarrow>
   during counted logged X os0 (w\<lparr>pw_ops := n, pw_db := (pw_db w)\<lparr>pt_orders := os\<rparr>\<rparr>)"
  by (simp add: during_def)

lemma close_expired_sound: "sound counted logged (close_expired_in_project e p now limit)"
  unfolding sound_def
proof (intro allI impI)
  fix os0 w r w'
  assume d: "during counted logged {} os0 w" and run: "close_expired_in_project e p now limit w = (r, w')"
  have d0: "during counted logged {} os0 (w\<lparr>pw_ops := n\<rparr>)" for n using d by (simp add: during_def)
  let ?os = "pt_orders (pw_db w)"
  let ?picked = "take (nat limit) (sort_key po_ExpiresAt (filter (order_overdue p now) ?os))"
  let ?g = "\<lambda>r. if po_ProjectID r = p \<and> po_ID r \<in> set (map po_ID ?picked)
             then r\<lparr>po_Status := OrderStatusClosed, po_UpdatedAt := now\<rparr> else r"
  have dist: "distinct (map order_key ?os)" using d by (simp add: during_def books_def orders_ok_def)
  have g: "?g r = r \<or> (closes r (?g r))" if r: "r \<in> set ?os" for r
  proof (cases "po_ProjectID r = p \<and> po_ID r \<in> set (map po_ID ?picked)")
    case True
    then obtain q where q: "q \<in> set ?picked" "po_ID q = po_ID r" by auto
    have "q \<in> set (filter (order_overdue p now) ?os)" using in_set_takeD [OF q(1)] by simp
    then have q2: "q \<in> set ?os" "order_overdue p now q" by auto
    then have "order_key q = order_key r" using q(2) True by (simp add: order_key_def order_overdue_def)
    then have "q = r" using order_row_set [OF dist] q2(1) r by (metis option.inject)
    then show ?thesis using q2(2) True by (auto simp: closes_def order_overdue_def)
  next
    case False
    then have "?g r = r" by (simp only: if_False)
    then show ?thesis ..
  qed
  have dg: "during counted logged {} os0 (w\<lparr>pw_ops := n, pw_db := (pw_db w)\<lparr>pt_orders := map ?g ?os\<rparr>\<rparr>)" for n
  proof -
    have adv: "orders_advance os0 (map ?g ?os)"
      using d by (intro orders_advance_trans [OF _ advance_close [OF dist g]]) (simp_all only: during_def)
    have "books counted {} (map ?g ?os) (pt_fulfillments (pw_db w)) (logged (pw_ext w))"
      using d by (intro books_close g) (simp_all only: during_def)
    from during_orders [OF this adv] show ?thesis .
  qed
  show "during counted logged {} os0 w'"
  proof (cases "limit \<le> 0")
    case True
    with run d show ?thesis by (simp add: close_expired_in_project_def tx_ret_def)
  next
    case lim: False
    show ?thesis
    proof (cases "pe_fails e (pw_ops w)")
      case True
      with run lim d0 show ?thesis by (auto simp: close_expired_in_project_def pay_write_def pay_op_def Let_def)
    next
      case False
      have pd: "pw_db (w\<lparr>pw_ops := n\<rparr>) = pw_db w" for n by simp
      from False run lim have "w' = w\<lparr>pw_ops := Suc (pw_ops w), pw_db := (pw_db w)\<lparr>pt_orders := map ?g ?os\<rparr>\<rparr>"
        by (auto simp only: close_expired_in_project_def pay_write_def pay_op_def Let_def if_False pd
            sum.case prod.case prod.inject)
      then show ?thesis using dg by (simp only:)
    qed
  qed
qed

end

end
