(* ===== verification/Subscriptions.thy ===== *)
theory Subscriptions
  imports Asset_Service Payments
begin

text \<open>
  Subscriptions: plan, benefits and contract with their state machine
  (\<^verbatim>\<open>internal/domain/subscriptions\<close>), the statements of
  \<^verbatim>\<open>internal/infra/bun/bunrepo/subscriptions_repo.go\<close> on the tables of
  \<^verbatim>\<open>internal/infra/projectschema/migrations/000006_subscriptions.up.sql\<close> and \<^verbatim>\<open>000010\<close>, and the
  upkeep of plans (\<^verbatim>\<open>internal/app/subscriptions/plans.go\<close>). The state is that of the asset
  system with the tables of subscriptions beside it: \<open>'x\<close> of the payment service.
\<close>

section \<open>Plans and contracts\<close>

datatype sub_status = StatusTrialing | StatusActive | StatusPastDue | StatusCanceled | StatusExpired

datatype sub_mode = ModeHosted | ModePlatform | ModeOther string

datatype sub_interval = IntervalMonth | IntervalYear | IntervalCustomDays | IntervalOther string

datatype plan_status = PlanStatusActive | PlanStatusArchived | PlanStatusOther string

record benefit_grant =
  bg_AssetCode :: string
  bg_Quantity :: int
  bg_ExpiresIn :: "int option"

record benefit_entitlement =
  be_AssetCode :: string
  be_Tier :: int

record benefits =
  bn_Grants :: "benefit_grant list"
  bn_Entitlements :: "benefit_entitlement list"

record plan =
  pn_ID :: string
  pn_ProjectID :: string
  pn_Code :: string
  pn_Name :: string
  pn_Amount :: int
  pn_Currency :: string
  pn_Interval :: sub_interval
  pn_IntervalDays :: int
  pn_GraceDays :: int
  pn_TrialDays :: int
  pn_Benefits :: benefits
  pn_StripePriceID :: string
  pn_Status :: plan_status
  pn_CreatedAt :: gtime
  pn_UpdatedAt :: gtime

record contract =
  su_ID :: string
  su_ProjectID :: string
  su_UserID :: string
  su_PlanID :: string
  su_Mode :: sub_mode
  su_Provider :: string
  su_ProviderSubID :: string
  su_Status :: sub_status
  su_CurrentPeriodStart :: gtime
  su_CurrentPeriodEnd :: gtime
  su_CancelAtPeriodEnd :: bool
  su_GraceUntil :: "gtime option"
  su_BillingAssetCode :: string
  su_Benefits :: benefits
  su_IdempotencyKey :: string
  su_CreatedAt :: gtime
  su_UpdatedAt :: gtime

datatype sub_err = SubAsset asset_err | ErrPlanNotFound | ErrPlanArchived | ErrPlanDuplicateCode
  | ErrSubNotFound | ErrAlreadySubscribed | ErrInvalidMode | ErrHostedNotConfigured
  | ErrReplayTerminalSubscription

definition mode_is_valid :: "sub_mode \<Rightarrow> bool" where
  "mode_is_valid m \<longleftrightarrow> m = ModeHosted \<or> m = ModePlatform"

fun interval_is_valid :: "sub_interval \<Rightarrow> bool" where
  "interval_is_valid (IntervalOther _) = False"
| "interval_is_valid _ = True"

definition sub_allowed_transitions :: "sub_status \<Rightarrow> sub_status list option" where
  "sub_allowed_transitions s = (case s of
     StatusTrialing \<Rightarrow> Some [StatusActive, StatusPastDue, StatusCanceled, StatusExpired]
   | StatusActive \<Rightarrow> Some [StatusPastDue, StatusCanceled, StatusExpired]
   | StatusPastDue \<Rightarrow> Some [StatusActive, StatusCanceled, StatusExpired]
   | _ \<Rightarrow> None)"

definition sub_can_transition :: "sub_status \<Rightarrow> sub_status \<Rightarrow> bool" where
  "sub_can_transition from to = (if from = to then True
     else (case sub_allowed_transitions from of None \<Rightarrow> False | Some targets \<Rightarrow> to \<in> set targets))"

definition sub_transition :: "contract \<Rightarrow> sub_status \<Rightarrow> gtime \<Rightarrow> contract option" where
  "sub_transition s to now =
     (if su_Status s = to then Some (s\<lparr>su_UpdatedAt := now\<rparr>)
      else if \<not> sub_can_transition (su_Status s) to then None
      else let s1 = s\<lparr>su_Status := to, su_UpdatedAt := now\<rparr>
        in Some (if to \<noteq> StatusPastDue then s1\<lparr>su_GraceUntil := None\<rparr> else s1))"

definition sub_is_terminal :: "sub_status \<Rightarrow> bool" where
  "sub_is_terminal s \<longleftrightarrow> s = StatusCanceled \<or> s = StatusExpired"

definition period_due :: "contract \<Rightarrow> gtime \<Rightarrow> bool" where
  "period_due s now \<longleftrightarrow> su_CurrentPeriodEnd s \<le> now"

definition grace_elapsed :: "contract \<Rightarrow> gtime \<Rightarrow> bool" where
  "grace_elapsed s now = (if su_Status s \<noteq> StatusPastDue then False
     else (case su_GraceUntil s of None \<Rightarrow> True | Some t \<Rightarrow> t \<le> now))"

text \<open>Products of durations wrap at 64 bits.\<close>

definition days_duration :: "int \<Rightarrow> int" where
  "days_duration n = i64 (n * (24 * hour))"

definition next_period_end :: "gtime \<Rightarrow> sub_interval \<Rightarrow> int \<Rightarrow> gtime option" where
  "next_period_end from interval days = (case interval of
     IntervalMonth \<Rightarrow> Some (add_date from 0 1 0)
   | IntervalYear \<Rightarrow> Some (add_date from 1 0 0)
   | IntervalCustomDays \<Rightarrow> if days \<le> 0 then None else Some (from + days_duration days)
   | IntervalOther _ \<Rightarrow> None)"

definition compute_grace_until :: "gtime \<Rightarrow> int \<Rightarrow> gtime" where
  "compute_grace_until from graceDays =
     (if graceDays \<le> 0 then from else from + days_duration graceDays)"

definition benefits_validate :: "benefits \<Rightarrow> bool" where
  "benefits_validate b \<longleftrightarrow>
     list_all (\<lambda>g. bg_AssetCode g \<noteq> '''' \<and> 0 < bg_Quantity g \<and>
       (case bg_ExpiresIn g of None \<Rightarrow> True | Some x \<Rightarrow> 0 < x)) (bn_Grants b) \<and>
     list_all (\<lambda>x. be_AssetCode x \<noteq> '''') (bn_Entitlements b)"

definition plan_validate :: "plan \<Rightarrow> bool" where
  "plan_validate p \<longleftrightarrow> 0 \<le> pn_Amount p \<and> length (pn_Currency p) = 3 \<and> interval_is_valid (pn_Interval p) \<and>
     \<not> (pn_Interval p = IntervalCustomDays \<and> pn_IntervalDays p \<le> 0) \<and>
     0 \<le> pn_GraceDays p \<and> 0 \<le> pn_TrialDays p \<and> benefits_validate (pn_Benefits p)"

section \<open>The tables\<close>

datatype sub_event_kind = EventActivated | EventRenewed | EventPastDue | EventCanceled | EventExpired

record sub_event =
  se_EventID :: string
  se_Event :: sub_event_kind
  se_ProjectID :: string
  se_Channel :: string
  se_CreatedAt :: gtime
  se_Version :: int
  se_SubscriptionID :: string
  se_UserID :: string
  se_PlanID :: string
  se_Mode :: sub_mode
  se_Status :: sub_status

record sub_tables =
  st_plans :: "plan list"
  st_subs :: "contract list"
  st_outbox :: "sub_event list"

record sub_world =
  sw_db :: sub_tables
  sw_assets :: asset_world
  sw_ids :: nat
  sw_ticks :: nat
  sw_ops :: nat

text \<open>
  \<open>sn_assets\<close> is the environment of the asset system, \<open>sn_operator\<close> the text it records as the
  operator; the three calls to the host of hosted subscriptions are present if it is set up.
\<close>

record hosted_billing =
  hb_CreateCheckout :: "contract \<Rightarrow> string \<Rightarrow> sub_err pay_err + string"
  hb_CancelAtPeriodEnd :: "string \<Rightarrow> sub_err pay_err + unit"
  hb_CancelNow :: "string \<Rightarrow> sub_err pay_err + unit"

record sub_env =
  sn_clock :: "nat \<Rightarrow> gtime"
  sn_id :: "nat \<Rightarrow> string"
  sn_fails :: "nat \<Rightarrow> bool"
  sn_assets :: asset_env
  sn_operator :: "string option"
  sn_hosted :: "hosted_billing option"
  sn_events :: bool

type_synonym 'a stx = "(sub_world, sub_err pay_err, 'a) tx"

definition sub_op :: "sub_env \<Rightarrow> 'a stx \<Rightarrow> 'a stx" where
  "sub_op n f = (\<lambda>w. let w' = w\<lparr>sw_ops := Suc (sw_ops w)\<rparr>
     in if sn_fails n (sw_ops w) then (Inl PayDB, w') else f w')"

definition sub_read :: "sub_env \<Rightarrow> (sub_tables \<Rightarrow> 'a) \<Rightarrow> 'a stx" where
  "sub_read n f = sub_op n (\<lambda>w. (Inr (f (sw_db w)), w))"

definition sub_write :: "sub_env \<Rightarrow> (sub_tables \<Rightarrow> sub_err pay_err + 'a \<times> sub_tables) \<Rightarrow> 'a stx" where
  "sub_write n f = sub_op n (\<lambda>w. case f (sw_db w) of Inl err \<Rightarrow> (Inl err, w)
     | Inr (a, db) \<Rightarrow> (Inr a, w\<lparr>sw_db := db\<rparr>))"

definition sub_new_id :: "sub_env \<Rightarrow> string stx" where
  "sub_new_id n = (\<lambda>w. (Inr (sn_id n (sw_ids w)), w\<lparr>sw_ids := Suc (sw_ids w)\<rparr>))"

definition sub_now :: "sub_env \<Rightarrow> gtime stx" where
  "sub_now n = (\<lambda>w. (Inr (sn_clock n (sw_ticks w)), w\<lparr>sw_ticks := Suc (sw_ticks w)\<rparr>))"

text \<open>A call of the asset system inside the transaction; and what a rolled back one restores.\<close>

definition asset_step :: "'a atx \<Rightarrow> 'a stx" where
  "asset_step m = (\<lambda>w. case m (sw_assets w) of
     (Inl err, a) \<Rightarrow> (Inl (PayAsset (SubAsset err)), w\<lparr>sw_assets := a\<rparr>)
   | (Inr x, a) \<Rightarrow> (Inr x, w\<lparr>sw_assets := a\<rparr>))"

definition sub_undo :: "sub_world \<Rightarrow> sub_world \<Rightarrow> sub_world" where
  "sub_undo w w' = w'\<lparr>sw_db := sw_db w, sw_assets := (sw_assets w')\<lparr>w_db := w_db (sw_assets w)\<rparr>\<rparr>"

section \<open>Statements\<close>

definition plan_key :: "plan \<Rightarrow> string \<times> string" where
  "plan_key p = (pn_ProjectID p, pn_ID p)"

definition plan_get :: "sub_env \<Rightarrow> string \<Rightarrow> string \<Rightarrow> plan option stx" where
  "plan_get n p i = sub_read n (\<lambda>db. find (\<lambda>x. plan_key x = (p, i)) (st_plans db))"

definition plan_get_by_code :: "sub_env \<Rightarrow> string \<Rightarrow> string \<Rightarrow> plan option stx" where
  "plan_get_by_code n p code =
     sub_read n (\<lambda>db. find (\<lambda>x. pn_ProjectID x = p \<and> pn_Code x = code) (st_plans db))"

definition plan_columns_ok :: "plan \<Rightarrow> bool" where
  "plan_columns_ok p \<longleftrightarrow> 0 \<le> pn_Amount p \<and> 0 \<le> pn_GraceDays p \<and> 0 \<le> pn_TrialDays p \<and>
     interval_is_valid (pn_Interval p) \<and> pn_Status p \<in> {PlanStatusActive, PlanStatusArchived} \<and>
     length (pn_Currency p) = 3 \<and> (pn_Interval p \<noteq> IntervalCustomDays \<or> 0 < pn_IntervalDays p)"

definition plan_insert :: "sub_env \<Rightarrow> plan \<Rightarrow> unit stx" where
  "plan_insert n p = sub_write n (\<lambda>db.
     if list_ex (\<lambda>x. plan_key x = plan_key p \<or> pn_ProjectID x = pn_ProjectID p \<and> pn_Code x = pn_Code p)
          (st_plans db) then Inl (PayAsset ErrPlanDuplicateCode)
     else if plan_columns_ok p then Inr ((), db\<lparr>st_plans := st_plans db @ [p]\<rparr>) else Inl PayDB)"

definition plan_update :: "sub_env \<Rightarrow> plan \<Rightarrow> unit stx" where
  "plan_update n p = sub_write n (\<lambda>db.
     if plan_columns_ok p then Inr ((), db\<lparr>st_plans := map (\<lambda>x. if plan_key x = plan_key p
         then p\<lparr>pn_Code := pn_Code x, pn_CreatedAt := pn_CreatedAt x\<rparr> else x) (st_plans db)\<rparr>)
     else Inl PayDB)"

definition sub_key :: "contract \<Rightarrow> string \<times> string" where
  "sub_key s = (su_ProjectID s, su_ID s)"

definition sub_idem :: "contract \<Rightarrow> string \<times> string" where
  "sub_idem s = (su_ProjectID s, su_IdempotencyKey s)"

definition live_sub :: "contract \<Rightarrow> bool" where
  "live_sub s \<longleftrightarrow> su_Status s \<in> {StatusTrialing, StatusActive, StatusPastDue}"

text \<open>
  The constraints: primary key, idempotency key, the host's id, the mode, and at most one live
  subscription of a user to a plan.
\<close>

definition live_unique :: "contract list \<Rightarrow> bool" where
  "live_unique ss \<longleftrightarrow> distinct (map (\<lambda>s. (su_ProjectID s, su_UserID s, su_PlanID s)) (filter live_sub ss))"

definition subs_ok :: "contract list \<Rightarrow> bool" where
  "subs_ok ss \<longleftrightarrow> distinct (map sub_key ss) \<and> distinct (map sub_idem ss) \<and>
     distinct (map (\<lambda>s. (su_ProjectID s, su_Provider s, su_ProviderSubID s))
       (filter (\<lambda>s. su_ProviderSubID s \<noteq> '''' \<and> su_Provider s \<noteq> '''') ss)) \<and>
     list_all (\<lambda>s. mode_is_valid (su_Mode s)) ss"

definition sub_get :: "sub_env \<Rightarrow> string \<Rightarrow> string \<Rightarrow> contract option stx" where
  "sub_get n p i = sub_read n (\<lambda>db. find (\<lambda>s. sub_key s = (p, i)) (st_subs db))"

definition sub_get_by_idempotency_key :: "sub_env \<Rightarrow> string \<Rightarrow> string \<Rightarrow> contract option stx" where
  "sub_get_by_idempotency_key n p key = sub_read n (\<lambda>db. find (\<lambda>s. sub_idem s = (p, key)) (st_subs db))"

definition sub_get_by_provider :: "sub_env \<Rightarrow> string \<Rightarrow> string \<Rightarrow> string \<Rightarrow> contract option stx" where
  "sub_get_by_provider n p provider ref =
     (if provider = '''' \<or> ref = '''' then tx_ret None
      else sub_read n (\<lambda>db. find (\<lambda>s. su_ProjectID s = p \<and> su_Provider s = provider \<and>
        su_ProviderSubID s = ref) (st_subs db)))"

definition sub_insert :: "sub_env \<Rightarrow> contract \<Rightarrow> (contract option \<times> bool) stx" where
  "sub_insert n s = tx_bind (sub_write n (\<lambda>db.
       if list_ex (\<lambda>r. sub_idem r = sub_idem s) (st_subs db) then Inr (False, db)
       else let ss = st_subs db @ [s]
         in if \<not> live_unique ss then Inl (PayAsset ErrAlreadySubscribed)
            else if subs_ok ss \<and> list_ex (\<lambda>p. plan_key p = (su_ProjectID s, su_PlanID s)) (st_plans db)
            then Inr (True, db\<lparr>st_subs := ss\<rparr>) else Inl PayDB))
     (\<lambda>inserted. if inserted then tx_ret (None, True)
       else tx_bind (sub_get_by_idempotency_key n (su_ProjectID s) (su_IdempotencyKey s)) (\<lambda>existing.
         case existing of None \<Rightarrow> tx_fail (PayStatus Internal) | Some r \<Rightarrow> tx_ret (Some r, False)))"

definition sub_columns :: "contract \<Rightarrow> contract \<Rightarrow> contract" where
  "sub_columns s r = s\<lparr>su_ID := su_ID r, su_ProjectID := su_ProjectID r,
     su_IdempotencyKey := su_IdempotencyKey r, su_CreatedAt := su_CreatedAt r\<rparr>"

definition sub_update :: "sub_env \<Rightarrow> contract \<Rightarrow> sub_status \<Rightarrow> unit stx" where
  "sub_update n s expect = sub_write n (\<lambda>db.
     let hit = (\<lambda>r. sub_key r = sub_key s \<and> su_Status r = expect);
         ss = map (\<lambda>r. if hit r then sub_columns s r else r) (st_subs db)
     in if \<not> list_ex hit (st_subs db) then Inl (PayStatus Aborted)
        else if subs_ok ss \<and> live_unique ss then Inr ((), db\<lparr>st_subs := ss\<rparr>) else Inl PayDB)"

definition sub_list_live :: "sub_env \<Rightarrow> string \<Rightarrow> string \<Rightarrow> string \<Rightarrow> contract list stx" where
  "sub_list_live n p u planID = sub_read n (\<lambda>db. sort_key su_CreatedAt
     (filter (\<lambda>s. su_ProjectID s = p \<and> su_UserID s = u \<and> su_PlanID s = planID \<and> live_sub s) (st_subs db)))"

definition sub_list_due :: "sub_env \<Rightarrow> string \<Rightarrow> gtime \<Rightarrow> int \<Rightarrow> contract list stx" where
  "sub_list_due n p now limit = (if limit \<le> 0 then tx_ret []
     else sub_read n (\<lambda>db. take (nat limit) (sort_key su_CurrentPeriodEnd (filter (\<lambda>s.
       su_ProjectID s = p \<and> su_Mode s = ModePlatform \<and> live_sub s \<and>
       (su_CurrentPeriodEnd s \<le> now \<or> su_Status s = StatusPastDue \<and>
         (case su_GraceUntil s of None \<Rightarrow> True | Some t \<Rightarrow> t \<le> now))) (st_subs db)))))"

definition sub_publish :: "sub_env \<Rightarrow> contract \<Rightarrow> sub_event_kind \<Rightarrow> gtime \<Rightarrow> unit stx" where
  "sub_publish n s kind now = (if \<not> sn_events n then tx_ret ()
     else tx_bind (sub_new_id n) (\<lambda>i. sub_write n (\<lambda>db. Inr ((), db\<lparr>st_outbox := st_outbox db @
       [\<lparr>se_EventID = i, se_Event = kind, se_ProjectID = su_ProjectID s,
         se_Channel = ''accounts.'' @ su_UserID s, se_CreatedAt = now, se_Version = su_UpdatedAt s,
         se_SubscriptionID = su_ID s, se_UserID = su_UserID s, se_PlanID = su_PlanID s,
         se_Mode = su_Mode s, se_Status = su_Status s\<rparr>]\<rparr>))))"

section \<open>Plans\<close>

definition sub_validate_code :: "string \<Rightarrow> sub_err pay_err + string" where
  "sub_validate_code code = (let c = to_lower (trim_space code)
     in if code_pattern c then Inr c else Inl (PayStatus InvalidArgument))"

record create_plan_command =
  cp_Code :: string
  cp_Name :: string
  cp_Amount :: int
  cp_Currency :: string
  cp_Interval :: sub_interval
  cp_IntervalDays :: int
  cp_GraceDays :: int
  cp_TrialDays :: int
  cp_Benefits :: benefits
  cp_StripePriceID :: string

record update_plan_command =
  up_PlanID :: string
  up_Name :: "string option"
  up_Amount :: "int option"
  up_Currency :: "string option"
  up_Interval :: "sub_interval option"
  up_IntervalDays :: "int option"
  up_GraceDays :: "int option"
  up_TrialDays :: "int option"
  up_Benefits :: "benefits option"
  up_StripePriceID :: "string option"
  up_Status :: "plan_status option"

definition map_sub_error :: "sub_err pay_err \<Rightarrow> sub_err pay_err" where
  "map_sub_error err = (case err of
     PayAsset ErrPlanNotFound \<Rightarrow> PayStatus NotFound
   | PayAsset ErrSubNotFound \<Rightarrow> PayStatus NotFound
   | PayAsset ErrPlanArchived \<Rightarrow> PayStatus FailedPrecondition
   | PayAsset ErrAlreadySubscribed \<Rightarrow> PayStatus FailedPrecondition
   | PayAsset ErrReplayTerminalSubscription \<Rightarrow> PayStatus FailedPrecondition
   | PayAsset ErrPlanDuplicateCode \<Rightarrow> PayStatus AlreadyExists
   | PayAsset ErrInvalidMode \<Rightarrow> PayStatus InvalidArgument
   | ErrInvalidTransition \<Rightarrow> PayStatus FailedPrecondition
   | PayAsset ErrHostedNotConfigured \<Rightarrow> PayStatus FailedPrecondition
   | _ \<Rightarrow> err)"

definition create_plan :: "sub_env \<Rightarrow> principal option \<Rightarrow> create_plan_command \<Rightarrow> plan stx" where
  "create_plan n pr cmd =
     tx_bind (tx_lift (require_server_principal pr)) (\<lambda>_.
     tx_bind (tx_lift (project_scope pr)) (\<lambda>p.
     tx_bind (tx_lift (sub_validate_code (cp_Code cmd))) (\<lambda>code.
     tx_when (trim_space (cp_Name cmd) = '''') (PayStatus InvalidArgument) (
     tx_when (\<not> currency_ok (cp_Currency cmd)) (PayStatus InvalidArgument) (
     tx_bind (sub_now n) (\<lambda>now.
     tx_bind (sub_new_id n) (\<lambda>i.
     let pl = \<lparr>pn_ID = i, pn_ProjectID = p, pn_Code = code, pn_Name = trim_space (cp_Name cmd),
           pn_Amount = cp_Amount cmd, pn_Currency = to_upper (cp_Currency cmd),
           pn_Interval = cp_Interval cmd, pn_IntervalDays = cp_IntervalDays cmd,
           pn_GraceDays = cp_GraceDays cmd, pn_TrialDays = cp_TrialDays cmd,
           pn_Benefits = cp_Benefits cmd, pn_StripePriceID = cp_StripePriceID cmd,
           pn_Status = PlanStatusActive, pn_CreatedAt = now, pn_UpdatedAt = now\<rparr>
     in tx_when (\<not> plan_validate pl) (PayStatus InvalidArgument) (
        tx_bind (tx_map_err map_sub_error (plan_insert n pl)) (\<lambda>_. tx_ret pl)))))))))"

definition get_plan :: "sub_env \<Rightarrow> principal option \<Rightarrow> string \<Rightarrow> plan stx" where
  "get_plan n pr i =
     tx_bind (tx_lift (project_scope pr)) (\<lambda>p.
     tx_when (i = '''') (PayStatus InvalidArgument) (
     tx_bind (plan_get n p i) (\<lambda>row. case row of None \<Rightarrow> tx_fail (PayStatus NotFound) | Some x \<Rightarrow> tx_ret x)))"

text \<open>A field that is not set keeps its value; every refusal is the same status.\<close>

definition keep_unset :: "'a option \<Rightarrow> 'a \<Rightarrow> 'a" where
  "keep_unset x d = (case x of None \<Rightarrow> d | Some v \<Rightarrow> v)"

definition patch_plan :: "update_plan_command \<Rightarrow> plan \<Rightarrow> sub_err pay_err + plan" where
  "patch_plan cmd p =
     (if (case up_Name cmd of None \<Rightarrow> False | Some nm \<Rightarrow> trim_space nm = '''') \<or>
         (case up_Currency cmd of None \<Rightarrow> False | Some c \<Rightarrow> \<not> currency_ok c) \<or>
         (case up_Status cmd of None \<Rightarrow> False | Some st \<Rightarrow> st \<notin> {PlanStatusActive, PlanStatusArchived})
      then Inl (PayStatus InvalidArgument) else
     let p' = p\<lparr>pn_Name := (case up_Name cmd of None \<Rightarrow> pn_Name p | Some nm \<Rightarrow> trim_space nm),
           pn_Amount := keep_unset (up_Amount cmd) (pn_Amount p),
           pn_Currency := (case up_Currency cmd of None \<Rightarrow> pn_Currency p | Some c \<Rightarrow> to_upper c),
           pn_Interval := keep_unset (up_Interval cmd) (pn_Interval p),
           pn_IntervalDays := keep_unset (up_IntervalDays cmd) (pn_IntervalDays p),
           pn_GraceDays := keep_unset (up_GraceDays cmd) (pn_GraceDays p),
           pn_TrialDays := keep_unset (up_TrialDays cmd) (pn_TrialDays p),
           pn_Benefits := keep_unset (up_Benefits cmd) (pn_Benefits p),
           pn_StripePriceID := keep_unset (up_StripePriceID cmd) (pn_StripePriceID p),
           pn_Status := keep_unset (up_Status cmd) (pn_Status p)\<rparr>
     in if plan_validate p' then Inr p' else Inl (PayStatus InvalidArgument))"

definition update_plan :: "sub_env \<Rightarrow> principal option \<Rightarrow> update_plan_command \<Rightarrow> plan stx" where
  "update_plan n pr cmd =
     tx_bind (tx_lift (require_server_principal pr)) (\<lambda>_.
     tx_bind (tx_lift (project_scope pr)) (\<lambda>p.
     tx_when (up_PlanID cmd = '''') (PayStatus InvalidArgument) (
     tx_bind (plan_get n p (up_PlanID cmd)) (\<lambda>row. case row of None \<Rightarrow> tx_fail (PayStatus NotFound)
     | Some old \<Rightarrow>
         tx_bind (tx_lift (patch_plan cmd old)) (\<lambda>new.
         tx_bind (sub_now n) (\<lambda>now.
         tx_bind (plan_update n (new\<lparr>pn_UpdatedAt := now\<rparr>)) (\<lambda>_. tx_ret (new\<lparr>pn_UpdatedAt := now\<rparr>))))))))"

definition delete_plan :: "sub_env \<Rightarrow> principal option \<Rightarrow> string \<Rightarrow> unit stx" where
  "delete_plan n pr i =
     tx_bind (tx_lift (require_server_principal pr)) (\<lambda>_.
     tx_bind (update_plan n pr \<lparr>up_PlanID = i, up_Name = None, up_Amount = None, up_Currency = None,
       up_Interval = None, up_IntervalDays = None, up_GraceDays = None, up_TrialDays = None,
       up_Benefits = None, up_StripePriceID = None, up_Status = Some PlanStatusArchived\<rparr>) (\<lambda>_. tx_ret ()))"

end
