(* ===== verification/Subscription_Service.thy ===== *)
theory Subscription_Service
  imports Subscriptions
begin

text \<open>
  The subscription service (\<^verbatim>\<open>internal/app/subscriptions\<close>): subscribing, cancelling, the billing
  cycle of platform subscriptions, the mirror of hosted ones, and the fulfilment of paid orders
  (\<^verbatim>\<open>fulfiller.go\<close> there and in \<^verbatim>\<open>internal/app/assets\<close>). It calls the asset system inside its
  own transactions and places orders with the payment system in transactions of their own.
\<close>

section \<open>The asset verbs inside a transaction\<close>

text \<open>\<^verbatim>\<open>uow.Runner.Run\<close> joins the transaction of the caller: no begin and no commit.\<close>

definition grant_in :: "asset_env \<Rightarrow> scope \<Rightarrow> grant_command \<Rightarrow> op_result atx" where
  "grant_in e sc cmd =
     tx_bind (tx_lift (require_scope sc)) (\<lambda>_.
     tx_bind (tx_lift (prepare_write (gc_OwnerType cmd) (gc_OwnerID cmd) (gc_IdempotencyKey cmd)))
       (\<lambda>(ot, key).
     tx_bind (tx_lift (validate_code (gc_DefCode cmd))) (\<lambda>code.
     grant_body e sc cmd ot key code)))"

definition consume_in :: "asset_env \<Rightarrow> scope \<Rightarrow> consume_command \<Rightarrow> op_result atx" where
  "consume_in e sc cmd =
     tx_bind (tx_lift (require_scope sc)) (\<lambda>_.
     tx_bind (tx_lift (prepare_write (cc_OwnerType cmd) (cc_OwnerID cmd) (cc_IdempotencyKey cmd)))
       (\<lambda>(ot, key).
     tx_bind (tx_lift (validate_code (cc_DefCode cmd))) (\<lambda>code.
     consume_body e sc cmd ot key code)))"

definition mutate_in :: "asset_env \<Rightarrow> scope \<Rightarrow> mutate_command \<Rightarrow> op_result atx" where
  "mutate_in e sc cmd =
     tx_bind (tx_lift (require_scope sc)) (\<lambda>_.
     tx_bind (tx_lift (validate_idempotency_key (mc_IdempotencyKey cmd))) (\<lambda>key.
     tx_when (mc_HoldingID cmd = '''') ErrHoldingIDRequired (
     mutate_body e sc cmd key)))"

definition sys_scope :: "sub_env \<Rightarrow> string \<Rightarrow> scope" where
  "sys_scope n p = \<lparr>sc_ProjectID = p, sc_Operator = sn_operator n\<rparr>"

definition sub_grant :: "sub_env \<Rightarrow> string \<Rightarrow> grant_command \<Rightarrow> op_result stx" where
  "sub_grant n p cmd = asset_step (grant_in (sn_assets n) (sys_scope n p) cmd)"

definition sub_consume :: "sub_env \<Rightarrow> string \<Rightarrow> consume_command \<Rightarrow> op_result stx" where
  "sub_consume n p cmd = asset_step (consume_in (sn_assets n) (sys_scope n p) cmd)"

section \<open>Benefits\<close>

text \<open>\<^verbatim>\<open>strconv.FormatInt\<close> of the seconds since 1970.\<close>

definition format_int :: "int \<Rightarrow> string" where
  "format_int i = (if i < 0 then ''-'' @ itoa (nat (- i)) else itoa (nat i))"

definition unix_key :: "gtime \<Rightarrow> string" where
  "unix_key t = format_int (t div sec)"

fun fulfill_grants :: "sub_env \<Rightarrow> contract \<Rightarrow> string \<Rightarrow> gtime \<Rightarrow> nat \<Rightarrow> benefit_grant list \<Rightarrow> unit stx" where
  "fulfill_grants n s periodKey now i [] = tx_ret ()"
| "fulfill_grants n s periodKey now i (g # gs) =
     tx_bind (sub_grant n (su_ProjectID s) \<lparr>gc_OwnerType = OwnerTypeUser, gc_OwnerID = su_UserID s,
       gc_DefCode = bg_AssetCode g, gc_Quantity = bg_Quantity g,
       gc_ExpiresAt = (case bg_ExpiresIn g of None \<Rightarrow> None
         | Some x \<Rightarrow> if 0 < x then Some (now + i64 (x * sec)) else None),
       gc_Level = 0, gc_Metadata = None,
       gc_IdempotencyKey = ''sub:'' @ su_ID s @ '':grant:'' @ periodKey @ '':'' @ itoa i,
       gc_RefType = ''subscription'', gc_RefID = su_ID s\<rparr>) (\<lambda>_.
     fulfill_grants n s periodKey now (Suc i) gs)"

definition entitlement_step ::
  "sub_env \<Rightarrow> contract \<Rightarrow> gtime \<Rightarrow> string \<Rightarrow> benefit_entitlement \<Rightarrow> unit stx" where
  "entitlement_step n s periodEnd key x =
     tx_bind (asset_step (live_holding (sn_assets n) (sys_scope n (su_ProjectID s)) (su_UserID s)
       (be_AssetCode x))) (\<lambda>h. case h of
       Some r \<Rightarrow> tx_bind (asset_step (mutate_in (sn_assets n) (sys_scope n (su_ProjectID s))
           \<lparr>mc_HoldingID = h_ID r, mc_Level = Some (be_Tier x), mc_ExpiresAt = Some periodEnd,
            mc_Metadata = None, mc_IdempotencyKey = key, mc_RefType = ''subscription'',
            mc_RefID = su_ID s\<rparr>)) (\<lambda>_. tx_ret ())
     | None \<Rightarrow> tx_bind (sub_grant n (su_ProjectID s) \<lparr>gc_OwnerType = OwnerTypeUser,
           gc_OwnerID = su_UserID s, gc_DefCode = be_AssetCode x, gc_Quantity = 1,
           gc_ExpiresAt = Some periodEnd, gc_Level = be_Tier x, gc_Metadata = None,
           gc_IdempotencyKey = key, gc_RefType = ''subscription'', gc_RefID = su_ID s\<rparr>) (\<lambda>_. tx_ret ()))"

fun fulfill_entitlements ::
  "sub_env \<Rightarrow> contract \<Rightarrow> gtime \<Rightarrow> string \<Rightarrow> nat \<Rightarrow> benefit_entitlement list \<Rightarrow> unit stx" where
  "fulfill_entitlements n s periodEnd periodKey i [] = tx_ret ()"
| "fulfill_entitlements n s periodEnd periodKey i (x # xs) =
     tx_bind (entitlement_step n s periodEnd
       (''sub:'' @ su_ID s @ '':ent:'' @ periodKey @ '':'' @ itoa i) x) (\<lambda>_.
     fulfill_entitlements n s periodEnd periodKey (Suc i) xs)"

definition fulfill_benefits :: "sub_env \<Rightarrow> contract \<Rightarrow> gtime \<Rightarrow> unit stx" where
  "fulfill_benefits n s periodEnd = (let periodKey = unix_key (su_CurrentPeriodStart s) in
     tx_bind (sub_now n) (\<lambda>now.
     tx_bind (fulfill_grants n s periodKey now 0 (bn_Grants (su_Benefits s))) (\<lambda>_.
     fulfill_entitlements n s periodEnd periodKey 0 (bn_Entitlements (su_Benefits s)))))"

section \<open>Moves of a contract\<close>

definition sub_terminal :: "sub_env \<Rightarrow> contract \<Rightarrow> sub_status \<Rightarrow> sub_event_kind \<Rightarrow> gtime \<Rightarrow> unit stx" where
  "sub_terminal n s to event now = (case sub_transition s to now of None \<Rightarrow> tx_fail ErrInvalidTransition
   | Some s1 \<Rightarrow> let s2 = s1\<lparr>su_CancelAtPeriodEnd := False\<rparr> in
       tx_bind (sub_update n s2 (su_Status s)) (\<lambda>_. sub_publish n s2 event now))"

definition mark_past_due :: "sub_env \<Rightarrow> contract \<Rightarrow> plan \<Rightarrow> gtime \<Rightarrow> unit stx" where
  "mark_past_due n s pl now =
     (if su_Status s = StatusPastDue then tx_ret ()
      else (case sub_transition s StatusPastDue now of None \<Rightarrow> tx_fail ErrInvalidTransition
        | Some s1 \<Rightarrow> let s2 = s1\<lparr>su_GraceUntil := Some (compute_grace_until now (pn_GraceDays pl))\<rparr> in
            tx_bind (sub_update n s2 (su_Status s)) (\<lambda>_. sub_publish n s2 EventPastDue now)))"

text \<open>The period a successful charge opens.\<close>

definition next_period :: "contract \<Rightarrow> plan \<Rightarrow> gtime \<Rightarrow> (gtime \<times> gtime) option" where
  "next_period s pl now =
     (let start = (if now < su_CurrentPeriodEnd s then su_CurrentPeriodEnd s else now)
      in map_option (\<lambda>end. (start, end)) (next_period_end start (pn_Interval pl) (pn_IntervalDays pl)))"

definition apply_success :: "sub_env \<Rightarrow> contract \<Rightarrow> plan \<Rightarrow> gtime \<Rightarrow> unit stx" where
  "apply_success n s pl now = (case next_period s pl now of
     None \<Rightarrow> tx_fail (PayStatus InvalidArgument)
   | Some (start, end) \<Rightarrow> (case sub_transition s StatusActive now of None \<Rightarrow> tx_fail ErrInvalidTransition
     | Some s1 \<Rightarrow>
         let s2 = s1\<lparr>su_CurrentPeriodStart := start, su_CurrentPeriodEnd := end, su_GraceUntil := None\<rparr> in
         tx_bind (fulfill_benefits n s2 end) (\<lambda>_.
         tx_bind (sub_update n s2 (su_Status s)) (\<lambda>_.
         sub_publish n s2 (if su_Status s = StatusTrialing then EventActivated else EventRenewed) now))))"

section \<open>Fulfilling paid orders\<close>

text \<open>
  \<^verbatim>\<open>json.Unmarshal\<close> into a struct: every field of the object whose name is the struct's up to
  case is assigned, in order; null leaves the field, another type is an error.
\<close>

fun json_string :: "string \<Rightarrow> json_object \<Rightarrow> string \<Rightarrow> string option" where
  "json_string name [] acc = Some acc"
| "json_string name ((k, v) # fs) acc =
     (if to_lower k \<noteq> name then json_string name fs acc
      else (case v of JString x \<Rightarrow> json_string name fs x | JNull \<Rightarrow> json_string name fs acc | _ \<Rightarrow> None))"

fun json_int :: "string \<Rightarrow> json_object \<Rightarrow> int \<Rightarrow> int option" where
  "json_int name [] acc = Some acc"
| "json_int name ((k, v) # fs) acc =
     (if to_lower k \<noteq> name then json_int name fs acc
      else (case v of JInt x \<Rightarrow> if is_i64 x then json_int name fs x else None
        | JNull \<Rightarrow> json_int name fs acc | _ \<Rightarrow> None))"

definition parse_purpose :: "json_object \<Rightarrow> bool \<Rightarrow> sub_err pay_err + string \<times> int" where
  "parse_purpose raw topup =
     (case (json_string (if topup then ''currency_code'' else ''asset_code'') raw '''',
            json_int (if topup then ''amount'' else ''quantity'') raw 0) of
       (Some code, Some qty) \<Rightarrow> if code = '''' \<or> qty \<le> 0 then Inl (PayStatus InvalidArgument) else Inr (code, qty)
     | _ \<Rightarrow> Inl (PayStatus InvalidArgument))"

definition purpose_json :: "string \<Rightarrow> string \<Rightarrow> string \<Rightarrow> json_object" where
  "purpose_json subID planCode cycle =
     [(''cycle'', JString cycle), (''plan_code'', JString planCode), (''subscription_id'', JString subID)]"

definition parse_subscription_purpose :: "json_object \<Rightarrow> sub_err pay_err + string" where
  "parse_subscription_purpose raw =
     (case (json_string ''subscription_id'' raw '''', json_string ''plan_code'' raw '''',
            json_string ''cycle'' raw '''') of
       (Some subID, Some _, Some _) \<Rightarrow> if subID = '''' then Inl (PayStatus InvalidArgument) else Inr subID
     | _ \<Rightarrow> Inl (PayStatus InvalidArgument))"

definition grant_from_purpose :: "sub_env \<Rightarrow> pay_order \<Rightarrow> bool \<Rightarrow> string stx" where
  "grant_from_purpose n o1 topup =
     tx_bind (tx_lift (parse_purpose (po_Purpose o1) topup)) (\<lambda>(code, qty).
     tx_bind (sub_grant n (po_ProjectID o1) \<lparr>gc_OwnerType = OwnerTypeUser, gc_OwnerID = po_UserID o1,
       gc_DefCode = code, gc_Quantity = (if topup then po_Amount o1 else qty), gc_ExpiresAt = None,
       gc_Level = 0, gc_Metadata = None, gc_IdempotencyKey = ''fulfill:'' @ po_ID o1,
       gc_RefType = ''order'', gc_RefID = po_ID o1\<rparr>) (\<lambda>r.
     tx_ret (case r_Entries r of [] \<Rightarrow> ''order:'' @ po_ID o1 | x # _ \<Rightarrow> e_ID x)))"

definition items_fulfill :: "sub_env \<Rightarrow> pay_order \<Rightarrow> string stx" where
  "items_fulfill n o1 = (case po_PurposeKind o1 of
     PurposeTopup \<Rightarrow> grant_from_purpose n o1 True
   | PurposeItemPurchase \<Rightarrow> grant_from_purpose n o1 False
   | PurposeSubscription \<Rightarrow> tx_fail (PayStatus Unimplemented)
   | PurposeOther _ \<Rightarrow> tx_fail (PayStatus FailedPrecondition))"

definition reverse_terms :: "pay_order \<Rightarrow> sub_err pay_err + (string \<times> int) option" where
  "reverse_terms o1 = (case po_PurposeKind o1 of
     PurposeTopup \<Rightarrow> (case parse_purpose (po_Purpose o1) True of Inl err \<Rightarrow> Inl err
       | Inr (code, _) \<Rightarrow> Inr (Some (code, po_Amount o1)))
   | PurposeItemPurchase \<Rightarrow> (case parse_purpose (po_Purpose o1) False of Inl err \<Rightarrow> Inl err
       | Inr (code, qty) \<Rightarrow> Inr (Some (code, qty)))
   | PurposeSubscription \<Rightarrow> Inr None
   | PurposeOther _ \<Rightarrow> Inl (PayStatus FailedPrecondition))"

definition items_reverse :: "sub_env \<Rightarrow> pay_order \<Rightarrow> unit stx" where
  "items_reverse n o1 = tx_bind (tx_lift (reverse_terms o1)) (\<lambda>terms. case terms of None \<Rightarrow> tx_ret ()
     | Some (code, qty) \<Rightarrow>
         tx_when (code = '''' \<or> qty \<le> 0) (PayStatus InvalidArgument) (
         tx_bind (sub_consume n (po_ProjectID o1) \<lparr>cc_OwnerType = OwnerTypeUser,
           cc_OwnerID = po_UserID o1, cc_DefCode = code, cc_Quantity = qty,
           cc_IdempotencyKey = ''reverse:'' @ po_ID o1, cc_RefType = ''order'',
           cc_RefID = po_ID o1\<rparr>) (\<lambda>_. tx_ret ())))"

definition fulfill_paid_order :: "sub_env \<Rightarrow> pay_order \<Rightarrow> string stx" where
  "fulfill_paid_order n o1 =
     tx_bind (tx_lift (parse_subscription_purpose (po_Purpose o1))) (\<lambda>subID.
     tx_bind (sub_get n (po_ProjectID o1) subID) (\<lambda>row. case row of
       None \<Rightarrow> tx_fail (PayStatus NotFound)
     | Some s \<Rightarrow>
     tx_when (su_UserID s \<noteq> po_UserID o1) (PayStatus FailedPrecondition) (
     if sub_is_terminal (su_Status s) then tx_ret (''subscription:'' @ su_ID s)
     else
     tx_bind (plan_get n (su_ProjectID s) (su_PlanID s)) (\<lambda>prow. case prow of
       None \<Rightarrow> tx_fail (PayStatus NotFound)
     | Some pl \<Rightarrow>
     tx_bind (sub_now n) (\<lambda>now.
     if su_Status s = StatusActive \<and> \<not> period_due s now then tx_ret (''subscription:'' @ su_ID s)
     else tx_bind (apply_success n s pl now) (\<lambda>_. tx_ret (''subscription:'' @ su_ID s)))))))"

definition composite_fulfill :: "sub_env \<Rightarrow> pay_order \<Rightarrow> string stx" where
  "composite_fulfill n o1 =
     (if po_PurposeKind o1 = PurposeSubscription then fulfill_paid_order n o1 else items_fulfill n o1)"

definition composite_reverse :: "sub_env \<Rightarrow> pay_order \<Rightarrow> unit stx" where
  "composite_reverse n o1 =
     (if po_PurposeKind o1 = PurposeSubscription then tx_ret () else items_reverse n o1)"

section \<open>Orders for a billing cycle\<close>

type_synonym 'a btx = "(sub_world, sub_err, 'a) ptx"

definition max_billing_order_attempts :: nat where "max_billing_order_attempts = 5"
definition billing_batch :: int where "billing_batch = 100"

text \<open>
  A transaction of this service. What it writes is the state of subscriptions and assets; orders
  and their index are written by transactions of their own, on another connection, and stay when
  this one is rolled back.
\<close>

definition own_run :: "(sub_world, sub_err) pay_env \<Rightarrow> 'a btx \<Rightarrow> 'a btx" where
  "own_run e m = (\<lambda>w.
     let w0 = w\<lparr>pw_ops := Suc (pw_ops w)\<rparr>;
         undo = (\<lambda>w'. w'\<lparr>pw_ext := pe_undo e (pw_ext w) (pw_ext w')\<rparr>)
     in if pe_fails e (pw_ops w) then (Inl PayDB, w0)
        else (case m w0 of
            (Inl err, w') \<Rightarrow> (Inl err, undo w')
          | (Inr a, w') \<Rightarrow>
              if pe_fails e (pw_ops w') then (Inl PayDB, undo (w'\<lparr>pw_ops := Suc (pw_ops w')\<rparr>))
              else (Inr a, w'\<lparr>pw_ops := Suc (pw_ops w')\<rparr>)))"

datatype billing_order = NewOrder pay_order | OpenOrder pay_order

definition billing_key :: "string \<Rightarrow> nat \<Rightarrow> string" where
  "billing_key base attempt = (if 0 < attempt then base @ ''#'' @ itoa (attempt + 1) else base)"

fun billing_attempts :: "(sub_world, sub_err) pay_env \<Rightarrow> string \<Rightarrow> contract \<Rightarrow> plan \<Rightarrow> string \<Rightarrow>
    gtime \<Rightarrow> nat list \<Rightarrow> billing_order btx" where
  "billing_attempts e provider s pl cycle now [] = tx_fail ErrBillingOrderExhausted"
| "billing_attempts e provider s pl cycle now (attempt # rest) =
     tx_bind (new_created_order e \<lparr>cs_ProjectID = su_ProjectID s, cs_UserID = su_UserID s,
       cs_Provider = provider, cs_Amount = pn_Amount pl, cs_Currency = pn_Currency pl,
       cs_PurposeKind = PurposeSubscription, cs_Purpose = purpose_json (su_ID s) (pn_Code pl) cycle,
       cs_IdempotencyKey = billing_key (''sub:'' @ su_ID s @ '':'' @ cycle) attempt,
       cs_ExpiresIn = 0, cs_Now = Some now\<rparr>) (\<lambda>candidate.
     tx_bind (pay_run e (insert_created_order e candidate)) (\<lambda>(existing, inserted). case existing of
         None \<Rightarrow> tx_ret (NewOrder candidate)
       | Some r \<Rightarrow>
           if po_Status r = OrderStatusCreated then tx_ret (NewOrder r)
           else if order_is_terminal (po_Status r) then billing_attempts e provider s pl cycle now rest
           else tx_ret (OpenOrder r)))"

definition create_billing_order :: "(sub_world, sub_err) pay_env \<Rightarrow> sub_env \<Rightarrow> contract \<Rightarrow> plan \<Rightarrow>
    string \<Rightarrow> (pay_order \<times> string) btx" where
  "create_billing_order e n s pl cycle = (case pe_providers e provider_stripe of
     None \<Rightarrow> tx_fail (PayStatus FailedPrecondition)
   | Some pv \<Rightarrow>
     tx_bind (ext_step (sub_now n)) (\<lambda>now.
     tx_bind (billing_attempts e (pv_Name pv) s pl cycle now [0..<max_billing_order_attempts]) (\<lambda>b. case b of
       OpenOrder r \<Rightarrow> tx_ret (r, '''')
     | NewOrder o1 \<Rightarrow>
         tx_bind (ask_provider (\<lambda>k. pv_CreatePayment pv k o1)) (\<lambda>session.
         tx_bind (pay_run e (attach_session e o1 session (Some now))) (\<lambda>locked.
         tx_ret (locked, ps_PaymentURL session))))))"

section \<open>The billing cycle\<close>

definition try_charge :: "(sub_world, sub_err) pay_env \<Rightarrow> sub_env \<Rightarrow> contract \<Rightarrow> plan \<Rightarrow> unit btx" where
  "try_charge e n s pl =
     (if pn_Amount pl = 0 then tx_ret ()
      else if su_BillingAssetCode s = '''' then
        tx_bind (create_billing_order e n s pl (unix_key (su_CurrentPeriodEnd s))) (\<lambda>_. tx_ret ())
      else tx_bind (ext_step (sub_consume n (su_ProjectID s) \<lparr>cc_OwnerType = OwnerTypeUser,
          cc_OwnerID = su_UserID s, cc_DefCode = su_BillingAssetCode s, cc_Quantity = pn_Amount pl,
          cc_IdempotencyKey = ''sub:'' @ su_ID s @ '':bill:'' @ unix_key (su_CurrentPeriodEnd s),
          cc_RefType = ''subscription'', cc_RefID = su_ID s\<rparr>)) (\<lambda>_. tx_ret ()))"

definition is_insufficient :: "sub_err pay_err \<Rightarrow> bool" where
  "is_insufficient err \<longleftrightarrow> err = PayAsset (SubAsset ErrInsufficient)"

definition bill_or_past_due ::
  "(sub_world, sub_err) pay_env \<Rightarrow> sub_env \<Rightarrow> contract \<Rightarrow> plan \<Rightarrow> gtime \<Rightarrow> unit btx" where
  "bill_or_past_due e n s pl now = tx_bind (tx_try (try_charge e n s pl)) (\<lambda>r. case r of
       Inl err \<Rightarrow> if is_insufficient err \<or> err = ErrBillingOrderExhausted
         then ext_step (mark_past_due n s pl now) else tx_fail err
     | Inr _ \<Rightarrow> if su_BillingAssetCode s = '''' \<and> pn_Amount pl \<noteq> 0 then tx_ret ()
         else ext_step (apply_success n s pl now))"

definition process_due_body ::
  "(sub_world, sub_err) pay_env \<Rightarrow> sub_env \<Rightarrow> contract \<Rightarrow> gtime \<Rightarrow> unit btx" where
  "process_due_body e n seed now =
     tx_bind (ext_step (sub_get n (su_ProjectID seed) (su_ID seed))) (\<lambda>row. case row of None \<Rightarrow> tx_ret ()
     | Some s \<Rightarrow>
     if su_Mode s \<noteq> ModePlatform then tx_ret ()
     else tx_bind (ext_step (plan_get n (su_ProjectID s) (su_PlanID s))) (\<lambda>prow. case prow of
         None \<Rightarrow> tx_fail (PayAsset ErrPlanNotFound)
       | Some pl \<Rightarrow>
           if su_CancelAtPeriodEnd s \<and> period_due s now \<and> \<not> sub_is_terminal (su_Status s)
           then ext_step (sub_terminal n s StatusCanceled EventCanceled now)
           else if su_Status s = StatusPastDue \<and> grace_elapsed s now
           then ext_step (sub_terminal n s StatusExpired EventExpired now)
           else if \<not> period_due s now \<and> su_Status s \<noteq> StatusPastDue then tx_ret ()
           else bill_or_past_due e n s pl now))"

definition process_due ::
  "(sub_world, sub_err) pay_env \<Rightarrow> sub_env \<Rightarrow> contract \<Rightarrow> gtime \<Rightarrow> unit btx" where
  "process_due e n seed now = own_run e (process_due_body e n seed now)"

text \<open>The rows of one project: a row that fails is logged and uses nothing of the budget.\<close>

fun bill_rows :: "(sub_world, sub_err) pay_env \<Rightarrow> sub_env \<Rightarrow> gtime \<Rightarrow> contract list \<Rightarrow> int \<Rightarrow> int \<Rightarrow>
    sub_world pay_world \<Rightarrow> int \<times> sub_world pay_world" where
  "bill_rows e n now [] remaining billed w = (billed, w)"
| "bill_rows e n now (s # ss) remaining billed w =
     (case process_due e n s now w of
       (Inl _, w') \<Rightarrow> bill_rows e n now ss remaining billed w'
     | (Inr _, w') \<Rightarrow> if remaining - 1 \<le> 0 then (billed + 1, w')
         else bill_rows e n now ss (remaining - 1) (billed + 1) w')"

definition bill_work :: "(sub_world, sub_err) pay_env \<Rightarrow> sub_env \<Rightarrow> string list \<Rightarrow> gtime \<Rightarrow> nat \<Rightarrow> int \<Rightarrow>
    int \<times> sub_world pay_world \<Rightarrow> int \<times> (int \<times> sub_world pay_world)" where
  "bill_work e n projects now idx remaining s =
     (case ext_step (sub_list_due n (projects ! idx) now remaining) (snd s) of
       (Inl _, w) \<Rightarrow> (0, (fst s, w))
     | (Inr batch, w) \<Rightarrow> (case bill_rows e n now batch remaining 0 w of
         (billed, w') \<Rightarrow> (billed, (fst s + billed, w'))))"

definition run_billing_cycle :: "(sub_world, sub_err) pay_env \<Rightarrow> sub_env \<Rightarrow> string list \<Rightarrow> (nat \<Rightarrow> bool) \<Rightarrow>
    gtime \<Rightarrow> int \<times> sub_world pay_world \<Rightarrow> int \<times> (int \<times> sub_world pay_world)" where
  "run_billing_cycle e n projects active now st =
     rotation_round (bill_work e n projects now) active (length projects) billing_batch
       (fst st, (0, snd st))"

section \<open>Subscribing\<close>

record subscribe_command =
  sc_PlanCode :: string
  sc_Mode :: sub_mode
  sc_IdempotencyKey :: string
  sc_BillingAssetCode :: string

record subscribe_result =
  sr_Subscription :: contract
  sr_PaymentURL :: string
  sr_OrderID :: string
  sr_IdempotentReplay :: bool

definition sub_validate_idempotency :: "string \<Rightarrow> sub_err pay_err + string" where
  "sub_validate_idempotency key = (let k = trim_space key in
     if k = '''' then Inl (PayStatus InvalidArgument)
     else if 128 < length k then Inl (PayStatus InvalidArgument) else Inr k)"

text \<open>The contract a command asks for, from the plan as it is then.\<close>

definition new_contract :: "string \<Rightarrow> string \<Rightarrow> string \<Rightarrow> string \<Rightarrow> subscribe_command \<Rightarrow> plan \<Rightarrow> gtime \<Rightarrow>
    gtime \<Rightarrow> contract" where
  "new_contract i p u key cmd pl now intervalEnd =
     (let trial = 0 < pn_TrialDays pl in
      \<lparr>su_ID = i, su_ProjectID = p, su_UserID = u, su_PlanID = pn_ID pl, su_Mode = sc_Mode cmd,
       su_Provider = (if sc_Mode cmd = ModeHosted then provider_stripe else ''''), su_ProviderSubID = '''',
       su_Status = (if trial \<or> sc_Mode cmd = ModeHosted then StatusTrialing else StatusActive),
       su_CurrentPeriodStart = now,
       su_CurrentPeriodEnd = (if trial then now + days_duration (pn_TrialDays pl) else intervalEnd),
       su_CancelAtPeriodEnd = False, su_GraceUntil = None,
       su_BillingAssetCode = trim_space (sc_BillingAssetCode cmd), su_Benefits = pn_Benefits pl,
       su_IdempotencyKey = key, su_CreatedAt = now, su_UpdatedAt = now\<rparr>)"

definition start_hosted :: "(sub_world, sub_err) pay_env \<Rightarrow> sub_env \<Rightarrow> contract \<Rightarrow> plan \<Rightarrow>
    (contract \<times> string \<times> string) btx" where
  "start_hosted e n s pl = (case sn_hosted n of None \<Rightarrow> tx_fail (PayAsset ErrHostedNotConfigured)
   | Some hb \<Rightarrow>
       tx_when (pn_StripePriceID pl = '''') (PayStatus FailedPrecondition) (
       tx_bind (tx_lift (hb_CreateCheckout hb s (pn_StripePriceID pl))) (\<lambda>url.
       tx_bind (upsert_provider_index e (su_Provider s) kind_subscription (su_ID s) (su_ProjectID s)) (\<lambda>_.
       tx_ret (s, url, '''')))))"

definition grant_and_announce :: "sub_env \<Rightarrow> contract \<Rightarrow> gtime \<Rightarrow> (contract \<times> string \<times> string) btx" where
  "grant_and_announce n s now =
     tx_bind (ext_step (fulfill_benefits n s (su_CurrentPeriodEnd s))) (\<lambda>_.
     tx_bind (ext_step (sub_publish n s EventActivated now)) (\<lambda>_. tx_ret (s, '''', '''')))"

definition start_platform :: "(sub_world, sub_err) pay_env \<Rightarrow> sub_env \<Rightarrow> contract \<Rightarrow> plan \<Rightarrow> gtime \<Rightarrow>
    (contract \<times> string \<times> string) btx" where
  "start_platform e n s pl now =
     (if su_Status s = StatusTrialing then grant_and_announce n s now
      else if pn_Amount pl = 0 then grant_and_announce n s now
      else if su_BillingAssetCode s \<noteq> '''' then
        tx_bind (ext_step (sub_consume n (su_ProjectID s) \<lparr>cc_OwnerType = OwnerTypeUser,
          cc_OwnerID = su_UserID s, cc_DefCode = su_BillingAssetCode s, cc_Quantity = pn_Amount pl,
          cc_IdempotencyKey = ''sub:'' @ su_ID s @ '':activate'', cc_RefType = ''subscription'',
          cc_RefID = su_ID s\<rparr>)) (\<lambda>_. grant_and_announce n s now)
      else
        let s1 = s\<lparr>su_Status := StatusTrialing, su_UpdatedAt := now\<rparr> in
        tx_bind (ext_step (sub_update n s1 (su_Status s))) (\<lambda>_.
        tx_bind (create_billing_order e n s1 pl ''activate'') (\<lambda>(o1, url). tx_ret (s1, url, po_ID o1))))"

definition subscribe_body :: "(sub_world, sub_err) pay_env \<Rightarrow> sub_env \<Rightarrow> contract \<Rightarrow> plan \<Rightarrow> gtime \<Rightarrow>
    subscribe_result btx" where
  "subscribe_body e n s pl now =
     tx_bind (ext_step (sub_insert n s)) (\<lambda>(existing, inserted). case existing of
       Some r \<Rightarrow>
         if sub_is_terminal (su_Status r) then tx_fail (PayAsset ErrReplayTerminalSubscription)
         else tx_ret \<lparr>sr_Subscription = r, sr_PaymentURL = '''', sr_OrderID = '''', sr_IdempotentReplay = True\<rparr>
     | None \<Rightarrow>
         tx_bind (ext_step (sub_list_live n (su_ProjectID s) (su_UserID s) (pn_ID pl))) (\<lambda>live.
         tx_when (list_ex (\<lambda>r. su_ID r \<noteq> su_ID s) live) (PayAsset ErrAlreadySubscribed) (
         tx_bind (case su_Mode s of
             ModeHosted \<Rightarrow> start_hosted e n s pl
           | ModePlatform \<Rightarrow> start_platform e n s pl now
           | ModeOther _ \<Rightarrow> tx_fail (PayAsset ErrInvalidMode)) (\<lambda>(s', url, orderID).
         tx_ret \<lparr>sr_Subscription = s', sr_PaymentURL = url, sr_OrderID = orderID,
           sr_IdempotentReplay = False\<rparr>))))"

definition subscribe :: "(sub_world, sub_err) pay_env \<Rightarrow> sub_env \<Rightarrow> principal option \<Rightarrow> subscribe_command \<Rightarrow>
    subscribe_result btx" where
  "subscribe e n pr cmd = tx_map_err map_sub_error (
     tx_bind (tx_lift (end_user pr)) (\<lambda>(p, u).
     tx_when (\<not> mode_is_valid (sc_Mode cmd)) (PayStatus InvalidArgument) (
     tx_bind (tx_lift (sub_validate_idempotency (sc_IdempotencyKey cmd))) (\<lambda>key.
     tx_bind (tx_lift (sub_validate_code (sc_PlanCode cmd))) (\<lambda>code.
     tx_bind (ext_step (plan_get_by_code n p code)) (\<lambda>prow. case prow of
       None \<Rightarrow> tx_fail (PayStatus NotFound)
     | Some pl \<Rightarrow>
     tx_when (pn_Status pl \<noteq> PlanStatusActive) (PayStatus FailedPrecondition) (
     tx_bind (ext_step (sub_now n)) (\<lambda>now.
     case next_period_end now (pn_Interval pl) (pn_IntervalDays pl) of
       None \<Rightarrow> tx_fail (PayStatus InvalidArgument)
     | Some intervalEnd \<Rightarrow>
     tx_bind (ext_step (sub_new_id n)) (\<lambda>i.
       let s = new_contract i p u key cmd pl now intervalEnd in
       if sc_Mode cmd = ModeHosted then pay_run e (subscribe_body e n s pl now)
       else own_run e (subscribe_body e n s pl now))))))))))"

section \<open>Cancelling\<close>

definition cancel_at_period_end_body :: "sub_env \<Rightarrow> string \<Rightarrow> string \<Rightarrow> string \<Rightarrow> gtime \<Rightarrow> contract stx" where
  "cancel_at_period_end_body n p u i now = tx_bind (sub_get n p i) (\<lambda>row. case row of
       None \<Rightarrow> tx_fail (PayAsset ErrSubNotFound)
     | Some s \<Rightarrow>
         if su_UserID s \<noteq> u then tx_fail (PayAsset ErrSubNotFound)
         else if sub_is_terminal (su_Status s) \<or> su_CancelAtPeriodEnd s then tx_ret s
         else let s1 = s\<lparr>su_CancelAtPeriodEnd := True, su_UpdatedAt := now\<rparr> in
           tx_bind (case sn_hosted n of
               Some hb \<Rightarrow> if su_Mode s = ModeHosted \<and> su_ProviderSubID s \<noteq> ''''
                 then tx_lift (hb_CancelAtPeriodEnd hb (su_ProviderSubID s)) else tx_ret ()
             | None \<Rightarrow> tx_ret ()) (\<lambda>_.
           tx_bind (sub_update n s1 (su_Status s)) (\<lambda>_. tx_ret s1)))"

definition cancel_at_period_end ::
  "(sub_world, sub_err) pay_env \<Rightarrow> sub_env \<Rightarrow> principal option \<Rightarrow> string \<Rightarrow> contract btx" where
  "cancel_at_period_end e n pr i = tx_map_err map_sub_error (
     tx_bind (tx_lift (end_user pr)) (\<lambda>(p, u).
     tx_when (i = '''') (PayStatus InvalidArgument) (
     tx_bind (ext_step (sub_now n)) (\<lambda>now.
     own_run e (ext_step (cancel_at_period_end_body n p u i now))))))"

definition force_terminal_body ::
  "sub_env \<Rightarrow> string \<Rightarrow> string \<Rightarrow> sub_status \<Rightarrow> sub_event_kind \<Rightarrow> gtime \<Rightarrow> contract stx" where
  "force_terminal_body n p i to event now = tx_bind (sub_get n p i) (\<lambda>row. case row of
       None \<Rightarrow> tx_fail (PayAsset ErrSubNotFound)
     | Some s \<Rightarrow>
         if su_Status s = to then tx_ret s
         else (case sub_transition s to now of None \<Rightarrow> tx_fail ErrInvalidTransition
           | Some s1 \<Rightarrow> let s2 = s1\<lparr>su_CancelAtPeriodEnd := False\<rparr> in
               tx_bind (case sn_hosted n of
                   Some hb \<Rightarrow> if to = StatusCanceled \<and> su_Mode s = ModeHosted \<and> su_ProviderSubID s \<noteq> ''''
                     then tx_lift (hb_CancelNow hb (su_ProviderSubID s)) else tx_ret ()
                 | None \<Rightarrow> tx_ret ()) (\<lambda>_.
               tx_bind (sub_update n s2 (su_Status s)) (\<lambda>_.
               tx_bind (sub_publish n s2 event now) (\<lambda>_. tx_ret s2)))))"

definition force_terminal :: "(sub_world, sub_err) pay_env \<Rightarrow> sub_env \<Rightarrow> principal option \<Rightarrow> string \<Rightarrow>
    sub_status \<Rightarrow> sub_event_kind \<Rightarrow> contract btx" where
  "force_terminal e n pr i to event = tx_map_err map_sub_error (
     tx_bind (tx_lift (require_server_principal pr)) (\<lambda>_.
     tx_bind (tx_lift (project_scope pr)) (\<lambda>p.
     tx_when (i = '''') (PayStatus InvalidArgument) (
     tx_bind (ext_step (sub_now n)) (\<lambda>now.
     own_run e (ext_step (force_terminal_body n p i to event now)))))))"

section \<open>Hosted subscriptions\<close>

definition locate_hosted :: "(sub_world, sub_err) pay_env \<Rightarrow> sub_env \<Rightarrow> callback_event \<Rightarrow> contract option btx" where
  "locate_hosted e n ev =
     tx_bind (if cb_MetadataProjectID ev \<noteq> '''' then tx_ret (cb_MetadataProjectID ev)
        else tx_bind (index_lookup e (cb_Provider ev) kind_subscription (cb_LocalSubscriptionID ev)) (\<lambda>p.
          if p \<noteq> '''' then tx_ret p
          else index_lookup e (cb_Provider ev) kind_subscription (cb_ProviderSubID ev))) (\<lambda>p.
     if p = '''' then tx_ret None
     else tx_or_else (if cb_LocalSubscriptionID ev = '''' then tx_ret None
            else ext_step (sub_get n p (cb_LocalSubscriptionID ev)))
          (if cb_ProviderSubID ev = '''' then tx_ret None
            else ext_step (sub_get_by_provider n p (cb_Provider ev) (cb_ProviderSubID ev))))"

definition apply_hosted_paid :: "sub_env \<Rightarrow> contract \<Rightarrow> plan \<Rightarrow> callback_event \<Rightarrow> gtime \<Rightarrow> unit stx" where
  "apply_hosted_paid n s pl ev now =
     (if sub_is_terminal (su_Status s) then tx_ret ()
      else (case sub_transition s StatusActive now of None \<Rightarrow> tx_fail ErrInvalidTransition
        | Some s1 \<Rightarrow>
            (case (if su_CurrentPeriodEnd s1 \<noteq> zero_time then Some s1
                else map_option (\<lambda>t. s1\<lparr>su_CurrentPeriodStart := now, su_CurrentPeriodEnd := t\<rparr>)
                  (next_period_end now (pn_Interval pl) (pn_IntervalDays pl))) of
              None \<Rightarrow> tx_fail (PayStatus InvalidArgument)
            | Some s2 \<Rightarrow>
                let s3 = s2\<lparr>su_GraceUntil := None\<rparr> in
                tx_bind (fulfill_benefits n s3 (su_CurrentPeriodEnd s3)) (\<lambda>_.
                tx_bind (sub_update n s3 (su_Status s)) (\<lambda>_.
                sub_publish n s3 (if su_Status s = StatusTrialing \<or> cb_Type ev = CallbackSubscriptionActivated
                  then EventActivated else EventRenewed) now)))))"

definition apply_hosted_updated :: "sub_env \<Rightarrow> contract \<Rightarrow> plan \<Rightarrow> callback_event \<Rightarrow> gtime \<Rightarrow> unit stx" where
  "apply_hosted_updated n s pl ev now =
     (let fallback = (if su_ProviderSubID s \<noteq> '''' then sub_update n s (su_Status s) else tx_ret ());
          st = cb_HostedStatus ev
      in if st = ''active'' then
           (if su_Status s = StatusActive then sub_update n s (su_Status s)
            else if su_Status s = StatusTrialing \<or> su_Status s = StatusPastDue
            then apply_hosted_paid n s pl ev now else fallback)
         else if st = ''trialing'' then
           (if su_Status s = StatusTrialing then sub_update n s (su_Status s) else fallback)
         else if st = ''past_due'' \<or> st = ''unpaid'' then mark_past_due n s pl now
         else if st = ''canceled'' then sub_terminal n s StatusCanceled EventCanceled now
         else if st = ''incomplete_expired'' then sub_terminal n s StatusExpired EventExpired now
         else fallback)"

text \<open>The contract as the event shows it.\<close>

definition mirror :: "contract \<Rightarrow> callback_event \<Rightarrow> contract" where
  "mirror s ev =
     (let s1 = (if cb_ProviderSubID ev \<noteq> '''' \<and> su_ProviderSubID s = ''''
            then s\<lparr>su_ProviderSubID := cb_ProviderSubID ev, su_Provider := cb_Provider ev\<rparr> else s)
      in s1\<lparr>su_CurrentPeriodStart := keep_unset (cb_PeriodStart ev) (su_CurrentPeriodStart s1),
           su_CurrentPeriodEnd := keep_unset (cb_PeriodEnd ev) (su_CurrentPeriodEnd s1),
           su_CancelAtPeriodEnd := cb_CancelAtPeriodEnd ev\<rparr>)"

definition drive_hosted :: "sub_env \<Rightarrow> contract \<Rightarrow> plan \<Rightarrow> callback_event \<Rightarrow> gtime \<Rightarrow> unit stx" where
  "drive_hosted n s pl ev now = (case cb_Type ev of
     CallbackSubscriptionActivated \<Rightarrow> apply_hosted_paid n s pl ev now
   | CallbackSubscriptionRenewed \<Rightarrow> apply_hosted_paid n s pl ev now
   | CallbackSubscriptionPastDue \<Rightarrow> mark_past_due n s pl now
   | CallbackSubscriptionCanceled \<Rightarrow> sub_terminal n s StatusCanceled EventCanceled now
   | CallbackSubscriptionExpired \<Rightarrow> sub_terminal n s StatusExpired EventExpired now
   | CallbackSubscriptionUpdated \<Rightarrow> apply_hosted_updated n s pl ev now
   | _ \<Rightarrow> tx_ret ())"

definition handle_hosted_callback ::
  "(sub_world, sub_err) pay_env \<Rightarrow> sub_env \<Rightarrow> callback_event \<Rightarrow> unit btx" where
  "handle_hosted_callback e n ev =
     (if \<not> is_subscription_event (cb_Type ev) then tx_ret ()
      else tx_bind (locate_hosted e n ev) (\<lambda>row. case row of None \<Rightarrow> tx_ret ()
        | Some s \<Rightarrow>
          tx_bind (ext_step (plan_get n (su_ProjectID s) (su_PlanID s))) (\<lambda>prow. case prow of
            None \<Rightarrow> tx_fail (PayAsset ErrPlanNotFound)
          | Some pl \<Rightarrow>
          tx_bind (case cb_ReceivedAt ev of None \<Rightarrow> ext_step (sub_now n) | Some t \<Rightarrow> tx_ret t) (\<lambda>now.
          if sub_is_terminal (su_Status s) then tx_ret ()
          else tx_bind (if cb_ProviderSubID ev \<noteq> '''' \<and> su_ProviderSubID s = ''''
              then upsert_provider_index e (cb_Provider ev) kind_subscription (cb_ProviderSubID ev)
                (su_ProjectID s) else tx_ret ()) (\<lambda>_.
            ext_step (drive_hosted n (mirror s ev) pl ev now))))))"

section \<open>The payment service on top of it\<close>

definition sub_db_err :: "sub_err pay_err \<Rightarrow> bool" where
  "sub_db_err err \<longleftrightarrow> err = PayDB \<or> err = PayAsset (SubAsset ErrDB)"

text \<open>The wiring: fulfilment, reversal and the mirror are those of this service.\<close>

definition wired :: "sub_env \<Rightarrow> (sub_world, sub_err) pay_env \<Rightarrow> (sub_world, sub_err) pay_env" where
  "wired n e = e\<lparr>pe_undo := sub_undo, pe_Fulfill := composite_fulfill n,
     pe_Reverse := composite_reverse n, pe_Hosted := handle_hosted_callback e n, pe_db_err := sub_db_err\<rparr>"

end
