(* ===== verification/Asset_Growth.thy ===== *)
theory Asset_Growth
  imports Asset_Verbs
begin

text \<open>
  The asset ledger only grows: no command, successful or not, takes a row away, and a grant that
  succeeds leaves a row with its idempotency key. The services that grant assets on behalf of
  others rest on this: orders and subscriptions, and the settlement of leaderboards.
\<close>

section \<open>The ledger only grows\<close>

definition ledger_keys :: "asset_world \<Rightarrow> (string \<times> string) set" where
  "ledger_keys w = ledger_key ` set (t_ledger (w_db w))"

definition grows :: "'a atx \<Rightarrow> bool" where
  "grows m \<longleftrightarrow> (\<forall>w. ledger_keys w \<subseteq> ledger_keys (snd (m w)))"

lemma growsD: "grows m \<Longrightarrow> m w = (r, w') \<Longrightarrow> ledger_keys w \<subseteq> ledger_keys w'"
  unfolding grows_def by (metis snd_conv)

lemma grows_bind: "grows m \<Longrightarrow> (\<And>a. grows (f a)) \<Longrightarrow> grows (tx_bind m f)"
  unfolding grows_def tx_bind_def by (fastforce split: prod.splits sum.splits)

lemma grows_basic:
  "grows (tx_ret a)" "grows (tx_fail err)" "grows (tx_lift r)" "grows (new_id e)" "grows (ts e)" "grows (db_read e g)"
  by (auto simp: grows_def ledger_keys_def tx_ret_def tx_fail_def tx_lift_def new_id_def ts_def db_read_def
      db_op_def Let_def)

lemma grows_write:
  assumes "\<And>db a db'. f db = Inr (a, db') \<Longrightarrow> set (t_ledger db) \<subseteq> set (t_ledger db')"
  shows "grows (db_write e f)"
  using assms by (fastforce simp: grows_def ledger_keys_def db_write_def db_op_def Let_def split: sum.splits)

lemma grows_cases:
  "grows m \<Longrightarrow> grows (tx_when c err m)"
  "grows m \<Longrightarrow> grows n \<Longrightarrow> grows (if c then m else n)"
  "grows m \<Longrightarrow> (\<And>y. grows (f y)) \<Longrightarrow> grows (case x of None \<Rightarrow> m | Some y \<Rightarrow> f y)"
  "(\<And>y z. grows (g y z)) \<Longrightarrow> grows (case p of (y, z) \<Rightarrow> g y z)"
  "(\<And>y. grows (f1 y)) \<Longrightarrow> (\<And>y. grows (f2 y)) \<Longrightarrow> grows (case out of Replayed y \<Rightarrow> f1 y | Debited z \<Rightarrow> f2 z)"
  "grows m \<Longrightarrow> (\<And>y ys. grows (h y ys)) \<Longrightarrow> grows (case xs of [] \<Rightarrow> m | y # ys \<Rightarrow> h y ys)"
  by (auto simp: tx_when_def grows_basic split: option.splits prod.splits debit_outcome.splits list.splits)

lemmas grows_intros = grows_bind grows_basic grows_cases

lemma grows_statements:
  "grows (holding_insert e h)" "grows (holding_update e h v)" "grows (holding_delete e p i v)"
  "grows (db_write e (ledger_try_insert r))" "grows (outbox_publish e ev)"
  unfolding holding_insert_def holding_update_def holding_delete_def outbox_publish_def
  by (intro grows_write, fastforce simp: Let_def ledger_try_insert_def split: if_splits)+

lemma grows_helpers:
  "grows (def_get e p pr)" "grows (holding_get e p i)" "grows (holding_list_for_update e p ot oid did)"
  "grows (ledger_insert_if_absent e r)" "grows (load_replay e p key)" "grows (replay_result e p key)"
  "grows (publish e d owner kind dl af now)" "grows (new_entry e r op)" "grows (normalize_ref e rt rid fb)"
  "grows (require_active_def e p code)" "grows (resolve_grant_expiry e d x)"
  "grows (upsert_grant_holding e d p ot gc ex live now)"
  unfolding def_get_def holding_get_def
    holding_list_for_update_def ledger_insert_if_absent_def load_replay_def replay_result_def publish_def
    new_entry_def normalize_ref_def require_active_def_def resolve_grant_expiry_def def_by_code_def
    upsert_grant_holding_def ledger_get_by_key_def ledger_list_by_ref_def Let_def
  by (intro grows_intros grows_statements)+

lemma grows_debit_loop: "grows (debit_loop e sc kind key idem rt rid now hs remain done)"
proof (induction hs arbitrary: remain "done")
  case (Cons h hs)
  then show ?case
    unfolding debit_loop.simps Let_def by (intro grows_intros grows_helpers grows_statements)
qed (simp add: grows_basic)

text \<open>A grant that succeeds leaves its key in the ledger, replayed or not.\<close>

lemma load_replay_SomeD:
  "load_replay e p key w = (Inr (Some es), w') \<Longrightarrow> (p, key) \<in> ledger_keys w"
  by (auto simp: load_replay_def ledger_get_by_key_def tx_simps ledger_keys_def find_Some_iff
      split: option.splits if_splits) (metis image_eqI nth_mem)+

lemma new_entry_key: "new_entry e r op w = (Inr r', w') \<Longrightarrow> ledger_key r' = ledger_key r"
  by (auto simp: new_entry_def tx_simps ledger_key_def split: if_splits)

lemma upsert_grant_project:
  assumes "upsert_grant_holding e d p ot cmd ex live now w = (Inr (h, c), w')" and "\<And>x. x \<in> set live \<Longrightarrow> h_ProjectID x = p"
  shows "h_ProjectID h = p"
  using assms
  by (auto simp: upsert_grant_holding_def tx_simps add_to_holding_def find_Some_iff
      split: if_splits option.splits)

lemma grant_body_logs:
  assumes "grant_body e sc cmd ot key code w = (Inr r, w')"
  shows "(sc_ProjectID sc, key) \<in> ledger_keys w'"
  using assms unfolding grant_body_def Let_def
proof (elim tx_elims, goal_cases)
  case (1 ro w1 d w2 ex w3 u1 w4 hs w5 now w6 u2 w7 rr w8 rt rid hc w9 h created entry w10 ins w11 x inserted)
  have "h_ProjectID y = sc_ProjectID sc" if "y \<in> set (live_holdings hs now)" for y
    using 1 that by (auto simp: holding_list_for_update_def tx_simps live_holdings_def)
  then have p: "h_ProjectID h = sc_ProjectID sc"
    using 1 upsert_grant_project by blast
  have n: "new_entry e (entry_for h KindGrant (gc_Quantity cmd) (h_Quantity h) rt rid key now) (sc_Operator sc) w9 = (Inr entry, w10)"
    and i: "ledger_insert_if_absent e entry w10 = (Inr (x, inserted), w11)"
    and m: "(if \<not> inserted then replay_result e (sc_ProjectID sc) key
     else
     tx_bind (if created then holding_insert e h
              else holding_update e h (i64 (h_Version h - 1))) (\<lambda>_.
     tx_bind (publish e d (gc_OwnerID cmd) KindGrant (gc_Quantity cmd) (h_Quantity h) now) (\<lambda>_.
     tx_ret \<lparr>r_Entries = [entry], r_IdempotentReplay = False\<rparr>))) w11 = (Inr r, w')"
    using 1 by simp_all
  have k: "ledger_key entry = (sc_ProjectID sc, key)"
    using new_entry_key [OF n] p by (simp add: entry_for_def ledger_key_def)
  have "(sc_ProjectID sc, key) \<in> ledger_keys w11"
    using ledger_insert_if_absent_Inr [OF i] k by (auto simp: ledger_keys_def split: if_splits)
  moreover have "ledger_keys w11 \<subseteq> ledger_keys w'"
  proof -
    have "grows (if \<not> inserted then replay_result e (sc_ProjectID sc) key
      else
       tx_bind (if created then holding_insert e h
                else holding_update e h (i64 (h_Version h - 1))) (\<lambda>_.
       tx_bind (publish e d (gc_OwnerID cmd) KindGrant (gc_Quantity cmd) (h_Quantity h) now) (\<lambda>_.
       tx_ret \<lparr>r_Entries = [entry], r_IdempotentReplay = False\<rparr>)))"
      by (intro grows_intros grows_helpers grows_statements)
    from this m show ?thesis by (rule growsD)
  qed
  ultimately show ?case by blast
next
  case (2 ro w1 es)
  have "ledger_keys w \<subseteq> ledger_keys w1" using 2 by (auto dest: growsD [OF grows_helpers(5)])
  moreover have "(sc_ProjectID sc, key) \<in> ledger_keys w" using 2 load_replay_SomeD by blast
  ultimately show ?case using 2 by (auto simp: tx_simps)
qed

lemma grows_run_tx:
  assumes "grows m"
  shows "grows (run_tx e m)"
  unfolding grows_def
proof
  fix w :: asset_world
  let ?w0 = "w\<lparr>w_ops := Suc (w_ops w)\<rparr>"
  obtain r w1 where m: "m ?w0 = (r, w1)" by fastforce
  have "ledger_keys w \<subseteq> ledger_keys w1"
    using growsD [OF assms m] by (simp add: ledger_keys_def)
  with m show "ledger_keys w \<subseteq> ledger_keys (snd (run_tx e m w))"
    by (cases r) (simp_all add: run_tx_def Let_def ledger_keys_def)
qed

lemma grows_grant: "grows (grant e sc cmd)"
  unfolding grant_def grant_body_def Let_def
  by (intro grows_intros grows_run_tx grows_helpers grows_statements)

lemma grant_logs:
  assumes "grant e sc cmd w = (Inr r, w')"
  shows "(sc_ProjectID sc, trim_space (gc_IdempotencyKey cmd)) \<in> ledger_keys w'"
  using assms unfolding grant_def
  by (elim tx_elims run_tx_Inr) (auto simp: prepare_write_Inr validate_idempotency_key_Inr ledger_keys_def quiet_def
      dest!: grant_body_logs)

end
