(* ===== verification/Payment_Composition.thy ===== *)
theory Payment_Composition
  imports Payment_Books Subscription_Service Asset_Growth
begin

text \<open>
  The payment service on the asset system: the composite fulfiller of
  \<^verbatim>\<open>internal/app/subscriptions/fulfiller.go\<close>, with \<^verbatim>\<open>internal/app/assets/fulfiller.go\<close> behind it,
  keeps the promises of the locale \<open>order_fulfilment\<close>. An order for a top-up or an item leaves a
  row in the asset ledger, under the idempotency key made from the id of the order.
\<close>

section \<open>Grants within a transaction\<close>

lemma grows_in:
  "grows (grant_in e sc gc)" "grows (consume_in e sc cc)" "grows (mutate_in e sc mc)"
  "grows (live_holding e sc owner code)"
  unfolding grant_in_def consume_in_def mutate_in_def grant_body_def consume_body_def mutate_body_def
    def_by_id_def live_holding_def Let_def
  by (intro grows_intros grows_helpers grows_statements grows_debit_loop)+

lemma grant_in_logs:
  "grant_in e sc cmd w = (Inr r, w') \<Longrightarrow> (sc_ProjectID sc, trim_space (gc_IdempotencyKey cmd)) \<in> ledger_keys w'"
  unfolding grant_in_def by (elim tx_elims) (auto simp: prepare_write_Inr validate_idempotency_key_Inr dest: grant_body_logs)

section \<open>Growth in the world of subscriptions\<close>

definition sub_grows :: "'a stx \<Rightarrow> bool" where
  "sub_grows m \<longleftrightarrow> (\<forall>w. ledger_keys (sw_assets w) \<subseteq> ledger_keys (sw_assets (snd (m w))))"

lemma sub_growsD: "sub_grows m \<Longrightarrow> m w = (r, w') \<Longrightarrow> ledger_keys (sw_assets w) \<subseteq> ledger_keys (sw_assets w')"
  unfolding sub_grows_def by (metis snd_conv)

lemma sub_grows_bind: "sub_grows m \<Longrightarrow> (\<And>a. sub_grows (f a)) \<Longrightarrow> sub_grows (tx_bind m f)"
  unfolding sub_grows_def tx_bind_def by (fastforce split: prod.splits sum.splits)

lemma sub_grows_basic:
  "sub_grows (tx_ret a)" "sub_grows (tx_fail err)" "sub_grows (tx_lift r)" "sub_grows (sub_new_id n)"
  "sub_grows (sub_now n)" "sub_grows (sub_read n g)" "sub_grows (sub_write n h)"
  by (auto simp: sub_grows_def tx_ret_def tx_fail_def tx_lift_def sub_new_id_def sub_now_def sub_read_def
      sub_write_def sub_op_def Let_def split: sum.splits)

lemma sub_grows_asset: "grows m \<Longrightarrow> sub_grows (asset_step m)"
  unfolding sub_grows_def asset_step_def by (auto dest: growsD split: prod.splits sum.splits)

lemma sub_grows_cases:
  "sub_grows m \<Longrightarrow> sub_grows (tx_when c err m)"
  "sub_grows m \<Longrightarrow> sub_grows k \<Longrightarrow> sub_grows (if c then m else k)"
  "sub_grows m \<Longrightarrow> (\<And>y. sub_grows (f y)) \<Longrightarrow> sub_grows (case x of None \<Rightarrow> m | Some y \<Rightarrow> f y)"
  "(\<And>y z. sub_grows (g y z)) \<Longrightarrow> sub_grows (case p of (y, z) \<Rightarrow> g y z)"
  by (auto simp: tx_when_def sub_grows_basic split: option.splits prod.splits)

lemmas sub_grows_intros = sub_grows_bind sub_grows_basic sub_grows_cases sub_grows_asset

lemma sub_grows_statements:
  "sub_grows (sub_get n p i)" "sub_grows (plan_get n p i)" "sub_grows (sub_update n s st)"
  "sub_grows (sub_publish n s k now)" "sub_grows (sub_grant n p gc)" "sub_grows (sub_consume n p cc)"
  "sub_grows (sub_get_by_provider n p pr ref)"
  unfolding sub_get_def plan_get_def sub_update_def sub_publish_def sub_grant_def sub_consume_def
    sub_get_by_provider_def
  by (intro sub_grows_intros grows_in)+

lemma sub_grows_fulfill_grants: "sub_grows (fulfill_grants n s pk now i gs)"
  by (induction gs arbitrary: i) (auto intro!: sub_grows_intros sub_grows_statements)

lemma sub_grows_fulfill_entitlements: "sub_grows (fulfill_entitlements n s pe pk i xs)"
proof (induction xs arbitrary: i)
  case (Cons x xs)
  then show ?case
    unfolding fulfill_entitlements.simps entitlement_step_def
    by (intro sub_grows_intros sub_grows_statements grows_in)
qed (simp add: sub_grows_basic)

lemma sub_grows_apply_success: "sub_grows (apply_success n s pl now)"
  unfolding apply_success_def fulfill_benefits_def Let_def
  by (intro sub_grows_intros sub_grows_statements sub_grows_fulfill_grants sub_grows_fulfill_entitlements)

lemma sub_grows_fulfil:
  "sub_grows (composite_fulfill n o1)" "sub_grows (composite_reverse n o1)"
proof -
  have "sub_grows (items_fulfill n o1)"
    unfolding items_fulfill_def grant_from_purpose_def
    by (cases "po_PurposeKind o1") (auto intro!: sub_grows_intros sub_grows_statements)
  moreover have "sub_grows (items_reverse n o1)"
    unfolding items_reverse_def by (intro sub_grows_intros sub_grows_statements)
  moreover have "sub_grows (fulfill_paid_order n o1)"
    unfolding fulfill_paid_order_def by (intro sub_grows_intros sub_grows_statements sub_grows_apply_success)
  ultimately show "sub_grows (composite_fulfill n o1)" "sub_grows (composite_reverse n o1)"
    unfolding composite_fulfill_def composite_reverse_def by (auto intro: sub_grows_basic)
qed

lemma sub_grows_hosted: "sub_grows (drive_hosted n s pl ev now)"
proof -
  have t: "sub_grows (sub_terminal n s to k now)" for to k
    unfolding sub_terminal_def Let_def by (intro sub_grows_intros sub_grows_statements)
  have p: "sub_grows (mark_past_due n s pl now)"
    unfolding mark_past_due_def Let_def by (intro sub_grows_intros sub_grows_statements)
  have h: "sub_grows (apply_hosted_paid n s pl ev now)"
    unfolding apply_hosted_paid_def fulfill_benefits_def Let_def
    by (intro sub_grows_intros sub_grows_statements sub_grows_fulfill_grants sub_grows_fulfill_entitlements)
  have u: "sub_grows (apply_hosted_updated n s pl ev now)"
    unfolding apply_hosted_updated_def Let_def by (intro sub_grows_intros sub_grows_statements t p h)
  show ?thesis unfolding drive_hosted_def
    by (cases "cb_Type ev") (simp_all add: t p h u sub_grows_basic)
qed

section \<open>The fulfiller keeps its promises\<close>

definition fulfil_log :: "sub_world \<Rightarrow> (string \<times> string) set" where
  "fulfil_log x = {(p, i). (p, trim_space (''fulfill:'' @ i)) \<in> ledger_keys (sw_assets x)}"

definition is_item_kind :: "purpose_kind \<Rightarrow> bool" where
  "is_item_kind k \<longleftrightarrow> k = PurposeTopup \<or> k = PurposeItemPurchase"

lemma fulfil_log_mono:
  "ledger_keys (sw_assets x) \<subseteq> ledger_keys (sw_assets x') \<Longrightarrow> fulfil_log x \<subseteq> fulfil_log x'"
  by (auto simp: fulfil_log_def)

lemma items_fulfil_logs:
  assumes "composite_fulfill n o1 x = (Inr ref, x')" and "is_item_kind (po_PurposeKind o1)"
  shows "order_key o1 \<in> fulfil_log x'"
proof -
  obtain topup where run: "grant_from_purpose n o1 topup x = (Inr ref, x')"
    using assms by (auto simp: composite_fulfill_def items_fulfill_def is_item_kind_def)
  then obtain cmd r where g: "asset_step (grant_in (sn_assets n) (sys_scope n (po_ProjectID o1)) cmd) x = (Inr r, x')"
    and k: "gc_IdempotencyKey cmd = ''fulfill:'' @ po_ID o1"
    unfolding grant_from_purpose_def sub_grant_def by (elim tx_elims) (auto simp: tx_simps)
  from g obtain a where "grant_in (sn_assets n) (sys_scope n (po_ProjectID o1)) cmd (sw_assets x) = (Inr r, a)"
    and "x' = x\<lparr>sw_assets := a\<rparr>"
    by (auto simp: asset_step_def split: prod.splits sum.splits)
  from grant_in_logs [OF this(1)] this(2) show ?thesis
    by (simp add: fulfil_log_def order_key_def sys_scope_def k)
qed

text \<open>Steps of the payment tables, seen from the orders.\<close>

definition keeps_tables :: "'a btx \<Rightarrow> bool" where
  "keeps_tables m \<longleftrightarrow> (\<forall>w r w'. m w = (r, w') \<longrightarrow> pt_orders (pw_db w') = pt_orders (pw_db w) \<and>
     pt_fulfillments (pw_db w') = pt_fulfillments (pw_db w) \<and> fulfil_log (pw_ext w) \<subseteq> fulfil_log (pw_ext w'))"

lemma keeps_tables_bind: "keeps_tables m \<Longrightarrow> (\<And>a. keeps_tables (f a)) \<Longrightarrow> keeps_tables (tx_bind m f)"
  unfolding keeps_tables_def tx_bind_def by (fastforce split: prod.splits sum.splits)

lemma keeps_tables_core: "keeps_core m \<Longrightarrow> keeps_tables m"
  unfolding keeps_tables_def keeps_core_def core_def by (metis (no_types, lifting) Pair_inject order_refl)

lemma keeps_tables_ext: "sub_grows m \<Longrightarrow> keeps_tables (ext_step m)"
  unfolding keeps_tables_def ext_step_def by (auto dest!: sub_growsD fulfil_log_mono split: prod.splits)

lemma keeps_tables_cases:
  "keeps_tables m \<Longrightarrow> keeps_tables k \<Longrightarrow> keeps_tables (if c then m else k)"
  "keeps_tables m \<Longrightarrow> (\<And>y. keeps_tables (f y)) \<Longrightarrow> keeps_tables (case x of None \<Rightarrow> m | Some y \<Rightarrow> f y)"
  by (auto split: option.splits)

lemma keeps_tables_basic:
  "keeps_tables (tx_ret a)" "keeps_tables (tx_fail err)" "keeps_tables (index_lookup e pr k ref)"
  "keeps_tables (upsert_provider_index e pr k ref p)"
  by (intro keeps_tables_core core_kept)+

lemmas keeps_tables_intros = keeps_tables_bind keeps_tables_basic keeps_tables_cases keeps_tables_ext

lemma hosted_keeps_tables:
  assumes "handle_hosted_callback e n ev w = (Inr u, w')"
  shows "pt_orders (pw_db w') = pt_orders (pw_db w)" "pt_fulfillments (pw_db w') = pt_fulfillments (pw_db w)"
    "fulfil_log (pw_ext w) \<subseteq> fulfil_log (pw_ext w')"
proof -
  have "keeps_tables (handle_hosted_callback e n ev)"
    unfolding handle_hosted_callback_def locate_hosted_def tx_or_else_def
    by (intro keeps_tables_intros sub_grows_statements sub_grows_hosted sub_grows_basic)
  from this assms show "pt_orders (pw_db w') = pt_orders (pw_db w)"
    "pt_fulfillments (pw_db w') = pt_fulfillments (pw_db w)" "fulfil_log (pw_ext w) \<subseteq> fulfil_log (pw_ext w')"
    unfolding keeps_tables_def by blast+
qed

interpretation order_books: order_fulfilment "wired n e" fulfil_log is_item_kind for n e
proof
  show "pe_Fulfill (wired n e) o1 x = (Inr ref, x') \<Longrightarrow> fulfil_log x \<subseteq> fulfil_log x' \<and>
      (is_item_kind (po_PurposeKind o1) \<longrightarrow> order_key o1 \<in> fulfil_log x')" for o1 x ref x'
    using sub_growsD [OF sub_grows_fulfil(1)] items_fulfil_logs fulfil_log_mono by (simp add: wired_def)
  show "pe_Reverse (wired n e) o1 x = (res, x') \<Longrightarrow> fulfil_log x \<subseteq> fulfil_log x'" for o1 x res x'
    using sub_growsD [OF sub_grows_fulfil(2)] fulfil_log_mono by (simp add: wired_def)
  show "pe_Hosted (wired n e) ev w = (Inr u, w') \<Longrightarrow> pt_orders (pw_db w') = pt_orders (pw_db w) \<and>
      pt_fulfillments (pw_db w') = pt_fulfillments (pw_db w) \<and> fulfil_log (pw_ext w) \<subseteq> fulfil_log (pw_ext w')" for ev w u w'
    using hosted_keeps_tables by (simp add: wired_def)
  show "fulfil_log x \<subseteq> fulfil_log (pe_undo (wired n e) x x')" for x x'
    by (simp add: wired_def sub_undo_def fulfil_log_def ledger_keys_def)
qed

end
