(* ===== verification/Payment_System.thy ===== *)
theory Payment_System
  imports Payment_Composition
begin

text \<open>
  The payment service and the subscription service together, as the server wires them: every
  public call and every scan of the workers is a step of one system. Subscriptions place orders
  in transactions of their own, which stay when the transaction of the caller is rolled back;
  the books between orders, fulfilments and the asset ledger hold nevertheless.
\<close>

section \<open>Logs that follow the ledger\<close>

definition follows :: "(sub_world \<Rightarrow> (string \<times> string) set) \<Rightarrow> bool" where
  "follows logged \<longleftrightarrow> (\<forall>x x'. ledger_keys (sw_assets x) \<subseteq> ledger_keys (sw_assets x') \<longrightarrow> logged x \<subseteq> logged x')"

lemma follows_log: "follows fulfil_log"
  by (simp add: follows_def fulfil_log_mono)

lemma follows_constant: "follows (\<lambda>_. L)"
  by (simp add: follows_def)

lemma follows_undo: "follows logged \<Longrightarrow> logged x \<subseteq> logged (sub_undo x x')"
  by (simp add: follows_def sub_undo_def ledger_keys_def)

lemma wired_simps [simp]:
  "pe_undo (wired n e) = sub_undo" "pe_fails (wired n e) = pe_fails e"
  "pe_clock (wired n e) = pe_clock e" "pe_id (wired n e) = pe_id e" "pe_providers (wired n e) = pe_providers e"
  by (simp_all add: wired_def)

lemma sound_ext:
  assumes "follows logged" and "sub_grows m"
  shows "sound counted logged (ext_step m)"
  unfolding sound_def
proof (intro allI impI)
  fix os0 w r w' assume d: "during counted logged {} os0 w" and run: "ext_step m w = (r, w')"
  obtain s x where x: "m (pw_ext w) = (s, x)" by fastforce
  then have "logged (pw_ext w) \<subseteq> logged x"
    using sub_growsD [OF assms(2) x] assms(1) by (simp add: follows_def)
  then show "during counted logged {} os0 w'"
    using d run x books_mono by (fastforce simp: during_def ext_step_def)
qed

lemma sound_valid:
  "sound counted logged m \<Longrightarrow> tx_valid (during counted logged {} os0) m (\<lambda>_. during counted logged {} os0)"
  unfolding tx_valid_def using soundD by blast

lemma sound_pay_run:
  assumes "follows logged" and "sound counted logged m"
  shows "sound counted logged (pay_run (wired n e) m)"
  by (rule run_sound) (simp_all add: follows_undo assms sound_valid)

lemma sound_map_err: "sound counted logged m \<Longrightarrow> sound counted logged (tx_map_err g m)"
  unfolding sound_def tx_map_err_def by (fastforce split: prod.splits sum.splits)

lemma sound_try: "sound counted logged m \<Longrightarrow> sound counted logged (tx_try m)"
  unfolding sound_def tx_try_def by (fastforce split: prod.splits)

text \<open>
  A transaction of the subscription service: rolled back, it leaves the orders it has placed and
  the log as it was. So its body must keep the books even when the log stands still.
\<close>

lemma sound_own_run:
  assumes f: "follows logged" and m: "\<And>logged. follows logged \<Longrightarrow> sound counted logged m"
  shows "sound counted logged (own_run (wired n e) m)"
  unfolding sound_def
proof (intro allI impI)
  fix os0 w r w' assume d: "during counted logged {} os0 w" and run: "own_run (wired n e) m w = (r, w')"
  have d0: "during counted logged {} os0 (w\<lparr>pw_ops := k\<rparr>)" for k using d by (simp add: during_def)
  show "during counted logged {} os0 w'"
  proof (cases "pe_fails e (pw_ops w)")
    case True
    then show ?thesis using run d0 by (auto simp: own_run_def Let_def)
  next
    case False
    obtain s v where v: "m (w\<lparr>pw_ops := Suc (pw_ops w)\<rparr>) = (s, v)" by fastforce
    have "during counted (\<lambda>_. logged (pw_ext w)) {} os0 (w\<lparr>pw_ops := Suc (pw_ops w)\<rparr>)"
      using d by (simp add: during_def)
    then have "during counted (\<lambda>_. logged (pw_ext w)) {} os0 v"
      by (rule soundD [OF m [OF follows_constant] v])
    then have undo: "during counted logged {} os0 (v\<lparr>pw_ops := k, pw_ext := sub_undo (pw_ext w) x\<rparr>)" for x k
      using books_mono [OF _ follows_undo [OF f]] by (fastforce simp: during_def)
    have kept: "during counted logged {} os0 (v\<lparr>pw_ops := k\<rparr>)" for k
      using soundD [OF m [OF f] v d0] by (simp add: during_def)
    show ?thesis
      using run v False undo [where k = "pw_ops v"] undo kept
      by (auto simp: own_run_def Let_def split: if_splits sum.splits)
  qed
qed


section \<open>Calls of the subscription service\<close>

lemma sub_grows_rest:
  "sub_grows (plan_get_by_code n p c)" "sub_grows (sub_insert n s)" "sub_grows (sub_list_live n p u i)"
  "sub_grows (sub_list_due n p t lim)" "sub_grows (sub_get_by_idempotency_key n p c)"
  "sub_grows (sub_terminal n s to k t)" "sub_grows (mark_past_due n s pl t)"
  "sub_grows (fulfill_benefits n s t)"
  unfolding plan_get_by_code_def sub_insert_def sub_list_live_def sub_list_due_def
    sub_get_by_idempotency_key_def sub_terminal_def mark_past_due_def fulfill_benefits_def Let_def
  by (intro sub_grows_intros sub_grows_statements sub_grows_fulfill_grants sub_grows_fulfill_entitlements)+

lemma sub_grows_cancel:
  "sub_grows (cancel_at_period_end_body n p u i t)" "sub_grows (force_terminal_body n p i to k t)"
  unfolding cancel_at_period_end_body_def force_terminal_body_def Let_def
  by (intro sub_grows_intros sub_grows_statements)+

lemmas sub_grows_all = sub_grows_basic sub_grows_statements sub_grows_rest sub_grows_cancel sub_grows_apply_success

lemma sound_bind_valued:
  assumes m: "keeps_core m" and v: "\<And>w a w'. m w = (Inr a, w') \<Longrightarrow> V a"
    and f: "\<And>a. V a \<Longrightarrow> sound counted logged (f a)"
  shows "sound counted logged (tx_bind m f)"
  unfolding sound_def
proof (intro allI impI)
  fix os0 w r w' assume d: "during counted logged {} os0 w" and run: "tx_bind m f w = (r, w')"
  obtain s u where u: "m w = (s, u)" by fastforce
  have du: "during counted logged {} os0 u" using during_core [OF keeps_coreD [OF m u]] d by simp
  show "during counted logged {} os0 w'"
  proof (cases s)
    case (Inl err)
    with run u du show ?thesis by (simp add: tx_bind_def)
  next
    case (Inr a)
    with run u have "f a u = (r, w')" by (simp add: tx_bind_def)
    with soundD [OF f this du] v u Inr show ?thesis by blast
  qed
qed

lemma billing_attempts_sound:
  assumes "follows logged"
  shows "sound counted logged (billing_attempts (wired n e) provider s pl cycle now ks)"
proof (induction ks)
  case Nil
  show ?case by (simp add: sound_core core_fail)
next
  case (Cons k ks)
  show ?case
    unfolding billing_attempts.simps
  proof (rule sound_bind_valued [where V = "\<lambda>o1. order_wf o1 \<and> po_Status o1 = OrderStatusCreated"], goal_cases)
    case 1
    show ?case by (intro core_kept)
  next
    case (2 w o1 w')
    then show ?case by (rule new_created_order_wf)
  next
    case (3 o1)
    then have "sound counted logged (pay_run (wired n e) (insert_created_order (wired n e) o1))"
      by (intro run_sound insert_created_order_during) (simp_all add: follows_undo assms)
    then show ?case
      by (intro sound_bind sound_prod sound_option sound_if Cons.IH) (simp_all add: sound_core core_kept)
  qed
qed

lemma create_billing_order_sound:
  assumes f: "follows logged"
  shows "sound counted logged (create_billing_order (wired n e) n s pl cycle)"
proof -
  have a: "sound counted logged (pay_run (wired n e) (attach_session (wired n e) o1 ses at))" for o1 ses at
    by (rule run_sound [OF _ attach_session_tx]) (simp add: follows_undo f)
  have b: "sound counted logged (case b of OpenOrder r \<Rightarrow> tx_ret (r, '''')
     | NewOrder o1 \<Rightarrow> tx_bind (ask_provider (\<lambda>k. pv_CreatePayment pv k o1)) (\<lambda>session.
         tx_bind (pay_run (wired n e) (attach_session (wired n e) o1 session (Some now))) (\<lambda>locked.
         tx_ret (locked, ps_PaymentURL session))))" for b pv now
    by (cases b) (auto intro!: sound_bind a simp: sound_core core_kept)
  show ?thesis
    unfolding create_billing_order_def
    by (intro sound_option sound_bind billing_attempts_sound f b sound_ext [OF f])
      (simp_all add: sound_core core_kept sub_grows_all)
qed

lemma process_due_sound:
  assumes f: "follows logged"
  shows "sound counted logged (process_due (wired n e) n seed now)"
  unfolding process_due_def
proof (rule sound_own_run [OF f])
  fix logged :: "sub_world \<Rightarrow> (string \<times> string) set" assume f: "follows logged"
  have c: "sound counted logged (try_charge (wired n e) n s pl)" for s pl
    unfolding try_charge_def
    by (intro sound_if sound_bind create_billing_order_sound f sound_ext [OF f])
      (simp_all add: sound_core core_kept sub_grows_all)
  have b: "sound counted logged (bill_or_past_due (wired n e) n s pl now)" for s pl
    unfolding bill_or_past_due_def
    by (rule sound_bind [OF sound_try [OF c]])
      (auto split: sum.splits intro!: sound_ext [OF f] simp: sound_core core_kept sub_grows_all)
  show "sound counted logged (process_due_body (wired n e) n seed now)"
    unfolding process_due_body_def
    by (intro sound_bind sound_option sound_if b sound_ext [OF f])
      (simp_all add: sound_core core_kept sub_grows_all)
qed

lemma subscribe_sound:
  assumes f: "follows logged"
  shows "sound counted logged (subscribe (wired n e) n pr cmd)"
proof -
  have body: "sound counted logged (subscribe_body (wired n e) n s pl now)" if f: "follows logged"
    for s pl now and logged :: "sub_world \<Rightarrow> (string \<times> string) set"
  proof -
    have g: "sound counted logged (grant_and_announce n s now)" for s
      unfolding grant_and_announce_def
      by (intro sound_bind sound_ext [OF f]) (simp_all add: sound_core core_kept sub_grows_all)
    have h: "sound counted logged (start_hosted (wired n e) n s pl)"
      unfolding start_hosted_def by (intro sound_core core_kept)
    have p: "sound counted logged (start_platform (wired n e) n s pl now)"
      unfolding start_platform_def Let_def
      by (intro sound_if sound_bind sound_prod g create_billing_order_sound f sound_ext [OF f])
        (simp_all add: sound_core core_kept sub_grows_all)
    have m: "sound counted logged (case su_Mode s of
             ModeHosted \<Rightarrow> start_hosted (wired n e) n s pl
           | ModePlatform \<Rightarrow> start_platform (wired n e) n s pl now
           | ModeOther _ \<Rightarrow> tx_fail (PayAsset ErrInvalidMode))"
      by (cases "su_Mode s") (simp_all add: h p sound_core core_kept)
    show ?thesis
      unfolding subscribe_body_def
      by (intro sound_bind sound_prod sound_option sound_if sound_when m sound_ext [OF f])
        (simp_all add: sound_core core_kept sub_grows_all)
  qed
  show ?thesis
    unfolding subscribe_def Let_def
    by (intro sound_map_err sound_bind sound_prod sound_when sound_option sound_if sound_pay_run [OF f]
        sound_own_run [OF f] body f sound_ext [OF f])
      (simp_all add: sound_core core_kept sub_grows_all)
qed

lemma cancel_sound:
  assumes f: "follows logged"
  shows "sound counted logged (cancel_at_period_end (wired n e) n pr i)"
    "sound counted logged (force_terminal (wired n e) n pr i to ev)"
  unfolding cancel_at_period_end_def force_terminal_def
  by (intro sound_map_err sound_bind sound_prod sound_when sound_own_run [OF f] sound_ext [OF f] sound_ext;
      simp add: sound_core core_kept sub_grows_all; fail)+

section \<open>The scans of the workers\<close>

lemma during_scan:
  assumes "\<And>r. sound counted logged (m r)"
  shows "during counted logged {} os0 w \<Longrightarrow> during counted logged {} os0 (snd (m r w))"
  using soundD [OF assms] by (metis prod.collapse)

lemma close_expired_orders_during:
  assumes "during is_item_kind fulfil_log {} os0 w"
  shows "during is_item_kind fulfil_log {} os0 (snd (snd (close_expired_orders (wired n e) projects active now (cur, w))))"
  unfolding close_expired_orders_def
proof (rule rotation_round_keeps [where P = "\<lambda>s. during is_item_kind fulfil_log {} os0 (snd s)"])
  show "during is_item_kind fulfil_log {} os0 (snd (snd (close_work (wired n e) projects now idx r s)))"
    if "during is_item_kind fulfil_log {} os0 (snd s)" for idx r s
    using soundD [OF order_books.close_expired_sound _ that]
    by (auto simp: close_work_def split: prod.splits sum.splits)
qed (simp add: assms)

lemma bill_rows_during:
  assumes f: "follows logged"
  shows "during counted logged {} os0 w \<Longrightarrow>
    during counted logged {} os0 (snd (bill_rows (wired n e) n now rows remaining billed w))"
proof (induction rows arbitrary: remaining billed w)
  case (Cons s rows)
  obtain r w' where r: "process_due (wired n e) n s now w = (r, w')" by fastforce
  then have "during counted logged {} os0 w'" using soundD [OF process_due_sound [OF f]] Cons.prems by blast
  then show ?case using Cons.IH r by (auto split: sum.split)
qed simp

lemma run_billing_cycle_during:
  assumes f: "follows logged" and d: "during counted logged {} os0 w"
  shows "during counted logged {} os0 (snd (snd (run_billing_cycle (wired n e) n projects active now (cur, w))))"
  unfolding run_billing_cycle_def
proof (rule rotation_round_keeps [where P = "\<lambda>s. during counted logged {} os0 (snd s)"])
  fix idx k and s :: "int \<times> sub_world pay_world" assume s: "during counted logged {} os0 (snd s)"
  obtain r w' where r: "ext_step (sub_list_due n (projects ! idx) now k) (snd s) = (r, w')" by fastforce
  have w': "during counted logged {} os0 w'"
    by (rule soundD [OF sound_ext [OF f] r s]) (simp add: sub_grows_all)
  show "during counted logged {} os0 (snd (snd (bill_work (wired n e) n projects now idx k s)))"
  proof (cases r)
    case (Inl err)
    with r w' show ?thesis by (simp add: bill_work_def)
  next
    case (Inr rows)
    obtain billed v where v: "bill_rows (wired n e) n now rows k 0 w' = (billed, v)" by fastforce
    have "during counted logged {} os0 v"
      using bill_rows_during [OF f w', of n e now rows k 0] v by simp
    with r v Inr show ?thesis by (simp add: bill_work_def)
  qed
qed (simp add: d)

section \<open>The system\<close>

datatype system_call =
  CreateOrder "principal option" create_order_command
| HandleCallback string string
| VerifyReceipt "principal option" string string
| Refund "principal option" string int
| ManualFulfill "principal option" string
| CloseExpiredOrders "string list" "nat \<Rightarrow> bool" gtime int
| Subscribe "principal option" subscribe_command
| CancelAtPeriodEnd "principal option" string
| ForceTerminal "principal option" string sub_status sub_event_kind
| RunBillingCycle "string list" "nat \<Rightarrow> bool" gtime int

text \<open>The world after a call, whatever its result.\<close>

fun exec_call :: "sub_env \<Rightarrow> (sub_world, sub_err) pay_env \<Rightarrow> system_call \<Rightarrow> sub_world pay_world \<Rightarrow>
    sub_world pay_world" where
  "exec_call n e (CreateOrder pr cmd) w = snd (create_order (wired n e) pr cmd w)"
| "exec_call n e (HandleCallback name request) w = snd (handle_callback (wired n e) name request w)"
| "exec_call n e (VerifyReceipt pr i receipt) w = snd (verify_receipt (wired n e) pr i receipt w)"
| "exec_call n e (Refund pr i amount) w = snd (refund (wired n e) pr i amount w)"
| "exec_call n e (ManualFulfill pr i) w = snd (manual_fulfill (wired n e) pr i w)"
| "exec_call n e (CloseExpiredOrders projects active now cur) w =
     snd (snd (close_expired_orders (wired n e) projects active now (cur, w)))"
| "exec_call n e (Subscribe pr cmd) w = snd (subscribe (wired n e) n pr cmd w)"
| "exec_call n e (CancelAtPeriodEnd pr i) w = snd (cancel_at_period_end (wired n e) n pr i w)"
| "exec_call n e (ForceTerminal pr i to ev) w = snd (force_terminal (wired n e) n pr i to ev w)"
| "exec_call n e (RunBillingCycle projects active now cur) w =
     snd (snd (run_billing_cycle (wired n e) n projects active now (cur, w)))"

text \<open>
  Beside these calls the rest of the program may do anything to the other tables, and to the
  asset ledger what the asset system does to it: add rows.
\<close>

inductive system_reaches :: "sub_env \<Rightarrow> (sub_world, sub_err) pay_env \<Rightarrow> sub_world pay_world \<Rightarrow> bool"
  for n e where
  start: "pt_orders (pw_db w) = [] \<Longrightarrow> pt_fulfillments (pw_db w) = [] \<Longrightarrow> system_reaches n e w"
| call: "system_reaches n e w \<Longrightarrow> system_reaches n e (exec_call n e c w)"
| elsewhere: "system_reaches n e w \<Longrightarrow> pt_orders (pw_db w') = pt_orders (pw_db w) \<Longrightarrow>
    pt_fulfillments (pw_db w') = pt_fulfillments (pw_db w) \<Longrightarrow>
    ledger_keys (sw_assets (pw_ext w)) \<subseteq> ledger_keys (sw_assets (pw_ext w')) \<Longrightarrow> system_reaches n e w'"

lemma exec_call_during:
  assumes d: "during is_item_kind fulfil_log {} os0 w"
  shows "during is_item_kind fulfil_log {} os0 (exec_call n e c w)"
  using close_expired_orders_during [OF d] run_billing_cycle_during [OF follows_log d]
    during_scan [OF order_books.create_order_sound d] during_scan [OF order_books.handle_callback_sound d]
    during_scan [OF order_books.verify_receipt_sound d] during_scan [OF order_books.refund_sound d]
    during_scan [OF order_books.manual_fulfill_sound d] during_scan [OF subscribe_sound [OF follows_log] d]
    during_scan [OF cancel_sound(1) [OF follows_log] d] during_scan [OF cancel_sound(2) [OF follows_log] d]
  by (cases c) simp_all

lemma system_books:
  "system_reaches n e w \<Longrightarrow>
    books is_item_kind {} (pt_orders (pw_db w)) (pt_fulfillments (pw_db w)) (fulfil_log (pw_ext w))"
proof (induction rule: system_reaches.induct)
  case (start w)
  then show ?case by (simp add: books_def orders_ok_def fulfillments_ok_def)
next
  case (call w c)
  then have "during is_item_kind fulfil_log {} (pt_orders (pw_db w)) w" by (simp add: during_def)
  from exec_call_during [OF this] show ?case by (simp add: during_def)
next
  case (elsewhere w w')
  then show ?case using books_mono fulfil_log_mono by metis
qed

lemma system_advance:
  assumes "system_reaches n e w"
  shows "orders_advance (pt_orders (pw_db w)) (pt_orders (pw_db (exec_call n e c w)))"
proof -
  have "during is_item_kind fulfil_log {} (pt_orders (pw_db w)) w"
    using system_books [OF assms] by (simp add: during_def)
  from exec_call_during [OF this] show ?thesis by (simp add: during_def)
qed
end
