(* ===== verification/Payment_Settlement.thy ===== *)
theory Payment_Settlement
  imports Payment_System Asset_Properties
begin

text \<open>
  What a payment that goes through does, step by step: the order is marked paid, whoever
  fulfils it is asked once, and the row of the fulfilment gets the reference that comes back.
  From that follow what a buyer of a top-up receives, and what happens to the orders of a
  subscription after the first.
\<close>

section \<open>A payment that goes through\<close>

lemma apply_paid_Inr:
  assumes run: "apply_paid e o1 ev now w = (Inr u, w')"
    and st: "po_Status o1 \<in> {OrderStatusCreated, OrderStatusPaying}"
    and none: "\<And>g. g \<in> set (pt_fulfillments (pw_db w)) \<Longrightarrow> (fu_ProjectID g, fu_OrderID g) \<noteq> order_key o1"
  obtains paid i ref x now' where "settle_check ev o1 = (Inr () :: 'e pay_err + unit)"
    and "order_transition (o1\<lparr>po_ProviderOrderID :=
            (if cb_ProviderOrderID ev \<noteq> '''' \<and> po_ProviderOrderID o1 = ''''
             then cb_ProviderOrderID ev else po_ProviderOrderID o1)\<rparr>) OrderStatusPaid now = Some paid"
    and "pe_Fulfill (e :: ('x, 'e) pay_env) paid (pw_ext w) = (Inr ref, x)" and "pw_ext w' = x"
    and "pt_orders (pw_db w') = map (\<lambda>r. if order_key r = order_key paid \<and> po_Status r = po_Status o1
          then order_columns paid r else r) (pt_orders (pw_db w))"
    and "pt_fulfillments (pw_db w') = pt_fulfillments (pw_db w) @ [(fulfillment_for paid i now)
          \<lparr>fu_Status := FulfillmentDone, fu_Ref := (if ref = '''' then ''order:'' @ po_ID paid else ref), fu_UpdatedAt := now'\<rparr>]"
    and "fulfillments_ok (pt_fulfillments (pw_db w'))"
proof -
  let ?f = "o1\<lparr>po_ProviderOrderID :=
            (if cb_ProviderOrderID ev \<noteq> '''' \<and> po_ProviderOrderID o1 = ''''
             then cb_ProviderOrderID ev else po_ProviderOrderID o1)\<rparr>"
  obtain paid w1 w2 w3 w4 i w5 ex ins w6 w7 where chk: "settle_check ev o1 = (Inr () :: 'e pay_err + unit)"
    and t: "order_transition ?f OrderStatusPaid now = Some paid"
    and 1: "order_update e paid (po_Status o1) w1 = (Inr (), w2)" and w1: "w1 = w"
    and 2: "upsert_provider_index e (po_Provider paid) kind_payment_session
              (cb_ProviderSessionID ev) (po_ProjectID paid) w2 = (Inr (), w3)"
    and 3: "upsert_provider_index e (po_Provider paid) kind_payment_order
              (cb_ProviderOrderID ev) (po_ProjectID paid) w3 = (Inr (), w4)"
    and 4: "pay_new_id e w4 = (Inr i, w5)"
    and 5: "fulfillment_insert_pending e (fulfillment_for paid i now) w5 = (Inr (ex, ins), w6)"
    and 6: "(if ins then fulfill_and_mark e paid i (''order:'' @ po_ID paid)
                else (case ex of
                    Some f \<Rightarrow> if fu_Status f = FulfillmentPending
                      then fulfillment_mark_done e (po_ProjectID paid) (fu_ID f) (fu_Ref f) else tx_ret ()
                  | None \<Rightarrow> tx_ret ())) w6 = (Inr (), w7)"
    and 7: "order_publish e paid EventOrderPaid now w7 = (Inr u, w')"
    using run st unfolding apply_paid_def
    by (cases "order_transition ?f OrderStatusPaid now") (auto elim!: tx_bind_InrE tx_lift_InrE simp: tx_simps)
  have p: "order_key paid = order_key o1" "po_ID paid = po_ID o1" "po_ProjectID paid = po_ProjectID o1"
    using order_transition_SomeD(2) [OF t] by (simp_all add: order_key_def)
  have c: "core w3 = core w2" "core w4 = core w3" "core w5 = core w4" "core w' = core w7"
    using keeps_coreD [OF core_upsert 2] keeps_coreD [OF core_upsert 3] keeps_coreD [OF core_new_id 4]
      keeps_coreD [OF core_publish 7] by blast+
  note u = order_update_Inr [OF 1 [unfolded w1]]
  have f5: "pt_fulfillments (pw_db w5) = pt_fulfillments (pw_db w)" "pw_ext w5 = pw_ext w"
    "pt_orders (pw_db w5) = pt_orders (pw_db w2)"
    using c u(3,4) by (simp_all add: core_def)
  have n5: "(fu_ProjectID g, fu_OrderID g) \<noteq> (fu_ProjectID (fulfillment_for paid i now), fu_OrderID (fulfillment_for paid i now))"
    if "g \<in> set (pt_fulfillments (pw_db w5))" for g
    using none [of g] that p unfolding f5 by (simp add: fulfillment_for_def order_key_def)
  note ins = fulfillment_insert_Inr [OF 5 n5, simplified]
  define ref0 where "ref0 = ''order:'' @ po_ID paid"
  have "fulfill_and_mark e paid i ref0 w6 = (Inr (), w7)" using 6 ins(1) by (simp add: ref0_def)
  then obtain ref w8 now' w9 where 8: "ext_step (pe_Fulfill e paid) w6 = (Inr ref, w8)"
    and 9: "pay_now e w8 = (Inr now', w9)"
    and 10: "fulfillment_set e (po_ProjectID paid) i (\<lambda>f. f\<lparr>fu_Status := FulfillmentDone,
       fu_Ref := (if ref = '''' then ref0 else ref), fu_UpdatedAt := now'\<rparr>) w9 = (Inr (), w7)"
    by (auto simp: fulfill_and_mark_def fulfillment_mark_done_def elim!: tx_bind_InrE)
  obtain x where x: "pe_Fulfill e paid (pw_ext w6) = (Inr ref, x)" "w8 = w6\<lparr>pw_ext := x\<rparr>"
    using 8 by (auto simp: ext_step_def split: prod.splits)
  have w9: "pw_db w9 = pw_db w6" "pw_ext w9 = x" using 9 x(2) by (auto simp: pay_now_def)
  note s = fulfillment_set_Inr [OF 10]
  have pend: "(fulfillment_for paid i now)\<lparr>fu_Status := FulfillmentPending\<rparr> = fulfillment_for paid i now"
    by (simp add: fulfillment_for_def)
  have f6: "pt_fulfillments (pw_db w6) = pt_fulfillments (pw_db w) @ [fulfillment_for paid i now]"
    using ins(4) pend f5 by simp
  have "fulfillments_ok (pt_fulfillments (pw_db w) @ [fulfillment_for paid i now])" using ins(5) f6 by simp
  from set_last [OF this] have f7: "pt_fulfillments (pw_db w7) = pt_fulfillments (pw_db w) @ [(fulfillment_for paid i now)
      \<lparr>fu_Status := FulfillmentDone, fu_Ref := (if ref = '''' then ref0 else ref), fu_UpdatedAt := now'\<rparr>]"
    using s(1) unfolding w9 f6 by (simp add: fulfillment_for_def)
  show ?thesis
  proof (rule that [OF chk t])
    show "pe_Fulfill e paid (pw_ext w) = (Inr ref, x)" using x(1) ins(3) f5 by simp
    show "pw_ext w' = x" using c(4) s(4) w9 by (simp add: core_def)
    show "pt_orders (pw_db w') = map (\<lambda>r. if order_key r = order_key paid \<and> po_Status r = po_Status o1
          then order_columns paid r else r) (pt_orders (pw_db w))"
      using c(4) s(3) w9 ins(2) f5(3) u(1) by (simp add: core_def)
    show "pt_fulfillments (pw_db w') = pt_fulfillments (pw_db w) @ [(fulfillment_for paid i now)
          \<lparr>fu_Status := FulfillmentDone, fu_Ref := (if ref = '''' then ''order:'' @ po_ID paid else ref), fu_UpdatedAt := now'\<rparr>]"
      using c(4) f7 by (simp add: core_def ref0_def)
    show "fulfillments_ok (pt_fulfillments (pw_db w'))" using c(4) s(2) by (simp add: core_def)
  qed
qed


section \<open>A callback that finds its order\<close>

lemma drive_order_paid:
  assumes "drive_order e ev now p i w = (Inr u, w')" and "cb_Type ev = CallbackPaid"
    and "order_row (pt_orders (pw_db w)) (p, i) = Some o1"
  shows "\<exists>w1. core w1 = core w \<and> apply_paid e o1 ev now w1 = (Inr u, w')"
proof -
  obtain row w1 where g: "order_get e p i w = (Inr row, w1)"
    and m: "(case row of None \<Rightarrow> tx_ret ()
     | Some locked \<Rightarrow> (case cb_Type ev of
         CallbackPaid \<Rightarrow> apply_paid e locked ev now
       | CallbackFailed \<Rightarrow> apply_terminal e locked OrderStatusFailed now
       | CallbackRefunded \<Rightarrow> apply_refunded e locked ev now
       | _ \<Rightarrow> tx_ret ())) w1 = (Inr u, w')"
    using assms(1) unfolding drive_order_def by (elim tx_bind_InrE)
  from order_get_valid [OF g] m assms(2,3) show ?thesis by auto
qed

lemma order_row_updated:
  assumes "distinct (map order_key os)" and "order_row os k = Some o1" and "updates o1 o2"
  shows "order_row (map (\<lambda>r. if order_key r = order_key o2 \<and> po_Status r = po_Status o1
      then order_columns o2 r else r) os) k = Some o2"
proof -
  have "order_row (map (\<lambda>r. if r = o1 then o2 else r) os) k = map_option (\<lambda>r. if r = o1 then o2 else r) (order_row os k)"
    by (rule order_row_map) (use assms(3) in \<open>simp add: updates_def\<close>)
  then show ?thesis unfolding updated_table [OF assms] assms(2) by simp
qed

section \<open>What the buyer of a top-up receives\<close>

lemma grant_in_run:
  assumes run: "grant_in e sc cmd a = (Inr r, a')" and ok: "world_ok e a" and q: "is_i64 (gc_Quantity cmd)"
    and ot: "gc_OwnerType cmd = OwnerTypeUser"
    and new: "(sc_ProjectID sc, trim_space (gc_IdempotencyKey cmd)) \<notin> ledger_keys a"
  shows "\<exists>d. def_of_code a (sc_ProjectID sc) (gc_DefCode cmd) d \<and> (\<forall>b. owned (w_db a') b = owned (w_db a) b +
      (if b = (sc_ProjectID sc, OwnerTypeUser, gc_OwnerID cmd, d_ID d) then gc_Quantity cmd else 0))"
proof -
  from run obtain code where code: "validate_code (gc_DefCode cmd) = Inr code"
    and b: "grant_body e sc cmd OwnerTypeUser (trim_space (gc_IdempotencyKey cmd)) code a = (Inr r, a')"
    unfolding grant_in_def
    by (elim tx_elims) (auto simp: prepare_write_Inr validate_idempotency_key_Inr ot normalize_owner_type_def)
  from grant_body_run [OF b ok q] new obtain en d where en: "t_ledger (w_db a') = t_ledger (w_db a) @ [en]"
      "e_Delta en = gc_Quantity cmd" "entry_account en = (sc_ProjectID sc, OwnerTypeUser, gc_OwnerID cmd, d_ID d)"
    and d: "def_of_code a (sc_ProjectID sc) (gc_DefCode cmd) d" and br: "book_run e a a'"
    by (auto simp: ledger_keys_def def_of_code_def code)
  have "book_ok (w_db a)" "book_ok (w_db a')"
    using ok book_run_world_ok [OF br ok] by (simp_all add: world_ok_def)
  from owned_append_one [OF this en(1)] en(2,3) d show ?thesis by auto
qed

lemma topup_fulfil_run:
  assumes run: "composite_fulfill n o1 x = (Inr ref, x')" and k: "po_PurposeKind o1 = PurposeTopup"
    and code: "parse_purpose (po_Purpose o1) True = Inr (code, qty)"
    and ok: "world_ok (sn_assets n) (sw_assets x)" and q: "is_i64 (po_Amount o1)"
    and new: "order_key o1 \<notin> fulfil_log x"
  shows "\<exists>d. def_of_code (sw_assets x) (po_ProjectID o1) code d \<and>
    (\<forall>b. owned (w_db (sw_assets x')) b = owned (w_db (sw_assets x)) b +
      (if b = (po_ProjectID o1, OwnerTypeUser, po_UserID o1, d_ID d) then po_Amount o1 else 0))"
proof -
  have "grant_from_purpose n o1 True x = (Inr ref, x')"
    using run k by (simp add: composite_fulfill_def items_fulfill_def)
  then obtain cmd r where g: "asset_step (grant_in (sn_assets n) (sys_scope n (po_ProjectID o1)) cmd) x = (Inr r, x')"
    and cmd: "gc_IdempotencyKey cmd = ''fulfill:'' @ po_ID o1" "gc_Quantity cmd = po_Amount o1"
      "gc_OwnerType cmd = OwnerTypeUser" "gc_OwnerID cmd = po_UserID o1" "gc_DefCode cmd = code"
    unfolding grant_from_purpose_def sub_grant_def code by (elim tx_elims) (auto simp: tx_simps)
  from g obtain a where a: "grant_in (sn_assets n) (sys_scope n (po_ProjectID o1)) cmd (sw_assets x) = (Inr r, a)"
    and x': "x' = x\<lparr>sw_assets := a\<rparr>"
    by (auto simp: asset_step_def split: prod.splits sum.splits)
  have "(sc_ProjectID (sys_scope n (po_ProjectID o1)), trim_space (gc_IdempotencyKey cmd)) \<notin> ledger_keys (sw_assets x)"
    using new by (simp add: fulfil_log_def order_key_def sys_scope_def cmd(1))
  from grant_in_run [OF a ok _ cmd(3) this] q show ?thesis
    unfolding cmd by (simp add: x' sys_scope_def)
qed

section \<open>The second order of a subscription\<close>

lemma fulfill_paid_order_ref:
  assumes "fulfill_paid_order n o1 x = (Inr ref, x')" and "parse_subscription_purpose (po_Purpose o1) = Inr subID"
  shows "ref = ''subscription:'' @ subID"
  using assms
  by (auto simp: fulfill_paid_order_def sub_get_def tx_simps find_Some_iff sub_key_def sub_read_def sub_op_def Let_def
      split: option.splits if_splits)

text \<open>
  The reference of a fulfilment is unique in its project, and every order of a subscription
  gets the same one.
\<close>

lemma second_order_fails:
  assumes run: "apply_paid (wired n e) o1 ev now w = (r, w')"
    and st: "po_Status o1 \<in> {OrderStatusCreated, OrderStatusPaying}"
    and none: "\<And>g. g \<in> set (pt_fulfillments (pw_db w)) \<Longrightarrow> (fu_ProjectID g, fu_OrderID g) \<noteq> order_key o1"
    and k: "po_PurposeKind o1 = PurposeSubscription" "parse_subscription_purpose (po_Purpose o1) = Inr subID"
    and f: "f \<in> set (pt_fulfillments (pw_db w))" "fu_ProjectID f = po_ProjectID o1"
      "fu_Ref f = ''subscription:'' @ subID"
  shows "\<exists>err. r = Inl err"
proof (cases r)
  case (Inr u)
  obtain paid i ref x now' where t: "order_transition (o1\<lparr>po_ProviderOrderID :=
            (if cb_ProviderOrderID ev \<noteq> '''' \<and> po_ProviderOrderID o1 = ''''
             then cb_ProviderOrderID ev else po_ProviderOrderID o1)\<rparr>) OrderStatusPaid now = Some paid"
    and fu: "pe_Fulfill (wired n e) paid (pw_ext w) = (Inr ref, x)"
    and fs: "pt_fulfillments (pw_db w') = pt_fulfillments (pw_db w) @ [(fulfillment_for paid i now)
          \<lparr>fu_Status := FulfillmentDone, fu_Ref := (if ref = '''' then ''order:'' @ po_ID paid else ref), fu_UpdatedAt := now'\<rparr>]"
    and ok: "fulfillments_ok (pt_fulfillments (pw_db w'))"
    by (rule apply_paid_Inr [OF run [unfolded Inr] st none])
  have p: "po_PurposeKind paid = po_PurposeKind o1" "po_Purpose paid = po_Purpose o1" "po_ProjectID paid = po_ProjectID o1"
    using order_transition_SomeD(2) [OF t] by simp_all
  have "fulfill_paid_order n paid (pw_ext w) = (Inr ref, x)"
    using fu k p by (simp add: wired_def composite_fulfill_def)
  from fulfill_paid_order_ref [OF this] k p have "ref = ''subscription:'' @ subID" by simp
  then have "\<not> fulfillments_ok (pt_fulfillments (pw_db w'))"
    using f p unfolding fs by (auto simp: fulfillments_ok_def fulfillment_for_def image_iff intro!: bexI [of _ f])
  with ok show ?thesis by simp
qed simp

section \<open>The first order of a subscription\<close>

text \<open>Granting benefits leaves the tables of subscriptions alone.\<close>

definition keeps_subs :: "'a stx \<Rightarrow> bool" where
  "keeps_subs m \<longleftrightarrow> (\<forall>x r x'. m x = (r, x') \<longrightarrow> st_subs (sw_db x') = st_subs (sw_db x))"

lemma keeps_subsD: "keeps_subs m \<Longrightarrow> m x = (r, x') \<Longrightarrow> st_subs (sw_db x') = st_subs (sw_db x)"
  by (simp add: keeps_subs_def)

lemma keeps_subs_intros:
  "keeps_subs m \<Longrightarrow> (\<And>a. keeps_subs (f a)) \<Longrightarrow> keeps_subs (tx_bind m f)"
  "keeps_subs (tx_ret b)" "keeps_subs (asset_step k)" "keeps_subs (sub_now n)" "keeps_subs (sub_new_id n)"
  "keeps_subs (sub_read n g)"
  "keeps_subs m1 \<Longrightarrow> (\<And>z. keeps_subs (f1 z)) \<Longrightarrow> keeps_subs (case y of None \<Rightarrow> m1 | Some z \<Rightarrow> f1 z)"
  "keeps_subs m2 \<Longrightarrow> keeps_subs m3 \<Longrightarrow> keeps_subs (if c then m2 else m3)"
proof -
  show "keeps_subs m \<Longrightarrow> (\<And>a. keeps_subs (f a)) \<Longrightarrow> keeps_subs (tx_bind m f)"
    by (fastforce simp: keeps_subs_def tx_bind_def split: prod.splits sum.splits)
qed (auto simp: keeps_subs_def tx_ret_def asset_step_def sub_now_def sub_new_id_def sub_read_def sub_op_def Let_def
    split: prod.splits sum.splits option.splits)

lemma keeps_subs_benefits: "keeps_subs (fulfill_benefits n s pe)"
proof -
  have g: "keeps_subs (fulfill_grants n s pk now i gs)" for pk now i gs
  proof (induction gs arbitrary: i)
    case (Cons y ys)
    show ?case unfolding fulfill_grants.simps sub_grant_def by (intro keeps_subs_intros Cons.IH)
  qed (simp add: keeps_subs_intros)
  have x: "keeps_subs (fulfill_entitlements n s pe pk i xs)" for pk i xs
  proof (induction xs arbitrary: i)
    case (Cons y ys)
    show ?case
      unfolding fulfill_entitlements.simps entitlement_step_def sub_grant_def by (intro keeps_subs_intros Cons.IH)
  qed (simp add: keeps_subs_intros)
  show ?thesis unfolding fulfill_benefits_def Let_def by (intro keeps_subs_intros g x)
qed

lemma keeps_subs_publish: "keeps_subs (sub_publish n s k now)"
proof -
  have w: "keeps_subs (sub_write n (\<lambda>db. Inr ((), db\<lparr>st_outbox := f db\<rparr>)))" for f
    by (auto simp: keeps_subs_def sub_write_def sub_op_def Let_def)
  show ?thesis unfolding sub_publish_def by (intro keeps_subs_intros w)
qed

lemma sub_update_Inr:
  assumes "sub_update n s1 expect x = (Inr u, x')" and "r \<in> set (st_subs (sw_db x))"
    and "sub_key r = sub_key s1" "su_Status r = expect"
  shows "sub_columns s1 r \<in> set (st_subs (sw_db x'))"
  using assms
  by (auto simp: sub_update_def sub_write_def sub_op_def Let_def image_iff split: if_splits intro!: bexI [of _ r])

lemma apply_success_sub:
  assumes run: "apply_success n s pl now x = (Inr u, x')" and period: "next_period s pl now = Some (from, till)"
    and s: "s \<in> set (st_subs (sw_db x))"
  shows "\<exists>r \<in> set (st_subs (sw_db x')). sub_key r = sub_key s \<and> su_Status r = StatusActive \<and>
    su_CurrentPeriodStart r = from \<and> su_CurrentPeriodEnd r = till"
proof -
  obtain s1 where s1: "sub_transition s StatusActive now = Some s1"
    using run unfolding apply_success_def period by (cases "sub_transition s StatusActive now") (auto simp: tx_fail_def)
  define s2 where "s2 = s1\<lparr>su_CurrentPeriodStart := from, su_CurrentPeriodEnd := till, su_GraceUntil := None\<rparr>"
  obtain x1 x2 where 1: "fulfill_benefits n s2 till x = (Inr (), x1)"
    and 2: "sub_update n s2 (su_Status s) x1 = (Inr (), x2)"
    and 3: "sub_publish n s2 (if su_Status s = StatusTrialing then EventActivated else EventRenewed) now x2 = (Inr u, x')"
    using run unfolding apply_success_def period s1 s2_def by (auto simp: Let_def elim!: tx_bind_InrE)
  have k: "sub_key s2 = sub_key s" "su_Status s2 = StatusActive"
    using s1 by (auto simp: s2_def sub_transition_def sub_key_def Let_def split: if_splits)
  have "sub_columns s2 s \<in> set (st_subs (sw_db x2))"
    using sub_update_Inr [OF 2] s keeps_subsD [OF keeps_subs_benefits 1] k by simp
  then have "sub_columns s2 s \<in> set (st_subs (sw_db x'))"
    using keeps_subsD [OF keeps_subs_publish 3] by simp
  then show ?thesis
    using k by (intro bexI [of _ "sub_columns s2 s"]) (auto simp: sub_columns_def sub_key_def s2_def)
qed

lemma sub_read_Inr:
  "sub_read n g x = (Inr a, x') \<Longrightarrow> a = g (sw_db x) \<and> sw_db x' = sw_db x \<and> sw_ticks x' = sw_ticks x"
  by (auto simp: sub_read_def sub_op_def Let_def split: if_splits)

lemma fulfill_trialing:
  assumes run: "fulfill_paid_order n o1 x = (Inr ref, x')"
    and p: "parse_subscription_purpose (po_Purpose o1) = Inr (su_ID s)" and st: "su_Status s = StatusTrialing"
    and s: "find (\<lambda>r. sub_key r = (po_ProjectID o1, su_ID s)) (st_subs (sw_db x)) = Some s"
    and pl: "find (\<lambda>r. plan_key r = (su_ProjectID s, su_PlanID s)) (st_plans (sw_db x)) = Some pl"
  shows "\<exists>x1. sw_db x1 = sw_db x \<and> apply_success n s pl (sn_clock n (sw_ticks x)) x1 = (Inr (), x')"
proof -
  let ?ref = "tx_ret (''subscription:'' @ su_ID s) :: string stx"
  let ?paid = "\<lambda>pl now. if su_Status s = StatusActive \<and> \<not> period_due s now then ?ref
      else tx_bind (apply_success n s pl now) (\<lambda>_. ?ref)"
  obtain row x1 where 1: "sub_get n (po_ProjectID o1) (su_ID s) x = (Inr row, x1)"
    and rest: "(case row of None \<Rightarrow> tx_fail (PayStatus NotFound)
     | Some s \<Rightarrow> tx_when (su_UserID s \<noteq> po_UserID o1) (PayStatus FailedPrecondition) (
     if sub_is_terminal (su_Status s) then tx_ret (''subscription:'' @ su_ID s)
     else tx_bind (plan_get n (su_ProjectID s) (su_PlanID s)) (\<lambda>prow. case prow of
       None \<Rightarrow> tx_fail (PayStatus NotFound)
     | Some pl \<Rightarrow> tx_bind (sub_now n) (\<lambda>now.
     if su_Status s = StatusActive \<and> \<not> period_due s now then tx_ret (''subscription:'' @ su_ID s)
     else tx_bind (apply_success n s pl now) (\<lambda>_. tx_ret (''subscription:'' @ su_ID s)))))) x1 = (Inr ref, x')"
    using run unfolding fulfill_paid_order_def p by (elim tx_bind_InrE tx_lift_InrE) auto
  have live: "\<not> sub_is_terminal (su_Status s)" using st by (simp add: sub_is_terminal_def)
  have r1: "row = Some s" "sw_db x1 = sw_db x" "sw_ticks x1 = sw_ticks x"
    using sub_read_Inr [OF 1 [unfolded sub_get_def]] s by simp_all
  have "tx_bind (plan_get n (su_ProjectID s) (su_PlanID s)) (\<lambda>prow. case prow of
       None \<Rightarrow> tx_fail (PayStatus NotFound) | Some pl \<Rightarrow> tx_bind (sub_now n) (?paid pl)) x1 = (Inr ref, x')"
    using rest unfolding r1 option.case if_not_P [OF live] by (elim tx_when_InrE)
  then obtain prow x2 where 2: "plan_get n (su_ProjectID s) (su_PlanID s) x1 = (Inr prow, x2)"
    and rest2: "(case prow of None \<Rightarrow> tx_fail (PayStatus NotFound) | Some pl \<Rightarrow> tx_bind (sub_now n) (?paid pl)) x2
      = (Inr ref, x')"
    by (rule tx_bind_InrE)
  have r2: "prow = Some pl" "sw_db x2 = sw_db x" "sw_ticks x2 = sw_ticks x"
    using sub_read_Inr [OF 2 [unfolded plan_get_def]] pl r1 by simp_all
  from rest2 obtain now x3 where 3: "sub_now n x2 = (Inr now, x3)" and rest3: "?paid pl now x3 = (Inr ref, x')"
    unfolding r2 option.case by (rule tx_bind_InrE)
  have "tx_bind (apply_success n s pl now) (\<lambda>_. ?ref) x3 = (Inr ref, x')" using rest3 st by simp
  then obtain u x4 where "apply_success n s pl now x3 = (Inr u, x4)" "x4 = x'"
    by (auto elim!: tx_bind_InrE tx_ret_InrE)
  moreover have "now = sn_clock n (sw_ticks x)" "sw_db x3 = sw_db x" using 3 r2 by (auto simp: sub_now_def)
  ultimately show ?thesis by auto
qed

section \<open>Receipts and forms\<close>

text \<open>Orders and fulfilments stay as they are, whatever the result.\<close>

definition keeps_orders :: "('x, 'e, 'a) ptx \<Rightarrow> bool" where
  "keeps_orders m \<longleftrightarrow> (\<forall>w r w'. m w = (r, w') \<longrightarrow> pt_orders (pw_db w') = pt_orders (pw_db w) \<and>
     pt_fulfillments (pw_db w') = pt_fulfillments (pw_db w))"

lemma keeps_ordersD: "keeps_orders m \<Longrightarrow> pt_orders (pw_db (snd (m w))) = pt_orders (pw_db w) \<and>
    pt_fulfillments (pw_db (snd (m w))) = pt_fulfillments (pw_db w)"
  unfolding keeps_orders_def by (metis prod.collapse)

lemma keeps_orders_core: "keeps_core m \<Longrightarrow> keeps_orders m"
  unfolding keeps_orders_def keeps_core_def core_def by (metis (no_types, lifting) Pair_inject)

lemma keeps_orders_bind: "keeps_orders m \<Longrightarrow> (\<And>a. keeps_orders (f a)) \<Longrightarrow> keeps_orders (tx_bind m f)"
  unfolding keeps_orders_def tx_bind_def by (fastforce split: prod.splits sum.splits)

lemma keeps_orders_cases:
  "keeps_orders m1 \<Longrightarrow> keeps_orders m2 \<Longrightarrow> keeps_orders (if c then m1 else m2)"
  "keeps_orders m \<Longrightarrow> (\<And>y. keeps_orders (f y)) \<Longrightarrow> keeps_orders (case x of None \<Rightarrow> m | Some y \<Rightarrow> f y)"
  "(\<And>y z. keeps_orders (g y z)) \<Longrightarrow> keeps_orders (case p of (y, z) \<Rightarrow> g y z)"
  "keeps_orders n \<Longrightarrow> keeps_orders (tx_when d err n)"
  by (auto simp: tx_when_def keeps_orders_core core_fail split: option.splits prod.splits)

lemma unmarshalled_callback_fails:
  "\<not> raw_marshals (cb_Raw ev) \<Longrightarrow> callback_insert_if_absent e ev p i w = (Inl EncodingError, w)"
  by (simp add: callback_insert_if_absent_def tx_when_def tx_fail_def)

lemma unmarshalled_transaction:
  assumes "\<not> raw_marshals (cb_Raw ev)"
  shows "keeps_orders (pay_run e (tx_bind (callback_insert_if_absent e ev p i) f))"
  by (auto simp: keeps_orders_def pay_run_def Let_def tx_bind_def unmarshalled_callback_fails [OF assms] split: if_splits)

lemma unmarshalled_receipt: "\<not> raw_marshals receipt \<Longrightarrow> keeps_orders (verify_receipt e pr i receipt)"
proof -
  assume n: "\<not> raw_marshals receipt"
  have s: "keeps_orders (pay_run e (settle_receipt e p v o1 receipt now))" for p v o1 now
    unfolding settle_receipt_def Let_def by (rule unmarshalled_transaction) (simp add: receipt_event_def n)
  have again: "keeps_orders (case again of
       Inr (Some b2) \<Rightarrow>
         if po_ID b2 \<noteq> po_ID latest \<and> po_UserID b2 = u \<and> po_ProjectID b2 = p
         then tx_ret \<lparr>vr_Order = b2, vr_TransactionID = vp_TransactionID v, vr_IdempotentReplay = True\<rparr>
         else tx_ret \<lparr>vr_Order = latest, vr_TransactionID = vp_TransactionID v, vr_IdempotentReplay = False\<rparr>
     | _ \<Rightarrow> tx_ret \<lparr>vr_Order = latest, vr_TransactionID = vp_TransactionID v,
         vr_IdempotentReplay = False\<rparr>)" for again latest u p v
    by (auto split: sum.split option.split intro: keeps_orders_core core_ret)
  show ?thesis
    unfolding verify_receipt_def
    by (intro keeps_orders_bind keeps_orders_cases s again; (intro keeps_orders_core core_kept)?)
qed

lemma unmarshalled_event: "\<not> raw_marshals (cb_Raw ev) \<Longrightarrow> keeps_orders (handle_order_event e ev)"
  unfolding handle_order_event_def
  by (intro keeps_orders_bind keeps_orders_cases unmarshalled_transaction; (intro keeps_orders_core core_kept)?)

end
