(* ===== verification/Payment_Properties.thy ===== *)
theory Payment_Properties
  imports Payment_Settlement
begin

text \<open>
  The properties of payments and subscriptions as one system, each with a witness: a user who
  buys 500 of a currency, and one who subscribes to a plan and pays for its second month.
\<close>

section \<open>A system to run\<close>

definition demo_stripe :: "sub_err pay_provider" where
  "demo_stripe = \<lparr>pv_Name = ''stripe'',
     pv_CreatePayment = (\<lambda>_ o1. Inr \<lparr>ps_SessionID = ''cs_'' @ po_ID o1, ps_PaymentURL = ''https://pay'',
       ps_ProviderOrderID = ''''\<rparr>),
     pv_VerifyCallback = (\<lambda>request. Inr \<lparr>cb_Provider = ''stripe'', cb_ProviderEventID = ''evt_'' @ request,
       cb_ProviderSessionID = '''', cb_ProviderOrderID = '''', cb_Type = CallbackPaid, cb_Amount = 500,
       cb_Currency = '''', cb_OrderID = request, cb_ReceivedAt = None, cb_ProviderSubID = '''',
       cb_LocalSubscriptionID = '''', cb_PeriodStart = None, cb_PeriodEnd = None,
       cb_CancelAtPeriodEnd = False, cb_HostedStatus = '''', cb_MetadataProjectID = '''', cb_Raw = ''''\<rparr>),
     pv_Refund = (\<lambda>_ _ _. Inr True), pv_VerifyReceipt = None\<rparr>"

definition demo_pay :: "(sub_world, sub_err) pay_env" where
  "demo_pay = \<lparr>pe_clock = (\<lambda>k. (1700000000 + int k) * sec), pe_id = (\<lambda>k. ''o'' @ itoa k),
     pe_fails = (\<lambda>_. False), pe_undo = (\<lambda>_ x. x),
     pe_providers = (\<lambda>name. if name = ''stripe'' then Some demo_stripe else None),
     pe_Fulfill = (\<lambda>_. tx_ret ''''), pe_Reverse = (\<lambda>_. tx_ret ()), pe_Hosted = (\<lambda>_. tx_ret ()),
     pe_db_err = (\<lambda>_. False)\<rparr>"

definition demo_subs :: sub_env where
  "demo_subs = \<lparr>sn_clock = (\<lambda>k. (1700000000 + int k) * sec), sn_id = (\<lambda>k. ''s'' @ itoa k),
     sn_fails = (\<lambda>_. False), sn_assets = demo_env, sn_operator = None, sn_hosted = None, sn_events = True\<rparr>"

definition demo_plan :: plan where
  "demo_plan = \<lparr>pn_ID = ''plan1'', pn_ProjectID = ''p1'', pn_Code = ''gold_monthly'', pn_Name = ''Gold'',
     pn_Amount = 500, pn_Currency = ''USD'', pn_Interval = IntervalMonth, pn_IntervalDays = 0,
     pn_GraceDays = 3, pn_TrialDays = 0, pn_Benefits = \<lparr>bn_Grants = [], bn_Entitlements = []\<rparr>,
     pn_StripePriceID = '''', pn_Status = PlanStatusActive, pn_CreatedAt = 0, pn_UpdatedAt = 0\<rparr>"

definition demo_shop :: "sub_world pay_world" where
  "demo_shop = \<lparr>pw_db = \<lparr>pt_orders = [], pt_callbacks = [], pt_fulfillments = [], pt_index = [], pt_outbox = []\<rparr>,
     pw_ext = \<lparr>sw_db = \<lparr>st_plans = [demo_plan], st_subs = [], st_outbox = []\<rparr>,
       sw_assets = init_world [demo_def ClassStack ''gold'' None], sw_ids = 0, sw_ticks = 0, sw_ops = 0\<rparr>,
     pw_ids = 0, pw_ticks = 0, pw_ops = 0\<rparr>"

definition demo_buyer :: "principal option" where
  "demo_buyer = Some \<lparr>pr_ProjectID = ''p1'', pr_UserID = ''ann'', pr_ActorKind = ActorKindOther\<rparr>"

definition demo_topup :: system_call where
  "demo_topup = CreateOrder demo_buyer \<lparr>co_Provider = ''stripe'', co_Amount = 500, co_Currency = ''usd'',
     co_PurposeKind = PurposeTopup, co_Purpose = [(''currency_code'', JString ''gold''), (''amount'', JInt 500)],
     co_IdempotencyKey = ''k1'', co_ExpiresIn = 0\<rparr>"

text \<open>The top-up ordered, and paid.\<close>

definition demo_ordered :: "sub_world pay_world" where
  "demo_ordered = exec_call demo_subs demo_pay demo_topup demo_shop"

definition demo_paid :: "sub_world pay_world" where
  "demo_paid = exec_call demo_subs demo_pay (HandleCallback ''stripe'' ''o0'') demo_ordered"

lemma demo_shop_reached: "system_reaches demo_subs demo_pay demo_shop"
  by (rule system_reaches.start) (simp_all add: demo_shop_def)

lemma demo_ordered_reached: "system_reaches demo_subs demo_pay demo_ordered"
  unfolding demo_ordered_def by (rule system_reaches.call [OF demo_shop_reached])

lemma demo_paid_reached: "system_reaches demo_subs demo_pay demo_paid"
  unfolding demo_paid_def by (rule system_reaches.call [OF demo_ordered_reached])

section \<open>Orders\<close>

text \<open>
  C36. Every public call of the payment and the subscription service and every scan of their
  workers, successful or not, takes each order along its life cycle: it is placed unpaid with
  a positive amount, then dropped or settled, and a settled order may be refunded. Its terms
  (buyer, amount, currency, purpose, validity) never change.
\<close>

theorem orders_follow_life_cycle:
  assumes "system_reaches n e w"
  shows "order_step\<^sup>*\<^sup>* (order_view (pt_orders (pw_db w)) k) (order_view (pt_orders (pw_db (exec_call n e c w))) k)"
  using system_advance [OF assms] unfolding orders_advance_def by blast

theorem orders_follow_life_cycle_witness:
  "order_step\<^sup>*\<^sup>* (order_view (pt_orders (pw_db demo_ordered)) (''p1'', ''o0''))
      (order_view (pt_orders (pw_db demo_paid)) (''p1'', ''o0'')) \<and>
   map_option snd (order_view (pt_orders (pw_db demo_ordered)) (''p1'', ''o0'')) = Some Unpaid \<and>
   map_option snd (order_view (pt_orders (pw_db demo_paid)) (''p1'', ''o0'')) = Some Settled"
proof (intro conjI)
  show "order_step\<^sup>*\<^sup>* (order_view (pt_orders (pw_db demo_ordered)) (''p1'', ''o0''))
      (order_view (pt_orders (pw_db demo_paid)) (''p1'', ''o0''))"
    unfolding demo_paid_def by (rule orders_follow_life_cycle [OF demo_ordered_reached])
  show "map_option snd (order_view (pt_orders (pw_db demo_ordered)) (''p1'', ''o0'')) = Some Unpaid"
    by code_simp
  show "map_option snd (order_view (pt_orders (pw_db demo_paid)) (''p1'', ''o0'')) = Some Settled"
    by code_simp
qed


text \<open>
  C37. In every state the system reaches, an order is settled (paid or refunded) exactly if there
  is a fulfilment for it that is done, or marked as a failed reversal of a refunded order; and for
  every settled order for a top-up or an item the asset ledger has a row of the order's project
  under the key \<^verbatim>\<open>fulfill:<id>\<close> made from its id, the key under which the fulfiller grants.
  What that row holds is not part of it (see C39 for the amount that a callback grants), nor is
  anything granted for orders of the other kinds.
\<close>

theorem settled_orders_are_fulfilled:
  assumes "system_reaches n e w" and "o1 \<in> set (pt_orders (pw_db w))"
  shows "(settled o1 \<longleftrightarrow> (\<exists>f \<in> set (pt_fulfillments (pw_db w)). fulfils f o1 \<and> fulfilment_matches f o1)) \<and>
    (settled o1 \<longrightarrow> is_item_kind (po_PurposeKind o1) \<longrightarrow>
      (\<exists>r \<in> set (t_ledger (w_db (sw_assets (pw_ext w)))).
        ledger_key r = (po_ProjectID o1, trim_space (''fulfill:'' @ po_ID o1))))"
proof -
  let ?os = "pt_orders (pw_db w)" and ?fs = "pt_fulfillments (pw_db w)"
  have b: "books is_item_kind {} ?os ?fs (fulfil_log (pw_ext w))" by (rule system_books [OF assms(1)])
  then have d: "distinct (map order_key ?os)" by (simp add: books_def orders_ok_def)
  have one: "fulfils f o1 \<Longrightarrow> f \<in> set ?fs \<Longrightarrow> settled o1 \<and> fulfilment_matches f o1" for f
  proof -
    assume f: "fulfils f o1" "f \<in> set ?fs"
    then obtain o2 where o2: "o2 \<in> set ?os" "fulfils f o2" "settled o2" "fulfilment_matches f o2"
      using b unfolding books_def by blast
    have "order_key o2 = order_key o1" using o2(2) f(1) by (simp add: fulfils_def)
    then have "o2 = o1" using order_row_set [OF d] o2(1) assms(2) by (metis option.inject)
    with o2 show "settled o1 \<and> fulfilment_matches f o1" by simp
  qed
  moreover have "settled o1 \<Longrightarrow> (\<exists>f \<in> set ?fs. fulfils f o1) \<and>
      (is_item_kind (po_PurposeKind o1) \<longrightarrow> order_key o1 \<in> fulfil_log (pw_ext w))"
    using b assms(2) unfolding books_def by blast
  ultimately show ?thesis
    by (auto simp: fulfil_log_def order_key_def ledger_keys_def image_iff eq_commute)
qed

theorem settled_orders_are_fulfilled_witness:
  "\<exists>o1 \<in> set (pt_orders (pw_db demo_paid)). settled o1 \<and>
     (\<exists>r \<in> set (t_ledger (w_db (sw_assets (pw_ext demo_paid)))). ledger_key r = (''p1'', trim_space (''fulfill:'' @ ''o0'')))"
proof -
  have "case order_row (pt_orders (pw_db demo_paid)) (''p1'', ''o0'') of None \<Rightarrow> False
      | Some o1 \<Rightarrow> settled o1 \<and> is_item_kind (po_PurposeKind o1)"
    by code_simp
  then obtain o1 where "order_row (pt_orders (pw_db demo_paid)) (''p1'', ''o0'') = Some o1"
    and s: "settled o1" "is_item_kind (po_PurposeKind o1)"
    by (auto split: option.splits)
  then have o1: "o1 \<in> set (pt_orders (pw_db demo_paid))" "po_ProjectID o1 = ''p1''" "po_ID o1 = ''o0''"
    using order_row_SomeD by (auto simp: order_key_def)
  from settled_orders_are_fulfilled [OF demo_paid_reached o1(1)] s o1 show ?thesis by auto
qed

text \<open>
  C38. After the first paid order of a subscription no other order of it can ever be settled: a
  fulfilment gets the reference \<^verbatim>\<open>subscription:<id>\<close> whatever the order is, the table demands
  that a reference is unique, so the transaction of every further paid callback fails and is
  rolled back. Renewals paid through the channel are taken but never recorded. It is shown for a
  paid callback for an order that is still created or paying, in a state whose books are in order
  (C37 rests on that they are in every state that is reached) and that has a fulfilment with the
  reference of the subscription. Orders already closed or paid are ignored, not failed.
\<close>

theorem renewal_order_never_settles:
  assumes "books is_item_kind {} (pt_orders (pw_db w)) (pt_fulfillments (pw_db w)) (fulfil_log (pw_ext w))"
    and "f \<in> set (pt_fulfillments (pw_db w))" and "fu_ProjectID f = p" and "fu_Ref f = ''subscription:'' @ subID"
    and "order_row (pt_orders (pw_db w)) (p, i) = Some o1"
    and "po_Status o1 \<in> {OrderStatusCreated, OrderStatusPaying}"
    and "po_PurposeKind o1 = PurposeSubscription" and "parse_subscription_purpose (po_Purpose o1) = Inr subID"
    and "cb_Type ev = CallbackPaid"
  shows "\<exists>err w'. drive_order (wired n e) ev now p i w = (Inl err, w')"
proof -
  have o1: "o1 \<in> set (pt_orders (pw_db w))" "order_key o1 = (p, i)" using order_row_SomeD [OF assms(5)] by auto
  have n: "\<not> settled o1" using assms(6) by (auto simp: settled_def)
  obtain r w' where run: "drive_order (wired n e) ev now p i w = (r, w')" by fastforce
  show ?thesis
  proof (cases r)
    case (Inl err)
    with run show ?thesis by blast
  next
    case (Inr u)
    obtain w1 where "core w1 = core w" and paid: "apply_paid (wired n e) o1 ev now w1 = (Inr u, w')"
      using drive_order_paid [OF run [unfolded Inr] assms(9,5)] by blast
    then have c: "pt_fulfillments (pw_db w1) = pt_fulfillments (pw_db w)" by (simp add: core_def)
    have none: "\<And>g. g \<in> set (pt_fulfillments (pw_db w1)) \<Longrightarrow> (fu_ProjectID g, fu_OrderID g) \<noteq> order_key o1"
      using unsettled_no_fulfilment [OF assms(1) o1(1) n] c by simp
    have "\<exists>err. (Inr u :: sub_err pay_err + unit) = Inl err"
      using assms(2-4) o1(2) c
      by (intro second_order_fails [OF paid assms(6) none assms(7,8)]) (auto simp: order_key_def)
    then show ?thesis by simp
  qed
qed

text \<open>A subscription that was paid once, with the order for its second month waiting.\<close>

definition demo_sub_order :: "string \<Rightarrow> order_status \<Rightarrow> gtime option \<Rightarrow> pay_order" where
  "demo_sub_order i st t = \<lparr>po_ID = i, po_ProjectID = ''p1'', po_UserID = ''ann'', po_Provider = ''stripe'',
     po_IdempotencyKey = ''sub:s0:'' @ i, po_ProviderSessionID = ''cs_'' @ i, po_ProviderOrderID = '''',
     po_Amount = 500, po_Currency = ''USD'', po_PurposeKind = PurposeSubscription,
     po_Purpose = purpose_json ''s0'' ''gold_monthly'' i, po_Status = st,
     po_CreatedAt = 0, po_UpdatedAt = 0, po_PaidAt = t, po_ExpiresAt = 24 * hour\<rparr>"

definition demo_contract :: contract where
  "demo_contract = \<lparr>su_ID = ''s0'', su_ProjectID = ''p1'', su_UserID = ''ann'', su_PlanID = ''plan1'',
     su_Mode = ModePlatform, su_Provider = '''', su_ProviderSubID = '''', su_Status = StatusActive,
     su_CurrentPeriodStart = 1690000000 * sec, su_CurrentPeriodEnd = 1695000000 * sec,
     su_CancelAtPeriodEnd = False, su_GraceUntil = None, su_BillingAssetCode = '''',
     su_Benefits = \<lparr>bn_Grants = [], bn_Entitlements = []\<rparr>, su_IdempotencyKey = ''k2'',
     su_CreatedAt = 0, su_UpdatedAt = 0\<rparr>"

definition demo_renewal :: "sub_world pay_world" where
  "demo_renewal = demo_shop\<lparr>pw_db := (pw_db demo_shop)\<lparr>
     pt_orders := [demo_sub_order ''o0'' OrderStatusPaid (Some 1), demo_sub_order ''o3'' OrderStatusPaying None],
     pt_fulfillments := [(fulfillment_for (demo_sub_order ''o0'' OrderStatusPaid (Some 1)) ''f1'' 1)
       \<lparr>fu_Status := FulfillmentDone, fu_Ref := ''subscription:s0''\<rparr>]\<rparr>,
     pw_ext := (pw_ext demo_shop)\<lparr>sw_db := (sw_db (pw_ext demo_shop))\<lparr>st_subs := [demo_contract]\<rparr>\<rparr>\<rparr>"

definition demo_event :: "string \<Rightarrow> callback_event" where
  "demo_event i = (case pv_VerifyCallback demo_stripe i of Inr ev \<Rightarrow> ev)"

lemma demo_renewal_books: "books is_item_kind {} (pt_orders (pw_db demo_renewal)) (pt_fulfillments (pw_db demo_renewal)) L"
proof -
  have "orders_ok (pt_orders (pw_db demo_renewal))" "list_all order_wf (pt_orders (pw_db demo_renewal))"
    "fulfillments_ok (pt_fulfillments (pw_db demo_renewal))"
    by code_simp+
  moreover have "list_all (\<lambda>f. list_ex (\<lambda>o1. fulfils f o1 \<and> settled o1 \<and> fulfilment_matches f o1)
      (pt_orders (pw_db demo_renewal))) (pt_fulfillments (pw_db demo_renewal))"
    by code_simp
  moreover have "list_all (\<lambda>o1. (settled o1 \<longrightarrow> list_ex (\<lambda>f. fulfils f o1) (pt_fulfillments (pw_db demo_renewal))) \<and>
      \<not> is_item_kind (po_PurposeKind o1)) (pt_orders (pw_db demo_renewal))"
    by code_simp
  ultimately show ?thesis unfolding books_def by (auto simp: list_all_iff list_ex_iff)
qed

theorem renewal_order_never_settles_witness:
  "(\<exists>err w'. drive_order (wired demo_subs demo_pay) (demo_event ''o3'') 0 ''p1'' ''o3'' demo_renewal = (Inl err, w'))"
proof -
  let ?o = "demo_sub_order ''o3'' OrderStatusPaying None"
  have o1: "order_row (pt_orders (pw_db demo_renewal)) (''p1'', ''o3'') = Some ?o"
    by (simp add: order_row_def demo_renewal_def demo_sub_order_def order_key_def)
  have p: "parse_subscription_purpose (po_Purpose ?o) = Inr ''s0''" by code_simp
  have "list_ex (\<lambda>f. fu_ProjectID f = ''p1'' \<and> fu_Ref f = ''subscription:'' @ ''s0'') (pt_fulfillments (pw_db demo_renewal))"
    by code_simp
  then obtain f where f: "f \<in> set (pt_fulfillments (pw_db demo_renewal))" "fu_ProjectID f = ''p1''"
    "fu_Ref f = ''subscription:'' @ ''s0''"
    by (auto simp: list_ex_iff)
  have "cb_Type (demo_event ''o3'') = CallbackPaid" by (simp add: demo_event_def demo_stripe_def)
  from renewal_order_never_settles [OF demo_renewal_books f o1 _ _ p this, of demo_subs demo_pay 0]
  show ?thesis by (simp add: demo_sub_order_def)
qed

text \<open>
  C39. A paid callback that goes through for an open top-up settles the order at that time and
  adds exactly the amount of the order to the buyer's account of the asset the purpose names,
  and nothing to any other account. The channel has reported that amount, or a negative one,
  which the code does not compare. The order is still created or paying, its purpose can be
  parsed, its amount is in \<^verbatim>\<open>int64\<close>, the asset tables are well-formed, and the key
  \<^verbatim>\<open>fulfill:<id>\<close> is not used yet.
\<close>

theorem paid_topup_delivers:
  assumes "system_reaches n e w" and "drive_order (wired n e) ev now p i w = (Inr u, w')"
    and "cb_Type ev = CallbackPaid" and "order_row (pt_orders (pw_db w)) (p, i) = Some o1"
    and "po_Status o1 \<in> {OrderStatusCreated, OrderStatusPaying}" and "po_PurposeKind o1 = PurposeTopup"
    and "parse_purpose (po_Purpose o1) True = Inr (code, qty)" and "is_i64 (po_Amount o1)"
    and "world_ok (sn_assets n) (sw_assets (pw_ext w))" and "(p, i) \<notin> fulfil_log (pw_ext w)"
  shows "\<exists>o2 d. order_row (pt_orders (pw_db w')) (p, i) = Some o2 \<and> po_Status o2 = OrderStatusPaid \<and>
    po_PaidAt o2 = Some now \<and> (cb_Amount ev = po_Amount o1 \<or> cb_Amount ev < 0) \<and>
    def_of_code (sw_assets (pw_ext w)) p code d \<and>
    (\<forall>b. owned (w_db (sw_assets (pw_ext w'))) b = owned (w_db (sw_assets (pw_ext w))) b +
      (if b = (p, OwnerTypeUser, po_UserID o1, d_ID d) then po_Amount o1 else 0))"
proof -
  have o1: "o1 \<in> set (pt_orders (pw_db w))" "order_key o1 = (p, i)" using order_row_SomeD [OF assms(4)] by auto
  have bk: "books is_item_kind {} (pt_orders (pw_db w)) (pt_fulfillments (pw_db w)) (fulfil_log (pw_ext w))"
    by (rule system_books [OF assms(1)])
  have n: "\<not> settled o1" using assms(5) by (auto simp: settled_def)
  have wf: "order_wf o1" by (rule books_wf [OF bk o1(1)])
  obtain w1 where c: "core w1 = core w" and paid: "apply_paid (wired n e) o1 ev now w1 = (Inr u, w')"
    using drive_order_paid [OF assms(2,3,4)] by blast
  have none: "(fu_ProjectID g, fu_OrderID g) \<noteq> order_key o1" if "g \<in> set (pt_fulfillments (pw_db w1))" for g
    using unsettled_no_fulfilment [OF bk o1(1) n] that c by (simp add: core_def)
  obtain o2 i' ref x now' where chk: "settle_check ev o1 = (Inr () :: sub_err pay_err + unit)"
    and t: "order_transition (o1\<lparr>po_ProviderOrderID :=
            (if cb_ProviderOrderID ev \<noteq> '''' \<and> po_ProviderOrderID o1 = ''''
             then cb_ProviderOrderID ev else po_ProviderOrderID o1)\<rparr>) OrderStatusPaid now = Some o2"
    and fu: "pe_Fulfill (wired n e) o2 (pw_ext w1) = (Inr ref, x)" and x: "pw_ext w' = x"
    and os: "pt_orders (pw_db w') = map (\<lambda>r. if order_key r = order_key o2 \<and> po_Status r = po_Status o1
          then order_columns o2 r else r) (pt_orders (pw_db w1))"
    by (rule apply_paid_Inr [OF paid assms(5) none]) blast+
  note o2 = order_transition_SomeD(2) [OF t]
  have u: "updates o1 o2"
    by (rule transition_updates(1) [where ?o1.0 = o1 and s = "po_ProviderSessionID o1"])
      (use t wf in \<open>simp_all add: order_wf_def\<close>)
  have "distinct (map order_key (pt_orders (pw_db w)))" using bk by (simp add: books_def orders_ok_def)
  note tbl = updated_table [OF this assms(4) u]
  have row: "order_row (pt_orders (pw_db w')) (p, i) = Some o2"
    using os c order_row_updated [OF \<open>distinct _\<close> assms(4) u] by (simp add: core_def)
  have "composite_fulfill n o2 (pw_ext w) = (Inr ref, pw_ext w')"
    using fu x c by (simp add: wired_def core_def)
  from topup_fulfil_run [OF this] assms(6-10) o1(2) obtain d
    where "def_of_code (sw_assets (pw_ext w)) p code d"
      "\<forall>b. owned (w_db (sw_assets (pw_ext w'))) b = owned (w_db (sw_assets (pw_ext w))) b +
        (if b = (p, OwnerTypeUser, po_UserID o1, d_ID d) then po_Amount o1 else 0)"
    using o2 by (auto simp: order_key_def)
  moreover have "po_Status o2 = OrderStatusPaid" "po_PaidAt o2 = Some now"
    using o2 wf n by (simp_all add: order_wf_def)
  moreover have "cb_Amount ev = po_Amount o1 \<or> cb_Amount ev < 0"
    using chk wf by (auto simp: settle_check_def order_wf_def split: if_splits)
  ultimately show ?thesis using row by blast
qed

theorem paid_topup_delivers_witness:
  "\<exists>w' o2. drive_order (wired demo_subs demo_pay) (demo_event ''o0'') 7 ''p1'' ''o0'' demo_ordered = (Inr (), w') \<and>
     order_row (pt_orders (pw_db w')) (''p1'', ''o0'') = Some o2 \<and> po_PaidAt o2 = Some 7 \<and>
     (\<exists>d :: asset_def. owned (w_db (sw_assets (pw_ext w'))) (''p1'', OwnerTypeUser, ''ann'', d_ID d) =
       owned (w_db (sw_assets (pw_ext demo_ordered))) (''p1'', OwnerTypeUser, ''ann'', d_ID d) + 500)"
proof -
  let ?run = "drive_order (wired demo_subs demo_pay) (demo_event ''o0'') 7 ''p1'' ''o0'' demo_ordered"
  have "case fst ?run of Inr _ \<Rightarrow> True | Inl _ \<Rightarrow> False" by code_simp
  then obtain w' where run: "?run = (Inr (), w')" by (cases ?run) (auto split: sum.splits)
  have "case order_row (pt_orders (pw_db demo_ordered)) (''p1'', ''o0'') of None \<Rightarrow> False
      | Some o1 \<Rightarrow> po_Status o1 = OrderStatusPaying \<and> po_PurposeKind o1 = PurposeTopup \<and>
          parse_purpose (po_Purpose o1) True = Inr (''gold'', 500) \<and> po_Amount o1 = 500 \<and> po_UserID o1 = ''ann''"
    by code_simp
  then obtain o1 where o1: "order_row (pt_orders (pw_db demo_ordered)) (''p1'', ''o0'') = Some o1"
    "po_Status o1 = OrderStatusPaying" "po_PurposeKind o1 = PurposeTopup"
    "parse_purpose (po_Purpose o1) True = Inr (''gold'', 500)" "po_Amount o1 = 500" "po_UserID o1 = ''ann''"
    by (auto split: option.splits)
  have a: "sw_assets (pw_ext demo_ordered) = init_world [demo_def ClassStack ''gold'' None]" by code_simp
  have w: "world_ok (sn_assets demo_subs) (sw_assets (pw_ext demo_ordered))"
    unfolding a by (simp add: demo_subs_def init_world_ok demo_env_inj)
  have l: "(''p1'', ''o0'') \<notin> fulfil_log (pw_ext demo_ordered)"
    by (simp add: fulfil_log_def ledger_keys_def a init_world_def)
  have t: "cb_Type (demo_event ''o0'') = CallbackPaid" by (simp add: demo_event_def demo_stripe_def)
  from paid_topup_delivers [OF demo_ordered_reached run t o1(1) _ o1(3,4) _ w l] o1 run
  show ?thesis by (auto simp: is_i64_def)
qed

text \<open>
  C40. In every state the system reaches, every order is well typed: a positive amount, a
  currency of three capital letters, a known purpose, an idempotency key of 1 to 128 bytes, a
  validity of one minute to 24 hours, and a time of payment exactly if it is settled. Keys are
  unique, and so is the fulfilment of an order and the reference of a fulfilment.
\<close>

theorem order_rows_well_typed:
  assumes "system_reaches n e w"
  shows "list_all order_wf (pt_orders (pw_db w)) \<and> orders_ok (pt_orders (pw_db w)) \<and>
    fulfillments_ok (pt_fulfillments (pw_db w))"
  using system_books [OF assms] by (simp add: books_def)

theorem order_rows_well_typed_witness:
  "list_all order_wf (pt_orders (pw_db demo_paid)) \<and> length (pt_orders (pw_db demo_paid)) = 1"
proof (intro conjI)
  show "list_all order_wf (pt_orders (pw_db demo_paid))" using order_rows_well_typed [OF demo_paid_reached] by blast
  show "length (pt_orders (pw_db demo_paid)) = 1" by code_simp
qed

section \<open>Periods of a subscription\<close>

text \<open>
  A subscription that is paid by an order starts as a trial whose period ends one interval after
  the call. The payment, made within that period, does not pay for it: the paid period starts
  where the trial ends, so one payment buys two intervals.
\<close>

theorem first_order_buys_two_periods:
  assumes "fulfill_paid_order n o1 x = (Inr ref, x')"
    and "parse_subscription_purpose (po_Purpose o1) = Inr (su_ID s)"
    and "s = (new_contract i p u key cmd pl t t1)\<lparr>su_Status := StatusTrialing, su_UpdatedAt := t\<rparr>"
    and "pn_TrialDays pl \<le> 0" and "sn_clock n (sw_ticks x) < t1"
    and "next_period_end t (pn_Interval pl) (pn_IntervalDays pl) = Some t1"
    and "next_period_end t1 (pn_Interval pl) (pn_IntervalDays pl) = Some t2"
    and "find (\<lambda>r. sub_key r = (po_ProjectID o1, su_ID s)) (st_subs (sw_db x)) = Some s"
    and "find (\<lambda>r. plan_key r = (su_ProjectID s, su_PlanID s)) (st_plans (sw_db x)) = Some pl"
  shows "\<exists>r \<in> set (st_subs (sw_db x')). sub_key r = sub_key s \<and> su_Status r = StatusActive \<and>
    su_CurrentPeriodStart r = t1 \<and> su_CurrentPeriodEnd r = t2"
proof -
  have st: "su_Status s = StatusTrialing" "su_CurrentPeriodEnd s = t1"
    using assms(3,4) by (simp_all add: new_contract_def Let_def)
  obtain x1 where ap: "apply_success n s pl (sn_clock n (sw_ticks x)) x1 = (Inr (), x')" and x1: "sw_db x1 = sw_db x"
    using fulfill_trialing [OF assms(1,2) st(1) assms(8,9)] by blast
  have "next_period s pl (sn_clock n (sw_ticks x)) = Some (t1, t2)"
    using st assms(5,7) by (simp add: next_period_def)
  moreover have "s \<in> set (st_subs (sw_db x1))"
    using assms(8) x1 by (auto simp: find_Some_iff)
  ultimately show ?thesis by (rule apply_success_sub [OF ap])
qed

section \<open>Bodies that are no JSON\<close>

text \<open>
  C10. The event of a payment is stored with its raw body as a JSON value, and storing it fails
  if the body is none: a receipt or a callback with such a body changes neither the orders nor
  the fulfilments. \<open>Json_Text\<close> gives instances: every text that starts with the letter e, as the
  signed tokens (JWS) do that are the only receipts still accepted, and one form, which is what
  the callbacks of Alipay send.
\<close>

theorem raw_body_must_be_json:
  assumes "\<not> raw_marshals body" and "cb_Raw ev = body"
  shows "pt_orders (pw_db (snd (verify_receipt e pr i body w))) = pt_orders (pw_db w) \<and>
    pt_fulfillments (pw_db (snd (verify_receipt e pr i body w))) = pt_fulfillments (pw_db w) \<and>
    pt_orders (pw_db (snd (handle_order_event e ev w))) = pt_orders (pw_db w) \<and>
    pt_fulfillments (pw_db (snd (handle_order_event e ev w))) = pt_fulfillments (pw_db w)"
  using keeps_ordersD [OF unmarshalled_receipt [OF assms(1)]]
    keeps_ordersD [OF unmarshalled_event [of ev]] assms
  by blast

theorem raw_body_must_be_json_witness:
  "pt_orders (pw_db (snd (handle_order_event (wired demo_subs demo_pay)
      ((demo_event ''o0'')\<lparr>cb_Raw := ''eyJhbGciOiJFUzI1NiJ9''\<rparr>) demo_ordered))) = pt_orders (pw_db demo_ordered) \<and>
   map po_Status (pt_orders (pw_db (snd (handle_order_event (wired demo_subs demo_pay)
      (demo_event ''o0'') demo_ordered)))) = [OrderStatusPaid]"
proof (intro conjI)
  have "\<not> raw_marshals ''eyJhbGciOiJFUzI1NiJ9''" by (rule jws_not_json)
  from raw_body_must_be_json [OF this, where ev = "(demo_event ''o0'')\<lparr>cb_Raw := ''eyJhbGciOiJFUzI1NiJ9''\<rparr>"
      and e = "wired demo_subs demo_pay" and w = demo_ordered]
  show "pt_orders (pw_db (snd (handle_order_event (wired demo_subs demo_pay)
      ((demo_event ''o0'')\<lparr>cb_Raw := ''eyJhbGciOiJFUzI1NiJ9''\<rparr>) demo_ordered))) = pt_orders (pw_db demo_ordered)"
    by simp
  show "map po_Status (pt_orders (pw_db (snd (handle_order_event (wired demo_subs demo_pay)
      (demo_event ''o0'') demo_ordered)))) = [OrderStatusPaid]"
    by code_simp
qed

end
