(* ===== verification/Leaderboards.thy ===== *)
theory Leaderboards
  imports Go_Time
begin

text \<open>
  Leaderboards, \<^verbatim>\<open>internal/domain/leaderboards\<close>: the configuration of a board and its
  validation, the periods a board is divided into (\<^verbatim>\<open>period.go\<close>), and how a repeated submission
  is merged (\<^verbatim>\<open>merge.go\<close>). The string types with a fixed vocabulary are datatypes with one more
  constructor for the strings outside it. The database of time zones is a parameter, from names
  to zones.
\<close>

section \<open>Boards\<close>

datatype sort_direction = SortDesc | SortAsc | SortOther string
datatype tie_break = TieBreakParallel | TieBreakEarliest | TieBreakLatest | TieBreakOther string
datatype period_kind = PeriodNone | PeriodDaily | PeriodWeekly | PeriodMonthly | PeriodOther string
datatype policy = PolicyBest | PolicyLatest | PolicySum | PolicyOther string

definition max_board_id_len :: nat where "max_board_id_len = 40"
definition max_subject_id_len :: nat where "max_subject_id_len = 64"
definition max_value_abs :: int where "max_value_abs = 2 ^ 53 - 1"
definition max_per_subject_limit :: int where "max_per_subject_limit = 10000"
definition default_per_subject_limit :: int where "default_per_subject_limit = 100"
definition max_boards_per_project :: nat where "max_boards_per_project = 100"
definition max_subject_kind_len :: nat where "max_subject_kind_len = 32"
definition max_reward_rules :: nat where "max_reward_rules = 20"

record reward_rule =
  rr_RankMin :: "int option"
  rr_RankMax :: "int option"
  rr_ValueMin :: "int option"
  rr_AssetCode :: string
  rr_Amount :: int

record board =
  bd_ProjectID :: string
  bd_ID :: string
  bd_Sort :: sort_direction
  bd_TiebreakOrder :: "sort_direction option"
  bd_TieBreak :: tie_break
  bd_PeriodKind :: period_kind
  bd_PeriodTZ :: string
  bd_Policy :: policy
  bd_ValueMin :: "int option"
  bd_ValueMax :: "int option"
  bd_ClientSubmit :: bool
  bd_PerSubjectLimit :: int
  bd_RetentionPeriods :: int
  bd_SubjectKind :: string
  bd_Rewards :: "reward_rule list"
  bd_CreatedAt :: gtime
  bd_UpdatedAt :: gtime

record lb_entry =
  ent_ProjectID :: string
  ent_BoardID :: string
  ent_PeriodKey :: string
  ent_SubjectID :: string
  ent_Value :: int
  ent_TiebreakValue :: "int option"
  ent_SubmitCount :: int
  ent_CreatedAt :: gtime
  ent_UpdatedAt :: gtime

record entry_stats =
  es_Total :: int
  es_Rank :: int
  es_Position :: int
  es_Below :: int

record snapshot =
  sn_BoardID :: string
  sn_PeriodKey :: string
  sn_Entry :: "lb_entry option"
  sn_Stats :: entry_stats

text \<open>The errors of the package, and the bare errors of others: a status, the database.\<close>

datatype lb_code = LbInvalidArgument | LbNotFound | LbAlreadyExists | LbFailedPrecondition
  | LbPermissionDenied | LbResourceExhausted | LbUnauthenticated | LbAborted | LbUnavailable

datatype lb_err = ErrBoardNotFound | ErrBoardExists | ErrBoardLimit | ErrInvalidConfig
  | ErrSubjectRequired | ErrSubjectTooLong | ErrValueOutOfRange | ErrValueTooLarge
  | ErrPeriodInvalid | ErrPeriodNotSubmittable | ErrTiebreakMismatch | ErrSubmitLimitExceeded
  | ErrClientSubmitDisabled | ErrEntryNotFound | ErrImmutableField | ErrConcurrentInsert
  | ErrSettlementNotFound | ErrSettlementVoided | ErrSettlementAlreadySettled
  | LbStatus lb_code | LbDB

definition has_tiebreak :: "board \<Rightarrow> bool" where
  "has_tiebreak b \<longleftrightarrow> bd_TiebreakOrder b \<noteq> None"

text \<open>\<^verbatim>\<open>time.LoadLocation\<close>: two names stand for UTC, the others are looked up.\<close>

definition load_location :: "(string \<Rightarrow> zone option) \<Rightarrow> string \<Rightarrow> zone option" where
  "load_location zs name = (if name = '''' \<or> name = ''UTC'' then Some utc_zone else zs name)"

definition location :: "(string \<Rightarrow> zone option) \<Rightarrow> board \<Rightarrow> zone" where
  "location zs b = (if bd_PeriodKind b = PeriodNone \<or> bd_PeriodTZ b = '''' then utc_zone
     else (case load_location zs (bd_PeriodTZ b) of None \<Rightarrow> utc_zone | Some z \<Rightarrow> z))"

text \<open>The regular expression \<^verbatim>\<open>^[a-z_][a-z0-9_]*$\<close>.\<close>

fun board_id_pattern :: "string \<Rightarrow> bool" where
  "board_id_pattern [] = False"
| "board_id_pattern (c # cs) \<longleftrightarrow> (is_lower c \<or> c = CHR ''_'') \<and>
     list_all (\<lambda>d. is_lower d \<or> is_digit d \<or> d = CHR ''_'') cs"

definition validate_bounds :: "int option \<Rightarrow> int option \<Rightarrow> lb_err + unit" where
  "validate_bounds lo hi =
     (if list_ex (\<lambda>v. case v of None \<Rightarrow> False | Some x \<Rightarrow> max_value_abs < x \<or> x < - max_value_abs) [lo, hi]
      then Inl ErrInvalidConfig
      else (case (lo, hi) of (Some a, Some b) \<Rightarrow> if b < a then Inl ErrInvalidConfig else Inr ()
        | _ \<Rightarrow> Inr ()))"

definition reward_rule_ok :: "reward_rule \<Rightarrow> bool" where
  "reward_rule_ok r \<longleftrightarrow> rr_AssetCode r \<noteq> '''' \<and> 0 < rr_Amount r \<and>
     \<not> (rr_RankMin r = None \<and> rr_RankMax r = None \<and> rr_ValueMin r = None) \<and>
     (case rr_RankMin r of None \<Rightarrow> True | Some a \<Rightarrow> 1 \<le> a) \<and>
     (case (rr_RankMin r, rr_RankMax r) of (Some a, Some b) \<Rightarrow> a \<le> b | _ \<Rightarrow> True) \<and>
     (case rr_RankMax r of None \<Rightarrow> True | Some b \<Rightarrow> 1 \<le> b)"

definition validate_reward_rules :: "period_kind \<Rightarrow> reward_rule list \<Rightarrow> lb_err + unit" where
  "validate_reward_rules kind rules =
     (if rules = [] then Inr ()
      else if kind = PeriodNone then Inl ErrInvalidConfig
      else if max_reward_rules < length rules then Inl ErrInvalidConfig
      else if list_all reward_rule_ok rules then Inr () else Inl ErrInvalidConfig)"

definition validate_board :: "(string \<Rightarrow> zone option) \<Rightarrow> board \<Rightarrow> lb_err + unit" where
  "validate_board zs b =
     (if bd_ID b = '''' \<or> max_board_id_len < length (bd_ID b) \<or> \<not> board_id_pattern (bd_ID b)
        then Inl ErrInvalidConfig
      else if bd_Sort b \<notin> {SortDesc, SortAsc} then Inl ErrInvalidConfig
      else if bd_TiebreakOrder b \<notin> {None, Some SortDesc, Some SortAsc} then Inl ErrInvalidConfig
      else if bd_TieBreak b \<notin> {TieBreakParallel, TieBreakEarliest, TieBreakLatest} then Inl ErrInvalidConfig
      else if bd_PeriodKind b \<notin> {PeriodNone, PeriodDaily, PeriodWeekly, PeriodMonthly} then Inl ErrInvalidConfig
      else if bd_Policy b \<notin> {PolicyBest, PolicyLatest, PolicySum} then Inl ErrInvalidConfig
      else if bd_PeriodKind b \<noteq> PeriodNone \<and> load_location zs (bd_PeriodTZ b) = None then Inl ErrInvalidConfig
      else (case validate_bounds (bd_ValueMin b) (bd_ValueMax b) of Inl err \<Rightarrow> Inl err | Inr _ \<Rightarrow>
        if bd_PerSubjectLimit b < 1 \<or> max_per_subject_limit < bd_PerSubjectLimit b then Inl ErrInvalidConfig
        else if bd_RetentionPeriods b < 0 then Inl ErrInvalidConfig
        else if max_subject_kind_len < length (bd_SubjectKind b) then Inl ErrInvalidConfig
        else validate_reward_rules (bd_PeriodKind b) (bd_Rewards b)))"

definition validate_value :: "board \<Rightarrow> int \<Rightarrow> lb_err + unit" where
  "validate_value b v =
     (if max_value_abs < v \<or> v < - max_value_abs then Inl ErrValueTooLarge
      else if (case bd_ValueMin b of None \<Rightarrow> False | Some lo \<Rightarrow> v < lo) then Inl ErrValueOutOfRange
      else if (case bd_ValueMax b of None \<Rightarrow> False | Some hi \<Rightarrow> hi < v) then Inl ErrValueOutOfRange
      else Inr ())"

definition validate_subject_id :: "string \<Rightarrow> lb_err + unit" where
  "validate_subject_id s =
     (if s = '''' then Inl ErrSubjectRequired
      else if max_subject_id_len < length s then Inl ErrSubjectTooLong else Inr ())"

section \<open>Merging a submission\<close>

definition value_better :: "sort_direction \<Rightarrow> int \<Rightarrow> int \<Rightarrow> bool" where
  "value_better dir candidate current = (if dir = SortAsc then candidate < current else current < candidate)"

definition tiebreak_better :: "sort_direction \<Rightarrow> int \<Rightarrow> int \<Rightarrow> bool" where
  "tiebreak_better dir candidate current = (if dir = SortAsc then candidate < current else current < candidate)"

definition merge_submit :: "board \<Rightarrow> lb_entry \<Rightarrow> int \<Rightarrow> int option \<Rightarrow> int \<times> int option \<times> bool" where
  "merge_submit b cur v tb = (case bd_Policy b of
     PolicyLatest \<Rightarrow> (v, tb, True)
   | PolicySum \<Rightarrow> (i64 (ent_Value cur + v), (if tb \<noteq> None then tb else ent_TiebreakValue cur), True)
   | _ \<Rightarrow>
       if value_better (bd_Sort b) v (ent_Value cur) then (v, tb, True)
       else if v = ent_Value cur \<and> (case (bd_TiebreakOrder b, tb, ent_TiebreakValue cur) of
           (Some d, Some x, Some y) \<Rightarrow> tiebreak_better d x y | _ \<Rightarrow> False) then (v, tb, True)
       else (ent_Value cur, ent_TiebreakValue cur, False))"

section \<open>Periods\<close>

text \<open>\<^verbatim>\<open>Format("20060102")\<close>, \<^verbatim>\<open>Format("200601")\<close>, and the two prints of a week and a month.\<close>

definition day_key :: "int \<times> int \<times> int \<Rightarrow> string" where
  "day_key d = (case d of (y, m, dd) \<Rightarrow> year_str y @ zpad 2 (nat m) @ zpad 2 (nat dd))"

definition month_key :: "int \<Rightarrow> int \<Rightarrow> string" where
  "month_key y m = year_str y @ zpad 2 (nat m)"

definition fmt_month :: "int \<Rightarrow> int \<Rightarrow> string" where
  "fmt_month y m = fmt_d04 y @ zpad 2 (nat m)"

definition iso_week_key :: "int \<Rightarrow> string" where
  "iso_week_key n = (case iso_week n of (y, w) \<Rightarrow> fmt_d04 y @ ''-W'' @ zpad 2 (nat w))"

definition period_key :: "period_kind \<Rightarrow> zone \<Rightarrow> gtime \<Rightarrow> string" where
  "period_key kind z t = (let lt = wall z t in case kind of
     PeriodNone \<Rightarrow> ''all''
   | PeriodDaily \<Rightarrow> day_key (date_of lt)
   | PeriodWeekly \<Rightarrow> iso_week_key (day_of lt)
   | PeriodMonthly \<Rightarrow> month_key (year_at lt) (month_at lt)
   | PeriodOther _ \<Rightarrow> ''all'')"

text \<open>The loop \<^verbatim>\<open>for idx < 0 { idx += 12; y-- }\<close>.\<close>

function months_back :: "int \<Rightarrow> int \<Rightarrow> int \<times> int" where
  "months_back y idx = (if idx < 0 then months_back (y - 1) (idx + 12) else (y, idx))"
  by auto
termination by (relation "measure (\<lambda>(y, idx). nat (- idx))") auto

declare months_back.simps [simp del]

definition period_key_minus :: "period_kind \<Rightarrow> zone \<Rightarrow> gtime \<Rightarrow> int \<Rightarrow> string" where
  "period_key_minus kind z t n =
     (if kind = PeriodNone \<or> n < 0 then period_key kind z t
      else (case date_of (wall z t) of (y, m, d) \<Rightarrow> (case kind of
          PeriodDaily \<Rightarrow> day_key (date_of (wall z (go_date_in z y m (d - n) (tod (wall z t)))))
        | PeriodWeekly \<Rightarrow> iso_week_key (day_of (wall z (go_date_in z y m (d - 7 * n) (tod (wall z t)))))
        | PeriodMonthly \<Rightarrow> (case months_back y (m - 1 - n) of (y', idx) \<Rightarrow> fmt_month y' (idx + 1))
        | _ \<Rightarrow> ''all'')))"

definition previous_period_key :: "period_kind \<Rightarrow> zone \<Rightarrow> gtime \<Rightarrow> string" where
  "previous_period_key kind z t = (if kind = PeriodNone then '''' else period_key_minus kind z t 1)"

text \<open>
  The patterns \<^verbatim>\<open>\d{8}\<close>, \<^verbatim>\<open>\d{4}-W\d{2}\<close> and \<^verbatim>\<open>\d{6}\<close>; \<^verbatim>\<open>time.Parse\<close> of eight digits accepts
  exactly the dates of the calendar.
\<close>

definition all_digits :: "string \<Rightarrow> bool" where
  "all_digits s = list_all is_digit s"

definition validate_period_key :: "period_kind \<Rightarrow> string \<Rightarrow> bool" where
  "validate_period_key kind key = (case kind of
     PeriodNone \<Rightarrow> key = ''all''
   | PeriodDaily \<Rightarrow> length key = 8 \<and> all_digits key \<and>
       valid_date (int (dec_val 0 (take 4 key))) (int (dec_val 0 (take 2 (drop 4 key))))
         (int (dec_val 0 (drop 6 key)))
   | PeriodWeekly \<Rightarrow> length key = 8 \<and> all_digits (take 4 key) \<and> take 2 (drop 4 key) = ''-W'' \<and>
       all_digits (drop 6 key) \<and> 1 \<le> dec_val 0 (drop 6 key) \<and> dec_val 0 (drop 6 key) \<le> 53
   | PeriodMonthly \<Rightarrow> length key = 6 \<and> all_digits key \<and>
       1 \<le> dec_val 0 (drop 4 key) \<and> dec_val 0 (drop 4 key) \<le> 12
   | PeriodOther _ \<Rightarrow> False)"

definition resolve_submittable_period :: "(string \<Rightarrow> zone option) \<Rightarrow> board \<Rightarrow> string \<Rightarrow> gtime \<Rightarrow> lb_err + string" where
  "resolve_submittable_period zs b explicit now =
     (let loc = location zs b; current = period_key (bd_PeriodKind b) loc now in
      if explicit = '''' then Inr current
      else if \<not> validate_period_key (bd_PeriodKind b) explicit then Inl ErrPeriodInvalid
      else let previous = previous_period_key (bd_PeriodKind b) loc now in
        if explicit = current \<or> previous \<noteq> '''' \<and> explicit = previous then Inr explicit
        else Inl ErrPeriodNotSubmittable)"

definition resolve_read_period :: "(string \<Rightarrow> zone option) \<Rightarrow> board \<Rightarrow> string \<Rightarrow> gtime \<Rightarrow> lb_err + string" where
  "resolve_read_period zs b explicit now =
     (if explicit = '''' then Inr (period_key (bd_PeriodKind b) (location zs b) now)
      else if \<not> validate_period_key (bd_PeriodKind b) explicit then Inl ErrPeriodInvalid
      else Inr explicit)"

definition retention_cutoff_key :: "(string \<Rightarrow> zone option) \<Rightarrow> board \<Rightarrow> gtime \<Rightarrow> string option" where
  "retention_cutoff_key zs b now =
     (if bd_PeriodKind b = PeriodNone \<or> bd_RetentionPeriods b \<le> 0 then None
      else Some (period_key_minus (bd_PeriodKind b) (location zs b) now (bd_RetentionPeriods b - 1)))"

end
