(* ===== verification/Leaderboard_Periods.thy ===== *)
theory Leaderboard_Periods
  imports Leaderboards "HOL-Library.List_Lexorder" "HOL-Library.Char_ord"
begin

text \<open>
  The periods of a board as numbers, the reference for their keys: the number of the day, of the
  week or of the month on the wall clock of the board. The keys of \<^verbatim>\<open>period.go\<close> name these numbers
  in order, so that the comparisons of texts in \<^verbatim>\<open>leaderboards_repo.go\<close> compare periods. Texts
  compare bytewise.
\<close>

definition period_index :: "period_kind \<Rightarrow> int \<Rightarrow> int" where
  "period_index kind n = (case kind of
     PeriodDaily \<Rightarrow> n
   | PeriodWeekly \<Rightarrow> n div 7
   | PeriodMonthly \<Rightarrow> (case date_of_days n of (y, m, _) \<Rightarrow> 12 * y + (m - 1))
   | _ \<Rightarrow> 0)"

definition index_key :: "period_kind \<Rightarrow> int \<Rightarrow> string" where
  "index_key kind i = (case kind of
     PeriodDaily \<Rightarrow> day_key (date_of_days i)
   | PeriodWeekly \<Rightarrow> iso_week_key (7 * i)
   | PeriodMonthly \<Rightarrow> month_key (i div 12) (i mod 12 + 1)
   | _ \<Rightarrow> ''all'')"

definition index_year :: "period_kind \<Rightarrow> int \<Rightarrow> int" where
  "index_year kind i = (case kind of
     PeriodDaily \<Rightarrow> year_of_days i
   | PeriodWeekly \<Rightarrow> fst (iso_week (7 * i))
   | PeriodMonthly \<Rightarrow> i div 12
   | _ \<Rightarrow> 0)"

definition divided :: "period_kind \<Rightarrow> bool" where
  "divided kind \<longleftrightarrow> kind \<in> {PeriodDaily, PeriodWeekly, PeriodMonthly}"

definition year_4 :: "int \<Rightarrow> bool" where
  "year_4 y \<longleftrightarrow> 0 \<le> y \<and> y \<le> 9999"

lemma divided_cases:
  assumes "divided kind"
  obtains "kind = PeriodDaily" | "kind = PeriodWeekly" | "kind = PeriodMonthly"
  using assms by (auto simp: divided_def)

section \<open>Padded numbers compare as numbers\<close>

lemma itoa_zero: "itoa 0 = ''0''"
  by code_simp

lemma zpad_Suc:
  assumes "0 < w"
  shows "zpad (Suc w) n = zpad w (n div 10) @ [digit_char (n mod 10)]"
proof (cases "n < 10")
  case True
  then have "itoa n = [digit_char n]" "itoa (n div 10) = [CHR ''0'']"
    by (simp_all add: itoa.simps [of n] itoa_zero)
  with True assms show ?thesis
    by (cases w) (simp_all add: zpad_def replicate_append_same [symmetric])
next
  case False
  then have "itoa n = itoa (n div 10) @ [digit_char (n mod 10)]"
    by (simp add: itoa.simps [of n])
  then show ?thesis by (simp add: zpad_def Let_def)
qed

lemma zpad_one: "n < 10 \<Longrightarrow> zpad (Suc 0) n = [digit_char n]"
  by (simp add: zpad_def itoa.simps [of n])

lemma length_zpad [simp]: "0 < w \<Longrightarrow> n < 10 ^ w \<Longrightarrow> length (zpad w n) = w"
proof (induction w arbitrary: n)
  case (Suc w)
  show ?case
  proof (cases "w = 0")
    case True
    with Suc.prems show ?thesis by (simp add: zpad_one)
  next
    case False
    with Suc show ?thesis by (simp add: zpad_Suc less_mult_imp_div_less mult.commute)
  qed
qed simp

lemma zpad_digits: "0 < w \<Longrightarrow> n < 10 ^ w \<Longrightarrow> list_all is_digit (zpad w n)"
  by (auto simp: zpad_def list_all_iff Let_def is_digit_def dest!: itoa_digits)

lemma dec_val_zeros: "dec_val 0 (replicate k (CHR ''0'') @ s) = dec_val 0 s"
  by (induction k) (simp_all add: digit_val_def)

lemma dec_val_zpad [simp]: "dec_val 0 (zpad w n) = n"
  by (simp add: zpad_def Let_def dec_val_zeros dec_val_itoa)

lemma digit_char_less: "a < b \<Longrightarrow> b < 10 \<Longrightarrow> digit_char a < digit_char b"
  by (simp add: less_char_def digit_char_def)

lemma append_less:
  assumes "length (xs :: string) = length ys" and "xs < ys \<or> xs = ys \<and> us < vs"
  shows "xs @ us < ys @ vs"
  using assms by (induction xs ys rule: list_induct2) auto

lemma zpad_less: "0 < w \<Longrightarrow> m < n \<Longrightarrow> n < 10 ^ w \<Longrightarrow> zpad w m < zpad w n"
proof (induction w arbitrary: m n)
  case (Suc w)
  show ?case
  proof (cases "w = 0")
    case True
    with Suc.prems show ?thesis by (simp add: zpad_one digit_char_less)
  next
    case False
    have div: "m div 10 \<le> n div 10" "n div 10 < 10 ^ w"
      using Suc.prems by (simp_all add: div_le_mono less_mult_imp_div_less mult.commute)
    show ?thesis
    proof (cases "m div 10 = n div 10")
      case True
      then have "m mod 10 < n mod 10"
        using Suc.prems(2) by (metis div_mult_mod_eq nat_add_left_cancel_less)
      with True False show ?thesis
        by (auto simp: zpad_Suc digit_char_less intro!: append_less)
    next
      case neq: False
      then have "zpad w (m div 10) < zpad w (n div 10)"
        using Suc.IH [of "m div 10" "n div 10"] div False by linarith
      with False div show ?thesis
        by (auto simp: zpad_Suc intro!: append_less)
    qed
  qed
qed simp

text \<open>A year of four digits in front, then a text.\<close>

lemma year_prints: "year_4 y \<Longrightarrow> year_str y = zpad 4 (nat y) \<and> fmt_d04 y = zpad 4 (nat y)"
  by (simp add: year_4_def year_str_def fmt_d04_def)

lemma length_year [simp]: "year_4 y \<Longrightarrow> length (zpad 4 (nat y)) = 4"
  by (rule length_zpad) (auto simp: year_4_def)

lemma year_less:
  assumes "year_4 y" "year_4 y'" and "y < y' \<or> y = y' \<and> us < vs"
  shows "zpad 4 (nat y) @ us < zpad 4 (nat y') @ vs"
  using assms by (intro append_less) (auto simp: year_4_def intro!: zpad_less)

lemma two_less:
  assumes "0 \<le> a" "0 \<le> b" "b < 100" "a < 100" and "a < b \<or> a = b \<and> us < vs"
  shows "zpad 2 (nat a) @ us < zpad 2 (nat b) @ vs"
  using assms by (intro append_less) (auto intro!: zpad_less)

section \<open>Dates, weeks and months in order\<close>

lemma year_of_days_mono: "i \<le> j \<Longrightarrow> year_of_days i \<le> year_of_days j"
proof (rule ccontr)
  assume "i \<le> j" and "\<not> year_of_days i \<le> year_of_days j"
  then have "year_days (year_of_days j + 1) \<le> year_days (year_of_days i)"
    using year_days_less [of "year_of_days j + 1" "year_of_days i"]
    by (cases "year_of_days j + 1 = year_of_days i") auto
  with \<open>i \<le> j\<close> show False
    using year_of_days_bounds [of i] year_of_days_bounds [of j] by linarith
qed

lemma month_of_mono: "k \<le> k' \<Longrightarrow> month_of lp k \<le> month_of lp k'"
  by (auto simp: month_of_def month_days_def)

lemma date_of_days_less:
  assumes "i < j" and "date_of_days i = (y, m, d)" and "date_of_days j = (y', m', d')"
  shows "y < y' \<or> y = y' \<and> (m < m' \<or> m = m' \<and> d < d')"
proof -
  have "y \<le> y'"
    using assms year_of_days_mono [of i j] by (auto simp: date_of_days_def Let_def)
  moreover have "m < m' \<or> m = m' \<and> d < d'" if "y = y'"
    using assms that month_of_mono [of "i - year_days y" "j - year_days y" "leap y"]
    by (auto simp: date_of_days_def Let_def)
  ultimately show ?thesis by auto
qed

lemma date_fields_small:
  assumes "date_of_days i = (y, m, d)"
  shows "y = year_of_days i" "1 \<le> m" "m \<le> 12" "1 \<le> d" "d \<le> 31"
proof -
  have v: "valid_date y m d" using date_of_days_number [OF assms] by simp
  show "y = year_of_days i" using assms by (simp add: date_of_days_def Let_def)
  show "1 \<le> m" "m \<le> 12" "1 \<le> d" using v by (auto simp: valid_date_def)
  show "d \<le> 31"
    using v month_cases [of m] unfolding valid_date_def days_in_month_def
    by (elim conjE insertE) (auto simp: month_days_def split: if_splits)
qed

lemma iso_week_less:
  assumes "i < j" and "iso_week (7 * i) = (y, w)" and "iso_week (7 * j) = (y', w')"
  shows "y < y' \<or> y = y' \<and> w < w'"
proof -
  have y: "y = year_of_days (7 * i + 3)" "y' = year_of_days (7 * j + 3)"
    and w: "w = (7 * i + 3 - year_days y) div 7 + 1" "w' = (7 * j + 3 - year_days y') div 7 + 1"
    using assms(2,3) by (auto simp: iso_week_def Let_def)
  have "y \<le> y'" unfolding y using assms(1) by (intro year_of_days_mono) simp
  moreover have "w < w'" if "y = y'"
  proof -
    have "7 * i + 3 - year_days y + 7 \<le> 7 * j + 3 - year_days y'" using assms(1) that by simp
    then have "(7 * i + 3 - year_days y + 7) div 7 \<le> (7 * j + 3 - year_days y') div 7"
      by (rule zdiv_mono1) simp
    then show ?thesis unfolding w by simp
  qed
  ultimately show ?thesis by auto
qed

lemma iso_week_of_week: "iso_week n = iso_week (7 * (n div 7))"
proof -
  have "n - n mod 7 = 7 * (n div 7)" by (simp add: minus_mod_eq_mult_div)
  then show ?thesis by (simp add: iso_week_def)
qed

lemma index_key_less:
  assumes "divided kind" and "i < j" and "year_4 (index_year kind i)" and "year_4 (index_year kind j)"
  shows "index_key kind i < index_key kind j"
  using assms(1)
proof (cases rule: divided_cases)
  case 1
  obtain y m d y' m' d' where d: "date_of_days i = (y, m, d)" "date_of_days j = (y', m', d')"
    by (metis prod_cases3)
  note f = date_fields_small [OF d(1)] date_fields_small [OF d(2)]
  have yy: "year_4 y" "year_4 y'" using assms(3,4) f(1,6) by (simp_all add: 1 index_year_def)
  have "m < m' \<or> m = m' \<and> d < d' \<Longrightarrow>
      zpad 2 (nat m) @ zpad 2 (nat d) @ [] < zpad 2 (nat m') @ zpad 2 (nat d') @ []"
    using f by (intro two_less) (auto intro!: zpad_less)
  then have "m < m' \<or> m = m' \<and> d < d' \<Longrightarrow>
      zpad 2 (nat m) @ zpad 2 (nat d) < zpad 2 (nat m') @ zpad 2 (nat d')" by simp
  then have "zpad 4 (nat y) @ zpad 2 (nat m) @ zpad 2 (nat d) < zpad 4 (nat y') @ zpad 2 (nat m') @ zpad 2 (nat d')"
    using date_of_days_less [OF assms(2) d] yy by (intro year_less) auto
  then show ?thesis using yy by (simp add: 1 index_key_def day_key_def d year_prints)
next
  case 2
  obtain y w y' w' where w: "iso_week (7 * i) = (y, w)" "iso_week (7 * j) = (y', w')"
    by (metis surj_pair)
  have yy: "year_4 y" "year_4 y'" using assms(3,4) by (simp_all add: 2 index_year_def w)
  note b = iso_week_bounds [OF w(1)] iso_week_bounds [OF w(2)]
  have "zpad 4 (nat y) @ ''-W'' @ zpad 2 (nat w) < zpad 4 (nat y') @ ''-W'' @ zpad 2 (nat w')"
    using iso_week_less [OF assms(2) w] yy b by (intro year_less) (auto intro!: zpad_less)
  then show ?thesis using yy by (simp add: 2 index_key_def iso_week_key_def w year_prints)
next
  case 3
  have yy: "year_4 (i div 12)" "year_4 (j div 12)" using assms(3,4) by (simp_all add: 3 index_year_def)
  have "i div 12 < j div 12 \<or> i div 12 = j div 12 \<and> i mod 12 < j mod 12"
    using assms(2) by presburger
  then have "zpad 4 (nat (i div 12)) @ zpad 2 (nat (i mod 12 + 1))
      < zpad 4 (nat (j div 12)) @ zpad 2 (nat (j mod 12 + 1))"
    using yy by (intro year_less) (auto intro!: zpad_less)
  then show ?thesis using yy by (simp add: 3 index_key_def month_key_def year_prints)
qed

lemma index_key_inject:
  assumes "divided kind" and "year_4 (index_year kind i)" and "year_4 (index_year kind j)"
  shows "index_key kind i = index_key kind j \<longleftrightarrow> i = j"
  using index_key_less [of kind i j] index_key_less [of kind j i] assms
  by (metis less_irrefl linorder_neqE_linordered_idom)

lemma index_key_less_iff:
  assumes "divided kind" and "year_4 (index_year kind i)" and "year_4 (index_year kind j)"
  shows "index_key kind i < index_key kind j \<longleftrightarrow> i < j"
  using index_key_less [of kind i j] index_key_less [of kind j i] assms
  by (metis less_asym linorder_neqE_linordered_idom)

section \<open>The keys are those of the numbers\<close>

definition period_at :: "period_kind \<Rightarrow> zone \<Rightarrow> gtime \<Rightarrow> int" where
  "period_at kind z t = period_index kind (day_of (wall z t))"

text \<open>
  A reading of the wall clock that the zone has: \<^verbatim>\<open>time.Date\<close> returns an instant with that
  reading. The readings an hour skips in spring are those without.
\<close>

definition reading_exists :: "zone \<Rightarrow> gtime \<Rightarrow> bool" where
  "reading_exists z r \<longleftrightarrow> wall z (from_wall z r) = r"

definition days_back :: "period_kind \<Rightarrow> int \<Rightarrow> int" where
  "days_back kind n = (case kind of PeriodDaily \<Rightarrow> n | PeriodWeekly \<Rightarrow> 7 * n | _ \<Rightarrow> 0)"

lemma month_index: "1 \<le> m \<Longrightarrow> m \<le> 12 \<Longrightarrow> (12 * y + (m - 1)) div 12 = y \<and> (12 * y + (m - 1)) mod 12 = m - (1::int)"
  by presburger

lemma period_key_index:
  assumes "divided kind"
  shows "period_key kind z t = index_key kind (period_at kind z t)"
  using assms
proof (cases rule: divided_cases)
  case 3
  obtain y m d where d: "date_of_days (day_of (wall z t)) = (y, m, d)" by (metis prod_cases3)
  then show ?thesis
    using month_index [of m y] date_fields_small [OF d]
    by (simp add: 3 period_key_def index_key_def period_at_def period_index_def Let_def year_at_def
        month_at_def date_of_def)
next
  case 2
  then show ?thesis
    using iso_week_of_week [of "day_of (wall z t)"]
    by (simp add: period_key_def index_key_def period_at_def period_index_def iso_week_key_def)
qed (simp add: period_key_def index_key_def period_at_def period_index_def date_of_def)

lemma months_back_div [code]: "months_back y idx = (y + (min (idx div 12) 0), if idx < 0 then idx mod 12 else idx)"
proof (induction y idx rule: months_back.induct)
  case (1 y idx)
  show ?case
  proof (cases "idx < 0")
    case True
    have "(idx + 12) div 12 = idx div 12 + 1" "(idx + 12) mod 12 = idx mod 12" by simp_all
    moreover have "idx div 12 < 0" using True by presburger
    moreover have "\<not> idx + 12 < 0 \<Longrightarrow> idx div 12 = - 1 \<and> idx + 12 = idx mod 12" using True by presburger
    ultimately show ?thesis
      using True 1 by (subst months_back.simps) (auto simp: min_def)
  next
    case False
    then have "0 \<le> idx div 12" by presburger
    with False show ?thesis by (subst months_back.simps) (simp add: min_def)
  qed
qed

lemma months_back_index:
  assumes "idx < 12"
  shows "months_back y idx = ((12 * y + idx) div 12, (12 * y + idx) mod 12)"
proof -
  have "(12 * y + idx) div 12 = y + idx div 12" "(12 * y + idx) mod 12 = idx mod 12" by simp_all
  moreover have "idx div 12 = 0 \<and> idx mod 12 = idx" if "\<not> idx < 0" using assms that by simp
  moreover have "idx div 12 < 0" if "idx < 0" using that by (simp add: neg_imp_zdiv_neg_iff)
  ultimately show ?thesis by (cases "idx < 0") (simp_all add: months_back_div min_def)
qed

lemma go_date_back:
  assumes "date_of w = (y, m, d)"
  shows "go_date y m (d - k) (tod w) = w - k * day_ns"
proof -
  have "days_of_date y m (d - k) = day_of w - k"
    using date_of_bounds [OF assms] by (auto simp: valid_date_def days_of_date_norm day_number_def)
  then have "go_date y m (d - k) (tod w) = (day_of w - 719162) * day_ns + tod w - k * day_ns"
    by (simp only: go_date_def) (simp add: algebra_simps)
  then show ?thesis using time_split [of w] by simp
qed

lemma day_of_back: "day_of (w - k * day_ns) = day_of w - k"
proof -
  have "(w - k * day_ns) div day_ns = w div day_ns - k"
    using div_mult_self1 [of day_ns w "- k"] day_ns_pos by (simp add: algebra_simps)
  then show ?thesis by (simp add: day_of_def)
qed

lemma period_key_minus_index:
  assumes "divided kind" and "0 \<le> n"
    and "reading_exists z (wall z t - days_back kind n * day_ns)"
    and "year_4 (index_year kind (period_at kind z t - n))"
  shows "period_key_minus kind z t n = index_key kind (period_at kind z t - n)"
proof -
  obtain y m d where d: "date_of (wall z t) = (y, m, d)" by (metis prod_cases3)
  then have dd: "date_of_days (day_of (wall z t)) = (y, m, d)" by (simp add: date_of_def)
  have kind: "kind \<noteq> PeriodNone" using assms(1) by (auto simp: divided_def)
  have bk: "wall z (go_date_in z y m (d - k) (tod (wall z t))) = wall z t - k * day_ns"
    if "k = days_back kind n" for k
    using assms(3) that by (simp add: go_date_in_def go_date_back [OF d] reading_exists_def)
  show ?thesis using assms(1)
  proof (cases rule: divided_cases)
    case 1
    then show ?thesis
      using assms(2) kind d bk [of n]
      by (simp add: period_key_minus_def index_key_def period_at_def period_index_def days_back_def
          date_of_def day_of_back)
  next
    case 2
    have "(day_of (wall z t) - 7 * n) div 7 = day_of (wall z t) div 7 - n" by presburger
    with 2 show ?thesis
      using assms(2) kind d bk [of "7 * n"] iso_week_of_week [of "day_of (wall z t) - 7 * n"]
      by (simp add: period_key_minus_def index_key_def period_at_def period_index_def days_back_def
          day_of_back iso_week_key_def)
  next
    case 3
    have f: "1 \<le> m" "m \<le> 12" using date_fields_small [OF dd] by auto
    define i where "i = 12 * y + (m - 1 - n)"
    have i: "period_at kind z t - n = i"
      using dd 3 by (simp add: i_def period_at_def period_index_def)
    have idx: "months_back y (m - 1 - n) = (i div 12, i mod 12)"
      unfolding i_def using f assms(2) by (intro months_back_index) simp
    have "year_4 (i div 12)"
      using assms(4) by (simp only: i) (simp add: 3 index_year_def)
    then show ?thesis
      using assms(2) kind 3 d idx unfolding i
      by (simp add: period_key_minus_def index_key_def fmt_month_def month_key_def year_prints)
  qed
qed

lemma length_two [simp]: "0 \<le> a \<Longrightarrow> a < 100 \<Longrightarrow> length (zpad 2 (nat a)) = 2"
  by (rule length_zpad) auto

lemma digits_two: "0 \<le> a \<Longrightarrow> a < 100 \<Longrightarrow> list_all is_digit (zpad 2 (nat a))"
  by (rule zpad_digits) auto

lemma digits_year: "year_4 y \<Longrightarrow> list_all is_digit (zpad 4 (nat y))"
  by (rule zpad_digits) (auto simp: year_4_def)

lemma validate_index_key:
  assumes "divided kind" and "year_4 (index_year kind i)"
  shows "validate_period_key kind (index_key kind i)"
  using assms(1)
proof (cases rule: divided_cases)
  case 1
  obtain y m d where d: "date_of_days i = (y, m, d)" by (metis prod_cases3)
  note f = date_fields_small [OF d]
  have y: "year_4 y" using assms(2) f(1) by (simp add: 1 index_year_def)
  moreover have "valid_date y m d" using date_of_days_number [OF d] by simp
  ultimately show ?thesis
    using f digits_year [of y] digits_two [of m] digits_two [of d]
    by (simp add: 1 validate_period_key_def index_key_def day_key_def d year_prints all_digits_def year_4_def)
next
  case 2
  obtain y w where w: "iso_week (7 * i) = (y, w)" by (metis surj_pair)
  have y: "year_4 y" using assms(2) by (simp add: 2 index_year_def w)
  with iso_week_bounds [OF w] show ?thesis
    using digits_year [of y] digits_two [of w]
    by (simp add: 2 validate_period_key_def index_key_def iso_week_key_def w year_prints all_digits_def
        le_nat_iff nat_le_iff)
next
  case 3
  have y: "year_4 (i div 12)" using assms(2) by (simp add: 3 index_year_def)
  have "0 \<le> i mod 12" "i mod 12 < 12" by simp_all
  then show ?thesis
    using y digits_year [of "i div 12"] digits_two [of "i mod 12 + 1"]
    by (simp add: 3 validate_period_key_def index_key_def month_key_def year_prints all_digits_def
        le_nat_iff nat_le_iff)
qed

lemma location_utc: "bd_PeriodTZ b = '''' \<Longrightarrow> location zs b = utc_zone"
  by (simp add: location_def)

lemma reading_exists_utc [simp]: "reading_exists utc_zone r"
  by (simp add: reading_exists_def)

section \<open>Evaluation\<close>

text \<open>
  A date is computed once the number of its day is known, never symbolically inside the
  continuation of a step: the code equations ask for the constructors of the integers.
\<close>

definition date_at :: "int \<Rightarrow> int \<times> int \<times> int" where
  "date_at n = date_of_days n"

lemma date_at_code [code]: "date_at n = (let y = year_of_days n; k = n - year_days y; m = month_of (leap y) k
     in (y, m, k - month_days (leap y) m + 1))"
  by (simp add: date_at_def date_of_days_def)

lemma date_of_days_code [code]:
  "date_of_days 0 = date_at 0" "date_of_days (Int.Pos i) = date_at (Int.Pos i)"
  "date_of_days (Int.Neg i) = date_at (Int.Neg i)"
  by (simp_all add: date_at_def)
end
