(* ===== verification/Leaderboard_Store.thy ===== *)
theory Leaderboard_Store
  imports Leaderboard_Periods Asset_Service
begin

text \<open>
  The tables of leaderboards and the statements of \<^verbatim>\<open>bunrepo/leaderboards_repo.go\<close> and
  \<^verbatim>\<open>leaderboards_settlements_repo.go\<close> on them, with the constraints of the migrations \<^verbatim>\<open>000019\<close>
  and \<^verbatim>\<open>000020\<close>. A table is the list of its rows for all projects; each project has a schema of
  its own, so every key holds per project. Outside a transaction every statement commits by
  itself. A time is stored in microseconds. The rules of rewards are stored as they are: that
  JSON brings them back is not part of the model. The texts of errors are left out.
\<close>

section \<open>The state\<close>

datatype settlement_status = SettlementSettling | SettlementSettled | SettlementError | SettlementVoided

datatype reward_status = RewardPending | RewardGranted | RewardFailed | RewardVoided

record settlement =
  st_ProjectID :: string
  st_ID :: string
  st_BoardID :: string
  st_PeriodKey :: string
  st_Status :: settlement_status
  st_SealedAt :: gtime
  st_SettledAt :: "gtime option"
  st_Rules :: "reward_rule list"
  st_EntryCount :: int
  st_GrantCount :: int
  st_CreatedAt :: gtime
  st_UpdatedAt :: gtime

record settlement_grant =
  sg_ProjectID :: string
  sg_ID :: string
  sg_SettlementID :: string
  sg_RuleIndex :: nat
  sg_SubjectID :: string
  sg_AssetCode :: string
  sg_Amount :: int
  sg_IdempotencyKey :: string
  sg_Status :: reward_status
  sg_CreatedAt :: gtime
  sg_UpdatedAt :: gtime

record lb_tables =
  lt_boards :: "board list"
  lt_entries :: "lb_entry list"
  lt_settlements :: "settlement list"
  lt_grants :: "settlement_grant list"

record lb_world =
  lw_db :: lb_tables
  lw_assets :: asset_world
  lw_ids :: nat
  lw_ticks :: nat
  lw_ops :: nat

text \<open>\<open>le_operator\<close> is the text the asset system records for the principal of the system.\<close>

record lb_env =
  le_clock :: "nat \<Rightarrow> gtime"
  le_id :: "nat \<Rightarrow> string"
  le_fails :: "nat \<Rightarrow> bool"
  le_zones :: "string \<Rightarrow> zone option"
  le_assets :: asset_env
  le_operator :: "string option"

type_synonym 'a ltx = "(lb_world, lb_err, 'a) tx"

definition lb_op :: "lb_env \<Rightarrow> 'a ltx \<Rightarrow> 'a ltx" where
  "lb_op n f = (\<lambda>w. let w' = w\<lparr>lw_ops := Suc (lw_ops w)\<rparr>
     in if le_fails n (lw_ops w) then (Inl LbDB, w') else f w')"

definition lb_read :: "lb_env \<Rightarrow> (lb_tables \<Rightarrow> 'a) \<Rightarrow> 'a ltx" where
  "lb_read n f = lb_op n (\<lambda>w. (Inr (f (lw_db w)), w))"

definition lb_write :: "lb_env \<Rightarrow> (lb_tables \<Rightarrow> lb_err + 'a \<times> lb_tables) \<Rightarrow> 'a ltx" where
  "lb_write n f = lb_op n (\<lambda>w. case f (lw_db w) of Inl err \<Rightarrow> (Inl err, w)
     | Inr (a, db) \<Rightarrow> (Inr a, w\<lparr>lw_db := db\<rparr>))"

definition lb_new_id :: "lb_env \<Rightarrow> string ltx" where
  "lb_new_id n = (\<lambda>w. (Inr (le_id n (lw_ids w)), w\<lparr>lw_ids := Suc (lw_ids w)\<rparr>))"

definition lb_now :: "lb_env \<Rightarrow> gtime ltx" where
  "lb_now n = (\<lambda>w. (Inr (le_clock n (lw_ticks w)), w\<lparr>lw_ticks := Suc (lw_ticks w)\<rparr>))"

definition lb_run :: "lb_env \<Rightarrow> 'a ltx \<Rightarrow> 'a ltx" where
  "lb_run n m = (\<lambda>w.
     let w0 = w\<lparr>lw_ops := Suc (lw_ops w)\<rparr> in
     if le_fails n (lw_ops w) then (Inl LbDB, w0)
     else (case m w0 of
         (Inl err, w') \<Rightarrow> (Inl err, w'\<lparr>lw_db := lw_db w\<rparr>)
       | (Inr a, w') \<Rightarrow>
           if le_fails n (lw_ops w') then (Inl LbDB, w'\<lparr>lw_ops := Suc (lw_ops w'), lw_db := lw_db w\<rparr>)
           else (Inr a, w'\<lparr>lw_ops := Suc (lw_ops w')\<rparr>)))"

section \<open>Boards\<close>

definition board_key :: "board \<Rightarrow> string \<times> string" where
  "board_key b = (bd_ProjectID b, bd_ID b)"

definition board_columns_ok :: "board \<Rightarrow> bool" where
  "board_columns_ok b \<longleftrightarrow> bd_Sort b \<in> {SortAsc, SortDesc} \<and>
     bd_TiebreakOrder b \<in> {None, Some SortAsc, Some SortDesc} \<and>
     bd_TieBreak b \<in> {TieBreakParallel, TieBreakEarliest, TieBreakLatest} \<and>
     bd_PeriodKind b \<in> {PeriodNone, PeriodDaily, PeriodWeekly, PeriodMonthly} \<and>
     bd_Policy b \<in> {PolicyBest, PolicyLatest, PolicySum} \<and>
     (case (bd_ValueMin b, bd_ValueMax b) of (Some lo, Some hi) \<Rightarrow> lo \<le> hi | _ \<Rightarrow> True) \<and>
     1 \<le> bd_PerSubjectLimit b \<and> bd_PerSubjectLimit b \<le> 10000 \<and> 0 \<le> bd_RetentionPeriods b"

definition board_insert :: "lb_env \<Rightarrow> board \<Rightarrow> unit ltx" where
  "board_insert n b = lb_write n (\<lambda>db.
     if list_ex (\<lambda>x. board_key x = board_key b) (lt_boards db) then Inl ErrBoardExists
     else if board_columns_ok b then Inr ((), db\<lparr>lt_boards := lt_boards db @ [b]\<rparr>) else Inl LbDB)"

definition board_get :: "lb_env \<Rightarrow> string \<Rightarrow> string \<Rightarrow> board option ltx" where
  "board_get n p i = lb_read n (\<lambda>db. find (\<lambda>b. board_key b = (p, i)) (lt_boards db))"

definition board_update :: "lb_env \<Rightarrow> board \<Rightarrow> unit ltx" where
  "board_update n b = lb_write n (\<lambda>db.
     if board_columns_ok b then Inr ((), db\<lparr>lt_boards := map (\<lambda>x. if board_key x = board_key b
         then b\<lparr>bd_CreatedAt := bd_CreatedAt x\<rparr> else x) (lt_boards db)\<rparr>)
     else Inl LbDB)"

text \<open>\<^verbatim>\<open>ON DELETE CASCADE\<close>: the entries of the board go with it.\<close>

definition board_delete :: "lb_env \<Rightarrow> string \<Rightarrow> string \<Rightarrow> unit ltx" where
  "board_delete n p i = lb_write n (\<lambda>db. Inr ((), db\<lparr>
     lt_boards := filter (\<lambda>b. board_key b \<noteq> (p, i)) (lt_boards db),
     lt_entries := filter (\<lambda>e. (ent_ProjectID e, ent_BoardID e) \<noteq> (p, i)) (lt_entries db)\<rparr>))"

definition board_list :: "lb_env \<Rightarrow> string \<Rightarrow> board list ltx" where
  "board_list n p = lb_read n (\<lambda>db. sort_key (\<lambda>b. - bd_CreatedAt b)
     (filter (\<lambda>b. bd_ProjectID b = p) (lt_boards db)))"

definition board_list_with_rewards :: "lb_env \<Rightarrow> string \<Rightarrow> board list ltx" where
  "board_list_with_rewards n p = lb_read n (\<lambda>db. sort_key (\<lambda>b. - bd_CreatedAt b)
     (filter (\<lambda>b. bd_ProjectID b = p \<and> bd_Rewards b \<noteq> []) (lt_boards db)))"

definition board_count :: "lb_env \<Rightarrow> string \<Rightarrow> nat ltx" where
  "board_count n p = lb_read n (\<lambda>db. length (filter (\<lambda>b. bd_ProjectID b = p) (lt_boards db)))"

section \<open>Entries\<close>

definition entry_key :: "lb_entry \<Rightarrow> string \<times> string \<times> string \<times> string" where
  "entry_key e = (ent_ProjectID e, ent_BoardID e, ent_PeriodKey e, ent_SubjectID e)"

definition entry_get :: "lb_env \<Rightarrow> string \<Rightarrow> string \<Rightarrow> string \<Rightarrow> string \<Rightarrow> lb_entry option ltx" where
  "entry_get n p b k s = lb_read n (\<lambda>db. find (\<lambda>e. entry_key e = (p, b, k, s)) (lt_entries db))"

definition stored_entry :: "lb_entry \<Rightarrow> lb_entry" where
  "stored_entry e = e\<lparr>ent_CreatedAt := truncate_to (ent_CreatedAt e) usec,
     ent_UpdatedAt := truncate_to (ent_UpdatedAt e) usec\<rparr>"

definition entry_insert :: "lb_env \<Rightarrow> lb_entry \<Rightarrow> unit ltx" where
  "entry_insert n e = lb_write n (\<lambda>db.
     if list_ex (\<lambda>x. entry_key x = entry_key e) (lt_entries db) then Inl ErrConcurrentInsert
     else if list_ex (\<lambda>b. board_key b = (ent_ProjectID e, ent_BoardID e)) (lt_boards db)
        \<and> 1 \<le> ent_SubmitCount e
     then Inr ((), db\<lparr>lt_entries := lt_entries db @ [stored_entry e]\<rparr>) else Inl LbDB)"

definition merged_columns :: "lb_entry \<Rightarrow> lb_entry \<Rightarrow> lb_entry" where
  "merged_columns e r = r\<lparr>ent_Value := ent_Value e, ent_TiebreakValue := ent_TiebreakValue e,
     ent_SubmitCount := ent_SubmitCount e, ent_UpdatedAt := truncate_to (ent_UpdatedAt e) usec\<rparr>"

definition entry_save_merged :: "lb_env \<Rightarrow> lb_entry \<Rightarrow> unit ltx" where
  "entry_save_merged n e = lb_write n (\<lambda>db.
     if 1 \<le> ent_SubmitCount e then Inr ((), db\<lparr>lt_entries := map (\<lambda>r. if entry_key r = entry_key e
         then merged_columns e r else r) (lt_entries db)\<rparr>)
     else Inl LbDB)"

definition in_period :: "string \<Rightarrow> string \<Rightarrow> string \<Rightarrow> lb_entry \<Rightarrow> bool" where
  "in_period p b k e \<longleftrightarrow> ent_ProjectID e = p \<and> ent_BoardID e = b \<and> ent_PeriodKey e = k"

definition entry_delete :: "lb_env \<Rightarrow> string \<Rightarrow> string \<Rightarrow> string \<Rightarrow> string \<Rightarrow> bool ltx" where
  "entry_delete n p b k s = lb_write n (\<lambda>db.
     Inr (list_ex (\<lambda>e. entry_key e = (p, b, k, s)) (lt_entries db),
       db\<lparr>lt_entries := filter (\<lambda>e. entry_key e \<noteq> (p, b, k, s)) (lt_entries db)\<rparr>))"

definition count_total :: "lb_env \<Rightarrow> string \<Rightarrow> string \<Rightarrow> string \<Rightarrow> int ltx" where
  "count_total n p b k = lb_read n (\<lambda>db. int (length (filter (in_period p b k) (lt_entries db))))"

definition count_in_board :: "lb_env \<Rightarrow> string \<Rightarrow> string \<Rightarrow> int ltx" where
  "count_in_board n p b = lb_read n (\<lambda>db.
     int (length (filter (\<lambda>e. ent_ProjectID e = p \<and> ent_BoardID e = b) (lt_entries db))))"

definition prune_older_than :: "lb_env \<Rightarrow> string \<Rightarrow> string \<Rightarrow> string \<Rightarrow> int ltx" where
  "prune_older_than n p b cutoff = lb_write n (\<lambda>db.
     let old = (\<lambda>e. ent_ProjectID e = p \<and> ent_BoardID e = b \<and> ent_PeriodKey e < cutoff)
     in Inr (int (length (filter old (lt_entries db))),
       db\<lparr>lt_entries := filter (\<lambda>e. \<not> old e) (lt_entries db)\<rparr>))"

section \<open>The order of a board\<close>

text \<open>\<^verbatim>\<open>ORDER BY value\<close> in the direction \<^verbatim>\<open>sortDirSQL\<close>, as it compares two rows.\<close>

definition value_before :: "sort_direction \<Rightarrow> int \<Rightarrow> int \<Rightarrow> bool" where
  "value_before dir x y = (if dir = SortAsc then x < y else y < x)"

text \<open>
  \<^verbatim>\<open>fullOrderExpr\<close> as a key: value, the second value if the board has one (an absent one comes
  last in ascending order and first in descending order), time, subject.
\<close>

definition dir_key :: "sort_direction \<Rightarrow> int \<Rightarrow> int" where
  "dir_key dir x = (if dir = SortAsc then x else - x)"

definition tie_key :: "sort_direction \<Rightarrow> int option \<Rightarrow> bool \<times> int" where
  "tie_key dir x = (case x of None \<Rightarrow> (dir = SortAsc, 0) | Some y \<Rightarrow> (dir \<noteq> SortAsc, dir_key dir y))"

definition full_order :: "board \<Rightarrow> lb_entry \<Rightarrow> int \<times> (bool \<times> int) \<times> int \<times> string" where
  "full_order b e = (dir_key (bd_Sort b) (ent_Value e),
     (case bd_TiebreakOrder b of None \<Rightarrow> (False, 0) | Some d \<Rightarrow> tie_key d (ent_TiebreakValue e)),
     (if bd_TieBreak b = TieBreakLatest then - ent_UpdatedAt e else ent_UpdatedAt e),
     ent_SubjectID e)"

text \<open>The window functions \<^verbatim>\<open>RANK()\<close> by value and \<^verbatim>\<open>ROW_NUMBER()\<close> by the full order.\<close>

record top_entry =
  te_Entry :: lb_entry
  te_Rank :: int
  te_Position :: int

definition ranked :: "board \<Rightarrow> lb_entry list \<Rightarrow> top_entry list" where
  "ranked b es = (let s = sort_key (full_order b) es in map (\<lambda>(i, e).
     \<lparr>te_Entry = e,
      te_Rank = 1 + int (length (filter (\<lambda>r. value_before (bd_Sort b) (ent_Value r) (ent_Value e)) es)),
      te_Position = int i + 1\<rparr>) (enumerate 0 s))"

definition list_top :: "lb_env \<Rightarrow> board \<Rightarrow> string \<Rightarrow> nat \<Rightarrow> nat \<Rightarrow> top_entry list ltx" where
  "list_top n b k limit offset = lb_read n (\<lambda>db. take limit (drop offset
     (ranked b (filter (in_period (bd_ProjectID b) (bd_ID b) k) (lt_entries db)))))"

text \<open>
  \<^verbatim>\<open>aheadFilter\<close>: for each key of the order the pair "the row is before me, the row equals me";
  a comparison with an absent second value is neither. The filter is the disjunction over the
  keys of "equal on the keys before, and before me on this one".
\<close>

definition key_before :: "bool \<Rightarrow> 'a::linorder \<Rightarrow> 'a \<Rightarrow> bool \<times> bool" where
  "key_before desc x y = (if desc then y < x else x < y, x = y)"

definition ahead_keys :: "board \<Rightarrow> lb_entry \<Rightarrow> lb_entry \<Rightarrow> (bool \<times> bool) list" where
  "ahead_keys b e r =
     [key_before (bd_Sort b = SortDesc) (ent_Value r) (ent_Value e)] @
     (case (bd_TiebreakOrder b, ent_TiebreakValue e) of
        (Some d, Some y) \<Rightarrow> [case ent_TiebreakValue r of None \<Rightarrow> (False, False)
          | Some x \<Rightarrow> key_before (d = SortDesc) x y]
      | _ \<Rightarrow> []) @
     [key_before (bd_TieBreak b = TieBreakLatest) (ent_UpdatedAt r) (truncate_to (ent_UpdatedAt e) usec),
      key_before False (ent_SubjectID r) (ent_SubjectID e)]"

fun some_ahead :: "(bool \<times> bool) list \<Rightarrow> bool" where
  "some_ahead [] = False"
| "some_ahead ((before, same) # ks) \<longleftrightarrow> before \<or> same \<and> some_ahead ks"

definition count_where :: "(lb_entry \<Rightarrow> bool) \<Rightarrow> lb_entry list \<Rightarrow> int" where
  "count_where P es = int (length (filter P es))"

definition entry_stats_of :: "board \<Rightarrow> lb_entry \<Rightarrow> lb_entry list \<Rightarrow> entry_stats" where
  "entry_stats_of b e es = (let asc = (bd_Sort b = SortAsc) in
     \<lparr>es_Total = int (length es),
      es_Rank = count_where (\<lambda>r. if asc then ent_Value r < ent_Value e else ent_Value e < ent_Value r) es + 1,
      es_Position = count_where (\<lambda>r. some_ahead (ahead_keys b e r)) es + 1,
      es_Below = count_where (\<lambda>r. if asc then ent_Value e < ent_Value r else ent_Value r < ent_Value e) es\<rparr>)"

definition stats :: "lb_env \<Rightarrow> board \<Rightarrow> string \<Rightarrow> lb_entry option \<Rightarrow> entry_stats ltx" where
  "stats n b k e = lb_read n (\<lambda>db.
     let es = filter (in_period (bd_ProjectID b) (bd_ID b) k) (lt_entries db) in
     case e of None \<Rightarrow> \<lparr>es_Total = int (length es), es_Rank = 0, es_Position = 0, es_Below = 0\<rparr>
     | Some x \<Rightarrow> entry_stats_of b x es)"

text \<open>\<^verbatim>\<open>ListRewardWinners\<close>: the ordinal is the position where ties are broken by time, else the rank.\<close>

definition ordinal :: "board \<Rightarrow> top_entry \<Rightarrow> int" where
  "ordinal b t = (if bd_TieBreak b \<in> {TieBreakEarliest, TieBreakLatest} then te_Position t else te_Rank t)"

definition rule_hits :: "board \<Rightarrow> reward_rule \<Rightarrow> top_entry \<Rightarrow> bool" where
  "rule_hits b rule t \<longleftrightarrow>
     (rr_RankMin rule \<noteq> None \<or> rr_RankMax rule \<noteq> None \<longrightarrow>
        (case rr_RankMin rule of None \<Rightarrow> 1 \<le> ordinal b t | Some lo \<Rightarrow> lo \<le> ordinal b t) \<and>
        (case rr_RankMax rule of None \<Rightarrow> True | Some hi \<Rightarrow> ordinal b t \<le> hi)) \<and>
     (case rr_ValueMin rule of None \<Rightarrow> True | Some v \<Rightarrow> v \<le> ent_Value (te_Entry t))"

definition list_reward_winners :: "lb_env \<Rightarrow> board \<Rightarrow> string \<Rightarrow> reward_rule \<Rightarrow> int \<Rightarrow> lb_entry list ltx" where
  "list_reward_winners n b k rule limit = lb_read n (\<lambda>db.
     let lim = (if limit \<le> 0 then 10000 else nat limit);
         es = filter (in_period (bd_ProjectID b) (bd_ID b) k) (lt_entries db)
     in map te_Entry (take lim (sort_key (\<lambda>t. (te_Rank t, te_Position t)) (filter (rule_hits b rule) (ranked b es)))))"

section \<open>Settlements\<close>

definition settlement_of :: "lb_tables \<Rightarrow> string \<Rightarrow> string \<Rightarrow> string \<Rightarrow> settlement option" where
  "settlement_of db p b k = find (\<lambda>s. st_ProjectID s = p \<and> st_BoardID s = b \<and> st_PeriodKey s = k) (lt_settlements db)"

text \<open>\<^verbatim>\<open>SELECT DISTINCT\<close>, the latest period first.\<close>

definition settlable :: "lb_tables \<Rightarrow> string \<Rightarrow> string \<Rightarrow> string \<Rightarrow> lb_entry \<Rightarrow> bool" where
  "settlable db p b previous e \<longleftrightarrow> ent_ProjectID e = p \<and> ent_BoardID e = b \<and> ent_PeriodKey e < previous \<and>
     \<not> list_ex (\<lambda>s. st_ProjectID s = p \<and> st_BoardID s = b \<and> st_PeriodKey s = ent_PeriodKey e) (lt_settlements db)"

definition list_settlable_periods :: "lb_env \<Rightarrow> string \<Rightarrow> string \<Rightarrow> string \<Rightarrow> int \<Rightarrow> string list ltx" where
  "list_settlable_periods n p b previous limit = lb_read n (\<lambda>db.
     let lim = (if limit \<le> 0 then 50 else nat limit)
     in take lim (rev (sort (remdups (map ent_PeriodKey (filter (settlable db p b previous) (lt_entries db)))))))"

definition claim_pending :: "lb_env \<Rightarrow> settlement \<Rightarrow> bool ltx" where
  "claim_pending n s = lb_write n (\<lambda>db.
     if settlement_of db (st_ProjectID s) (st_BoardID s) (st_PeriodKey s) \<noteq> None then Inr (False, db)
     else if list_ex (\<lambda>x. st_ProjectID x = st_ProjectID s \<and> st_ID x = st_ID s) (lt_settlements db) then Inl LbDB
     else Inr (True, db\<lparr>lt_settlements := lt_settlements db @ [s]\<rparr>))"

definition settlement_get :: "lb_env \<Rightarrow> string \<Rightarrow> string \<Rightarrow> string \<Rightarrow> settlement option ltx" where
  "settlement_get n p b k = lb_read n (\<lambda>db. settlement_of db p b k)"

definition grants_of :: "lb_tables \<Rightarrow> string \<Rightarrow> string \<Rightarrow> settlement_grant list" where
  "grants_of db p i = filter (\<lambda>g. sg_ProjectID g = p \<and> sg_SettlementID g = i) (lt_grants db)"

definition list_grants :: "lb_env \<Rightarrow> string \<Rightarrow> string \<Rightarrow> settlement_grant list ltx" where
  "list_grants n p i = lb_read n (\<lambda>db. sort_key (\<lambda>g. (sg_RuleIndex g, sg_SubjectID g)) (grants_of db p i))"

definition grant_row_key :: "settlement_grant \<Rightarrow> string \<times> string \<times> nat \<times> string" where
  "grant_row_key g = (sg_ProjectID g, sg_SettlementID g, sg_RuleIndex g, sg_SubjectID g)"

text \<open>\<^verbatim>\<open>ON CONFLICT ... DO UPDATE\<close>: status and time of the row that is there; one statement a row.\<close>

definition save_grant :: "lb_env \<Rightarrow> settlement_grant \<Rightarrow> unit ltx" where
  "save_grant n g = lb_write n (\<lambda>db.
     if list_ex (\<lambda>x. grant_row_key x = grant_row_key g) (lt_grants db)
     then Inr ((), db\<lparr>lt_grants := map (\<lambda>x. if grant_row_key x = grant_row_key g
         then x\<lparr>sg_Status := sg_Status g, sg_UpdatedAt := sg_UpdatedAt g\<rparr> else x) (lt_grants db)\<rparr>)
     else if list_ex (\<lambda>x. sg_ProjectID x = sg_ProjectID g \<and> sg_ID x = sg_ID g) (lt_grants db) \<or>
         \<not> list_ex (\<lambda>s. st_ProjectID s = sg_ProjectID g \<and> st_ID s = sg_SettlementID g) (lt_settlements db) \<or>
         sg_Amount g \<le> 0
     then Inl LbDB
     else Inr ((), db\<lparr>lt_grants := lt_grants db @ [g]\<rparr>))"

fun save_grants :: "lb_env \<Rightarrow> settlement_grant list \<Rightarrow> unit ltx" where
  "save_grants n [] = tx_ret ()"
| "save_grants n (g # gs) = tx_bind (save_grant n g) (\<lambda>_. save_grants n gs)"

definition update_status :: "lb_env \<Rightarrow> string \<Rightarrow> string \<Rightarrow> (settlement \<Rightarrow> settlement) \<Rightarrow> unit ltx" where
  "update_status n p i f = lb_write n (\<lambda>db. Inr ((), db\<lparr>lt_settlements :=
     map (\<lambda>s. if st_ProjectID s = p \<and> st_ID s = i then f s else s) (lt_settlements db)\<rparr>))"

definition settlement_complete :: "lb_env \<Rightarrow> string \<Rightarrow> string \<Rightarrow> gtime \<Rightarrow> int \<Rightarrow> unit ltx" where
  "settlement_complete n p i at count = update_status n p i (\<lambda>s. s\<lparr>st_Status := SettlementSettled,
     st_SettledAt := Some at, st_GrantCount := count\<rparr>)"

definition settlement_fail :: "lb_env \<Rightarrow> string \<Rightarrow> string \<Rightarrow> unit ltx" where
  "settlement_fail n p i = update_status n p i (\<lambda>s. s\<lparr>st_Status := SettlementError\<rparr>)"

definition settlement_void :: "lb_env \<Rightarrow> string \<Rightarrow> string \<Rightarrow> unit ltx" where
  "settlement_void n p i = update_status n p i (\<lambda>s. s\<lparr>st_Status := SettlementVoided\<rparr>)"

definition settlement_reset :: "lb_env \<Rightarrow> string \<Rightarrow> string \<Rightarrow> unit ltx" where
  "settlement_reset n p i = update_status n p i (\<lambda>s. s\<lparr>st_Status := SettlementSettling\<rparr>)"

end
