(* ===== verification/Leaderboard_Service.thy ===== *)
theory Leaderboard_Service
  imports Leaderboard_Store
begin

text \<open>
  The leaderboard service, \<^verbatim>\<open>internal/app/leaderboards\<close>: submissions, reads, boards, the scan that
  prunes old periods, and the settlement of sealed periods, which grants the rewards of a board
  through the asset system (\<^verbatim>\<open>reward_granter.go\<close>). A settlement runs statement by statement, with
  no transaction around it. The replay cache of \<^verbatim>\<open>request_id\<close> and the encoding of page tokens are
  left out, and so are logs.
\<close>

record lb_principal =
  lp_ProjectID :: string
  lp_UserID :: string

definition lb_project_scope :: "lb_principal option \<Rightarrow> lb_err + string" where
  "lb_project_scope pr = (case pr of None \<Rightarrow> Inl (LbStatus LbUnauthenticated)
   | Some p \<Rightarrow> if lp_ProjectID p = '''' then Inl (LbStatus LbUnauthenticated) else Inr (lp_ProjectID p))"

definition lb_end_user :: "lb_principal option \<Rightarrow> lb_err + string \<times> string" where
  "lb_end_user pr = (case pr of None \<Rightarrow> Inl (LbStatus LbUnauthenticated)
   | Some p \<Rightarrow> if lp_ProjectID p = '''' \<or> lp_UserID p = '''' then Inl (LbStatus LbUnauthenticated)
       else Inr (lp_ProjectID p, lp_UserID p))"

definition map_leaderboard_error :: "lb_err \<Rightarrow> lb_err" where
  "map_leaderboard_error err = (case err of
     LbStatus c \<Rightarrow> LbStatus c
   | ErrBoardNotFound \<Rightarrow> LbStatus LbNotFound
   | ErrEntryNotFound \<Rightarrow> LbStatus LbNotFound
   | ErrBoardExists \<Rightarrow> LbStatus LbAlreadyExists
   | ErrBoardLimit \<Rightarrow> LbStatus LbResourceExhausted
   | ErrSettlementNotFound \<Rightarrow> LbStatus LbNotFound
   | ErrSettlementAlreadySettled \<Rightarrow> LbStatus LbFailedPrecondition
   | ErrSettlementVoided \<Rightarrow> LbStatus LbFailedPrecondition
   | ErrImmutableField \<Rightarrow> LbStatus LbFailedPrecondition
   | ErrSubmitLimitExceeded \<Rightarrow> LbStatus LbResourceExhausted
   | ErrClientSubmitDisabled \<Rightarrow> LbStatus LbPermissionDenied
   | ErrInvalidConfig \<Rightarrow> LbStatus LbInvalidArgument
   | ErrSubjectRequired \<Rightarrow> LbStatus LbInvalidArgument
   | ErrSubjectTooLong \<Rightarrow> LbStatus LbInvalidArgument
   | ErrValueOutOfRange \<Rightarrow> LbStatus LbInvalidArgument
   | ErrValueTooLarge \<Rightarrow> LbStatus LbInvalidArgument
   | ErrPeriodInvalid \<Rightarrow> LbStatus LbInvalidArgument
   | ErrPeriodNotSubmittable \<Rightarrow> LbStatus LbInvalidArgument
   | ErrTiebreakMismatch \<Rightarrow> LbStatus LbInvalidArgument
   | ErrConcurrentInsert \<Rightarrow> ErrConcurrentInsert
   | LbDB \<Rightarrow> LbDB)"

definition lb_mapped :: "'a ltx \<Rightarrow> 'a ltx" where
  "lb_mapped m = (\<lambda>w. case m w of (Inl err, w') \<Rightarrow> (Inl (map_leaderboard_error err), w') | r \<Rightarrow> r)"

text \<open>A step whose error the caller looks at.\<close>

definition attempt :: "'a ltx \<Rightarrow> (lb_err + 'a) ltx" where
  "attempt m = (\<lambda>w. case m w of (r, w') \<Rightarrow> (Inr r, w'))"

definition load_board :: "lb_env \<Rightarrow> string \<Rightarrow> string \<Rightarrow> board ltx" where
  "load_board n p i = tx_bind (board_get n p i) (\<lambda>row. case row of
     None \<Rightarrow> tx_fail ErrBoardNotFound | Some b \<Rightarrow> tx_ret b)"

section \<open>Submissions\<close>

record submit_command =
  cm_BoardID :: string
  cm_SubjectID :: string
  cm_Value :: int
  cm_Tiebreak :: "int option"
  cm_Period :: string

definition max_submit_attempts :: nat where "max_submit_attempts = 3"

definition first_entry :: "board \<Rightarrow> string \<Rightarrow> submit_command \<Rightarrow> gtime \<Rightarrow> lb_entry" where
  "first_entry b k cmd now = \<lparr>ent_ProjectID = bd_ProjectID b, ent_BoardID = bd_ID b, ent_PeriodKey = k,
     ent_SubjectID = cm_SubjectID cmd, ent_Value = cm_Value cmd, ent_TiebreakValue = cm_Tiebreak cmd,
     ent_SubmitCount = 1, ent_CreatedAt = now, ent_UpdatedAt = now\<rparr>"

definition merged_entry :: "board \<Rightarrow> lb_entry \<Rightarrow> submit_command \<Rightarrow> gtime \<Rightarrow> lb_entry" where
  "merged_entry b cur cmd now = (case merge_submit b cur (cm_Value cmd) (cm_Tiebreak cmd) of
     (v, tb, improved) \<Rightarrow> cur\<lparr>ent_Value := v, ent_TiebreakValue := tb,
       ent_SubmitCount := i32 (ent_SubmitCount cur + 1),
       ent_UpdatedAt := (if improved then now else ent_UpdatedAt cur)\<rparr>)"

definition submit_in_tx :: "lb_env \<Rightarrow> board \<Rightarrow> string \<Rightarrow> submit_command \<Rightarrow> lb_entry ltx" where
  "submit_in_tx n b k cmd =
     tx_bind (entry_get n (bd_ProjectID b) (bd_ID b) k (cm_SubjectID cmd)) (\<lambda>row.
     tx_bind (lb_now n) (\<lambda>now. case row of
       None \<Rightarrow> let e = first_entry b k cmd now in tx_bind (entry_insert n e) (\<lambda>_. tx_ret e)
     | Some cur \<Rightarrow>
         if bd_PerSubjectLimit b \<le> ent_SubmitCount cur then tx_fail ErrSubmitLimitExceeded
         else let e = merged_entry b cur cmd now in tx_bind (entry_save_merged n e) (\<lambda>_. tx_ret e)))"

definition submit_once :: "lb_env \<Rightarrow> board \<Rightarrow> string \<Rightarrow> submit_command \<Rightarrow> snapshot ltx" where
  "submit_once n b k cmd = lb_run n (
     tx_bind (submit_in_tx n b k cmd) (\<lambda>e.
     tx_bind (stats n b k (Some e)) (\<lambda>st.
     tx_ret \<lparr>sn_BoardID = bd_ID b, sn_PeriodKey = k, sn_Entry = Some e, sn_Stats = st\<rparr>)))"

fun submit_attempts :: "lb_env \<Rightarrow> board \<Rightarrow> string \<Rightarrow> submit_command \<Rightarrow> nat \<Rightarrow> snapshot ltx" where
  "submit_attempts n b k cmd 0 = tx_fail (LbStatus LbAborted)"
| "submit_attempts n b k cmd (Suc left) = tx_bind (attempt (submit_once n b k cmd)) (\<lambda>r. case r of
     Inr snap \<Rightarrow> tx_ret snap
   | Inl ErrConcurrentInsert \<Rightarrow> submit_attempts n b k cmd left
   | Inl err \<Rightarrow> tx_fail err)"

definition do_submit :: "lb_env \<Rightarrow> string \<Rightarrow> submit_command \<Rightarrow> snapshot ltx" where
  "do_submit n p cmd =
     tx_bind (load_board n p (cm_BoardID cmd)) (\<lambda>b.
     tx_bind (lb_now n) (\<lambda>now.
     tx_bind (tx_lift (resolve_submittable_period (le_zones n) b (cm_Period cmd) now)) (\<lambda>k.
     tx_bind (tx_lift (validate_value b (cm_Value cmd))) (\<lambda>_.
     tx_bind (tx_lift (validate_subject_id (cm_SubjectID cmd))) (\<lambda>_.
     tx_when (has_tiebreak b \<noteq> (cm_Tiebreak cmd \<noteq> None)) ErrTiebreakMismatch (
     submit_attempts n b k cmd max_submit_attempts))))))"

definition submit :: "lb_env \<Rightarrow> lb_principal option \<Rightarrow> submit_command \<Rightarrow> snapshot ltx" where
  "submit n pr cmd = tx_bind (tx_lift (lb_project_scope pr)) (\<lambda>p. lb_mapped (do_submit n p cmd))"

definition submit_self :: "lb_env \<Rightarrow> lb_principal option \<Rightarrow> submit_command \<Rightarrow> snapshot ltx" where
  "submit_self n pr cmd = tx_bind (tx_lift (lb_end_user pr)) (\<lambda>(p, u).
     tx_bind (lb_mapped (load_board n p (cm_BoardID cmd))) (\<lambda>b.
     if \<not> bd_ClientSubmit b then lb_mapped (tx_fail ErrClientSubmitDisabled)
     else lb_mapped (do_submit n p (cmd\<lparr>cm_SubjectID := u\<rparr>))))"

section \<open>Reads and the removal of an entry\<close>

definition entry_snapshot :: "lb_env \<Rightarrow> string \<Rightarrow> string \<Rightarrow> string \<Rightarrow> string \<Rightarrow> snapshot ltx" where
  "entry_snapshot n p i s period =
     tx_bind (lb_mapped (load_board n p i)) (\<lambda>b.
     tx_bind (lb_now n) (\<lambda>now.
     tx_bind (lb_mapped (tx_lift (resolve_read_period (le_zones n) b period now))) (\<lambda>k.
     tx_bind (entry_get n p i k s) (\<lambda>row. case row of
       None \<Rightarrow> tx_bind (count_total n p i k) (\<lambda>total. tx_ret \<lparr>sn_BoardID = bd_ID b, sn_PeriodKey = k,
         sn_Entry = None, sn_Stats = \<lparr>es_Total = total, es_Rank = 0, es_Position = 0, es_Below = 0\<rparr>\<rparr>)
     | Some e \<Rightarrow> tx_bind (stats n b k (Some e)) (\<lambda>st. tx_ret
         \<lparr>sn_BoardID = bd_ID b, sn_PeriodKey = k, sn_Entry = Some e, sn_Stats = st\<rparr>)))))"

definition get_entry :: "lb_env \<Rightarrow> lb_principal option \<Rightarrow> string \<Rightarrow> string \<Rightarrow> string \<Rightarrow> snapshot ltx" where
  "get_entry n pr i s period = tx_bind (tx_lift (lb_project_scope pr)) (\<lambda>p.
     tx_bind (lb_mapped (tx_lift (validate_subject_id s))) (\<lambda>_. entry_snapshot n p i s period))"

definition get_my_entry :: "lb_env \<Rightarrow> lb_principal option \<Rightarrow> string \<Rightarrow> string \<Rightarrow> snapshot ltx" where
  "get_my_entry n pr i period = tx_bind (tx_lift (lb_end_user pr)) (\<lambda>(p, u). entry_snapshot n p i u period)"

definition default_top_page_size :: int where "default_top_page_size = 50"
definition max_top_page_size :: int where "max_top_page_size = 100"

definition top_page_size :: "int \<Rightarrow> nat" where
  "top_page_size k = (let s = (if k \<le> 0 then default_top_page_size else k)
     in nat (if max_top_page_size < s then max_top_page_size else s))"

text \<open>The page at \<open>offset\<close>: its rows, and the offset of the next page if there is one.\<close>

definition top_page :: "lb_env \<Rightarrow> lb_principal option \<Rightarrow> string \<Rightarrow> string \<Rightarrow> int \<Rightarrow> nat \<Rightarrow>
    (top_entry list \<times> int \<times> nat option) ltx" where
  "top_page n pr i period psize offset = tx_bind (tx_lift (lb_project_scope pr)) (\<lambda>p.
     tx_bind (lb_mapped (load_board n p i)) (\<lambda>b.
     tx_bind (lb_now n) (\<lambda>now.
     tx_bind (lb_mapped (tx_lift (resolve_read_period (le_zones n) b period now))) (\<lambda>k.
     let s = top_page_size psize in
     tx_bind (list_top n b k (s + 1) offset) (\<lambda>rows.
     tx_bind (count_total n p i k) (\<lambda>total.
     tx_ret (if s < length rows then (take s rows, total, Some (offset + s)) else (rows, total, None))))))))"

definition delete_entry :: "lb_env \<Rightarrow> lb_principal option \<Rightarrow> string \<Rightarrow> string \<Rightarrow> string \<Rightarrow> unit ltx" where
  "delete_entry n pr i period s = tx_bind (tx_lift (lb_project_scope pr)) (\<lambda>p.
     tx_bind (lb_mapped (load_board n p i)) (\<lambda>b.
     tx_bind (lb_now n) (\<lambda>now.
     tx_bind (lb_mapped (tx_lift (resolve_submittable_period (le_zones n) b period now))) (\<lambda>k.
     tx_bind (lb_mapped (tx_lift (validate_subject_id s))) (\<lambda>_.
     tx_bind (entry_delete n p i k s) (\<lambda>ok.
     if ok then tx_ret () else lb_mapped (tx_fail ErrEntryNotFound)))))))"

section \<open>Boards\<close>

definition or_default :: "'a \<Rightarrow> 'a \<Rightarrow> 'a \<Rightarrow> 'a" where
  "or_default blank d x = (if x = blank then d else x)"

definition apply_create_defaults :: "board \<Rightarrow> board" where
  "apply_create_defaults b = b\<lparr>
     bd_Sort := or_default (SortOther '''') SortDesc (bd_Sort b),
     bd_TieBreak := or_default (TieBreakOther '''') TieBreakParallel (bd_TieBreak b),
     bd_Policy := or_default (PolicyOther '''') PolicyBest (bd_Policy b),
     bd_PeriodKind := or_default (PeriodOther '''') PeriodNone (bd_PeriodKind b),
     bd_PerSubjectLimit := or_default 0 default_per_subject_limit (bd_PerSubjectLimit b),
     bd_SubjectKind := or_default '''' ''user'' (bd_SubjectKind b)\<rparr>"

definition enforce_board_cap :: "lb_env \<Rightarrow> string \<Rightarrow> unit ltx" where
  "enforce_board_cap n p = tx_bind (board_count n p) (\<lambda>c.
     if max_boards_per_project \<le> c then tx_fail ErrBoardLimit else tx_ret ())"

text \<open>A step of the asset system; its errors are not looked at.\<close>

definition lb_asset :: "'a atx \<Rightarrow> 'a ltx" where
  "lb_asset m = (\<lambda>w. case m (lw_assets w) of
     (Inl _, a) \<Rightarrow> (Inl LbDB, w\<lparr>lw_assets := a\<rparr>) | (Inr x, a) \<Rightarrow> (Inr x, w\<lparr>lw_assets := a\<rparr>))"

fun validate_reward_assets :: "lb_env \<Rightarrow> string \<Rightarrow> reward_rule list \<Rightarrow> unit ltx" where
  "validate_reward_assets n p [] = tx_ret ()"
| "validate_reward_assets n p (r # rs) =
     tx_bind (lb_asset (def_by_code (le_assets n) p (rr_AssetCode r))) (\<lambda>d.
     if d = None then tx_fail ErrInvalidConfig else validate_reward_assets n p rs)"

definition stamp_board :: "board \<Rightarrow> gtime \<Rightarrow> board" where
  "stamp_board b now = b\<lparr>bd_CreatedAt := now, bd_UpdatedAt := now\<rparr>"

definition create_board :: "lb_env \<Rightarrow> lb_principal option \<Rightarrow> board \<Rightarrow> board ltx" where
  "create_board n pr inp = tx_bind (tx_lift (lb_project_scope pr)) (\<lambda>p.
     let b = apply_create_defaults (inp\<lparr>bd_ProjectID := p\<rparr>) in lb_mapped (
     tx_bind (tx_lift (validate_board (le_zones n) b)) (\<lambda>_.
     tx_bind (validate_reward_assets n p (bd_Rewards b)) (\<lambda>_.
     tx_bind (enforce_board_cap n p) (\<lambda>_.
     tx_bind (lb_now n) (\<lambda>now.
     tx_bind (board_insert n (stamp_board b now)) (\<lambda>_. tx_ret (stamp_board b now))))))))"

text \<open>What \<^verbatim>\<open>boardConfigDiff\<close> compares: all but the rewards, the times and the project.\<close>

definition board_config_same :: "board \<Rightarrow> board \<Rightarrow> bool" where
  "board_config_same want got \<longleftrightarrow> bd_Sort want = bd_Sort got \<and>
     bd_TiebreakOrder want = bd_TiebreakOrder got \<and> bd_TieBreak want = bd_TieBreak got \<and>
     bd_PeriodKind want = bd_PeriodKind got \<and> bd_PeriodTZ want = bd_PeriodTZ got \<and>
     bd_Policy want = bd_Policy got \<and> bd_ValueMin want = bd_ValueMin got \<and>
     bd_ValueMax want = bd_ValueMax got \<and> bd_ClientSubmit want = bd_ClientSubmit got \<and>
     bd_PerSubjectLimit want = bd_PerSubjectLimit got \<and>
     bd_RetentionPeriods want = bd_RetentionPeriods got \<and> bd_SubjectKind want = bd_SubjectKind got"

definition resolve_existing :: "board \<Rightarrow> board \<Rightarrow> lb_err + board" where
  "resolve_existing want got = (if board_config_same want got then Inr got else Inl (LbStatus LbAlreadyExists))"

definition create_board_provisioning :: "lb_env \<Rightarrow> lb_principal option \<Rightarrow> board \<Rightarrow> board ltx" where
  "create_board_provisioning n pr inp = tx_bind (tx_lift (lb_project_scope pr)) (\<lambda>p.
     let b = apply_create_defaults (inp\<lparr>bd_ProjectID := p\<rparr>) in
     tx_bind (lb_mapped (tx_lift (validate_board (le_zones n) b))) (\<lambda>_.
     tx_bind (board_get n p (bd_ID b)) (\<lambda>row. case row of
       Some got \<Rightarrow> tx_lift (resolve_existing b got)
     | None \<Rightarrow>
         tx_bind (lb_mapped (enforce_board_cap n p)) (\<lambda>_.
         tx_bind (lb_now n) (\<lambda>now. let b' = stamp_board b now in
         tx_bind (attempt (board_insert n b')) (\<lambda>r. case r of
           Inr _ \<Rightarrow> tx_ret b'
         | Inl ErrBoardExists \<Rightarrow> tx_bind (lb_mapped (load_board n p (bd_ID b))) (\<lambda>got. tx_lift (resolve_existing b' got))
         | Inl err \<Rightarrow> lb_mapped (tx_fail err)))))))"

record update_board_command =
  ub_BoardID :: string
  ub_Sort :: "sort_direction option"
  ub_TiebreakOrder :: "sort_direction option"
  ub_ClearTiebreak :: bool
  ub_TieBreak :: "tie_break option"
  ub_PeriodKind :: "period_kind option"
  ub_PeriodTZ :: "string option"
  ub_Policy :: "policy option"
  ub_ValueMin :: "int option"
  ub_ValueMax :: "int option"
  ub_ClearValueBounds :: bool
  ub_ClientSubmit :: "bool option"
  ub_PerSubjectLimit :: "int option"
  ub_RetentionPeriods :: "int option"
  ub_SubjectKind :: "string option"
  ub_Rewards :: "reward_rule list option"
  ub_ClearRewards :: bool

definition set_or_keep :: "'a option \<Rightarrow> 'a \<Rightarrow> 'a" where
  "set_or_keep new old = (case new of None \<Rightarrow> old | Some x \<Rightarrow> x)"

definition changes :: "'a option \<Rightarrow> 'a \<Rightarrow> bool" where
  "changes new old \<longleftrightarrow> new \<noteq> None \<and> new \<noteq> Some old"

definition order_changes :: "update_board_command \<Rightarrow> board \<Rightarrow> bool" where
  "order_changes c b \<longleftrightarrow> changes (ub_Sort c) (bd_Sort b) \<or> ub_ClearTiebreak c \<or> ub_TiebreakOrder c \<noteq> None \<or>
     changes (ub_TieBreak c) (bd_TieBreak b) \<or> changes (ub_PeriodKind c) (bd_PeriodKind b) \<or>
     changes (ub_PeriodTZ c) (bd_PeriodTZ b) \<or> changes (ub_Policy c) (bd_Policy b)"

definition patch_board :: "update_board_command \<Rightarrow> board \<Rightarrow> board" where
  "patch_board c b = b\<lparr>
     bd_Sort := set_or_keep (ub_Sort c) (bd_Sort b),
     bd_TiebreakOrder := (if ub_ClearTiebreak c then None
       else if ub_TiebreakOrder c \<noteq> None then ub_TiebreakOrder c else bd_TiebreakOrder b),
     bd_TieBreak := set_or_keep (ub_TieBreak c) (bd_TieBreak b),
     bd_PeriodKind := set_or_keep (ub_PeriodKind c) (bd_PeriodKind b),
     bd_PeriodTZ := set_or_keep (ub_PeriodTZ c) (bd_PeriodTZ b),
     bd_Policy := set_or_keep (ub_Policy c) (bd_Policy b),
     bd_ValueMin := (if ub_ValueMin c \<noteq> None then ub_ValueMin c
       else if ub_ClearValueBounds c then None else bd_ValueMin b),
     bd_ValueMax := (if ub_ValueMax c \<noteq> None then ub_ValueMax c
       else if ub_ClearValueBounds c then None else bd_ValueMax b),
     bd_ClientSubmit := set_or_keep (ub_ClientSubmit c) (bd_ClientSubmit b),
     bd_PerSubjectLimit := set_or_keep (ub_PerSubjectLimit c) (bd_PerSubjectLimit b),
     bd_RetentionPeriods := set_or_keep (ub_RetentionPeriods c) (bd_RetentionPeriods b),
     bd_SubjectKind := set_or_keep (ub_SubjectKind c) (bd_SubjectKind b),
     bd_Rewards := (if ub_ClearRewards c then [] else set_or_keep (ub_Rewards c) (bd_Rewards b))\<rparr>"

definition update_board :: "lb_env \<Rightarrow> lb_principal option \<Rightarrow> update_board_command \<Rightarrow> board ltx" where
  "update_board n pr c = tx_bind (tx_lift (lb_project_scope pr)) (\<lambda>p.
     tx_bind (lb_mapped (load_board n p (ub_BoardID c))) (\<lambda>b.
     tx_bind (if order_changes c b then tx_bind (count_in_board n p (ub_BoardID c)) (\<lambda>cnt.
         if 0 < cnt then lb_mapped (tx_fail ErrImmutableField) else tx_ret ()) else tx_ret ()) (\<lambda>_.
     let b1 = patch_board c b in lb_mapped (
     tx_bind (tx_lift (validate_board (le_zones n) b1)) (\<lambda>_.
     tx_bind (validate_reward_assets n p (bd_Rewards b1)) (\<lambda>_.
     tx_bind (lb_now n) (\<lambda>now. let b2 = b1\<lparr>bd_UpdatedAt := now\<rparr> in
     tx_bind (board_update n b2) (\<lambda>_. tx_ret b2))))))))"

definition delete_board :: "lb_env \<Rightarrow> lb_principal option \<Rightarrow> string \<Rightarrow> unit ltx" where
  "delete_board n pr i = tx_bind (tx_lift (lb_project_scope pr)) (\<lambda>p. lb_mapped (
     tx_bind (load_board n p i) (\<lambda>_. board_delete n p i)))"

section \<open>The scan that prunes\<close>

text \<open>The active projects are those the scan is given; what fails is skipped.\<close>

fun prune_boards :: "lb_env \<Rightarrow> gtime \<Rightarrow> board list \<Rightarrow> nat \<Rightarrow> nat ltx" where
  "prune_boards n now [] acc = tx_ret acc"
| "prune_boards n now (b # bs) acc = (case retention_cutoff_key (le_zones n) b now of
     None \<Rightarrow> prune_boards n now bs acc
   | Some cutoff \<Rightarrow> tx_bind (attempt (prune_older_than n (bd_ProjectID b) (bd_ID b) cutoff)) (\<lambda>r.
       prune_boards n now bs (case r of Inr k \<Rightarrow> if 0 < k then Suc acc else acc | Inl _ \<Rightarrow> acc)))"

fun prune_projects :: "lb_env \<Rightarrow> gtime \<Rightarrow> (string \<times> bool) list \<Rightarrow> nat \<Rightarrow> nat ltx" where
  "prune_projects n now [] acc = tx_ret acc"
| "prune_projects n now ((p, active) # ps) acc = (if \<not> active then prune_projects n now ps acc
     else tx_bind (attempt (board_list n p)) (\<lambda>r. case r of
         Inl _ \<Rightarrow> prune_projects n now ps acc
       | Inr bs \<Rightarrow> tx_bind (prune_boards n now bs acc) (\<lambda>acc'. prune_projects n now ps acc')))"

definition prune_expired_periods :: "lb_env \<Rightarrow> (string \<times> bool) list \<Rightarrow> nat ltx" where
  "prune_expired_periods n projects = tx_bind (lb_now n) (\<lambda>now. prune_projects n now projects 0)"

section \<open>Settlements\<close>

definition settle_scan_limit :: int where "settle_scan_limit = 50"
definition winner_limit :: int where "winner_limit = 100000"

text \<open>\<^verbatim>\<open>AssetsRewardGranter.GrantReward\<close>, as the principal of the system; its error is a value.\<close>

definition grant_reward :: "lb_env \<Rightarrow> settlement_grant \<Rightarrow> (asset_err + op_result) ltx" where
  "grant_reward n g = (\<lambda>w. case grant (le_assets n)
       \<lparr>sc_ProjectID = sg_ProjectID g, sc_Operator = le_operator n\<rparr>
       \<lparr>gc_OwnerType = OwnerTypeUser, gc_OwnerID = sg_SubjectID g, gc_DefCode = sg_AssetCode g,
        gc_Quantity = sg_Amount g, gc_ExpiresAt = None, gc_Level = 0, gc_Metadata = None,
        gc_IdempotencyKey = sg_IdempotencyKey g, gc_RefType = ''leaderboard_settlement'',
        gc_RefID = sg_IdempotencyKey g\<rparr> (lw_assets w) of
     (r, a) \<Rightarrow> (Inr r, w\<lparr>lw_assets := a\<rparr>))"

definition settle_key :: "string \<Rightarrow> string \<Rightarrow> nat \<Rightarrow> string \<Rightarrow> string" where
  "settle_key b k i s = ''lbsettle:'' @ b @ '':'' @ k @ '':'' @ itoa i @ '':'' @ s"

fun plan_winners :: "lb_env \<Rightarrow> board \<Rightarrow> string \<Rightarrow> string \<Rightarrow> nat \<Rightarrow> reward_rule \<Rightarrow> gtime \<Rightarrow> lb_entry list \<Rightarrow>
    settlement_grant list ltx" where
  "plan_winners n b k sid i rule now [] = tx_ret []"
| "plan_winners n b k sid i rule now (e # es) = tx_bind (lb_new_id n) (\<lambda>gid.
     tx_bind (plan_winners n b k sid i rule now es) (\<lambda>gs. tx_ret (
       \<lparr>sg_ProjectID = bd_ProjectID b, sg_ID = gid, sg_SettlementID = sid, sg_RuleIndex = i,
        sg_SubjectID = ent_SubjectID e, sg_AssetCode = rr_AssetCode rule, sg_Amount = rr_Amount rule,
        sg_IdempotencyKey = settle_key (bd_ID b) k i (ent_SubjectID e), sg_Status = RewardPending,
        sg_CreatedAt = now, sg_UpdatedAt = now\<rparr> # gs)))"

fun plan_grants :: "lb_env \<Rightarrow> board \<Rightarrow> string \<Rightarrow> string \<Rightarrow> nat \<Rightarrow> reward_rule list \<Rightarrow> settlement_grant list ltx" where
  "plan_grants n b k sid i [] = tx_ret []"
| "plan_grants n b k sid i (rule # rules) =
     tx_bind (list_reward_winners n b k rule winner_limit) (\<lambda>ws.
     tx_bind (lb_now n) (\<lambda>now.
     tx_bind (plan_winners n b k sid i rule now ws) (\<lambda>gs.
     tx_bind (plan_grants n b k sid (Suc i) rules) (\<lambda>rest. tx_ret (gs @ rest)))))"

fun pay_out :: "lb_env \<Rightarrow> settlement_grant list \<Rightarrow> settlement_grant list ltx" where
  "pay_out n [] = tx_ret []"
| "pay_out n (g # gs) = tx_bind (lb_now n) (\<lambda>now. tx_bind (grant_reward n g) (\<lambda>r.
     tx_bind (pay_out n gs) (\<lambda>rest. tx_ret (g\<lparr>sg_Status := (case r of Inl _ \<Rightarrow> RewardFailed
         | Inr _ \<Rightarrow> RewardGranted), sg_UpdatedAt := now\<rparr> # rest))))"

definition granted_count :: "settlement_grant list \<Rightarrow> int" where
  "granted_count gs = i32 (int (length (filter (\<lambda>g. sg_Status g = RewardGranted) gs)))"

text \<open>A step whose failure is recorded on the settlement before it is returned.\<close>

definition or_record :: "lb_env \<Rightarrow> string \<Rightarrow> string \<Rightarrow> 'a ltx \<Rightarrow> 'a ltx" where
  "or_record n p sid m = tx_bind (attempt m) (\<lambda>r. case r of Inr a \<Rightarrow> tx_ret a
     | Inl err \<Rightarrow> tx_bind (attempt (settlement_fail n p sid)) (\<lambda>_. tx_fail err))"

definition settle_one :: "lb_env \<Rightarrow> board \<Rightarrow> string \<Rightarrow> gtime \<Rightarrow> bool ltx" where
  "settle_one n b k now = (let p = bd_ProjectID b in
     tx_bind (count_total n p (bd_ID b) k) (\<lambda>total.
     tx_bind (lb_new_id n) (\<lambda>sid.
     tx_bind (claim_pending n \<lparr>st_ProjectID = p, st_ID = sid, st_BoardID = bd_ID b, st_PeriodKey = k,
         st_Status = SettlementSettling, st_SealedAt = now, st_SettledAt = None, st_Rules = bd_Rewards b,
         st_EntryCount = total, st_GrantCount = 0, st_CreatedAt = now, st_UpdatedAt = now\<rparr>) (\<lambda>claimed.
     if \<not> claimed then tx_ret False
     else
       tx_bind (or_record n p sid (plan_grants n b k sid 0 (bd_Rewards b))) (\<lambda>gs.
       tx_bind (or_record n p sid (save_grants n gs)) (\<lambda>_.
       tx_bind (pay_out n gs) (\<lambda>gs'.
       tx_bind (or_record n p sid (save_grants n gs')) (\<lambda>_.
       tx_bind (lb_now n) (\<lambda>stamp.
       tx_bind (settlement_complete n p sid stamp (granted_count gs')) (\<lambda>_. tx_ret True))))))))))"

record round_stats =
  rs_Settled :: nat
  rs_Failed :: nat
  rs_Backlog :: nat

fun settle_periods :: "lb_env \<Rightarrow> board \<Rightarrow> gtime \<Rightarrow> string list \<Rightarrow> round_stats \<Rightarrow> round_stats ltx" where
  "settle_periods n b now [] acc = tx_ret acc"
| "settle_periods n b now (k # ks) acc = tx_bind (attempt (settle_one n b k now)) (\<lambda>r.
     settle_periods n b now ks (case r of
       Inl _ \<Rightarrow> acc\<lparr>rs_Failed := Suc (rs_Failed acc)\<rparr>
     | Inr ok \<Rightarrow> if ok then acc\<lparr>rs_Settled := Suc (rs_Settled acc)\<rparr> else acc))"

fun settle_boards :: "lb_env \<Rightarrow> gtime \<Rightarrow> board list \<Rightarrow> round_stats \<Rightarrow> round_stats ltx" where
  "settle_boards n now [] acc = tx_ret acc"
| "settle_boards n now (b # bs) acc =
     (if bd_Rewards b = [] \<or> bd_PeriodKind b = PeriodNone then settle_boards n now bs acc
      else let previous = previous_period_key (bd_PeriodKind b) (location (le_zones n) b) now in
        tx_bind (attempt (list_settlable_periods n (bd_ProjectID b) (bd_ID b) previous settle_scan_limit)) (\<lambda>r.
        case r of Inl _ \<Rightarrow> settle_boards n now bs acc
        | Inr ks \<Rightarrow> tx_bind (settle_periods n b now ks (acc\<lparr>rs_Backlog := rs_Backlog acc + length ks\<rparr>)) (\<lambda>acc'.
            settle_boards n now bs acc')))"

fun settle_projects :: "lb_env \<Rightarrow> gtime \<Rightarrow> (string \<times> bool) list \<Rightarrow> round_stats \<Rightarrow> round_stats ltx" where
  "settle_projects n now [] acc = tx_ret acc"
| "settle_projects n now ((p, active) # ps) acc = (if \<not> active then settle_projects n now ps acc
     else tx_bind (attempt (board_list_with_rewards n p)) (\<lambda>r. case r of
         Inl _ \<Rightarrow> settle_projects n now ps acc
       | Inr bs \<Rightarrow> tx_bind (settle_boards n now bs acc) (\<lambda>acc'. settle_projects n now ps acc')))"

definition settle_due :: "lb_env \<Rightarrow> (string \<times> bool) list \<Rightarrow> round_stats ltx" where
  "settle_due n projects = tx_bind (lb_now n) (\<lambda>now.
     settle_projects n now projects \<lparr>rs_Settled = 0, rs_Failed = 0, rs_Backlog = 0\<rparr>)"

fun pay_out_again :: "lb_env \<Rightarrow> settlement_grant list \<Rightarrow> settlement_grant list ltx" where
  "pay_out_again n [] = tx_ret []"
| "pay_out_again n (g # gs) =
     (if sg_Status g = RewardGranted then tx_bind (pay_out_again n gs) (\<lambda>rest. tx_ret (g # rest))
      else tx_bind (grant_reward n g) (\<lambda>r. tx_bind (lb_now n) (\<lambda>now.
        tx_bind (pay_out_again n gs) (\<lambda>rest. tx_ret (g\<lparr>sg_Status := (case r of Inl _ \<Rightarrow> RewardFailed
          | Inr _ \<Rightarrow> RewardGranted), sg_UpdatedAt := now\<rparr> # rest)))))"

definition rerun_settlement :: "lb_env \<Rightarrow> lb_principal option \<Rightarrow> string \<Rightarrow> string \<Rightarrow> unit ltx" where
  "rerun_settlement n pr i k = tx_bind (tx_lift (lb_project_scope pr)) (\<lambda>p.
     tx_bind (lb_mapped (load_board n p i)) (\<lambda>_.
     tx_bind (settlement_get n p i k) (\<lambda>row. case row of
       None \<Rightarrow> lb_mapped (tx_fail ErrSettlementNotFound)
     | Some s \<Rightarrow>
         if st_Status s = SettlementVoided then lb_mapped (tx_fail ErrSettlementVoided)
         else
           tx_bind (settlement_reset n p (st_ID s)) (\<lambda>_.
           tx_bind (list_grants n p (st_ID s)) (\<lambda>gs.
           tx_bind (pay_out_again n gs) (\<lambda>gs'.
           tx_bind (save_grants n gs') (\<lambda>_.
           tx_bind (lb_now n) (\<lambda>stamp.
           settlement_complete n p (st_ID s) stamp (granted_count gs')))))))))"

fun void_grants :: "lb_env \<Rightarrow> settlement_grant list \<Rightarrow> settlement_grant list ltx" where
  "void_grants n [] = tx_ret []"
| "void_grants n (g # gs) =
     (if sg_Status g = RewardGranted then tx_bind (void_grants n gs) (\<lambda>rest. tx_ret (g # rest))
      else tx_bind (lb_now n) (\<lambda>now. tx_bind (void_grants n gs) (\<lambda>rest.
        tx_ret (g\<lparr>sg_Status := RewardVoided, sg_UpdatedAt := now\<rparr> # rest))))"

definition void_existing :: "lb_env \<Rightarrow> string \<Rightarrow> string \<Rightarrow> string \<Rightarrow> unit ltx" where
  "void_existing n p i k = tx_bind (settlement_get n p i k) (\<lambda>row. case row of
       None \<Rightarrow> tx_ret ()
     | Some s \<Rightarrow>
         if st_Status s = SettlementSettled then lb_mapped (tx_fail ErrSettlementAlreadySettled)
         else if st_Status s = SettlementVoided then tx_ret ()
         else
           tx_bind (settlement_void n p (st_ID s)) (\<lambda>_.
           tx_bind (list_grants n p (st_ID s)) (\<lambda>gs.
           tx_bind (void_grants n gs) (\<lambda>gs'. save_grants n gs'))))"

definition void_settlement :: "lb_env \<Rightarrow> lb_principal option \<Rightarrow> string \<Rightarrow> string \<Rightarrow> unit ltx" where
  "void_settlement n pr i k = tx_bind (tx_lift (lb_project_scope pr)) (\<lambda>p.
     tx_bind (lb_mapped (load_board n p i)) (\<lambda>_.
     tx_bind (settlement_get n p i k) (\<lambda>row. case row of
       Some _ \<Rightarrow> void_existing n p i k
     | None \<Rightarrow>
         tx_bind (lb_now n) (\<lambda>now.
         tx_bind (lb_new_id n) (\<lambda>sid.
         tx_bind (claim_pending n \<lparr>st_ProjectID = p, st_ID = sid, st_BoardID = i, st_PeriodKey = k,
           st_Status = SettlementVoided, st_SealedAt = now, st_SettledAt = None, st_Rules = [],
           st_EntryCount = 0, st_GrantCount = 0, st_CreatedAt = now, st_UpdatedAt = now\<rparr>) (\<lambda>claimed.
         if claimed then tx_ret () else void_existing n p i k))))))"
end
