(* ===== verification/Leaderboard_Ranking.thy ===== *)
theory Leaderboard_Ranking
  imports Leaderboard_Service "HOL-Library.Multiset"
begin

text \<open>
  The order of a board: its sort key is injective on rows of distinct subjects, the filter
  \<^verbatim>\<open>aheadFilter\<close> of a single row is the strict order of that key, and so the counts behind
  \<^verbatim>\<open>Stats\<close> are the window functions of \<^verbatim>\<open>ListTop\<close>.
\<close>

section \<open>Positions in a sorted list\<close>

lemma length_filter_sort_key [simp]: "length (filter P (sort_key f xs)) = length (filter P xs)"
  by (metis mset_filter mset_sort size_mset)

lemma count_less_strict:
  "sorted_wrt (\<lambda>x y. f x < (f y :: 'b::linorder)) s \<Longrightarrow> i < length s \<Longrightarrow> length (filter (\<lambda>r. f r < f (s ! i)) s) = i"
proof (induction s arbitrary: i)
  case (Cons x s)
  show ?case
  proof (cases i)
    case 0
    have "filter (\<lambda>r. f r < f x) s = []" using Cons.prems(1) by (auto simp: filter_empty_conv)
    with 0 show ?thesis by simp
  next
    case (Suc j)
    then have "f x < f (s ! j)" using Cons.prems by simp
    with Suc Cons show ?thesis by simp
  qed
qed simp

lemma sorted_keys_strict:
  assumes "inj_on f (set xs)" and "distinct xs"
  shows "sorted_wrt (\<lambda>x y. f x < (f y :: 'b::linorder)) (sort_key f xs)"
proof -
  have "distinct (map f (sort_key f xs))" using assms by (simp add: distinct_map)
  then have "sorted_wrt (<) (map f (sort_key f xs))"
    using sorted_sort_key [of f xs] by (simp only: strict_sorted_iff)
  then show ?thesis by (simp add: sorted_wrt_map)
qed

section \<open>The filter is the order\<close>

definition entry_row_ok :: "board \<Rightarrow> lb_entry \<Rightarrow> bool" where
  "entry_row_ok b e \<longleftrightarrow> (ent_TiebreakValue e \<noteq> None \<longleftrightarrow> has_tiebreak b) \<and>
     truncate_to (ent_UpdatedAt e) usec = ent_UpdatedAt e"

definition directed :: "board \<Rightarrow> bool" where
  "directed b \<longleftrightarrow> bd_Sort b \<in> {SortAsc, SortDesc} \<and> bd_TiebreakOrder b \<in> {None, Some SortAsc, Some SortDesc}"

lemma some_ahead_iff:
  assumes "directed b" and "entry_row_ok b e" and "entry_row_ok b r"
  shows "some_ahead (ahead_keys b e r) \<longleftrightarrow> full_order b r < full_order b e"
  using assms
  by (cases "bd_TiebreakOrder b"; cases "ent_TiebreakValue e"; cases "ent_TiebreakValue r")
    (auto simp: entry_row_ok_def directed_def has_tiebreak_def ahead_keys_def full_order_def key_before_def dir_key_def
      tie_key_def less_prod_def')

lemma full_order_inj: "inj_on ent_SubjectID A \<Longrightarrow> inj_on (full_order b) A"
  by (auto simp: inj_on_def full_order_def)

lemma ranked_rows: "map te_Entry (ranked b es) = sort_key (full_order b) es"
  by (simp add: ranked_def Let_def comp_def case_prod_beta map_snd_enumerate)

lemma ranked_nth:
  assumes "t \<in> set (ranked b es)"
  obtains i where "i < length es" "te_Entry t = sort_key (full_order b) es ! i" "te_Position t = int i + 1"
    and "te_Rank t = 1 + int (length (filter (\<lambda>r. value_before (bd_Sort b) (ent_Value r) (ent_Value (te_Entry t))) es))"
  using assms by (auto simp: ranked_def Let_def in_set_enumerate_eq)

theorem stats_of_ranked:
  assumes "directed b" and "distinct (map ent_SubjectID es)" and "\<And>e. e \<in> set es \<Longrightarrow> entry_row_ok b e"
    and "t \<in> set (ranked b es)"
  shows "es_Rank (entry_stats_of b (te_Entry t) es) = te_Rank t"
    and "es_Position (entry_stats_of b (te_Entry t) es) = te_Position t"
proof -
  let ?f = "full_order b" let ?s = "sort_key ?f es"
  obtain i where i: "i < length es" "te_Entry t = ?s ! i" "te_Position t = int i + 1"
    and rk: "te_Rank t = 1 + int (length (filter (\<lambda>r. value_before (bd_Sort b) (ent_Value r) (ent_Value (te_Entry t))) es))"
    by (rule ranked_nth [OF assms(4)])
  show "es_Rank (entry_stats_of b (te_Entry t) es) = te_Rank t"
    by (simp add: rk entry_stats_of_def Let_def count_where_def value_before_def)
  have e: "te_Entry t \<in> set es" using i by (metis length_sort nth_mem set_sort)
  have "filter (\<lambda>r. some_ahead (ahead_keys b (te_Entry t) r)) es = filter (\<lambda>r. ?f r < ?f (?s ! i)) es"
    using some_ahead_iff [OF assms(1)] assms(3) e i(2) by (intro filter_cong) auto
  moreover have "length (filter (\<lambda>r. ?f r < ?f (?s ! i)) ?s) = i"
    using assms(2) i(1)
    by (intro count_less_strict sorted_keys_strict full_order_inj) (auto simp: distinct_map)
  ultimately show "es_Position (entry_stats_of b (te_Entry t) es) = te_Position t"
    using i(3) by (simp add: entry_stats_of_def Let_def count_where_def)
qed

end
