(* ===== verification/Leaderboard_System.thy ===== *)
theory Leaderboard_System
  imports Leaderboard_Ranking Asset_Growth
begin

text \<open>
  The leaderboard service as one system: every public call that changes state and the two scans
  of the worker are its steps, successful or not, and between them the asset system does what it
  does on its own. The books of the tables hold in every state the system reaches.
\<close>

section \<open>The books\<close>

definition boards_ok :: "lb_tables \<Rightarrow> bool" where
  "boards_ok db \<longleftrightarrow> distinct (map board_key (lt_boards db)) \<and> (\<forall>b \<in> set (lt_boards db). board_columns_ok b)"

definition entry_of :: "board \<Rightarrow> lb_entry \<Rightarrow> bool" where
  "entry_of b e \<longleftrightarrow> board_key b = (ent_ProjectID e, ent_BoardID e) \<and> entry_row_ok b e \<and>
     1 \<le> ent_SubmitCount e \<and> ent_SubmitCount e \<le> max_per_subject_limit"

definition entries_ok :: "lb_tables \<Rightarrow> bool" where
  "entries_ok db \<longleftrightarrow> distinct (map entry_key (lt_entries db)) \<and>
     (\<forall>e \<in> set (lt_entries db). \<exists>b \<in> set (lt_boards db). entry_of b e)"

definition settlement_key :: "settlement \<Rightarrow> string \<times> string \<times> string" where
  "settlement_key s = (st_ProjectID s, st_BoardID s, st_PeriodKey s)"

definition settlement_id :: "settlement \<Rightarrow> string \<times> string" where
  "settlement_id s = (st_ProjectID s, st_ID s)"

definition settlements_ok :: "lb_tables \<Rightarrow> bool" where
  "settlements_ok db \<longleftrightarrow> distinct (map settlement_key (lt_settlements db)) \<and>
     distinct (map settlement_id (lt_settlements db))"

text \<open>The settlements there are: project, id, board, period.\<close>

definition settled_ids :: "lb_tables \<Rightarrow> (string \<times> string \<times> string \<times> string) set" where
  "settled_ids db = (\<lambda>s. (st_ProjectID s, st_ID s, st_BoardID s, st_PeriodKey s)) ` set (lt_settlements db)"

text \<open>A grant belongs to a settlement, has the key made for it, and if it was made it is in the ledger.\<close>

definition grant_of :: "settlement_grant \<Rightarrow> lb_tables \<Rightarrow> bool" where
  "grant_of g db \<longleftrightarrow> (\<exists>b k. (sg_ProjectID g, sg_SettlementID g, b, k) \<in> settled_ids db \<and>
     sg_IdempotencyKey g = settle_key b k (sg_RuleIndex g) (sg_SubjectID g))"

definition booked :: "settlement_grant \<Rightarrow> asset_world \<Rightarrow> bool" where
  "booked g a \<longleftrightarrow> (sg_Status g = RewardGranted \<longrightarrow>
     (sg_ProjectID g, trim_space (sg_IdempotencyKey g)) \<in> ledger_keys a)"

definition planned :: "lb_world \<Rightarrow> settlement_grant \<Rightarrow> bool" where
  "planned w g \<longleftrightarrow> grant_of g (lw_db w) \<and> booked g (lw_assets w)"

definition grants_ok :: "lb_world \<Rightarrow> bool" where
  "grants_ok w \<longleftrightarrow> distinct (map grant_row_key (lt_grants (lw_db w))) \<and> list_all (planned w) (lt_grants (lw_db w))"

definition lb_ok :: "lb_world \<Rightarrow> bool" where
  "lb_ok w \<longleftrightarrow> boards_ok (lw_db w) \<and> entries_ok (lw_db w) \<and> settlements_ok (lw_db w) \<and> grants_ok w"

definition lb_later :: "lb_world \<Rightarrow> lb_world \<Rightarrow> bool" where
  "lb_later w w' \<longleftrightarrow> settled_ids (lw_db w) \<subseteq> settled_ids (lw_db w') \<and>
     ledger_keys (lw_assets w) \<subseteq> ledger_keys (lw_assets w')"

lemma lb_later_refl [simp]: "lb_later w w"
  by (simp add: lb_later_def)

lemma lb_later_trans: "lb_later w w' \<Longrightarrow> lb_later w' w'' \<Longrightarrow> lb_later w w''"
  unfolding lb_later_def by blast

lemma planned_later: "planned w g \<Longrightarrow> lb_later w w' \<Longrightarrow> planned w' g"
  unfolding lb_later_def planned_def grant_of_def booked_def by blast

section \<open>What a step keeps\<close>

definition lb_holds :: "(lb_world \<Rightarrow> bool) \<Rightarrow> 'a ltx \<Rightarrow> ('a \<Rightarrow> lb_world \<Rightarrow> bool) \<Rightarrow> bool" where
  "lb_holds P m Q \<longleftrightarrow> (\<forall>w r w'. lb_ok w \<longrightarrow> P w \<longrightarrow> m w = (r, w') \<longrightarrow>
     lb_ok w' \<and> lb_later w w' \<and> (\<forall>a. r = Inr a \<longrightarrow> Q a w'))"

abbreviation lb_keeps :: "'a ltx \<Rightarrow> bool" where
  "lb_keeps m \<equiv> lb_holds (\<lambda>_. True) m (\<lambda>_ _. True)"

lemma lb_holdsI:
  "(\<And>w r w'. lb_ok w \<Longrightarrow> P w \<Longrightarrow> m w = (r, w') \<Longrightarrow> lb_ok w' \<and> lb_later w w' \<and> (\<forall>a. r = Inr a \<longrightarrow> Q a w')) \<Longrightarrow>
   lb_holds P m Q"
  unfolding lb_holds_def by blast

lemma lb_holdsD:
  assumes "lb_holds P m Q" and "m w = (r, w')" and "lb_ok w" and "P w"
  shows "lb_ok w'" and "lb_later w w'" and "r = Inr a \<Longrightarrow> Q a w'"
  using assms unfolding lb_holds_def by blast+

lemma lb_weaken:
  "lb_holds P m Q \<Longrightarrow> (\<And>w. P' w \<Longrightarrow> P w) \<Longrightarrow> (\<And>a w. Q a w \<Longrightarrow> Q' a w) \<Longrightarrow> lb_holds P' m Q'"
  unfolding lb_holds_def by blast

lemma lb_drop: "lb_keeps m \<Longrightarrow> lb_holds P m (\<lambda>_ _. True)"
  by (rule lb_weaken) auto

lemma lb_bind:
  assumes m: "lb_holds P m R" and f: "\<And>a. lb_holds (R a) (f a) Q"
  shows "lb_holds P (tx_bind m f) Q"
proof (rule lb_holdsI)
  fix w r w' assume w: "lb_ok w" "P w" and run: "tx_bind m f w = (r, w')"
  obtain s v where s: "m w = (s, v)" by fastforce
  note v = lb_holdsD [OF m s w]
  show "lb_ok w' \<and> lb_later w w' \<and> (\<forall>a. r = Inr a \<longrightarrow> Q a w')"
  proof (cases s)
    case (Inl err)
    with run s v show ?thesis by (auto simp: tx_bind_def)
  next
    case (Inr a)
    then have "f a v = (r, w')" using run s by (simp add: tx_bind_def)
    from lb_holdsD [OF f this v(1) v(3) [OF Inr]] v(2) show ?thesis
      using lb_later_trans by blast
  qed
qed

lemma lb_frame:
  assumes "\<And>w w'. S w \<Longrightarrow> lb_later w w' \<Longrightarrow> S w'" and "lb_holds P m Q"
  shows "lb_holds (\<lambda>w. P w \<and> S w) m (\<lambda>a w. Q a w \<and> S w)"
  using assms unfolding lb_holds_def by blast

lemma lb_keeps_bind: "lb_keeps m \<Longrightarrow> (\<And>a. lb_keeps (f a)) \<Longrightarrow> lb_keeps (tx_bind m f)"
  by (rule lb_bind)

lemma lb_ret: "(\<And>w. P w \<Longrightarrow> Q a w) \<Longrightarrow> lb_holds P (tx_ret a) Q"
  by (simp add: lb_holds_def tx_ret_def)

lemma lb_basic:
  "lb_holds P (tx_ret a) (\<lambda>_ _. True)" "lb_holds P (tx_fail err) Q" "lb_holds P (tx_lift r) (\<lambda>_ _. True)"
  by (auto simp: lb_holds_def tx_ret_def tx_fail_def tx_lift_def)

lemma lb_cases:
  "lb_holds P m Q \<Longrightarrow> lb_holds P (tx_when c err m) Q"
  "lb_holds P m Q \<Longrightarrow> lb_holds P m' Q \<Longrightarrow> lb_holds P (if c then m else m') Q"
  "lb_holds P m Q \<Longrightarrow> (\<And>y. lb_holds P (f y) Q) \<Longrightarrow> lb_holds P (case x of None \<Rightarrow> m | Some y \<Rightarrow> f y) Q"
  "(\<And>y z. lb_holds P (g y z) Q) \<Longrightarrow> lb_holds P (case p of (y, z) \<Rightarrow> g y z) Q"
  "(\<And>y. lb_holds P (h y) Q) \<Longrightarrow> (\<And>y. lb_holds P (f y) Q) \<Longrightarrow> lb_holds P (case s of Inl y \<Rightarrow> h y | Inr y \<Rightarrow> f y) Q"
  by (auto simp: tx_when_def lb_basic split: option.splits prod.splits sum.splits)

lemma lb_attempt: "lb_holds P m Q \<Longrightarrow> lb_holds P (attempt m) (\<lambda>r w. \<forall>a. r = Inr a \<longrightarrow> Q a w)"
  unfolding lb_holds_def attempt_def by (auto split: prod.splits)

lemma lb_keeps_attempt: "lb_keeps m \<Longrightarrow> lb_keeps (attempt m)"
  using lb_attempt by (rule lb_weaken) auto

lemma lb_mapped_holds: "lb_holds P m Q \<Longrightarrow> lb_holds P (lb_mapped m) Q"
  unfolding lb_holds_def lb_mapped_def by (fastforce split: prod.splits sum.splits)

lemmas lb_intros = lb_keeps_bind lb_basic lb_cases lb_keeps_attempt lb_mapped_holds

section \<open>The statements\<close>

lemma lb_ok_quiet:
  "lw_db w' = lw_db w \<Longrightarrow> lw_assets w' = lw_assets w \<Longrightarrow> lb_ok w \<Longrightarrow> lb_ok w' \<and> lb_later w w'"
  by (simp add: lb_ok_def lb_later_def grants_ok_def planned_def [abs_def])

lemma lb_fields [simp]:
  "lb_ok (w\<lparr>lw_ops := k\<rparr>) = lb_ok w" "lb_ok (w\<lparr>lw_ticks := k\<rparr>) = lb_ok w" "lb_ok (w\<lparr>lw_ids := k\<rparr>) = lb_ok w"
  "lb_later w (w\<lparr>lw_ops := k\<rparr>)" "lb_later w (w\<lparr>lw_ticks := k\<rparr>)" "lb_later w (w\<lparr>lw_ids := k\<rparr>)"
  by (simp_all add: lb_ok_def lb_later_def grants_ok_def planned_def [abs_def])

lemma lb_now_keeps: "lb_keeps (lb_now n)" "lb_keeps (lb_new_id n)"
  by (auto simp: lb_now_def lb_new_id_def intro!: lb_holdsI)

lemma lb_read_keeps: "lb_holds P (lb_read n f) (\<lambda>a w. a = f (lw_db w))"
proof (rule lb_holdsI)
  fix w r w' assume "lb_ok w" "P w" and run: "lb_read n f w = (r, w')"
  then have "lw_db w' = lw_db w" "lw_assets w' = lw_assets w" "r = Inl LbDB \<or> r = Inr (f (lw_db w'))"
    by (auto simp: lb_read_def lb_op_def Let_def split: if_splits)
  with lb_ok_quiet [OF this(1,2) \<open>lb_ok w\<close>]
  show "lb_ok w' \<and> lb_later w w' \<and> (\<forall>a. r = Inr a \<longrightarrow> a = f (lw_db w'))" by auto
qed

lemma lb_write_holds:
  assumes "\<And>w k. P w \<Longrightarrow> P (w\<lparr>lw_ops := k\<rparr>)"
    and "\<And>w a db. lb_ok w \<Longrightarrow> P w \<Longrightarrow> f (lw_db w) = Inr (a, db) \<Longrightarrow>
      lb_ok (w\<lparr>lw_db := db\<rparr>) \<and> settled_ids (lw_db w) \<subseteq> settled_ids db \<and> Q a (w\<lparr>lw_db := db\<rparr>)"
  shows "lb_holds P (lb_write n f) Q"
proof (rule lb_holdsI)
  fix w r w' assume w: "lb_ok w" "P w" and run: "lb_write n f w = (r, w')"
  let ?v = "w\<lparr>lw_ops := Suc (lw_ops w)\<rparr>"
  have v: "lb_ok ?v" "lb_later w ?v" "P ?v" using lb_ok_quiet [of ?v w] w assms(1) by auto
  show "lb_ok w' \<and> lb_later w w' \<and> (\<forall>a. r = Inr a \<longrightarrow> Q a w')"
  proof (cases "r")
    case (Inl err)
    with run v show ?thesis by (auto simp: lb_write_def lb_op_def Let_def split: if_splits sum.splits)
  next
    case (Inr a)
    then obtain db where f: "f (lw_db ?v) = Inr (a, db)" and w': "w' = ?v\<lparr>lw_db := db\<rparr>"
      using run by (auto simp: lb_write_def lb_op_def Let_def split: if_splits sum.splits)
    from assms(2) [OF v(1,3) f] w' Inr show ?thesis by (simp add: lb_later_def)
  qed
qed

lemma lb_write_keeps:
  assumes "\<And>w a db. lb_ok w \<Longrightarrow> f (lw_db w) = Inr (a, db) \<Longrightarrow>
      lb_ok (w\<lparr>lw_db := db\<rparr>) \<and> settled_ids (lw_db w) \<subseteq> settled_ids db"
  shows "lb_keeps (lb_write n f)"
  by (rule lb_write_holds) (use assms in auto)

text \<open>Statements on boards and entries.\<close>

lemma grants_ok_front:
  "lt_settlements db = lt_settlements (lw_db w) \<Longrightarrow> lt_grants db = lt_grants (lw_db w) \<Longrightarrow>
   grants_ok (w\<lparr>lw_db := db\<rparr>) = grants_ok w \<and> settlements_ok db = settlements_ok (lw_db w) \<and>
   settled_ids db = settled_ids (lw_db w)"
  by (simp add: grants_ok_def planned_def [abs_def] grant_of_def settled_ids_def settlements_ok_def)

lemma lb_ok_front:
  assumes "lb_ok w" and "lt_settlements db = lt_settlements (lw_db w)" and "lt_grants db = lt_grants (lw_db w)"
    and "boards_ok db" and "entries_ok db"
  shows "lb_ok (w\<lparr>lw_db := db\<rparr>) \<and> settled_ids (lw_db w) \<subseteq> settled_ids db"
  using assms(1,4,5) grants_ok_front [OF assms(2,3)] by (simp add: lb_ok_def)

lemma board_insert_keeps: "lb_keeps (board_insert n b)"
  unfolding board_insert_def
  by (intro lb_write_keeps lb_ok_front)
    (fastforce split: if_splits simp: list_ex_iff lb_ok_def boards_ok_def entries_ok_def)+

lemma board_delete_keeps: "lb_keeps (board_delete n p i)"
  unfolding board_delete_def
proof (rule lb_write_keeps)
  fix w a db assume w: "lb_ok w" and run: "Inr ((), (lw_db w)\<lparr>
     lt_boards := filter (\<lambda>b. board_key b \<noteq> (p, i)) (lt_boards (lw_db w)),
     lt_entries := filter (\<lambda>e. (ent_ProjectID e, ent_BoardID e) \<noteq> (p, i)) (lt_entries (lw_db w))\<rparr>) = Inr (a, db)"
  from w have "boards_ok (lw_db w)" "entries_ok (lw_db w)" by (simp_all add: lb_ok_def)
  then have "boards_ok db \<and> entries_ok db" using run
    by (fastforce simp: boards_ok_def entries_ok_def entry_of_def distinct_map_filter)
  with w run show "lb_ok (w\<lparr>lw_db := db\<rparr>) \<and> settled_ids (lw_db w) \<subseteq> settled_ids db"
    by (intro lb_ok_front) auto
qed

lemma entries_filter: "entries_ok db \<Longrightarrow> entries_ok (db\<lparr>lt_entries := filter P (lt_entries db)\<rparr>)"
  by (auto simp: entries_ok_def distinct_map_filter)

lemma entry_removal_keeps: "lb_keeps (entry_delete n p i k s)" "lb_keeps (prune_older_than n p i cutoff)"
  unfolding entry_delete_def prune_older_than_def Let_def
  by (intro lb_write_keeps lb_ok_front; auto simp: lb_ok_def boards_ok_def intro!: entries_filter)+

lemma read_statements:
  "lb_keeps (board_get n p i)" "lb_keeps (board_list n p)" "lb_keeps (board_list_with_rewards n p)"
  "lb_keeps (board_count n p)" "lb_keeps (entry_get n p i k s)" "lb_keeps (count_total n p i k)"
  "lb_keeps (count_in_board n p i)" "lb_keeps (list_settlable_periods n p i previous limit)"
  "lb_keeps (list_reward_winners n b k rule limit)" "lb_keeps (settlement_get n p i k)"
  unfolding board_get_def board_list_def board_list_with_rewards_def board_count_def entry_get_def count_total_def
    count_in_board_def list_settlable_periods_def list_reward_winners_def settlement_get_def
  by (rule lb_weaken [OF lb_read_keeps]; simp)+
section \<open>Settlements\<close>

lemma lb_ok_settlements:
  assumes "lb_ok w" and "lt_boards db = lt_boards (lw_db w)" and "lt_entries db = lt_entries (lw_db w)"
    and "settlements_ok db" and "settled_ids (lw_db w) \<subseteq> settled_ids db" and "grants_ok (w\<lparr>lw_db := db\<rparr>)"
  shows "lb_ok (w\<lparr>lw_db := db\<rparr>)"
  using assms by (simp add: lb_ok_def boards_ok_def entries_ok_def)

lemma grants_ok_later:
  assumes "grants_ok w" and "lt_grants db = lt_grants (lw_db w)" and "settled_ids (lw_db w) \<subseteq> settled_ids db"
  shows "grants_ok (w\<lparr>lw_db := db\<rparr>)"
proof -
  have "lb_later w (w\<lparr>lw_db := db\<rparr>)" using assms(3) by (simp add: lb_later_def)
  from planned_later [OF _ this] assms(1,2) show ?thesis by (auto simp: grants_ok_def list_all_iff)
qed

lemma claim_pending_holds:
  "lb_holds (\<lambda>_. True) (claim_pending n s)
     (\<lambda>c w. c \<longrightarrow> (st_ProjectID s, st_ID s, st_BoardID s, st_PeriodKey s) \<in> settled_ids (lw_db w))"
  unfolding claim_pending_def
proof (rule lb_write_holds)
  fix w :: lb_world and c db
  let ?db = "lw_db w"
  assume w: "lb_ok w" and run: "(if settlement_of ?db (st_ProjectID s) (st_BoardID s) (st_PeriodKey s) \<noteq> None then Inr (False, ?db)
     else if list_ex (\<lambda>x. st_ProjectID x = st_ProjectID s \<and> st_ID x = st_ID s) (lt_settlements ?db) then Inl LbDB
     else Inr (True, ?db\<lparr>lt_settlements := lt_settlements ?db @ [s]\<rparr>)) = Inr (c, db)"
  show "lb_ok (w\<lparr>lw_db := db\<rparr>) \<and> settled_ids ?db \<subseteq> settled_ids db \<and>
      (c \<longrightarrow> (st_ProjectID s, st_ID s, st_BoardID s, st_PeriodKey s) \<in> settled_ids (lw_db (w\<lparr>lw_db := db\<rparr>)))"
  proof (cases c)
    case False
    with run w show ?thesis by (auto split: if_splits)
  next
    case True
    then have new: "settlement_of ?db (st_ProjectID s) (st_BoardID s) (st_PeriodKey s) = None"
      "\<not> list_ex (\<lambda>x. st_ProjectID x = st_ProjectID s \<and> st_ID x = st_ID s) (lt_settlements ?db)"
      and db: "db = ?db\<lparr>lt_settlements := lt_settlements ?db @ [s]\<rparr>"
      using run by (auto split: if_splits)
    have ids: "settled_ids ?db \<subseteq> settled_ids db" by (auto simp: settled_ids_def db)
    have "settlements_ok ?db" using w by (simp add: lb_ok_def)
    with new have "settlements_ok db"
      by (auto simp: settlements_ok_def db settlement_of_def settlement_key_def settlement_id_def find_None_iff list_ex_iff)
    moreover have "grants_ok (w\<lparr>lw_db := db\<rparr>)"
      using w by (intro grants_ok_later ids) (simp_all add: lb_ok_def db)
    ultimately have "lb_ok (w\<lparr>lw_db := db\<rparr>)"
      using w ids by (intro lb_ok_settlements) (simp_all add: db)
    with ids show ?thesis by (simp add: settled_ids_def db)
  qed
qed simp

lemma update_status_keeps:
  assumes "\<And>s. (st_ProjectID (f s), st_ID (f s), st_BoardID (f s), st_PeriodKey (f s)) =
      (st_ProjectID s, st_ID s, st_BoardID s, st_PeriodKey s)"
  shows "lb_keeps (update_status n p i f)"
  unfolding update_status_def
proof (rule lb_write_keeps)
  fix w :: lb_world and a db
  let ?db = "lw_db w" let ?f = "\<lambda>s. if st_ProjectID s = p \<and> st_ID s = i then f s else s"
  assume w: "lb_ok w" and run: "Inr ((), ?db\<lparr>lt_settlements := map ?f (lt_settlements ?db)\<rparr>) = Inr (a, db)"
  have same: "(st_ProjectID (?f s), st_ID (?f s), st_BoardID (?f s), st_PeriodKey (?f s)) =
      (st_ProjectID s, st_ID s, st_BoardID s, st_PeriodKey s)" for s using assms by simp
  have db: "db = ?db\<lparr>lt_settlements := map ?f (lt_settlements ?db)\<rparr>" using run by simp
  have ids: "settled_ids db = settled_ids ?db"
  proof -
    let ?id = "\<lambda>s. (st_ProjectID s, st_ID s, st_BoardID s, st_PeriodKey s)"
    have "map ?id (map ?f (lt_settlements ?db)) = map ?id (lt_settlements ?db)" using same by simp
    then have "set (map ?id (lt_settlements db)) = set (map ?id (lt_settlements ?db))" by (simp only: db) simp
    then show ?thesis by (simp add: settled_ids_def)
  qed
  have "map settlement_key (lt_settlements db) = map settlement_key (lt_settlements ?db)"
    "map settlement_id (lt_settlements db) = map settlement_id (lt_settlements ?db)"
    using same by (simp_all add: db settlement_key_def settlement_id_def)
  then have "settlements_ok db" using w by (simp add: settlements_ok_def lb_ok_def)
  moreover have "grants_ok (w\<lparr>lw_db := db\<rparr>)"
    using w by (intro grants_ok_later) (simp_all add: lb_ok_def ids, simp add: db)
  ultimately show "lb_ok (w\<lparr>lw_db := db\<rparr>) \<and> settled_ids ?db \<subseteq> settled_ids db"
    using w ids by (intro conjI lb_ok_settlements) (simp_all add: db)
qed

lemma settlement_updates_keep:
  "lb_keeps (settlement_complete n p i stamp c)" "lb_keeps (settlement_fail n p i)"
  "lb_keeps (settlement_void n p i)" "lb_keeps (settlement_reset n p i)"
  unfolding settlement_complete_def settlement_fail_def settlement_void_def settlement_reset_def
  by (rule update_status_keeps; simp)+

lemma grant_key_unique:
  assumes "settlements_ok db" and "grant_of g db" and "grant_of h db" and "grant_row_key g = grant_row_key h"
  shows "sg_IdempotencyKey g = sg_IdempotencyKey h"
proof -
  obtain s t where s: "s \<in> set (lt_settlements db)" "st_ProjectID s = sg_ProjectID g" "st_ID s = sg_SettlementID g"
      "sg_IdempotencyKey g = settle_key (st_BoardID s) (st_PeriodKey s) (sg_RuleIndex g) (sg_SubjectID g)"
    and t: "t \<in> set (lt_settlements db)" "st_ProjectID t = sg_ProjectID h" "st_ID t = sg_SettlementID h"
      "sg_IdempotencyKey h = settle_key (st_BoardID t) (st_PeriodKey t) (sg_RuleIndex h) (sg_SubjectID h)"
    using assms(2,3) by (auto simp: grant_of_def settled_ids_def)
  have "settlement_id s = settlement_id t" using s t assms(4) by (simp add: settlement_id_def grant_row_key_def)
  then have "s = t" using assms(1) s(1) t(1) by (auto simp: settlements_ok_def distinct_map dest: inj_onD)
  with s(4) t(4) assms(4) show ?thesis by (simp add: grant_row_key_def)
qed

lemma save_grant_holds: "lb_holds (\<lambda>w. planned w g) (save_grant n g) (\<lambda>_ _. True)"
  unfolding save_grant_def
proof (rule lb_write_holds)
  fix w :: lb_world and a db
  let ?db = "lw_db w"
  let ?f = "\<lambda>x. if grant_row_key x = grant_row_key g then x\<lparr>sg_Status := sg_Status g, sg_UpdatedAt := sg_UpdatedAt g\<rparr> else x"
  assume w: "lb_ok w" and g: "planned w g"
    and run: "(if list_ex (\<lambda>x. grant_row_key x = grant_row_key g) (lt_grants ?db)
      then Inr ((), ?db\<lparr>lt_grants := map ?f (lt_grants ?db)\<rparr>)
      else if list_ex (\<lambda>x. sg_ProjectID x = sg_ProjectID g \<and> sg_ID x = sg_ID g) (lt_grants ?db) \<or>
         \<not> list_ex (\<lambda>s. st_ProjectID s = sg_ProjectID g \<and> st_ID s = sg_SettlementID g) (lt_settlements ?db) \<or>
         sg_Amount g \<le> 0 then Inl LbDB
      else Inr ((), ?db\<lparr>lt_grants := lt_grants ?db @ [g]\<rparr>)) = Inr (a, db)"
  have ok: "settlements_ok ?db" "grants_ok w" using w by (simp_all add: lb_ok_def)
  have front: "lt_boards db = lt_boards ?db" "lt_entries db = lt_entries ?db" "lt_settlements db = lt_settlements ?db"
    using run by (auto split: if_splits)
  then have ids: "settled_ids db = settled_ids ?db" "settlements_ok db"
    using ok(1) by (simp_all add: settled_ids_def settlements_ok_def)
  then have planned: "planned (w\<lparr>lw_db := db\<rparr>) x = planned w x" for x by (simp add: planned_def grant_of_def)
  have "grants_ok (w\<lparr>lw_db := db\<rparr>)"
  proof (cases "list_ex (\<lambda>x. grant_row_key x = grant_row_key g) (lt_grants ?db)")
    case True
    with run have db: "lt_grants db = map ?f (lt_grants ?db)" by auto
    have "planned w (?f x)" if "planned w x" for x
      using that g grant_key_unique [OF ok(1), of x g]
      by (auto simp: planned_def grant_of_def booked_def grant_row_key_def)
    then have "list_all (planned w) (lt_grants db)"
      using ok(2) unfolding db grants_ok_def list_all_iff by (simp only: set_map) blast
    moreover have "map grant_row_key (lt_grants db) = map grant_row_key (lt_grants ?db)"
      by (simp add: db grant_row_key_def)
    ultimately show ?thesis using ok(2) by (simp add: grants_ok_def planned [abs_def])
  next
    case False
    with run have "lt_grants db = lt_grants ?db @ [g]" by (auto split: if_splits)
    with False ok(2) g show ?thesis by (auto simp: grants_ok_def planned list_all_iff list_ex_iff)
  qed
  with w ids front show "lb_ok (w\<lparr>lw_db := db\<rparr>) \<and> settled_ids ?db \<subseteq> settled_ids db \<and> True"
    by (auto intro!: lb_ok_settlements)
qed (simp add: planned_def)

definition all_planned :: "settlement_grant list \<Rightarrow> lb_world \<Rightarrow> bool" where
  "all_planned gs w \<longleftrightarrow> list_all (planned w) gs"

lemma all_planned_later: "all_planned gs w \<Longrightarrow> lb_later w w' \<Longrightarrow> all_planned gs w'"
  unfolding all_planned_def list_all_iff using planned_later by blast

lemma save_grants_holds: "lb_holds (all_planned gs) (save_grants n gs) (\<lambda>_ _. True)"
proof (induction gs)
  case (Cons g gs)
  have "lb_holds (\<lambda>w. planned w g \<and> all_planned gs w) (save_grant n g) (\<lambda>_ w. True \<and> all_planned gs w)"
    by (rule lb_frame [OF all_planned_later save_grant_holds])
  moreover have "lb_holds (\<lambda>w. True \<and> all_planned gs w) (save_grants n gs) (\<lambda>_ _. True)"
    by (rule lb_weaken [OF Cons.IH]) auto
  ultimately show ?case by (auto simp: all_planned_def intro: lb_bind)
qed (simp add: lb_basic)
section \<open>Planning, paying and voiding\<close>

lemma settled_later: "x \<in> settled_ids (lw_db w) \<Longrightarrow> lb_later w w' \<Longrightarrow> x \<in> settled_ids (lw_db w')"
  unfolding lb_later_def by blast

text \<open>A condition that lasts is there after a step that needs nothing.\<close>

lemma lb_last:
  assumes "\<And>w w'. S w \<Longrightarrow> lb_later w w' \<Longrightarrow> S w'" and "lb_keeps m"
  shows "lb_holds S m (\<lambda>_. S)"
  using lb_frame [of S, OF assms] by (rule lb_weaken) auto

lemma all_planned_simps [simp]:
  "all_planned [] w" "all_planned (g # gs) w \<longleftrightarrow> planned w g \<and> all_planned gs w"
  "all_planned (gs @ hs) w \<longleftrightarrow> all_planned gs w \<and> all_planned hs w"
  by (auto simp: all_planned_def)

lemma plan_winners_holds:
  "lb_holds (\<lambda>w. (bd_ProjectID b, sid, bd_ID b, k) \<in> settled_ids (lw_db w)) (plan_winners n b k sid i rule now es)
     (\<lambda>gs w. all_planned gs w \<and> (bd_ProjectID b, sid, bd_ID b, k) \<in> settled_ids (lw_db w))"
proof (induction es)
  case (Cons e es)
  show ?case
    unfolding plan_winners.simps
    by (intro lb_bind [OF lb_last [OF settled_later lb_now_keeps(2)]] lb_bind [OF Cons.IH] lb_ret)
      (auto simp: planned_def grant_of_def booked_def)
qed (auto intro!: lb_ret)

lemma plan_grants_holds:
  "lb_holds (\<lambda>w. (bd_ProjectID b, sid, bd_ID b, k) \<in> settled_ids (lw_db w)) (plan_grants n b k sid i rules) all_planned"
proof (induction rules arbitrary: i)
  case (Cons rule rules)
  show ?case
    unfolding plan_grants.simps
    by (intro lb_bind [OF lb_last [OF settled_later read_statements(9)]] lb_bind [OF lb_last [OF settled_later lb_now_keeps(1)]]
        lb_bind [OF plan_winners_holds]
        lb_bind [OF lb_weaken [OF lb_frame [OF all_planned_later Cons.IH]]] lb_ret) auto
qed (auto intro!: lb_ret)

lemma grant_reward_holds:
  "lb_holds (\<lambda>_. True) (grant_reward n g) (\<lambda>r w. booked (g\<lparr>sg_Status := (case r of Inl _ \<Rightarrow> RewardFailed
     | Inr _ \<Rightarrow> RewardGranted), sg_UpdatedAt := now\<rparr>) (lw_assets w))"
proof (rule lb_holdsI)
  fix w r w' assume w: "lb_ok w" and run: "grant_reward n g w = (r, w')"
  then obtain s a where grant: "grant (le_assets n) \<lparr>sc_ProjectID = sg_ProjectID g, sc_Operator = le_operator n\<rparr>
       \<lparr>gc_OwnerType = OwnerTypeUser, gc_OwnerID = sg_SubjectID g, gc_DefCode = sg_AssetCode g,
        gc_Quantity = sg_Amount g, gc_ExpiresAt = None, gc_Level = 0, gc_Metadata = None,
        gc_IdempotencyKey = sg_IdempotencyKey g, gc_RefType = ''leaderboard_settlement'',
        gc_RefID = sg_IdempotencyKey g\<rparr> (lw_assets w) = (s, a)"
    and w': "w' = w\<lparr>lw_assets := a\<rparr>" and r: "r = Inr s"
    by (auto simp: grant_reward_def split: prod.splits)
  have later: "lb_later w w'" using growsD [OF grows_grant grant] by (simp add: lb_later_def w')
  then have "lb_ok w'" using w planned_later [OF _ later]
    by (auto simp: lb_ok_def grants_ok_def w' list_all_iff)
  moreover have "s = Inr x \<Longrightarrow> (sg_ProjectID g, trim_space (sg_IdempotencyKey g)) \<in> ledger_keys a" for x
    using grant_logs [of _ _ _ _ x a] grant by fastforce
  ultimately show "lb_ok w' \<and> lb_later w w' \<and> (\<forall>s. r = Inr s \<longrightarrow> booked (g\<lparr>sg_Status := (case s of Inl _ \<Rightarrow> RewardFailed
     | Inr _ \<Rightarrow> RewardGranted), sg_UpdatedAt := now\<rparr>) (lw_assets w'))"
    using later r by (auto simp: booked_def w' split: sum.splits)
qed

lemma booked_later: "booked g (lw_assets w) \<Longrightarrow> lb_later w w' \<Longrightarrow> booked g (lw_assets w')"
  unfolding booked_def lb_later_def by blast

lemma grant_of_later: "grant_of g (lw_db w) \<Longrightarrow> lb_later w w' \<Longrightarrow> grant_of g (lw_db w')"
  unfolding grant_of_def lb_later_def by blast

lemma grant_of_status [simp]: "grant_of (g\<lparr>sg_Status := s, sg_UpdatedAt := t\<rparr>) db = grant_of g db"
  by (simp add: grant_of_def)

text \<open>One grant: with its outcome it is planned again.\<close>

lemma pay_step:
  "lb_holds (\<lambda>w. planned w g \<and> all_planned gs w) (grant_reward n g)
     (\<lambda>r w. planned w (g\<lparr>sg_Status := (case r of Inl _ \<Rightarrow> RewardFailed | Inr _ \<Rightarrow> RewardGranted), sg_UpdatedAt := now\<rparr>)
        \<and> all_planned gs w)"
proof -
  have "lb_holds (\<lambda>w. True \<and> grant_of g (lw_db w) \<and> all_planned gs w) (grant_reward n g)
     (\<lambda>r w. booked (g\<lparr>sg_Status := (case r of Inl _ \<Rightarrow> RewardFailed | Inr _ \<Rightarrow> RewardGranted), sg_UpdatedAt := now\<rparr>)
        (lw_assets w) \<and> grant_of g (lw_db w) \<and> all_planned gs w)"
    by (rule lb_frame [OF _ grant_reward_holds]) (blast intro: grant_of_later all_planned_later)
  then show ?thesis by (rule lb_weaken) (auto simp: planned_def)
qed

lemma pay_out_holds: "lb_holds (all_planned gs) (pay_out n gs) all_planned"
proof (induction gs)
  case (Cons g gs)
  show ?case
    unfolding pay_out.simps
    by (intro lb_bind [OF lb_last [OF all_planned_later lb_now_keeps(1)]] lb_bind [OF lb_weaken [OF pay_step [of g gs]]]
        lb_bind [OF lb_weaken [OF lb_frame [OF planned_later Cons.IH]]] lb_ret) auto
qed (auto intro!: lb_ret)

lemma or_record_holds: "lb_holds P m Q \<Longrightarrow> lb_holds P (or_record n p sid m) Q"
  unfolding or_record_def
proof (rule lb_bind [OF lb_attempt], assumption)
  fix r assume "lb_holds P m Q"
  show "lb_holds (\<lambda>w. \<forall>a. r = Inr a \<longrightarrow> Q a w)
      (case r of Inl err \<Rightarrow> tx_bind (attempt (settlement_fail n p sid)) (\<lambda>_. tx_fail err) | Inr a \<Rightarrow> tx_ret a) Q"
  proof (cases r)
    case (Inl err)
    have "lb_keeps (attempt (settlement_fail n p sid))" by (intro lb_keeps_attempt settlement_updates_keep)
    then show ?thesis unfolding Inl sum.case by (intro lb_bind [OF lb_weaken] lb_basic) auto
  qed (simp add: lb_ret)
qed

lemma save_grants_later: "lb_holds (all_planned gs) (or_record n p sid (save_grants n gs)) (\<lambda>_. all_planned gs)"
  by (rule or_record_holds, rule lb_weaken [OF lb_frame [of "all_planned gs", OF all_planned_later save_grants_holds [of gs n]]])
    auto

lemma settle_finish_keeps:
  "lb_keeps (tx_bind (lb_now n) (\<lambda>stamp. tx_bind (settlement_complete n p sid stamp (granted_count gs)) (\<lambda>_. tx_ret True)))"
  by (intro lb_intros lb_now_keeps settlement_updates_keep)

lemma settle_pay_holds:
  "lb_holds (all_planned gs) (tx_bind (pay_out n gs) (\<lambda>gs'. tx_bind (or_record n p sid (save_grants n gs')) (\<lambda>_.
     tx_bind (lb_now n) (\<lambda>stamp. tx_bind (settlement_complete n p sid stamp (granted_count gs')) (\<lambda>_. tx_ret True)))))
   (\<lambda>_ _. True)"
  by (rule lb_bind [OF pay_out_holds], rule lb_bind [OF save_grants_later], rule lb_drop, rule settle_finish_keeps)

lemma settle_one_keeps: "lb_keeps (settle_one n b k now)"
proof -
  let ?s = "\<lambda>sid. (bd_ProjectID b, sid, bd_ID b, k)"
  have "lb_holds (\<lambda>w. ?s sid \<in> settled_ids (lw_db w))
     (tx_bind (or_record n p sid (plan_grants n b k sid 0 (bd_Rewards b))) (\<lambda>gs.
       tx_bind (or_record n p sid (save_grants n gs)) (\<lambda>_.
       tx_bind (pay_out n gs) (\<lambda>gs'.
       tx_bind (or_record n p sid (save_grants n gs')) (\<lambda>_.
       tx_bind (lb_now n) (\<lambda>stamp.
       tx_bind (settlement_complete n p sid stamp (granted_count gs')) (\<lambda>_. tx_ret True))))))) (\<lambda>_ _. True)" for p sid
    by (rule lb_bind [OF or_record_holds [OF plan_grants_holds]], rule lb_bind [OF save_grants_later], rule settle_pay_holds)
  then have "lb_holds (\<lambda>w. c \<longrightarrow> ?s sid \<in> settled_ids (lw_db w))
     (if \<not> c then tx_ret False else tx_bind (or_record n p sid (plan_grants n b k sid 0 (bd_Rewards b))) (\<lambda>gs.
       tx_bind (or_record n p sid (save_grants n gs)) (\<lambda>_.
       tx_bind (pay_out n gs) (\<lambda>gs'.
       tx_bind (or_record n p sid (save_grants n gs')) (\<lambda>_.
       tx_bind (lb_now n) (\<lambda>stamp.
       tx_bind (settlement_complete n p sid stamp (granted_count gs')) (\<lambda>_. tx_ret True))))))) (\<lambda>_ _. True)" for c p sid
    by (cases c) (simp_all add: lb_basic)
  note rest = this
  show ?thesis
    unfolding settle_one_def Let_def
    apply (rule lb_keeps_bind [OF read_statements(6)], rule lb_keeps_bind [OF lb_now_keeps(2)], rule lb_bind [OF claim_pending_holds])
    subgoal for total sid c using rest [of c sid "bd_ProjectID b"] by simp
    done
qed

lemma settle_periods_keeps: "lb_keeps (settle_periods n b now ks acc)"
  by (induction ks arbitrary: acc) (auto intro!: lb_intros settle_one_keeps simp del: split_paired_All)

lemma settle_boards_keeps: "lb_keeps (settle_boards n now bs acc)"
  by (induction bs arbitrary: acc)
    (auto simp: Let_def intro!: lb_intros read_statements settle_periods_keeps split: sum.split)

lemma settle_due_keeps: "lb_keeps (settle_due n projects)"
proof -
  have "lb_keeps (settle_projects n now projects acc)" for now acc
    by (induction projects arbitrary: acc)
      (auto intro!: lb_intros read_statements settle_boards_keeps split: sum.split)
  then show ?thesis unfolding settle_due_def by (intro lb_intros lb_now_keeps)
qed

lemma lb_keep_head:
  assumes "lb_holds (all_planned gs) m all_planned"
  shows "lb_holds (\<lambda>w. planned w h \<and> all_planned gs w) (tx_bind m (\<lambda>rest. tx_ret (h # rest))) all_planned"
proof -
  have "lb_holds (\<lambda>w. all_planned gs w \<and> planned w h) m (\<lambda>rest w. all_planned rest w \<and> planned w h)"
    by (rule lb_frame [OF planned_later assms])
  then have "lb_holds (\<lambda>w. planned w h \<and> all_planned gs w) m (\<lambda>rest w. all_planned rest w \<and> planned w h)"
    by (rule lb_weaken) auto
  then show ?thesis by (rule lb_bind) (auto intro: lb_ret)
qed

lemma pay_out_again_holds: "lb_holds (all_planned gs) (pay_out_again n gs) all_planned"
proof (induction gs)
  case (Cons g gs)
  have rest: "lb_holds (\<lambda>w. planned w h \<and> all_planned gs w)
      (tx_bind (pay_out_again n gs) (\<lambda>rest. tx_ret (h # rest))) all_planned" for h
    by (rule lb_keep_head [OF Cons.IH])
  have after: "lb_holds (\<lambda>w. planned w h \<and> all_planned gs w) (tx_bind (lb_now n) (\<lambda>now.
      tx_bind (pay_out_again n gs) (\<lambda>rest. tx_ret (h' now # rest)))) all_planned"
    if "\<And>now w. planned w (h' now) = planned w h" for h h'
  proof (rule lb_bind [OF lb_last [OF _ lb_now_keeps(1)]])
    show "planned w h \<and> all_planned gs w \<Longrightarrow> lb_later w w' \<Longrightarrow> planned w' h \<and> all_planned gs w'" for w w'
      using planned_later all_planned_later by blast
    show "lb_holds (\<lambda>w. planned w h \<and> all_planned gs w)
        (tx_bind (pay_out_again n gs) (\<lambda>rest. tx_ret (h' now # rest))) all_planned" for now
      using rest [of "h' now"] by (simp add: that)
  qed
  show ?case
  proof (cases "sg_Status g = RewardGranted")
    case True
    then show ?thesis using lb_weaken [OF rest [of g]] by auto
  next
    case False
    have same: "planned w (g\<lparr>sg_Status := s, sg_UpdatedAt := now\<rparr>) = planned w (g\<lparr>sg_Status := s, sg_UpdatedAt := 0\<rparr>)"
      for w s now by (simp add: planned_def booked_def)
    from False show ?thesis
      using lb_bind [OF lb_weaken [OF pay_step [of g gs n 0]] after [OF same]] by auto
  qed
qed (auto intro!: lb_ret)

lemma void_grants_holds: "lb_holds (all_planned gs) (void_grants n gs) all_planned"
proof (induction gs)
  case (Cons g gs)
  have rest: "lb_holds (\<lambda>w. planned w h \<and> all_planned gs w)
      (tx_bind (void_grants n gs) (\<lambda>rest. tx_ret (h # rest))) all_planned" for h
    by (rule lb_keep_head [OF Cons.IH])
  show ?case
  proof (cases "sg_Status g = RewardGranted")
    case True
    then show ?thesis using lb_weaken [OF rest [of g]] by auto
  next
    case False
    have voided: "planned w (g\<lparr>sg_Status := RewardVoided, sg_UpdatedAt := now\<rparr>)" if "planned w g" for w now
      using that by (simp add: planned_def booked_def)
    have "lb_holds (\<lambda>w. planned w g \<and> all_planned gs w) (tx_bind (lb_now n) (\<lambda>now. tx_bind (void_grants n gs)
        (\<lambda>rest. tx_ret (g\<lparr>sg_Status := RewardVoided, sg_UpdatedAt := now\<rparr> # rest)))) all_planned"
      by (rule lb_bind [OF lb_last [OF _ lb_now_keeps(1)] lb_weaken [OF rest]])
        (auto intro: planned_later all_planned_later voided)
    with False show ?thesis by (auto elim: lb_weaken)
  qed
qed (auto intro!: lb_ret)

text \<open>The grants of the tables are planned.\<close>

lemma list_grants_holds: "lb_holds P (list_grants n p i) all_planned"
proof (rule lb_holdsI)
  fix w r w' assume w: "lb_ok w" "P w" and run: "list_grants n p i w = (r, w')"
  then have r: "lb_ok w' \<and> lb_later w w' \<and> (\<forall>gs. r = Inr gs \<longrightarrow>
      gs = sort_key (\<lambda>g. (sg_RuleIndex g, sg_SubjectID g)) (grants_of (lw_db w') p i))"
    using lb_read_keeps [of P] unfolding list_grants_def lb_holds_def by blast
  then have "list_all (planned w') (lt_grants (lw_db w'))" by (simp add: lb_ok_def grants_ok_def)
  then have "all_planned (sort_key (\<lambda>g. (sg_RuleIndex g, sg_SubjectID g)) (grants_of (lw_db w') p i)) w'"
    by (auto simp: all_planned_def list_all_iff grants_of_def)
  with r show "lb_ok w' \<and> lb_later w w' \<and> (\<forall>gs. r = Inr gs \<longrightarrow> all_planned gs w')" by blast
qed

lemma load_board_keeps: "lb_keeps (load_board n p i)"
  unfolding load_board_def by (intro lb_intros read_statements)

lemma rerun_settlement_keeps: "lb_keeps (rerun_settlement n pr i k)"
  unfolding rerun_settlement_def
  by (intro lb_intros load_board_keeps read_statements settlement_updates_keep lb_bind [OF list_grants_holds]
      lb_bind [OF pay_out_again_holds] lb_bind [OF save_grants_holds] lb_now_keeps)

lemma void_settlement_keeps: "lb_keeps (void_settlement n pr i k)"
proof -
  have "lb_keeps (void_existing n p i k)" for p
    unfolding void_existing_def
    by (intro lb_intros read_statements settlement_updates_keep lb_bind [OF list_grants_holds]
      lb_bind [OF void_grants_holds] save_grants_holds)
  then show ?thesis
    unfolding void_settlement_def
    by (intro lb_intros load_board_keeps read_statements lb_now_keeps lb_weaken [OF claim_pending_holds]) auto
qed

section \<open>Boards, entries and pruning\<close>

lemma lb_asset_keeps: "grows m \<Longrightarrow> lb_keeps (lb_asset m)"
proof (rule lb_holdsI)
  fix w r w' assume m: "grows m" and w: "lb_ok w" and run: "lb_asset m w = (r, w')"
  obtain s a where s: "m (lw_assets w) = (s, a)" by fastforce
  then have w': "w' = w\<lparr>lw_assets := a\<rparr>" using run by (auto simp: lb_asset_def split: sum.splits)
  have later: "lb_later w w'" using growsD [OF m s] by (simp add: lb_later_def w')
  with w show "lb_ok w' \<and> lb_later w w' \<and> (\<forall>a. r = Inr a \<longrightarrow> True)"
    using planned_later [OF _ later] by (auto simp: lb_ok_def grants_ok_def w' list_all_iff)
qed

lemma grows_def_by_code: "grows (def_by_code e p c)"
  by (simp add: def_by_code_def grows_helpers)

lemma validate_reward_assets_keeps: "lb_keeps (validate_reward_assets n p rs)"
  by (induction rs) (auto intro!: lb_intros lb_asset_keeps grows_def_by_code)

lemma enforce_board_cap_keeps: "lb_keeps (enforce_board_cap n p)"
  unfolding enforce_board_cap_def by (intro lb_intros read_statements)

lemma create_board_keeps: "lb_keeps (create_board n pr inp)" "lb_keeps (create_board_provisioning n pr inp)"
  unfolding create_board_def create_board_provisioning_def Let_def
  by (auto intro!: lb_intros read_statements validate_reward_assets_keeps enforce_board_cap_keeps lb_now_keeps
      board_insert_keeps load_board_keeps split: option.split sum.split lb_err.split)

lemma delete_board_keeps: "lb_keeps (delete_board n pr i)"
  unfolding delete_board_def by (intro lb_intros load_board_keeps board_delete_keeps)

lemma delete_entry_keeps: "lb_keeps (delete_entry n pr i period s)"
  unfolding delete_entry_def by (intro lb_intros load_board_keeps lb_now_keeps entry_removal_keeps)

lemma prune_keeps: "lb_keeps (prune_expired_periods n projects)"
proof -
  have b: "lb_keeps (prune_boards n now bs acc)" for now bs acc
    by (induction bs arbitrary: acc) (auto intro!: lb_intros entry_removal_keeps split: option.split)
  have "lb_keeps (prune_projects n now projects acc)" for now acc
    by (induction projects arbitrary: acc) (auto intro!: lb_intros b read_statements split: sum.split)
  then show ?thesis unfolding prune_expired_periods_def by (intro lb_intros lb_now_keeps)
qed
section \<open>Submissions\<close>

text \<open>Steps that leave the asset system alone, and steps that only read.\<close>

definition lb_calm :: "'a ltx \<Rightarrow> bool" where
  "lb_calm m \<longleftrightarrow> (\<forall>w. lw_assets (snd (m w)) = lw_assets w)"

definition lb_reads :: "'a ltx \<Rightarrow> bool" where
  "lb_reads m \<longleftrightarrow> (\<forall>w. lw_assets (snd (m w)) = lw_assets w \<and> lw_db (snd (m w)) = lw_db w)"

lemma lb_readsD: "lb_reads m \<Longrightarrow> m w = (r, w') \<Longrightarrow> lw_assets w' = lw_assets w \<and> lw_db w' = lw_db w"
  unfolding lb_reads_def by (metis snd_conv)

lemma lb_calmD: "lb_calm m \<Longrightarrow> m w = (r, w') \<Longrightarrow> lw_assets w' = lw_assets w"
  unfolding lb_calm_def by (metis snd_conv)

lemma lb_reads_calm: "lb_reads m \<Longrightarrow> lb_calm m"
  by (simp add: lb_reads_def lb_calm_def)

lemma lb_calm_bind: "lb_calm m \<Longrightarrow> (\<And>a. lb_calm (f a)) \<Longrightarrow> lb_calm (tx_bind m f)"
  unfolding lb_calm_def tx_bind_def by (simp split: prod.splits sum.splits) (metis snd_conv)

lemma lb_reads_basic:
  "lb_reads (tx_ret a)" "lb_reads (tx_fail err)" "lb_reads (tx_lift r)" "lb_reads (lb_now n)" "lb_reads (lb_new_id n)"
  "lb_reads (lb_read n f)"
  by (auto simp: lb_reads_def tx_ret_def tx_fail_def tx_lift_def lb_now_def lb_new_id_def lb_read_def lb_op_def Let_def)

lemma lb_reads_bind: "lb_reads m \<Longrightarrow> (\<And>a. lb_reads (f a)) \<Longrightarrow> lb_reads (tx_bind m f)"
  unfolding lb_reads_def tx_bind_def by (simp split: prod.splits sum.splits) (metis snd_conv)

lemma lb_reads_statements:
  "lb_reads (board_get n p i)" "lb_reads (entry_get n p i k s)" "lb_reads (stats n b k e)" "lb_reads (load_board n p i)"
  "lb_reads (count_in_board n p i)"
  unfolding board_get_def entry_get_def stats_def load_board_def board_get_def count_in_board_def
  by (auto intro!: lb_reads_basic lb_reads_bind split: option.split)

lemma lb_calm_write: "lb_calm (lb_write n f)"
  by (auto simp: lb_calm_def lb_write_def lb_op_def Let_def split: sum.splits)

lemmas lb_calm_intros = lb_calm_bind lb_calm_write lb_reads_basic [THEN lb_reads_calm] lb_reads_statements [THEN lb_reads_calm]

lemma lb_run_Inl: "lb_run n m w = (Inl err, w') \<Longrightarrow> lw_db w' = lw_db w"
  by (auto simp: lb_run_def Let_def split: if_splits prod.splits sum.splits)

lemma lb_run_Inr:
  assumes "lb_run n m w = (Inr a, w')"
  obtains v where "m (w\<lparr>lw_ops := Suc (lw_ops w)\<rparr>) = (Inr a, v)" and "lw_db w' = lw_db v"
  using assms by (auto simp: lb_run_def Let_def split: if_splits prod.splits sum.splits)

lemma lb_calm_run: "lb_calm m \<Longrightarrow> lb_calm (lb_run n m)"
  unfolding lb_calm_def lb_run_def Let_def
  by (auto split: prod.splits sum.splits) (metis snd_conv lb_world.select_convs(2) lb_world.surjective lb_world.update_convs(5))+

text \<open>The rows after a submission.\<close>

definition submitted_rows :: "board \<Rightarrow> string \<Rightarrow> submit_command \<Rightarrow> gtime \<Rightarrow> lb_entry list \<Rightarrow> lb_entry list" where
  "submitted_rows b k cmd now es =
     (let key = (bd_ProjectID b, bd_ID b, k, cm_SubjectID cmd) in case find (\<lambda>e. entry_key e = key) es of
       None \<Rightarrow> es @ [stored_entry (first_entry b k cmd now)]
     | Some cur \<Rightarrow> map (\<lambda>r. if entry_key r = key then merged_columns (merged_entry b cur cmd now) r else r) es)"

definition submittable :: "board \<Rightarrow> string \<Rightarrow> submit_command \<Rightarrow> lb_entry list \<Rightarrow> bool" where
  "submittable b k cmd es \<longleftrightarrow> (case find (\<lambda>e. entry_key e = (bd_ProjectID b, bd_ID b, k, cm_SubjectID cmd)) es of
     None \<Rightarrow> True | Some cur \<Rightarrow> ent_SubmitCount cur < bd_PerSubjectLimit b)"

lemma merged_key [simp]: "entry_key (merged_entry b cur cmd now) = entry_key cur"
  by (auto simp: merged_entry_def entry_key_def split: prod.splits)

lemma first_key [simp]: "entry_key (first_entry b k cmd now) = (bd_ProjectID b, bd_ID b, k, cm_SubjectID cmd)"
  by (simp add: first_entry_def entry_key_def)

lemma submit_in_tx_Inr:
  assumes "submit_in_tx n b k cmd w = (Inr e, w')"
  shows "\<exists>now. submittable b k cmd (lt_entries (lw_db w)) \<and>
    lw_db w' = (lw_db w)\<lparr>lt_entries := submitted_rows b k cmd now (lt_entries (lw_db w))\<rparr>"
proof -
  let ?es = "lt_entries (lw_db w)"
  let ?row = "find (\<lambda>e. entry_key e = (bd_ProjectID b, bd_ID b, k, cm_SubjectID cmd)) ?es"
  obtain v v' where get: "entry_get n (bd_ProjectID b) (bd_ID b) k (cm_SubjectID cmd) w = (Inr ?row, v)"
    and now: "lb_now n v = (Inr (le_clock n (lw_ticks v)), v')"
    and step: "(case ?row of None \<Rightarrow> let e = first_entry b k cmd (le_clock n (lw_ticks v)) in tx_bind (entry_insert n e) (\<lambda>_. tx_ret e)
      | Some cur \<Rightarrow> if bd_PerSubjectLimit b \<le> ent_SubmitCount cur then tx_fail ErrSubmitLimitExceeded
         else let e = merged_entry b cur cmd (le_clock n (lw_ticks v)) in tx_bind (entry_save_merged n e) (\<lambda>_. tx_ret e)) v' = (Inr e, w')"
    using assms
    by (auto simp: submit_in_tx_def tx_simps entry_get_def lb_read_def lb_op_def lb_now_def Let_def split: if_splits)
  have db: "lw_db v' = lw_db w"
    using lb_readsD [OF lb_reads_statements(2) get] lb_readsD [OF lb_reads_basic(4) now] by simp
  show ?thesis
  proof (cases ?row)
    case None
    then show ?thesis using step db
      by (auto simp: tx_simps Let_def entry_insert_def lb_write_def lb_op_def submittable_def submitted_rows_def
          split: if_splits)
  next
    case (Some cur)
    then have "entry_key cur = (bd_ProjectID b, bd_ID b, k, cm_SubjectID cmd)" by (auto simp: find_Some_iff)
    with Some show ?thesis using step db
      by (auto simp: tx_simps Let_def entry_save_merged_def lb_write_def lb_op_def submittable_def submitted_rows_def
          split: if_splits)
  qed
qed
definition submission :: "lb_env \<Rightarrow> string \<Rightarrow> submit_command \<Rightarrow> board \<Rightarrow> string \<Rightarrow> gtime \<Rightarrow> gtime \<Rightarrow> lb_tables \<Rightarrow>
    lb_tables \<Rightarrow> bool" where
  "submission n p cmd b k t now db db' \<longleftrightarrow>
     find (\<lambda>b. board_key b = (p, cm_BoardID cmd)) (lt_boards db) = Some b \<and>
     resolve_submittable_period (le_zones n) b (cm_Period cmd) t = Inr k \<and>
     validate_value b (cm_Value cmd) = Inr () \<and> validate_subject_id (cm_SubjectID cmd) = Inr () \<and>
     has_tiebreak b = (cm_Tiebreak cmd \<noteq> None) \<and> submittable b k cmd (lt_entries db) \<and>
     db' = db\<lparr>lt_entries := submitted_rows b k cmd now (lt_entries db)\<rparr>"

lemma submit_once_run:
  assumes "submit_once n b k cmd w = (r, w')"
  shows "lw_assets w' = lw_assets w" and "r = Inl err \<Longrightarrow> lw_db w' = lw_db w"
    and "r = Inr snap \<Longrightarrow> \<exists>now. submittable b k cmd (lt_entries (lw_db w)) \<and>
      lw_db w' = (lw_db w)\<lparr>lt_entries := submitted_rows b k cmd now (lt_entries (lw_db w))\<rparr>"
proof -
  have "lb_calm (submit_once n b k cmd)"
    unfolding submit_once_def submit_in_tx_def Let_def entry_insert_def entry_save_merged_def
    by (intro lb_calm_run lb_calm_bind lb_calm_intros) (auto intro!: lb_calm_intros split: option.split)
  then show "lw_assets w' = lw_assets w" using assms by (rule lb_calmD)
  show "r = Inl err \<Longrightarrow> lw_db w' = lw_db w" using assms unfolding submit_once_def by (auto dest: lb_run_Inl)
  assume "r = Inr snap"
  then obtain v where "tx_bind (submit_in_tx n b k cmd) (\<lambda>e. tx_bind (stats n b k (Some e)) (\<lambda>st.
     tx_ret \<lparr>sn_BoardID = bd_ID b, sn_PeriodKey = k, sn_Entry = Some e, sn_Stats = st\<rparr>)) (w\<lparr>lw_ops := Suc (lw_ops w)\<rparr>) = (Inr snap, v)"
    and v: "lw_db w' = lw_db v" using assms unfolding submit_once_def by (auto elim: lb_run_Inr)
  then obtain e u st where "submit_in_tx n b k cmd (w\<lparr>lw_ops := Suc (lw_ops w)\<rparr>) = (Inr e, u)"
    and "stats n b k (Some e) u = (Inr st, v)" by (auto simp: tx_simps)
  from submit_in_tx_Inr [OF this(1)] lb_readsD [OF lb_reads_statements(3) this(2)] v
  show "\<exists>now. submittable b k cmd (lt_entries (lw_db w)) \<and>
      lw_db w' = (lw_db w)\<lparr>lt_entries := submitted_rows b k cmd now (lt_entries (lw_db w))\<rparr>" by simp
qed

lemma submit_attempts_run:
  "submit_attempts n b k cmd m w = (r, w') \<Longrightarrow> lw_assets w' = lw_assets w \<and> (case r of
     Inl _ \<Rightarrow> lw_db w' = lw_db w
   | Inr snap \<Rightarrow> \<exists>now. submittable b k cmd (lt_entries (lw_db w)) \<and>
       lw_db w' = (lw_db w)\<lparr>lt_entries := submitted_rows b k cmd now (lt_entries (lw_db w))\<rparr>)"
proof (induction m arbitrary: w)
  case (Suc m)
  obtain s v where s: "submit_once n b k cmd w = (s, v)" by fastforce
  note once = submit_once_run [OF s]
  show ?case
  proof (cases "s = Inl ErrConcurrentInsert")
    case True
    then have "submit_attempts n b k cmd m v = (r, w')"
      using Suc.prems s by (simp add: attempt_def tx_bind_def)
    from Suc.IH [OF this] once(1) once(2) [OF True] show ?thesis by (cases r) auto
  next
    case False
    then have "w' = v \<and> r = s"
      using Suc.prems s by (auto simp: attempt_def tx_bind_def tx_ret_def tx_fail_def split: sum.splits lb_err.splits)
    with once show ?thesis by (cases s) auto
  qed
qed (auto simp: tx_fail_def)

lemma do_submit_run:
  assumes "do_submit n p cmd w = (r, w')"
  shows "lw_assets w' = lw_assets w \<and> (case r of Inl _ \<Rightarrow> lw_db w' = lw_db w
   | Inr snap \<Rightarrow> \<exists>b k now. submission n p cmd b k (le_clock n (lw_ticks w)) now (lw_db w) (lw_db w'))"
proof -
  obtain s v where s: "load_board n p (cm_BoardID cmd) w = (s, v)" by fastforce
  have v: "lw_assets v = lw_assets w" "lw_db v = lw_db w" using lb_readsD [OF lb_reads_statements(4) s] by simp_all
  show ?thesis
  proof (cases s)
    case (Inl err)
    with assms s v show ?thesis by (auto simp: do_submit_def tx_bind_def)
  next
    case (Inr b)
    then have b: "find (\<lambda>b. board_key b = (p, cm_BoardID cmd)) (lt_boards (lw_db w)) = Some b"
      using s by (auto simp: load_board_def tx_simps board_get_def lb_read_def lb_op_def Let_def split: if_splits option.splits)
    have ticks: "lw_ticks v = lw_ticks w"
      using s Inr by (auto simp: load_board_def tx_simps board_get_def lb_read_def lb_op_def Let_def split: if_splits option.splits)
    let ?u = "v\<lparr>lw_ticks := Suc (lw_ticks v)\<rparr>" let ?t = "le_clock n (lw_ticks v)"
    have u: "tx_bind (tx_lift (resolve_submittable_period (le_zones n) b (cm_Period cmd) ?t)) (\<lambda>k.
     tx_bind (tx_lift (validate_value b (cm_Value cmd))) (\<lambda>_.
     tx_bind (tx_lift (validate_subject_id (cm_SubjectID cmd))) (\<lambda>_.
     tx_when (has_tiebreak b \<noteq> (cm_Tiebreak cmd \<noteq> None)) ErrTiebreakMismatch (
     submit_attempts n b k cmd max_submit_attempts)))) ?u = (r, w')"
      using assms s Inr by (simp add: do_submit_def tx_bind_def lb_now_def)
    show ?thesis
    proof (cases "\<exists>k. resolve_submittable_period (le_zones n) b (cm_Period cmd) ?t = Inr k \<and>
        validate_value b (cm_Value cmd) = Inr () \<and> validate_subject_id (cm_SubjectID cmd) = Inr () \<and>
        has_tiebreak b = (cm_Tiebreak cmd \<noteq> None)")
      case True
      then obtain k where k: "resolve_submittable_period (le_zones n) b (cm_Period cmd) ?t = Inr k"
        and ok: "validate_value b (cm_Value cmd) = Inr ()" "validate_subject_id (cm_SubjectID cmd) = Inr ()"
          "has_tiebreak b = (cm_Tiebreak cmd \<noteq> None)" by blast
      then have "submit_attempts n b k cmd max_submit_attempts ?u = (r, w')"
        using u by (simp add: tx_bind_def tx_lift_def tx_when_def)
      from submit_attempts_run [OF this] v b k ok ticks show ?thesis
        by (cases r) (auto simp: submission_def)
    next
      case False
      then have "\<exists>err. r = Inl err \<and> w' = ?u" using u
        by (auto simp: tx_bind_def tx_lift_def tx_when_def tx_fail_def split: sum.splits if_splits)
      with v show ?thesis by auto
    qed
  qed
qed
text \<open>A submission keeps the books.\<close>

lemma truncate_twice [simp]: "truncate_to (truncate_to t usec) usec = truncate_to t usec"
  by (simp add: truncate_to_def)

lemma submitted_keys:
  "map entry_key (submitted_rows b k cmd now es) = (let key = (bd_ProjectID b, bd_ID b, k, cm_SubjectID cmd) in
     map entry_key es @ (if find (\<lambda>e. entry_key e = key) es = None then [key] else []))"
proof -
  have "entry_key (stored_entry e) = entry_key e" "entry_key (merged_columns e r) = entry_key r" for e r
    by (simp_all add: stored_entry_def entry_key_def merged_columns_def)
  then show ?thesis by (auto simp: submitted_rows_def Let_def split: option.split)
qed

lemma i32_small: "0 \<le> x \<Longrightarrow> x < 2 ^ 31 \<Longrightarrow> i32 x = x"
  by (simp add: i32_def)

lemma board_unique:
  assumes "boards_ok db" and "b \<in> set (lt_boards db)" and "b' \<in> set (lt_boards db)" and "board_key b = board_key b'"
  shows "b = b'"
  using assms by (auto simp: boards_ok_def distinct_map dest: inj_onD)

lemma submission_ok:
  assumes "lb_ok w" and "submission n p cmd b k t now (lw_db w) (lw_db w')" and "lw_assets w' = lw_assets w"
  shows "lb_ok w' \<and> lb_later w w'"
proof -
  let ?db = "lw_db w" let ?es = "lt_entries ?db" let ?key = "(bd_ProjectID b, bd_ID b, k, cm_SubjectID cmd)"
  have b: "b \<in> set (lt_boards ?db)" "board_key b = (p, cm_BoardID cmd)"
    and tie: "has_tiebreak b = (cm_Tiebreak cmd \<noteq> None)" and sub: "submittable b k cmd ?es"
    and db': "lw_db w' = ?db\<lparr>lt_entries := submitted_rows b k cmd now ?es\<rparr>"
    using assms(2) by (auto simp: submission_def find_Some_iff)
  have ok: "boards_ok ?db" "entries_ok ?db" using assms(1) by (simp_all add: lb_ok_def)
  have limit: "bd_PerSubjectLimit b \<le> max_per_subject_limit"
    using ok(1) b(1) by (auto simp: boards_ok_def board_columns_ok_def max_per_subject_limit_def)
  have first: "entry_of b (stored_entry (first_entry b k cmd now))"
    using tie by (auto simp: entry_of_def entry_row_ok_def stored_entry_def first_entry_def board_key_def max_per_subject_limit_def)
  have merged: "entry_of b (merged_columns (merged_entry b cur cmd now) cur)"
    if cur: "find (\<lambda>e. entry_key e = ?key) ?es = Some cur" for cur
  proof -
    have c: "cur \<in> set ?es" "entry_key cur = ?key" using cur by (auto simp: find_Some_iff)
    from cur sub have c3: "ent_SubmitCount cur < bd_PerSubjectLimit b" by (simp add: submittable_def)
    obtain b' where "b' \<in> set (lt_boards ?db)" "entry_of b' cur"
      using c(1) ok(2) unfolding entries_ok_def by blast
    moreover from this have "b' = b"
      using board_unique [OF ok(1) _ b(1)] c(2) by (auto simp: entry_of_def entry_key_def board_key_def)
    ultimately have e: "entry_of b cur" by simp
    then have "i32 (ent_SubmitCount cur + 1) = ent_SubmitCount cur + 1"
      using c3 limit by (intro i32_small) (auto simp: entry_of_def max_per_subject_limit_def)
    then show ?thesis using e c3 limit tie
      by (auto simp: entry_of_def entry_row_ok_def merged_columns_def merged_entry_def merge_submit_def split: policy.splits if_splits)
  qed
  have "distinct (map entry_key (lt_entries (lw_db w')))"
    using ok(2) by (auto simp: db' submitted_keys Let_def entries_ok_def find_None_iff)
  moreover have "\<exists>b \<in> set (lt_boards ?db). entry_of b e" if "e \<in> set (submitted_rows b k cmd now ?es)" for e
  proof (cases "find (\<lambda>e. entry_key e = ?key) ?es")
    case None
    with that first ok(2) b(1) show ?thesis by (auto simp: submitted_rows_def entries_ok_def)
  next
    case (Some cur)
    then have cur: "cur \<in> set ?es" "entry_key cur = ?key" by (auto simp: find_Some_iff)
    from Some have "e \<in> (\<lambda>r. if entry_key r = ?key then merged_columns (merged_entry b cur cmd now) r else r) ` set ?es"
      using that by (simp add: submitted_rows_def)
    then obtain r where r: "r \<in> set ?es" "e = (if entry_key r = ?key then merged_columns (merged_entry b cur cmd now) r else r)"
      by (rule imageE) auto
    have "r = cur" if "entry_key r = ?key"
      using inj_onD [of entry_key "set ?es" r cur] that cur r(1) ok(2) by (simp add: entries_ok_def distinct_map)
    with r merged [OF Some] b(1) ok(2) show ?thesis by (auto simp: entries_ok_def)
  qed
  ultimately have "entries_ok (lw_db w')" by (auto simp: entries_ok_def db')
  then have "lb_ok (w\<lparr>lw_db := lw_db w'\<rparr>) \<and> settled_ids ?db \<subseteq> settled_ids (lw_db w')"
    using assms(1) ok(1) by (intro lb_ok_front) (auto simp: db' boards_ok_def)
  then show ?thesis
    using assms(3) by (simp add: lb_ok_def grants_ok_def planned_def [abs_def] lb_later_def)
qed

lemma do_submit_keeps: "lb_keeps (do_submit n p cmd)"
proof (rule lb_holdsI)
  fix w r w' assume w: "lb_ok w" and run: "do_submit n p cmd w = (r, w')"
  show "lb_ok w' \<and> lb_later w w' \<and> (\<forall>a. r = Inr a \<longrightarrow> True)"
    using do_submit_run [OF run] lb_ok_quiet [OF _ _ w] submission_ok [OF w] by (cases r) auto
qed

lemma submit_keeps: "lb_keeps (submit n pr cmd)" "lb_keeps (submit_self n pr cmd)"
  unfolding submit_def submit_self_def by (intro lb_intros do_submit_keeps load_board_keeps)+
section \<open>Changes to a board\<close>

text \<open>A condition on the tables stays over steps that do not write them.\<close>

definition lb_still :: "'a ltx \<Rightarrow> bool" where
  "lb_still m \<longleftrightarrow> lb_keeps m \<and> (\<forall>w. lw_db (snd (m w)) = lw_db w)"

lemma lb_still_holds: "lb_still m \<Longrightarrow> lb_holds (\<lambda>w. S (lw_db w)) m (\<lambda>_ w. S (lw_db w))"
  unfolding lb_still_def lb_holds_def by (metis snd_conv)

lemma lb_still_basic: "lb_still (lb_now n)" "lb_still (tx_lift r)"
  using lb_now_keeps lb_basic(3) by (auto simp: lb_still_def lb_now_def tx_lift_def)

lemma lb_still_rewards: "lb_still (validate_reward_assets n p rs)"
proof -
  have "lw_db (snd (validate_reward_assets n p rs w)) = lw_db w" for w
    by (induction rs arbitrary: w) (auto simp: tx_ret_def tx_bind_def lb_asset_def tx_fail_def split: prod.splits sum.splits)
  then show ?thesis by (simp add: lb_still_def validate_reward_assets_keeps)
qed

definition board_row :: "board \<Rightarrow> string \<Rightarrow> string \<Rightarrow> lb_tables \<Rightarrow> bool" where
  "board_row b p i db \<longleftrightarrow> b \<in> set (lt_boards db) \<and> board_key b = (p, i)"

definition no_entries :: "string \<Rightarrow> string \<Rightarrow> lb_tables \<Rightarrow> bool" where
  "no_entries p i db \<longleftrightarrow> list_all (\<lambda>e. (ent_ProjectID e, ent_BoardID e) \<noteq> (p, i)) (lt_entries db)"

lemma find_SomeD: "find P xs = Some x \<Longrightarrow> x \<in> set xs \<and> P x"
  by (auto simp: find_Some_iff)

lemma load_board_holds: "lb_holds P (load_board n p i) (\<lambda>b w. board_row b p i (lw_db w))"
  unfolding load_board_def board_get_def
  by (rule lb_bind [OF lb_read_keeps])
    (auto intro!: lb_ret lb_basic split: option.split simp: board_row_def dest!: sym [of "Some _"] find_SomeD)

lemma order_check_holds:
  "lb_holds (\<lambda>w. S (lw_db w)) (if oc then tx_bind (count_in_board n p i) (\<lambda>cnt.
      if 0 < cnt then lb_mapped (tx_fail err) else tx_ret ()) else tx_ret ())
    (\<lambda>_ w. S (lw_db w) \<and> (oc \<longrightarrow> no_entries p i (lw_db w)))"
proof (cases oc)
  case True
  let ?c = "\<lambda>db. int (length (filter (\<lambda>e. ent_ProjectID e = p \<and> ent_BoardID e = i) (lt_entries db)))"
  have "lb_holds (\<lambda>w. S (lw_db w)) (count_in_board n p i) (\<lambda>cnt w. S (lw_db w) \<and> cnt = ?c (lw_db w))"
  proof (rule lb_holdsI)
    fix w r w' assume w: "lb_ok w" "S (lw_db w)" and run: "count_in_board n p i w = (r, w')"
    have "lw_db w' = lw_db w" using lb_readsD [OF lb_reads_statements(5) run] by simp
    then show "lb_ok w' \<and> lb_later w w' \<and> (\<forall>c. r = Inr c \<longrightarrow> S (lw_db w') \<and> c = ?c (lw_db w'))"
      using lb_holdsD [OF lb_read_keeps [of "\<lambda>_. True"] run [unfolded count_in_board_def] w(1)] w(2) by auto
  qed
  moreover have "lb_holds (\<lambda>w. S (lw_db w) \<and> cnt = ?c (lw_db w)) (if 0 < cnt then lb_mapped (tx_fail err) else tx_ret ())
      (\<lambda>_ w. S (lw_db w) \<and> (oc \<longrightarrow> no_entries p i (lw_db w)))" for cnt
    by (auto intro!: lb_ret lb_mapped_holds lb_basic simp: no_entries_def list_all_iff filter_empty_conv)
  ultimately show ?thesis using True by (simp add: lb_bind)
qed (auto intro!: lb_ret)

lemma board_update_holds:
  assumes "board_key b2 = board_key b" and "board_key b = (p, i)"
    and "has_tiebreak b2 \<noteq> has_tiebreak b \<longrightarrow> oc"
  shows "lb_holds (\<lambda>w. board_row b p i (lw_db w) \<and> (oc \<longrightarrow> no_entries p i (lw_db w))) (board_update n b2) (\<lambda>_ _. True)"
  unfolding board_update_def
proof (rule lb_write_holds)
  fix w :: lb_world and a db
  let ?f = "\<lambda>x. if board_key x = board_key b2 then b2\<lparr>bd_CreatedAt := bd_CreatedAt x\<rparr> else x"
  assume w: "lb_ok w" and row: "board_row b p i (lw_db w) \<and> (oc \<longrightarrow> no_entries p i (lw_db w))"
    and run: "(if board_columns_ok b2 then Inr ((), (lw_db w)\<lparr>lt_boards := map ?f (lt_boards (lw_db w))\<rparr>) else Inl LbDB) = Inr (a, db)"
  then have cols: "board_columns_ok b2" and db: "db = (lw_db w)\<lparr>lt_boards := map ?f (lt_boards (lw_db w))\<rparr>"
    by (auto split: if_splits)
  have ok: "boards_ok (lw_db w)" "entries_ok (lw_db w)" using w by (simp_all add: lb_ok_def)
  have key: "board_key (?f x) = board_key x" for x by (simp add: board_key_def)
  have cols': "board_columns_ok (b2\<lparr>bd_CreatedAt := t\<rparr>)" for t using cols by (simp add: board_columns_ok_def)
  have "map board_key (lt_boards db) = map board_key (lt_boards (lw_db w))" using key by (simp add: db)
  then have "distinct (map board_key (lt_boards db))" using ok(1) by (simp add: boards_ok_def)
  moreover have "\<forall>x \<in> set (lt_boards db). board_columns_ok x"
    using ok(1) cols' by (auto simp: boards_ok_def db)
  ultimately have "boards_ok db" by (simp add: boards_ok_def)
  moreover have "\<exists>x \<in> set (lt_boards db). entry_of x e" if e: "e \<in> set (lt_entries (lw_db w))" for e
  proof -
    obtain x where x: "x \<in> set (lt_boards (lw_db w))" "entry_of x e" using ok(2) e unfolding entries_ok_def by blast
    have "entry_of (?f x) e"
    proof (cases "board_key x = board_key b2")
      case True
      then have "x = b" using board_unique [OF ok(1) x(1)] row assms(1) by (simp add: board_row_def)
      moreover have "\<not> oc" using row e x(2) True assms(1,2) by (auto simp: no_entries_def list_all_iff entry_of_def)
      ultimately show ?thesis using x(2) True assms(3)
        by (auto simp: entry_of_def entry_row_ok_def has_tiebreak_def board_key_def)
    qed (use x(2) in simp)
    moreover have "?f x \<in> set (lt_boards db)" using imageI [OF x(1), of ?f] by (simp add: db)
    ultimately show ?thesis by blast
  qed
  then have "entries_ok db" using ok(2) by (simp add: entries_ok_def db)
  ultimately show "lb_ok (w\<lparr>lw_db := db\<rparr>) \<and> settled_ids (lw_db w) \<subseteq> settled_ids db \<and> True"
    using w by (simp add: lb_ok_front db)
qed simp

lemma update_board_keeps: "lb_keeps (update_board n pr c)"
proof -
  have key: "board_key (patch_board c b\<lparr>bd_UpdatedAt := t\<rparr>) = board_key b" for b t
    by (simp add: board_key_def patch_board_def)
  have tie: "has_tiebreak (patch_board c b\<lparr>bd_UpdatedAt := t\<rparr>) \<noteq> has_tiebreak b \<Longrightarrow> order_changes c b" for b t
    by (auto simp: has_tiebreak_def patch_board_def order_changes_def split: if_splits)
  let ?S = "\<lambda>b p db. board_row b p (ub_BoardID c) db \<and> (order_changes c b \<longrightarrow> no_entries p (ub_BoardID c) db)"
  have last: "lb_holds (\<lambda>w. ?S b p (lw_db w)) (tx_bind (board_update n (patch_board c b\<lparr>bd_UpdatedAt := now\<rparr>)) (\<lambda>_. tx_ret x)) (\<lambda>_ _. True)"
    for b p now x
  proof (cases "board_key b = (p, ub_BoardID c)")
    case True
    then show ?thesis using tie by (intro lb_bind [OF board_update_holds [OF key]] lb_basic) auto
  next
    case False
    then show ?thesis by (simp add: lb_holds_def board_row_def)
  qed
  have body: "lb_holds (\<lambda>w. ?S b p (lw_db w)) (tx_bind (tx_lift (validate_board (le_zones n) (patch_board c b))) (\<lambda>_.
     tx_bind (validate_reward_assets n p (bd_Rewards (patch_board c b))) (\<lambda>_.
     tx_bind (lb_now n) (\<lambda>now.
     tx_bind (board_update n (patch_board c b\<lparr>bd_UpdatedAt := now\<rparr>)) (\<lambda>_. tx_ret (patch_board c b\<lparr>bd_UpdatedAt := now\<rparr>)))))) (\<lambda>_ _. True)" for b p
    by (rule lb_bind [OF lb_still_holds [OF lb_still_basic(2)]], rule lb_bind [OF lb_still_holds [OF lb_still_rewards]],
        rule lb_bind [OF lb_still_holds [OF lb_still_basic(1)]], rule last)
  show ?thesis
    unfolding update_board_def Let_def
    by (rule lb_keeps_bind [OF lb_basic(3)], rule lb_bind [OF lb_mapped_holds [OF load_board_holds]],
        rule lb_bind [OF order_check_holds], rule lb_mapped_holds, rule body)
qed

section \<open>The system\<close>

datatype lb_call =
    Submit "lb_principal option" submit_command
  | SubmitSelf "lb_principal option" submit_command
  | DeleteEntry "lb_principal option" string string string
  | CreateBoard "lb_principal option" board
  | CreateBoardProvisioning "lb_principal option" board
  | UpdateBoard "lb_principal option" update_board_command
  | DeleteBoard "lb_principal option" string
  | PruneExpired "(string \<times> bool) list"
  | SettleDue "(string \<times> bool) list"
  | Rerun "lb_principal option" string string
  | VoidPeriod "lb_principal option" string string

definition exec_lb :: "lb_env \<Rightarrow> lb_call \<Rightarrow> lb_world \<Rightarrow> lb_world" where
  "exec_lb n c w = (case c of
     Submit pr cmd \<Rightarrow> snd (submit n pr cmd w)
   | SubmitSelf pr cmd \<Rightarrow> snd (submit_self n pr cmd w)
   | DeleteEntry pr i period s \<Rightarrow> snd (delete_entry n pr i period s w)
   | CreateBoard pr b \<Rightarrow> snd (create_board n pr b w)
   | CreateBoardProvisioning pr b \<Rightarrow> snd (create_board_provisioning n pr b w)
   | UpdateBoard pr u \<Rightarrow> snd (update_board n pr u w)
   | DeleteBoard pr i \<Rightarrow> snd (delete_board n pr i w)
   | PruneExpired ps \<Rightarrow> snd (prune_expired_periods n ps w)
   | SettleDue ps \<Rightarrow> snd (settle_due n ps w)
   | Rerun pr i k \<Rightarrow> snd (rerun_settlement n pr i k w)
   | VoidPeriod pr i k \<Rightarrow> snd (void_settlement n pr i k w))"

inductive lb_reaches :: "lb_env \<Rightarrow> lb_world \<Rightarrow> bool" for n where
  start: "lw_db w = \<lparr>lt_boards = [], lt_entries = [], lt_settlements = [], lt_grants = []\<rparr> \<Longrightarrow> lb_reaches n w"
| call: "lb_reaches n w \<Longrightarrow> lb_reaches n (exec_lb n c w)"
| asset_system: "lb_reaches n w \<Longrightarrow> ledger_keys (lw_assets w) \<subseteq> ledger_keys a \<Longrightarrow> lb_reaches n (w\<lparr>lw_assets := a\<rparr>)"

lemma lb_keeps_run: "lb_keeps m \<Longrightarrow> lb_ok w \<Longrightarrow> lb_ok (snd (m w)) \<and> lb_later w (snd (m w))"
  unfolding lb_holds_def by (metis prod.collapse)

lemma exec_lb_ok: "lb_ok w \<Longrightarrow> lb_ok (exec_lb n c w) \<and> lb_later w (exec_lb n c w)"
  unfolding exec_lb_def
  by (cases c) (simp_all add: lb_keeps_run submit_keeps delete_entry_keeps create_board_keeps update_board_keeps
      delete_board_keeps prune_keeps settle_due_keeps rerun_settlement_keeps void_settlement_keeps)

lemma reached_lb_ok: "lb_reaches n w \<Longrightarrow> lb_ok w"
proof (induction rule: lb_reaches.induct)
  case (start w)
  then show ?case
    by (simp add: lb_ok_def boards_ok_def entries_ok_def settlements_ok_def grants_ok_def)
next
  case (call w c)
  then show ?case using exec_lb_ok by blast
next
  case (asset_system w a)
  then have "lb_later w (w\<lparr>lw_assets := a\<rparr>)" by (simp add: lb_later_def)
  from planned_later [OF _ this] asset_system.IH show ?case
    by (auto simp: lb_ok_def grants_ok_def list_all_iff)
qed
end
