(* ===== verification/Leaderboard_Properties.thy ===== *)
theory Leaderboard_Properties
  imports Leaderboard_System Asset_Properties
begin

text \<open>
  The properties of leaderboards, each with a witness: which periods take submissions, what a
  submission does, that the two ways to compute a position agree, who is rewarded, and what a
  settlement books; and two ways in which rewards are lost.
\<close>

section \<open>A system to run\<close>

text \<open>
  A board of days with a reward for the first rank, and three submissions on 14 November 2023,
  after which the clock shows the 16th.
\<close>

definition demo_lb :: lb_env where
  "demo_lb = \<lparr>le_clock = (\<lambda>k. (1700000000 + int k + (if k < 7 then 0 else 172800)) * sec),
     le_id = (\<lambda>k. ''l'' @ itoa k), le_fails = (\<lambda>_. False), le_zones = (\<lambda>_. None), le_assets = demo_env,
     le_operator = None\<rparr>"

definition demo_player :: "lb_principal option" where
  "demo_player = Some \<lparr>lp_ProjectID = ''p1'', lp_UserID = ''''\<rparr>"

definition demo_rule :: reward_rule where
  "demo_rule = \<lparr>rr_RankMin = None, rr_RankMax = Some 1, rr_ValueMin = None, rr_AssetCode = ''gold'', rr_Amount = 10\<rparr>"

definition demo_board :: board where
  "demo_board = \<lparr>bd_ProjectID = '''', bd_ID = ''score'', bd_Sort = SortDesc, bd_TiebreakOrder = None,
     bd_TieBreak = TieBreakParallel, bd_PeriodKind = PeriodDaily, bd_PeriodTZ = '''', bd_Policy = PolicyBest,
     bd_ValueMin = None, bd_ValueMax = None, bd_ClientSubmit = False, bd_PerSubjectLimit = 5,
     bd_RetentionPeriods = 2, bd_SubjectKind = ''user'', bd_Rewards = [demo_rule], bd_CreatedAt = 0, bd_UpdatedAt = 0\<rparr>"

definition demo_score :: "string \<Rightarrow> int \<Rightarrow> submit_command" where
  "demo_score s v = \<lparr>cm_BoardID = ''score'', cm_SubjectID = s, cm_Value = v, cm_Tiebreak = None, cm_Period = ''''\<rparr>"

definition demo_empty :: lb_world where
  "demo_empty = \<lparr>lw_db = \<lparr>lt_boards = [], lt_entries = [], lt_settlements = [], lt_grants = []\<rparr>,
     lw_assets = init_world [demo_def ClassStack ''gold'' None], lw_ids = 0, lw_ticks = 0, lw_ops = 0\<rparr>"

fun exec_lbs :: "lb_env \<Rightarrow> lb_call list \<Rightarrow> lb_world \<Rightarrow> lb_world" where
  "exec_lbs n [] w = w"
| "exec_lbs n (c # cs) w = exec_lbs n cs (exec_lb n c w)"

definition demo_begun :: lb_world where
  "demo_begun = exec_lbs demo_lb [CreateBoard demo_player demo_board, Submit demo_player (demo_score ''ann'' 30),
     Submit demo_player (demo_score ''bob'' 50)] demo_empty"

definition demo_played :: lb_world where
  "demo_played = exec_lb demo_lb (Submit demo_player (demo_score ''ann'' 40)) demo_begun"

definition demo_row :: board where
  "demo_row = hd (lt_boards (lw_db demo_played))"

definition demo_settled :: lb_world where
  "demo_settled = exec_lb demo_lb (SettleDue [(''p1'', True)]) demo_played"

lemma exec_lbs_reached: "lb_reaches n w \<Longrightarrow> lb_reaches n (exec_lbs n cs w)"
  by (induction cs arbitrary: w) (simp_all add: lb_reaches.call)

text \<open>The states as they are, computed once.\<close>

definition demo_stored :: board where
  "demo_stored = stamp_board (demo_board\<lparr>bd_ProjectID := ''p1''\<rparr>) 1700000000000000000"

lemma demo_begun_code [code]:
  "demo_begun = \<lparr>lw_db = \<lparr>lt_boards = [demo_stored], lt_entries =
      [\<lparr>ent_ProjectID = ''p1'', ent_BoardID = ''score'', ent_PeriodKey = ''20231114'', ent_SubjectID = ''ann'',
        ent_Value = 30, ent_TiebreakValue = None, ent_SubmitCount = 1, ent_CreatedAt = 1700000002000000000, ent_UpdatedAt = 1700000002000000000\<rparr>,
       \<lparr>ent_ProjectID = ''p1'', ent_BoardID = ''score'', ent_PeriodKey = ''20231114'', ent_SubjectID = ''bob'',
        ent_Value = 50, ent_TiebreakValue = None, ent_SubmitCount = 1, ent_CreatedAt = 1700000004000000000, ent_UpdatedAt = 1700000004000000000\<rparr>], lt_settlements = [], lt_grants = []\<rparr>,
     lw_assets = (init_world [demo_def ClassStack ''gold'' None])\<lparr>w_ops := 1\<rparr>, lw_ids = 0, lw_ticks = 5, lw_ops = 14\<rparr>"
  by code_simp

lemma demo_played_code [code]:
  "demo_played = \<lparr>lw_db = \<lparr>lt_boards = [demo_stored], lt_entries =
      [\<lparr>ent_ProjectID = ''p1'', ent_BoardID = ''score'', ent_PeriodKey = ''20231114'', ent_SubjectID = ''ann'',
        ent_Value = 40, ent_TiebreakValue = None, ent_SubmitCount = 2, ent_CreatedAt = 1700000002000000000, ent_UpdatedAt = 1700000006000000000\<rparr>,
       \<lparr>ent_ProjectID = ''p1'', ent_BoardID = ''score'', ent_PeriodKey = ''20231114'', ent_SubjectID = ''bob'',
        ent_Value = 50, ent_TiebreakValue = None, ent_SubmitCount = 1, ent_CreatedAt = 1700000004000000000, ent_UpdatedAt = 1700000004000000000\<rparr>], lt_settlements = [], lt_grants = []\<rparr>,
     lw_assets = (init_world [demo_def ClassStack ''gold'' None])\<lparr>w_ops := 1\<rparr>, lw_ids = 0, lw_ticks = 7, lw_ops = 20\<rparr>"
  by code_simp

lemma demo_row_code [code]: "demo_row = demo_stored"
  by code_simp

lemma demo_begun_reached: "lb_reaches demo_lb demo_begun"
  unfolding demo_begun_def by (intro exec_lbs_reached lb_reaches.start) (simp add: demo_empty_def)

lemma demo_played_reached: "lb_reaches demo_lb demo_played"
  unfolding demo_played_def by (intro lb_reaches.call demo_begun_reached)

lemma demo_row_stored: "demo_row \<in> set (lt_boards (lw_db demo_played))"
proof -
  have "lt_boards (lw_db demo_played) \<noteq> []" by code_simp
  then show ?thesis by (simp add: demo_row_def)
qed

lemma demo_settled_reached: "lb_reaches demo_lb demo_settled"
  unfolding demo_settled_def by (intro lb_reaches.call demo_played_reached)

section \<open>Periods\<close>

lemma period_keys_now:
  assumes "divided (bd_PeriodKind b)" and "z = location zs b"
    and "reading_exists z (wall z now - days_back (bd_PeriodKind b) 1 * day_ns)"
    and "year_4 (index_year (bd_PeriodKind b) (period_at (bd_PeriodKind b) z now - 1))"
  shows "period_key (bd_PeriodKind b) z now = index_key (bd_PeriodKind b) (period_at (bd_PeriodKind b) z now)"
    and "previous_period_key (bd_PeriodKind b) z now = index_key (bd_PeriodKind b) (period_at (bd_PeriodKind b) z now - 1)"
proof -
  show "period_key (bd_PeriodKind b) z now = index_key (bd_PeriodKind b) (period_at (bd_PeriodKind b) z now)"
    by (rule period_key_index [OF assms(1)])
  have "bd_PeriodKind b \<noteq> PeriodNone" using assms(1) by (auto simp: divided_def)
  then show "previous_period_key (bd_PeriodKind b) z now = index_key (bd_PeriodKind b) (period_at (bd_PeriodKind b) z now - 1)"
    using period_key_minus_index [OF assms(1) _ assms(3,4)] by (simp add: previous_period_key_def)
qed

text \<open>
  C19. Number the days, weeks or months of a board's time zone. A period that a client names is
  accepted exactly if it is the current one or the one before, is refused as not submittable if
  it is any other well-formed key, and as invalid otherwise; and of the current period and those
  before it exactly the refused ones have a key below \<^verbatim>\<open>previousKey\<close>, the bound under which the
  settlement scan of the same time looks for periods. It is assumed that the zone has the wall
  clock reading of one day or week ago, and that years have four digits.
\<close>

theorem submittable_periods:
  assumes "kind = bd_PeriodKind b" and "z = location zs b" and "i = period_at kind z now"
    and "divided kind" and "explicit \<noteq> ''''"
    and "reading_exists z (wall z now - days_back kind 1 * day_ns)"
    and "year_4 (index_year kind i)" and "year_4 (index_year kind (i - 1))"
  shows "resolve_submittable_period zs b explicit now =
      (if explicit \<in> {index_key kind i, index_key kind (i - 1)} then Inr explicit
       else if validate_period_key kind explicit then Inl ErrPeriodNotSubmittable else Inl ErrPeriodInvalid) \<and>
    (\<forall>j. j \<le> i \<and> year_4 (index_year kind j) \<longrightarrow>
      (index_key kind j < previous_period_key kind z now \<longleftrightarrow>
       resolve_submittable_period zs b (index_key kind j) now = Inl ErrPeriodNotSubmittable))"
proof -
  have keys: "period_key kind z now = index_key kind i" "previous_period_key kind z now = index_key kind (i - 1)"
    using period_keys_now [of b z zs now] assms by simp_all
  have ne: "index_key kind j \<noteq> ''''" if "year_4 (index_year kind j)" for j
    using validate_index_key [OF assms(4) that] assms(4) by (auto simp: divided_def validate_period_key_def)
  have res: "resolve_submittable_period zs b x now =
      (if x \<in> {index_key kind i, index_key kind (i - 1)} then Inr x
       else if validate_period_key kind x then Inl ErrPeriodNotSubmittable else Inl ErrPeriodInvalid)"
    if "x \<noteq> ''''" for x
    using that keys ne [OF assms(8)] validate_index_key [OF assms(4,7)] validate_index_key [OF assms(4,8)] assms(1,2)
    by (auto simp: resolve_submittable_period_def Let_def)
  have "index_key kind j < index_key kind (i - 1) \<longleftrightarrow>
      resolve_submittable_period zs b (index_key kind j) now = Inl ErrPeriodNotSubmittable"
    if "j \<le> i" "year_4 (index_year kind j)" for j
    using that res [OF ne [OF that(2)]] validate_index_key [OF assms(4) that(2)]
      index_key_less_iff [OF assms(4) that(2) assms(8)] index_key_inject [OF assms(4) that(2)] assms(7,8) by auto
  then show ?thesis using res [OF assms(5)] keys(2) by simp
qed

theorem submittable_periods_witness:
  "resolve_submittable_period (\<lambda>_. None) demo_board ''20231113'' (1700000000 * sec) = Inr ''20231113''"
proof -
  let ?i = "period_at PeriodDaily utc_zone (1700000000 * sec)"
  have "PeriodDaily = bd_PeriodKind demo_board" "utc_zone = location (\<lambda>_. None) demo_board"
    by (simp_all add: demo_board_def location_def)
  moreover have "year_4 (index_year PeriodDaily ?i)" "year_4 (index_year PeriodDaily (?i - 1))"
    "index_key PeriodDaily (?i - 1) = ''20231113''" by code_simp+
  ultimately show ?thesis
    using submittable_periods [of PeriodDaily demo_board utc_zone "\<lambda>_. None" ?i "1700000000 * sec" "''20231113''"]
    by (simp add: divided_def)
qed

section \<open>Submissions\<close>

text \<open>What the policy of a board makes of a stored and a submitted value.\<close>

definition policy_value :: "board \<Rightarrow> int \<Rightarrow> int \<Rightarrow> int" where
  "policy_value b old new = (case bd_Policy b of
     PolicyLatest \<Rightarrow> new
   | PolicySum \<Rightarrow> i64 (old + new)
   | _ \<Rightarrow> if bd_Sort b = SortAsc then min old new else max old new)"

definition row_for :: "string \<times> string \<times> string \<times> string \<Rightarrow> lb_tables \<Rightarrow> lb_entry option" where
  "row_for key db = find (\<lambda>e. entry_key e = key) (lt_entries db)"

lemma find_append: "find P (xs @ ys) = (case find P xs of None \<Rightarrow> find P ys | Some x \<Rightarrow> Some x)"
  by (induction xs) auto

lemma find_map_keyed:
  "(\<And>x. key (f x) = key x) \<Longrightarrow> find (\<lambda>x. key x = k) (map f xs) = map_option f (find (\<lambda>x. key x = k) xs)"
  by (induction xs) auto

lemma submitted_row:
  "find (\<lambda>e. entry_key e = x) (submitted_rows b k cmd now es) =
     (let key = (bd_ProjectID b, bd_ID b, k, cm_SubjectID cmd) in
      if x \<noteq> key then find (\<lambda>e. entry_key e = x) es
      else Some (case find (\<lambda>e. entry_key e = key) es of
        None \<Rightarrow> stored_entry (first_entry b k cmd now)
      | Some cur \<Rightarrow> merged_columns (merged_entry b cur cmd now) cur))"
proof -
  have keys: "entry_key (stored_entry e) = entry_key e" "entry_key (merged_columns e r) = entry_key r" for e r
    by (simp_all add: stored_entry_def entry_key_def merged_columns_def)
  show ?thesis
    by (auto simp: submitted_rows_def Let_def find_append find_map_keyed keys split: option.split dest: find_SomeD)
qed

lemma merged_value: "ent_Value (merged_entry b cur cmd now) = policy_value b (ent_Value cur) (cm_Value cmd)"
  by (auto simp: merged_entry_def merge_submit_def policy_value_def value_better_def split: policy.splits)

text \<open>
  C6. A submission that succeeds is for a board of the caller's project and a period that is
  submittable at the time the call reads from the clock, and changes exactly one row, that of the subject: a new row with the submitted
  value, or the old one with its value merged as the policy says (the better of the two in the
  board's direction, the latest, or the sum in 64 bits) and one more submission counted, never
  more than the board allows. Nothing else of the tables and nothing of the assets changes.
\<close>

theorem submission_merges_one_row:
  assumes "lb_reaches n w" and "submit n (Some \<lparr>lp_ProjectID = p, lp_UserID = u\<rparr>) cmd w = (Inr snap, w')"
  shows "\<exists>b k e. b \<in> set (lt_boards (lw_db w)) \<and> board_key b = (p, cm_BoardID cmd) \<and>
    resolve_submittable_period (le_zones n) b (cm_Period cmd) (le_clock n (lw_ticks w)) = Inr k \<and>
    (let key = (p, cm_BoardID cmd, k, cm_SubjectID cmd); old = row_for key (lw_db w) in
      (\<forall>x. row_for x (lw_db w') = (if x = key then Some e else row_for x (lw_db w))) \<and>
      ent_Value e = (case old of None \<Rightarrow> cm_Value cmd | Some cur \<Rightarrow> policy_value b (ent_Value cur) (cm_Value cmd)) \<and>
      ent_SubmitCount e = 1 + (case old of None \<Rightarrow> 0 | Some cur \<Rightarrow> ent_SubmitCount cur) \<and>
      ent_SubmitCount e \<le> bd_PerSubjectLimit b) \<and>
    lw_db w' = (lw_db w)\<lparr>lt_entries := lt_entries (lw_db w')\<rparr> \<and> lw_assets w' = lw_assets w"
proof -
  have ok: "boards_ok (lw_db w)" "entries_ok (lw_db w)"
    using reached_lb_ok [OF assms(1)] by (simp_all add: lb_ok_def)
  have "do_submit n p cmd w = (Inr snap, w')"
    using assms(2) by (auto simp: submit_def lb_project_scope_def tx_simps lb_mapped_def split: if_splits prod.splits sum.splits)
  from do_submit_run [OF this] obtain b k now where
    sub: "submission n p cmd b k (le_clock n (lw_ticks w)) now (lw_db w) (lw_db w')" and assets: "lw_assets w' = lw_assets w" by auto
  from sub have b: "b \<in> set (lt_boards (lw_db w))" "board_key b = (p, cm_BoardID cmd)"
    by (auto simp: submission_def dest: find_SomeD)
  from sub have t: "resolve_submittable_period (le_zones n) b (cm_Period cmd) (le_clock n (lw_ticks w)) = Inr k"
    and s: "submittable b k cmd (lt_entries (lw_db w))"
    and db': "lw_db w' = (lw_db w)\<lparr>lt_entries := submitted_rows b k cmd now (lt_entries (lw_db w))\<rparr>"
    by (auto simp: submission_def)
  let ?key = "(p, cm_BoardID cmd, k, cm_SubjectID cmd)"
  let ?e = "case row_for ?key (lw_db w) of None \<Rightarrow> stored_entry (first_entry b k cmd now)
      | Some cur \<Rightarrow> merged_columns (merged_entry b cur cmd now) cur"
  have key: "(bd_ProjectID b, bd_ID b, k, cm_SubjectID cmd) = ?key" using b(2) by (simp add: board_key_def)
  have limit: "1 \<le> bd_PerSubjectLimit b" "bd_PerSubjectLimit b \<le> 10000"
    using ok(1) b(1) by (auto simp: boards_ok_def board_columns_ok_def)
  have rows: "row_for x (lw_db w') = (if x = ?key then Some ?e else row_for x (lw_db w))" for x
    by (simp add: row_for_def db' submitted_row key Let_def)
  have count: "i32 (ent_SubmitCount cur + 1) = ent_SubmitCount cur + 1 \<and> ent_SubmitCount cur < bd_PerSubjectLimit b"
    if "row_for ?key (lw_db w) = Some cur" for cur
  proof -
    have "cur \<in> set (lt_entries (lw_db w))" using that by (auto simp: row_for_def dest: find_SomeD)
    then have "1 \<le> ent_SubmitCount cur" using ok(2) by (fastforce simp: entries_ok_def entry_of_def)
    then show ?thesis using s that limit(2) by (simp add: submittable_def key row_for_def i32_small)
  qed
  have merged: "ent_SubmitCount (merged_entry b cur cmd now) = i32 (ent_SubmitCount cur + 1)" for cur
    by (auto simp: merged_entry_def split: prod.splits)
  have "ent_Value ?e = (case row_for ?key (lw_db w) of None \<Rightarrow> cm_Value cmd
      | Some cur \<Rightarrow> policy_value b (ent_Value cur) (cm_Value cmd))"
    "ent_SubmitCount ?e = 1 + (case row_for ?key (lw_db w) of None \<Rightarrow> 0 | Some cur \<Rightarrow> ent_SubmitCount cur)"
    "ent_SubmitCount ?e \<le> bd_PerSubjectLimit b"
    using count limit(1)
    by (auto simp: stored_entry_def first_entry_def merged_columns_def merged_value merged split: option.split)
  with b t rows assets db' show ?thesis by (auto simp: Let_def intro!: exI [of _ b] exI [of _ k] exI [of _ ?e])
qed
theorem submission_merges_one_row_witness:
  "lw_db demo_played = (lw_db demo_begun)\<lparr>lt_entries := lt_entries (lw_db demo_played)\<rparr> \<and>
   lw_assets demo_played = lw_assets demo_begun \<and>
   map ent_Value (lt_entries (lw_db demo_begun)) = [30, 50] \<and>
   map (\<lambda>e. (ent_Value e, ent_SubmitCount e)) (lt_entries (lw_db demo_played)) = [(40, 2), (50, 1)]"
proof -
  have "case fst (submit demo_lb demo_player (demo_score ''ann'' 40) demo_begun) of Inr _ \<Rightarrow> True | Inl _ \<Rightarrow> False"
    by code_simp
  then obtain snap where "submit demo_lb demo_player (demo_score ''ann'' 40) demo_begun = (Inr snap, demo_played)"
    by (auto simp: demo_played_def exec_lb_def prod_eq_iff split: sum.splits)
  from submission_merges_one_row [OF demo_begun_reached this [unfolded demo_player_def]]
  have "lw_db demo_played = (lw_db demo_begun)\<lparr>lt_entries := lt_entries (lw_db demo_played)\<rparr> \<and>
     lw_assets demo_played = lw_assets demo_begun" by blast
  moreover have "map ent_Value (lt_entries (lw_db demo_begun)) = [30, 50]" by code_simp
  moreover have "map (\<lambda>e. (ent_Value e, ent_SubmitCount e)) (lt_entries (lw_db demo_played)) = [(40, 2), (50, 1)]" by code_simp
  ultimately show ?thesis by blast
qed

section \<open>The order of a board\<close>

definition period_rows :: "board \<Rightarrow> string \<Rightarrow> lb_tables \<Rightarrow> lb_entry list" where
  "period_rows b k db = filter (in_period (bd_ProjectID b) (bd_ID b) k) (lt_entries db)"

lemma period_rows_ok:
  assumes "lb_ok w" and "b \<in> set (lt_boards (lw_db w))"
  shows "directed b" and "distinct (map ent_SubjectID (period_rows b k (lw_db w)))"
    and "e \<in> set (period_rows b k (lw_db w)) \<Longrightarrow> entry_row_ok b e"
proof -
  let ?rows = "period_rows b k (lw_db w)"
  have ok: "boards_ok (lw_db w)" "entries_ok (lw_db w)" using assms(1) by (simp_all add: lb_ok_def)
  show "directed b" using ok(1) assms(2) by (auto simp: boards_ok_def board_columns_ok_def directed_def)
  have "distinct (map entry_key ?rows)" using ok(2) by (simp add: entries_ok_def period_rows_def distinct_map_filter)
  moreover have "inj_on ent_SubjectID (set ?rows)" if "inj_on entry_key (set ?rows)"
    using that by (auto simp: inj_on_def period_rows_def in_period_def entry_key_def)
  ultimately show "distinct (map ent_SubjectID ?rows)" by (simp add: distinct_map)
  assume e: "e \<in> set ?rows"
  then obtain b' where b': "b' \<in> set (lt_boards (lw_db w))" "entry_of b' e"
    using ok(2) unfolding entries_ok_def period_rows_def by fastforce
  then have "board_key b' = board_key b"
    using e by (simp add: entry_of_def board_key_def period_rows_def in_period_def)
  then have "b' = b" by (rule board_unique [OF ok(1) b'(1) assms(2)])
  with b'(2) show "entry_row_ok b e" by (simp add: entry_of_def)
qed

lemma lb_read_Inr: "lb_read n f w = (Inr a, v) \<Longrightarrow> a = f (lw_db w)"
  by (auto simp: lb_read_def lb_op_def Let_def split: if_splits)

text \<open>
  C9. In every state the system reaches, the rank and the position that the counts of a single
  entry give (\<^verbatim>\<open>Stats\<close>, one pass of filtered counts) are those the window functions of the list
  give the same row (\<^verbatim>\<open>ListTop\<close>), on whatever page it stands, and the total is the number of
  rows of the period.
\<close>

theorem positions_agree:
  assumes "lb_reaches n w" and "b \<in> set (lt_boards (lw_db w))"
    and "list_top n b k limit offset w = (Inr page, v)" and "t \<in> set page"
    and "stats n b k (Some (te_Entry t)) w = (Inr st, v')"
  shows "es_Rank st = te_Rank t \<and> es_Position st = te_Position t \<and>
    es_Total st = int (length (period_rows b k (lw_db w)))"
proof -
  let ?rows = "period_rows b k (lw_db w)"
  note ok = period_rows_ok [OF reached_lb_ok [OF assms(1)] assms(2)]
  have "page = take limit (drop offset (ranked b ?rows))"
    using lb_read_Inr [OF assms(3) [unfolded list_top_def]] by (simp add: period_rows_def)
  then have t: "t \<in> set (ranked b ?rows)" using assms(4) by (meson in_set_dropD in_set_takeD)
  have "st = entry_stats_of b (te_Entry t) ?rows"
    using lb_read_Inr [OF assms(5) [unfolded stats_def]] by (simp add: period_rows_def Let_def)
  with stats_of_ranked [OF ok(1,2) ok(3) t] show ?thesis by (simp add: entry_stats_of_def Let_def)
qed

lemma demo_reads:
  "\<exists>st v. stats demo_lb b k e w = (Inr st, v)"
  "\<exists>ws v. list_reward_winners demo_lb b k rule limit w = (Inr ws, v)"
  by (simp_all add: stats_def list_reward_winners_def lb_read_def lb_op_def demo_lb_def Let_def)

theorem positions_agree_witness:
  "\<exists>(t :: top_entry) st v. ent_SubjectID (te_Entry t) = ''bob'' \<and>
     stats demo_lb demo_row ''20231114'' (Some (te_Entry t)) demo_played = (Inr st, v) \<and>
     es_Rank st = 1 \<and> es_Position st = 1 \<and> es_Total st = 2"
proof -
  have "case fst (list_top demo_lb demo_row ''20231114'' 10 0 demo_played) of Inl _ \<Rightarrow> False
      | Inr page \<Rightarrow> (case page of [] \<Rightarrow> False | t # _ \<Rightarrow>
          te_Position t = 1 \<and> te_Rank t = 1 \<and> ent_SubjectID (te_Entry t) = ''bob'')" by code_simp
  then obtain t rest v where page: "list_top demo_lb demo_row ''20231114'' 10 0 demo_played = (Inr (t # rest), v)"
    and t: "te_Position t = 1" "te_Rank t = 1" "ent_SubjectID (te_Entry t) = ''bob''"
    by (cases "list_top demo_lb demo_row ''20231114'' 10 0 demo_played") (auto split: sum.splits list.splits)
  obtain st v' where st: "stats demo_lb demo_row ''20231114'' (Some (te_Entry t)) demo_played = (Inr st, v')"
    using demo_reads(1) by blast
  have "length (period_rows demo_row ''20231114'' (lw_db demo_played)) = 2" by code_simp
  moreover have "es_Rank st = te_Rank t \<and> es_Position st = te_Position t \<and>
      es_Total st = int (length (period_rows demo_row ''20231114'' (lw_db demo_played)))"
    by (rule positions_agree [OF demo_played_reached demo_row_stored page _ st]) simp
  ultimately have "es_Rank st = 1 \<and> es_Position st = 1 \<and> es_Total st = 2" using t by simp
  with t st show ?thesis by blast
qed

section \<open>Who is rewarded\<close>

text \<open>The place of a row, counted from the rows of the period, and what a rule asks of it.\<close>

definition place :: "board \<Rightarrow> lb_entry list \<Rightarrow> lb_entry \<Rightarrow> int" where
  "place b rows e = 1 + int (length (filter (\<lambda>r. if bd_TieBreak b \<in> {TieBreakEarliest, TieBreakLatest}
     then full_order b r < full_order b e else value_before (bd_Sort b) (ent_Value r) (ent_Value e)) rows))"

definition within :: "int option \<Rightarrow> int option \<Rightarrow> int \<Rightarrow> bool" where
  "within lo hi x \<longleftrightarrow> (lo = None \<or> the lo \<le> x) \<and> (hi = None \<or> x \<le> the hi)"

lemma ordinal_place:
  assumes "distinct (map ent_SubjectID rows)" and "t \<in> set (ranked b rows)"
  shows "ordinal b t = place b rows (te_Entry t)"
proof -
  let ?f = "full_order b" let ?s = "sort_key ?f rows"
  obtain i where i: "i < length rows" "te_Entry t = ?s ! i" "te_Position t = int i + 1"
    and rk: "te_Rank t = 1 + int (length (filter (\<lambda>r. value_before (bd_Sort b) (ent_Value r) (ent_Value (te_Entry t))) rows))"
    by (rule ranked_nth [OF assms(2)])
  have "length (filter (\<lambda>r. ?f r < ?f (?s ! i)) ?s) = i"
    using assms(1) i(1) by (intro count_less_strict sorted_keys_strict full_order_inj) (auto simp: distinct_map)
  with i rk show ?thesis by (auto simp: ordinal_def place_def)
qed

lemma rule_hits_place:
  assumes "distinct (map ent_SubjectID rows)" and "t \<in> set (ranked b rows)"
  shows "rule_hits b rule t \<longleftrightarrow> within (rr_RankMin rule) (rr_RankMax rule) (place b rows (te_Entry t)) \<and>
    within (rr_ValueMin rule) None (ent_Value (te_Entry t))"
  using ordinal_place [OF assms]
  by (auto simp: rule_hits_def within_def place_def split: option.split)

text \<open>
  C11. In every state the system reaches, a rule rewards each row of the period exactly once
  whose place lies in the range of ranks and whose value reaches the threshold, and no other
  row, as long as the period has no more than the hard limit of rows. The place counts the rows
  before it in the full order where ties are broken by time, and the rows of a better value
  otherwise, so that all who share the last rank are rewarded.
\<close>

theorem rule_rewards_its_places:
  assumes "lb_reaches n w" and "b \<in> set (lt_boards (lw_db w))"
    and "list_reward_winners n b k rule winner_limit w = (Inr ws, v)"
    and "rows = period_rows b k (lw_db w)" and "int (length rows) \<le> winner_limit"
  shows "distinct ws \<and> set ws = {e \<in> set rows. within (rr_RankMin rule) (rr_RankMax rule) (place b rows e) \<and>
    within (rr_ValueMin rule) None (ent_Value e)}"
proof -
  have subjects: "distinct (map ent_SubjectID rows)"
    using period_rows_ok(2) [OF reached_lb_ok [OF assms(1)] assms(2)] assms(4) by simp
  let ?hits = "filter (rule_hits b rule) (ranked b rows)"
  let ?order = "\<lambda>t. (te_Rank t, te_Position t)"
  have entries: "map te_Entry (ranked b rows) = sort_key (full_order b) rows" by (rule ranked_rows)
  have d: "distinct (map te_Entry (ranked b rows))"
    unfolding entries using subjects by (simp add: distinct_map)
  have "length (ranked b rows) = length rows" using arg_cong [OF entries, of length] by simp
  then have "length ?hits \<le> nat winner_limit"
    using assms(5) length_filter_le [of "rule_hits b rule" "ranked b rows"] by linarith
  then have "ws = map te_Entry (sort_key ?order ?hits)"
    using lb_read_Inr [OF assms(3) [unfolded list_reward_winners_def]]
    by (simp add: Let_def period_rows_def assms(4) winner_limit_def)
  moreover have "distinct (map te_Entry (sort_key ?order ?hits))"
    using d by (auto simp: distinct_map inj_on_def)
  moreover have "te_Entry ` set (ranked b rows) = set rows" using arg_cong [OF entries, of set] by simp
  then have "te_Entry ` set ?hits = {e \<in> set rows. within (rr_RankMin rule) (rr_RankMax rule) (place b rows e) \<and>
    within (rr_ValueMin rule) None (ent_Value e)}"
    using rule_hits_place [OF subjects, of _ b rule] by (force simp: image_iff)
  ultimately show ?thesis by simp
qed
theorem rule_rewards_its_places_witness:
  "\<exists>ws v. list_reward_winners demo_lb demo_row ''20231114'' demo_rule winner_limit demo_played = (Inr ws, v) \<and>
     distinct ws \<and> set ws = {e \<in> set (period_rows demo_row ''20231114'' (lw_db demo_played)).
       place demo_row (period_rows demo_row ''20231114'' (lw_db demo_played)) e \<le> 1} \<and>
     map ent_SubjectID ws = [''bob'']"
proof -
  obtain ws v where ws: "list_reward_winners demo_lb demo_row ''20231114'' demo_rule winner_limit demo_played = (Inr ws, v)"
    using demo_reads(2) by blast
  have few: "int (length (period_rows demo_row ''20231114'' (lw_db demo_played))) \<le> winner_limit" by code_simp
  have "case fst (list_reward_winners demo_lb demo_row ''20231114'' demo_rule winner_limit demo_played) of Inl _ \<Rightarrow> False
      | Inr ws \<Rightarrow> map ent_SubjectID ws = [''bob'']" by code_simp
  with rule_rewards_its_places [OF demo_played_reached demo_row_stored ws refl few] ws show ?thesis
    by (simp add: within_def demo_rule_def)
qed

section \<open>Settlements\<close>

text \<open>
  C30. In every state the system reaches, a period of a board is settled at most once, each rule
  of a settlement rewards a subject at most once, the key of a reward names board, period, rule
  and subject, and for every reward recorded as granted the asset ledger of the project has a row
  under its key, as the asset system trims it. What that row holds is not part of it.
\<close>

theorem granted_rewards_are_booked:
  assumes "lb_reaches n w"
  shows "distinct (map settlement_key (lt_settlements (lw_db w))) \<and>
    distinct (map grant_row_key (lt_grants (lw_db w))) \<and>
    (\<forall>g \<in> set (lt_grants (lw_db w)). \<exists>s \<in> set (lt_settlements (lw_db w)).
      settlement_id s = (sg_ProjectID g, sg_SettlementID g) \<and>
      sg_IdempotencyKey g = settle_key (st_BoardID s) (st_PeriodKey s) (sg_RuleIndex g) (sg_SubjectID g) \<and>
      (sg_Status g = RewardGranted \<longrightarrow> (\<exists>r \<in> set (t_ledger (w_db (lw_assets w))).
        ledger_key r = (sg_ProjectID g, trim_space (sg_IdempotencyKey g)))))"
proof -
  have ok: "settlements_ok (lw_db w)" "grants_ok w" using reached_lb_ok [OF assms] by (simp_all add: lb_ok_def)
  have "\<exists>s \<in> set (lt_settlements (lw_db w)). settlement_id s = (sg_ProjectID g, sg_SettlementID g) \<and>
      sg_IdempotencyKey g = settle_key (st_BoardID s) (st_PeriodKey s) (sg_RuleIndex g) (sg_SubjectID g) \<and>
      (sg_Status g = RewardGranted \<longrightarrow> (\<exists>r \<in> set (t_ledger (w_db (lw_assets w))).
        ledger_key r = (sg_ProjectID g, trim_space (sg_IdempotencyKey g))))"
    if "planned w g" for g
  proof -
    from that obtain s where "s \<in> set (lt_settlements (lw_db w))" "settlement_id s = (sg_ProjectID g, sg_SettlementID g)"
        "sg_IdempotencyKey g = settle_key (st_BoardID s) (st_PeriodKey s) (sg_RuleIndex g) (sg_SubjectID g)"
      by (auto simp: planned_def grant_of_def settled_ids_def settlement_id_def)
    moreover have "sg_Status g = RewardGranted \<longrightarrow> (\<exists>r \<in> set (t_ledger (w_db (lw_assets w))).
        ledger_key r = (sg_ProjectID g, trim_space (sg_IdempotencyKey g)))"
      using that by (auto simp: planned_def booked_def ledger_keys_def)
    ultimately show ?thesis by blast
  qed
  then show ?thesis using ok by (simp add: settlements_ok_def grants_ok_def list_all_iff)
qed

theorem granted_rewards_are_booked_witness:
  "\<exists>r \<in> set (t_ledger (w_db (lw_assets demo_settled))).
     ledger_key r = (''p1'', trim_space ''lbsettle:score:20231114:0:bob'')"
proof -
  have "case lt_grants (lw_db demo_settled) of [] \<Rightarrow> False | g # _ \<Rightarrow> sg_Status g = RewardGranted \<and>
      sg_ProjectID g = ''p1'' \<and> sg_IdempotencyKey g = ''lbsettle:score:20231114:0:bob''" by code_simp
  then obtain g where "g \<in> set (lt_grants (lw_db demo_settled))" "sg_Status g = RewardGranted"
      "sg_ProjectID g = ''p1''" "sg_IdempotencyKey g = ''lbsettle:score:20231114:0:bob''"
    by (cases "lt_grants (lw_db demo_settled)") auto
  with granted_rewards_are_booked [OF demo_settled_reached] show ?thesis by metis
qed

section \<open>Two ways to lose rewards\<close>

lemma filter_none: "(\<And>x. x \<in> set xs \<Longrightarrow> \<not> P x) \<Longrightarrow> filter P xs = []"
  by (simp add: filter_empty_conv)

text \<open>
  C32. A board that rewards its periods and retains one or two of them: after the scan that prunes
  has run for it, the settlement scan finds nothing to settle and pays nobody, whatever was
  unsettled. What \<^verbatim>\<open>RetentionCutoffKey\<close> lets go is, for two periods retained, exactly what lies
  below the bound of \<^verbatim>\<open>ListSettlablePeriods\<close>, and for one period even the period that can still be
  submitted to; nothing couples the two scans, nor the retention to the rewards.
\<close>

theorem pruning_takes_unsettled_periods:
  assumes "kind = bd_PeriodKind b" and "z = location (le_zones n) b" and "i = period_at kind z now"
    and "divided kind" and "bd_RetentionPeriods b \<in> {1, 2}"
    and "reading_exists z (wall z now)" and "reading_exists z (wall z now - days_back kind 1 * day_ns)"
    and "year_4 (index_year kind i)" and "year_4 (index_year kind (i - 1))"
    and "\<not> le_fails n (lw_ops w)"
    and "prune_boards n now [b] c w = (r, w')" and "settle_boards n now [b] acc w' = (r', w'')"
  shows "r' = Inr acc \<and> lw_assets w'' = lw_assets w \<and>
    lt_settlements (lw_db w'') = lt_settlements (lw_db w) \<and> lt_grants (lw_db w'') = lt_grants (lw_db w)"
proof -
  let ?p = "bd_ProjectID b" let ?b = "bd_ID b"
  let ?previous = "previous_period_key kind z now"
  have kind: "kind \<noteq> PeriodNone" using assms(4) by (auto simp: divided_def)
  have previous: "?previous = index_key kind (i - 1)"
    using period_keys_now(2) [of b z "le_zones n" now] assms by simp
  have "period_key_minus kind z now (bd_RetentionPeriods b - 1) = index_key kind (i - (bd_RetentionPeriods b - 1))"
    using period_key_minus_index [OF assms(4), of "bd_RetentionPeriods b - 1" z now] assms(3,5-9)
    by (auto simp: days_back_def split: period_kind.splits)
  then obtain cutoff where cutoff: "retention_cutoff_key (le_zones n) b now = Some cutoff"
    and late: "?previous \<le> cutoff"
    using assms(1,2,5) kind previous index_key_less [OF assms(4), of "i - 1" i] assms(8,9)
    by (auto simp: retention_cutoff_key_def)
  let ?old = "\<lambda>e. ent_ProjectID e = ?p \<and> ent_BoardID e = ?b \<and> ent_PeriodKey e < cutoff"
  have w': "lw_db w' = (lw_db w)\<lparr>lt_entries := filter (\<lambda>e. \<not> ?old e) (lt_entries (lw_db w))\<rparr>" "lw_assets w' = lw_assets w"
    using assms(10,11) cutoff
    by (auto simp: tx_bind_def attempt_def prune_older_than_def lb_write_def lb_op_def Let_def tx_ret_def)
  have none: "filter (settlable (lw_db w') ?p ?b ?previous) (lt_entries (lw_db w')) = []"
    using late by (intro filter_none) (auto simp: settlable_def w')
  obtain s v where s: "list_settlable_periods n ?p ?b ?previous settle_scan_limit w' = (s, v)" by fastforce
  then have v: "lw_db v = lw_db w'" "lw_assets v = lw_assets w'" "s = Inr [] \<or> (\<exists>err. s = Inl err)"
    using none by (auto simp: list_settlable_periods_def lb_read_def lb_op_def Let_def split: if_splits)
  have "settle_boards n now [b] acc w' = (Inr acc, if bd_Rewards b = [] then w' else v)"
    using s v(3) kind assms(1,2) by (auto simp: tx_bind_def attempt_def tx_ret_def Let_def)
  with assms(12) v(1,2) w' show ?thesis by auto
qed

text \<open>The scans of the 16th for the board, the one that prunes first.\<close>

definition demo_scan_time :: gtime where
  "demo_scan_time = (1700000007 + 172800) * sec"

theorem pruning_takes_unsettled_periods_witness:
  "\<exists>w' w''. prune_boards demo_lb demo_scan_time [demo_row] 0 demo_played = (Inr 1, w') \<and>
     settle_boards demo_lb demo_scan_time [demo_row] \<lparr>rs_Settled = 0, rs_Failed = 0, rs_Backlog = 0\<rparr> w' =
       (Inr \<lparr>rs_Settled = 0, rs_Failed = 0, rs_Backlog = 0\<rparr>, w'') \<and>
     lt_grants (lw_db w'') = [] \<and> length (lt_grants (lw_db demo_settled)) = 1"
proof -
  let ?acc = "\<lparr>rs_Settled = 0, rs_Failed = 0, rs_Backlog = 0\<rparr>"
  have row: "bd_PeriodKind demo_row = PeriodDaily" "bd_RetentionPeriods demo_row = 2" "bd_PeriodTZ demo_row = ''''" by code_simp+
  let ?i = "period_at PeriodDaily utc_zone demo_scan_time"
  have years: "year_4 (index_year PeriodDaily ?i)" "year_4 (index_year PeriodDaily (?i - 1))" by code_simp+
  have pruned: "fst (prune_boards demo_lb demo_scan_time [demo_row] 0 demo_played) = Inr 1" by code_simp
  have grants: "lt_grants (lw_db demo_played) = []" "length (lt_grants (lw_db demo_settled)) = 1" by code_simp+
  obtain w' where w': "prune_boards demo_lb demo_scan_time [demo_row] 0 demo_played = (Inr 1, w')"
    using pruned by (metis prod.collapse)
  obtain r w'' where w'': "settle_boards demo_lb demo_scan_time [demo_row] ?acc w' = (r, w'')" by fastforce
  have "r = Inr ?acc \<and> lt_grants (lw_db w'') = lt_grants (lw_db demo_played)"
    using pruning_takes_unsettled_periods [of PeriodDaily demo_row utc_zone demo_lb ?i demo_scan_time demo_played 0 "Inr 1" w' ?acc r w'']
      row years w' w'' by (simp add: divided_def location_utc demo_lb_def)
  with w' w'' grants show ?thesis by auto
qed

text \<open>
  C33. A settlement that failed before its grants were saved has no grants. Running it again, the
  remedy the code names for such a period, pays nobody if nothing fails, marks the period settled
  with no grants, and in the tables it leaves the period is not one the scan takes up: grants are
  planned only when a period is first claimed, and the claim stays.
\<close>

theorem rerun_of_unplanned_pays_nobody:
  assumes "le_fails n = (\<lambda>_. False)" and "p \<noteq> ''''"
    and "find (\<lambda>b. board_key b = (p, i)) (lt_boards (lw_db w)) = Some b"
    and "settlement_of (lw_db w) p i k = Some s" and "st_Status s \<noteq> SettlementVoided"
    and "grants_of (lw_db w) p (st_ID s) = []"
  shows "\<exists>w'. rerun_settlement n (Some \<lparr>lp_ProjectID = p, lp_UserID = u\<rparr>) i k w = (Inr (), w') \<and>
    lw_assets w' = lw_assets w \<and> lt_grants (lw_db w') = lt_grants (lw_db w) \<and>
    (\<exists>s'. settlement_of (lw_db w') p i k = Some s' \<and> st_Status s' = SettlementSettled \<and> st_GrantCount s' = 0) \<and>
    (\<forall>e previous. ent_PeriodKey e = k \<longrightarrow> \<not> settlable (lw_db w') p i previous e)"
proof -
  let ?id = "\<lambda>s'. st_ProjectID s' = p \<and> st_ID s' = st_ID s"
  let ?upd = "\<lambda>f. map (\<lambda>s'. if ?id s' then f s' else s')"
  have s: "s \<in> set (lt_settlements (lw_db w))" "st_ProjectID s = p" "st_BoardID s = i" "st_PeriodKey s = k"
    using find_SomeD [OF assms(4) [unfolded settlement_of_def]] by simp_all
  let ?t = "le_clock n (lw_ticks w)"
  obtain r w' where run: "rerun_settlement n (Some \<lparr>lp_ProjectID = p, lp_UserID = u\<rparr>) i k w = (r, w')" by fastforce
  have w': "r = Inr () \<and> lw_assets w' = lw_assets w \<and> lw_db w' = (lw_db w)\<lparr>lt_settlements :=
      ?upd (\<lambda>s'. s'\<lparr>st_Status := SettlementSettled, st_SettledAt := Some ?t, st_GrantCount := 0\<rparr>)
        (?upd (\<lambda>s'. s'\<lparr>st_Status := SettlementSettling\<rparr>) (lt_settlements (lw_db w)))\<rparr>"
    using assms run
    by (auto simp: rerun_settlement_def lb_project_scope_def load_board_def board_get_def settlement_get_def
        list_grants_def settlement_reset_def settlement_complete_def update_status_def lb_read_def lb_write_def lb_op_def
        Let_def tx_bind_def tx_lift_def lb_mapped_def tx_ret_def lb_now_def granted_count_def i32_def grants_of_def)
  let ?f = "\<lambda>s'. if ?id s' then s'\<lparr>st_Status := SettlementSettled, st_SettledAt := Some ?t, st_GrantCount := 0\<rparr> else s'"
  have "lt_settlements (lw_db w') = map ?f (lt_settlements (lw_db w))" by (simp add: w' comp_def cong: if_cong)
  moreover have "settlement_key (?f x) = settlement_key x" for x by (simp add: settlement_key_def)
  ultimately have "settlement_of (lw_db w') p i k = Some (?f s)"
    using assms(4) find_map_keyed [of settlement_key ?f "(p, i, k)" "lt_settlements (lw_db w)"]
    by (simp add: settlement_of_def settlement_key_def)
  moreover have "\<not> settlable (lw_db w') p i previous e" if "ent_PeriodKey e = k" for e previous
    using that find_SomeD [OF calculation [unfolded settlement_of_def]] by (auto simp: settlable_def list_ex_iff)
  ultimately show ?thesis using run w' s(2) by auto
qed

text \<open>The settlement of the 14th, its step that looks for the winners failing.\<close>

definition demo_unplanned :: lb_world where
  "demo_unplanned = exec_lb (demo_lb\<lparr>le_fails := (\<lambda>k. k = 24)\<rparr>) (SettleDue [(''p1'', True)]) demo_played"

theorem rerun_of_unplanned_pays_nobody_witness:
  "\<exists>w'. rerun_settlement demo_lb demo_player ''score'' ''20231114'' demo_unplanned = (Inr (), w') \<and>
     lw_assets w' = lw_assets demo_unplanned \<and>
     (\<exists>s. settlement_of (lw_db demo_unplanned) ''p1'' ''score'' ''20231114'' = Some s \<and> st_Status s = SettlementError) \<and>
     (\<exists>s'. settlement_of (lw_db w') ''p1'' ''score'' ''20231114'' = Some s' \<and> st_Status s' = SettlementSettled)"
proof -
  have "case settlement_of (lw_db demo_unplanned) ''p1'' ''score'' ''20231114'' of None \<Rightarrow> False
      | Some s \<Rightarrow> st_Status s = SettlementError \<and> grants_of (lw_db demo_unplanned) ''p1'' (st_ID s) = []" by code_simp
  then obtain s where s: "settlement_of (lw_db demo_unplanned) ''p1'' ''score'' ''20231114'' = Some s"
      "st_Status s = SettlementError" "grants_of (lw_db demo_unplanned) ''p1'' (st_ID s) = []"
    by (auto split: option.splits)
  have "find (\<lambda>b. board_key b = (''p1'', ''score'')) (lt_boards (lw_db demo_unplanned)) \<noteq> None" by code_simp
  then obtain b where b: "find (\<lambda>b. board_key b = (''p1'', ''score'')) (lt_boards (lw_db demo_unplanned)) = Some b" by auto
  have "le_fails demo_lb = (\<lambda>_. False)" by (simp add: demo_lb_def)
  from rerun_of_unplanned_pays_nobody [OF this _ b s(1) _ s(3)] s show ?thesis
    unfolding demo_player_def by fastforce
qed

end
