(* ===== verification/Spec2Isabelle.thy ===== *)
theory Spec2Isabelle
  imports Asset_Properties Cron_Properties Webhook_Properties Delivery_Properties Payment_Properties Leaderboard_Properties
begin

text \<open>
  A verification development for torchwood, a backend service written in Go. It models the
  parts in which the program's own logic lies and proves what makes them correct. Paths are
  those of the repository; \<^verbatim>\<open>bunrepo\<close> stands for \<^verbatim>\<open>internal/infra/bun/bunrepo\<close>.

  \<^bold>\<open>The program.\<close> A server answers calls of applications and their users, workers run scans on
  a ticker, and both share one PostgreSQL database with a schema for every project. The parts
  modelled here are: the \<^emph>\<open>asset system\<close>, a ledger of what users hold; \<^emph>\<open>payments\<close>, the orders
  that are settled by callbacks of payment channels and then fulfilled by the asset system;
  \<^emph>\<open>subscriptions\<close>, which bill plans by orders or by assets and grant benefits; \<^emph>\<open>function
  triggers\<close>, which fire on a cron expression or on events; \<^emph>\<open>webhooks\<close>, which carry events
  from the outbox to endpoints, with retries; and \<^emph>\<open>leaderboards\<close>, which rank submitted scores by
  period and reward the winners of a period once it is over. The workers' scans over all projects share a
  rotating cursor.

  \<^bold>\<open>How they interact.\<close> A paid callback runs in one transaction through
  \<^verbatim>\<open>Payments.applyPaid\<close>, the composite fulfiller of the subscriptions, and the grant of the
  asset system; subscriptions call the asset system inside their transactions and place orders in
  transactions of their own; the settlement of a leaderboard grants its rewards one by one, each in
  a transaction of the asset system. Events of any part go to an outbox; a consumer matches them against
  a snapshot of the webhooks and inserts deliveries, which another worker claims and attempts.

  \<^bold>\<open>Theories.\<close>

  \<^descr> \<open>Prelude\<close>, \<open>Tx_Monad\<close>, \<open>Go_Time\<close>: the integers and byte strings of Go with the functions of
  \<^verbatim>\<open>strings\<close> and \<^verbatim>\<open>strconv\<close> in use; steps of a transaction as functions from a state to an error or
  a value with the new state; the package \<^verbatim>\<open>time\<close>. They hold the collections \<open>go_simps\<close> and
  \<open>tx_simps\<close>.

  \<^descr> \<open>Asset_Types\<close>, \<open>Asset_Store\<close>, \<open>Asset_Service\<close>: \<^verbatim>\<open>internal/domain/assets\<close> and
  \<^verbatim>\<open>bunrepo/assets_repo.go\<close>. One datatype or record per type, one definition per statement with
  the constraints of the tables, and the verbs Grant, Consume, Transfer, Mutate, Expire with the
  scan for expired holdings. \<open>Asset_Ledger\<close> is their abstract specification, a book of double
  entries with steps \<open>post\<close>; \<open>Asset_Verbs\<close> proves that every verb is a sequence of such steps.
  \<open>Asset_Reconcile\<close> models \<^verbatim>\<open>internal/app/assets/reconcile.go\<close>. \<open>Asset_Properties\<close> holds C1
  to C5, C7 and C8; \<open>Asset_Growth\<close> proves that no verb ever removes a ledger row.

  \<^descr> \<open>Cron\<close>, \<open>Cron_Triggers\<close>: \<^verbatim>\<open>internal/domain/functions/cronexpr.go\<close> and \<^verbatim>\<open>triggers.go\<close>, and the
  claim of due runs in \<^verbatim>\<open>bunrepo/function_trigger_repo.go\<close> with the undo of a claim in
  \<^verbatim>\<open>internal/app/functions/triggers.go\<close>. \<open>Cron_Properties\<close> holds C12 to C18.

  \<^descr> \<open>Event_Match\<close>, \<open>Webhooks\<close>, \<open>Webhook_Deliveries\<close>, \<open>Webhook_Events\<close>: the catalog of events and
  the patterns (\<^verbatim>\<open>internal/domain/events\<close>, \<^verbatim>\<open>internal/domain/functions/eventmatch.go\<close>); webhooks
  (\<^verbatim>\<open>internal/domain/webhooks\<close>, \<^verbatim>\<open>internal/app/webhooks/service.go\<close>); deliveries with their claim and
  retries (\<^verbatim>\<open>internal/app/webhooks/deliveries.go\<close>); the consumer of events
  (\<^verbatim>\<open>worker/webhook_events.go\<close>). \<open>Project_Rotation\<close> and \<open>Worker_Scans\<close>: the cursor of
  \<^verbatim>\<open>internal/app/shared/rotation.go\<close> and the scans that use it. \<open>Webhook_Properties\<close> and
  \<open>Delivery_Properties\<close> hold C20 to C29, C31, C34 and C35.

  \<^descr> \<open>Json_Text\<close>, \<open>Payment_Orders\<close>, \<open>Payments\<close>: the scanner of \<^verbatim>\<open>encoding/json\<close>;
  \<^verbatim>\<open>internal/domain/payments\<close> with \<^verbatim>\<open>bunrepo/payments_repo.go\<close> and \<^verbatim>\<open>provider_index_repo.go\<close>;
  \<^verbatim>\<open>internal/app/payments\<close>. \<open>Payment_Lifecycle\<close> states the abstract life cycle of an order
  (\<open>order_step\<close>, over the phases of an order and terms that never change) and proves that every
  operation keeps to it; \<open>Payment_Books\<close> lifts that to the calls of the service.

  \<^descr> \<open>Subscriptions\<close>, \<open>Subscription_Service\<close>: \<^verbatim>\<open>internal/domain/subscriptions\<close> with
  \<^verbatim>\<open>bunrepo/subscriptions_repo.go\<close>, \<^verbatim>\<open>internal/app/subscriptions\<close> and
  \<^verbatim>\<open>internal/app/assets/fulfiller.go\<close>. \<open>Payment_Composition\<close> puts payments on the asset system;
  \<open>Payment_System\<close> adds the subscriptions, with every public call and scan as a step
  (\<open>system_reaches\<close>); \<open>Payment_Settlement\<close> follows one payment step by step.
  \<open>Payment_Properties\<close> holds C10 and C36 to C40.

  \<^descr> \<open>Leaderboards\<close>, \<open>Leaderboard_Store\<close>, \<open>Leaderboard_Service\<close>: \<^verbatim>\<open>internal/domain/leaderboards\<close>;
  \<^verbatim>\<open>bunrepo/leaderboards_repo.go\<close> and \<^verbatim>\<open>leaderboards_settlements_repo.go\<close>;
  \<^verbatim>\<open>internal/app/leaderboards\<close>. \<open>Leaderboard_Periods\<close> numbers the days, weeks and months and proves
  that the keys of periods sort like their numbers; \<open>Leaderboard_Ranking\<close> relates the counts, the
  window functions and the order of a board; \<open>Leaderboard_System\<close> has every call and scan as a step
  (\<open>lb_reaches\<close>, in which the asset system may do anything that keeps its ledger rows) with the
  invariant of the tables. \<open>Leaderboard_Properties\<close> holds C6, C9, C11, C19, C30, C32 and C33.
\<close>

text \<open>
  \<^bold>\<open>Interfaces.\<close> Four contracts are locales, each interpreted on the definitions that provide it:
  \<open>asset_repo\<close> (what the verbs need of the repositories; \<open>repo\<close> in \<open>Asset_Ledger\<close>), \<open>schedule\<close>
  (a search for the least match; \<open>cron\<close> in \<open>Cron\<close>), \<open>event_index\<close> (a lookup agrees with matching
  every row; \<open>trig\<close> in \<open>Event_Match\<close> and \<open>wh\<close> in \<open>Webhooks\<close>, the two indexes of the code), and
  \<open>order_fulfilment\<close> (what payments need of whoever fulfils orders and mirrors hosted
  subscriptions; \<open>order_books\<close> in \<open>Payment_Composition\<close>).

  \<^bold>\<open>What is shown.\<close>

  \<^item> Assets: after any sequence of commands that never meet a ledger row under one of their
  derived keys the ledger accounts for every holding; each verb does exactly what it says; a
  repeated key changes nothing; reconciliation finds drift exactly where there is some.

  \<^item> Cron: \<^verbatim>\<open>Next\<close> is the least match within its horizon and never reads out of range; parsed
  fields denote what the text says; a run is claimed once under any interleaving of claims
  and undos, as long as neither it nor an earlier run is given back.

  \<^item> Webhooks: both indexes agree with the reference; keys rotate without a gap; deliveries
  stay within their bounds and no attempt of a delivery is given out twice under any interleaving,
  as long as it is not redelivered by hand; every webhook an event is for gets its delivery if
  nothing fails; every project gets its turn among the scans, and how a shared cursor breaks that.

  \<^item> Payments and subscriptions: under any sequence of calls and scans every order follows its
  life cycle, is settled exactly if it has a fulfilment that is done, and stays well typed; a
  paid top-up credits exactly its amount. Also two defects: a subscription's second order can never be
  settled, and a callback whose raw body is no JSON is always refused.

  \<^item> Leaderboards: which periods take submissions and which are settled; a submission changes
  one row, as the policy says; the counts of a single entry agree with the window functions of
  the list; a rule rewards exactly its places; a period is settled once and what is marked granted
  has its row in the asset ledger. Also two defects: pruning before settling, and a rerun of a
  settlement that was never planned, reward nobody.

  \<^bold>\<open>Conventions.\<close> An \<^verbatim>\<open>int64\<close> is an \<open>int\<close>, with \<open>i64\<close> at each operation that can wrap; a time is its
  nanoseconds since 1970, stored rows cut to microseconds where the code depends on it. Strings
  are lists of bytes. A table is the list of its rows, for all projects, with the keys of a
  schema holding per project. Whether the n-th operation of the database fails is a parameter
  of each environment (\<open>env_fails\<close>, \<open>pe_fails\<close>, \<open>sn_fails\<close>, \<open>ce_db_fails\<close>, \<open>le_fails\<close>), as are the clock and the identifiers drawn; a failed transaction puts the tables back.
  Errors are values, by their kind without their text. The transactions of one call run one
  after the other; where the code allows workers to interleave (claims of cron runs and of
  deliveries) the unit is the single statement, and the theorems hold for any sequence of
  statements; taking a cron claim back, a read and a write in the code, is one step. Text compares
  by its bytes, as in the collation C. Row locks and the isolation of concurrent transactions are left to PostgreSQL.

  \<^bold>\<open>Bounds.\<close> Every definition is a total function. \<open>cron_search\<close> ends because each jump moves the
  candidate forward below its horizon; \<open>stepped\<close>, \<open>backfill_loop\<close> and \<open>months_back\<close> have
  their measures; the other loops run over lists or over the code's own limits (batches of 100 and
  500 rows, five attempts at a billing order, three at a submission, the budgets of the scans). No fuel is used.

  \<^bold>\<open>Parameters.\<close> Payment channels (\<open>pay_provider\<close>), the host of subscriptions (\<open>hosted_billing\<close>),
  Redis, the HTTP notifier, the database of time zones, SHA-256, AES-GCM, the random generator and the decoder of JSON into
  objects are parameters of the model; nothing is assumed of them except where a theorem says so.

  \<^bold>\<open>Not modelled.\<close> The paged lists, metrics and logs of the parts above; the dispatch of claimed
  runs to functions, and the creation of triggers and asset definitions; in the claim of due runs a
  failing SELECT and a configuration that is no JSON; the replay cache of submissions and the page
  tokens of leaderboards; the loops that only wait.
  Whole parts: generated code; the gRPC and HTTP faces and process start (glue over libraries);
  accounts, sign-in and authorization (tokens, bcrypt and Redis decide most of it); the channel
  adapters (HTTP calls and signatures of third parties); the document engine and the query language,
  whose meaning is that of SQL and of row level security; storage, analytics and usage
  billing, which are SQL, S3 and Redis commands; the run book and the console, which are
  clients of the server.
\<close>

end
